(* ===== verification/Rust_Prelude.thy ===== *)
theory Rust_Prelude
  imports Main "HOL-Library.Word"
begin

text \<open>
  Shared vocabulary of the development: the machine integers of the Rust sources, the
  integer methods the code calls (\<open>saturating_add\<close>, \<open>saturating_sub\<close>, \<open>saturating_mul\<close>,
  \<open>wrapping_sub(..) as i32\<close>, \<open>to_be_bytes\<close>, \<open>from_be_bytes\<close>), slices and
  \<open>copy_from_slice\<close>, and the generic lemmas the component theories use. Nothing here models a
  particular source file; it models the part of the language and of its core library that
  the sources rely on.

  Fixed-width integers are words: \<open>+\<close>, \<open>-\<close>, \<open>*\<close> wrap, as \<open>wrapping_add\<close> and friends do
  and as the plain operators do in the release profile. \<open>usize\<close> values that measure or index
  a buffer are \<open>nat\<close>; where the code subtracts two of them the model writes out what happens
  on underflow.
\<close>

unbundle bit_operations_syntax

type_synonym u8 = "8 word"
type_synonym u16 = "16 word"
type_synonym u32 = "32 word"
type_synonym u64 = "64 word"

named_theorems arith_defs \<open>definitions of the integer methods\<close>
named_theorems unat_rules \<open>how the integer methods read through unat\<close>

section \<open>Integer methods\<close>

definition saturating_add :: "'a::len word \<Rightarrow> 'a word \<Rightarrow> 'a word" where
  "saturating_add a b = (if a \<le> a + b then a + b else - 1)"

definition saturating_sub :: "'a::len word \<Rightarrow> 'a word \<Rightarrow> 'a word" where
  "saturating_sub a b = (if b \<le> a then a - b else 0)"

definition saturating_mul :: "'a::len word \<Rightarrow> 'a word \<Rightarrow> 'a word" where
  "saturating_mul a b = (if unat a * unat b < 2 ^ LENGTH('a) then a * b else - 1)"

definition abs_diff :: "'a::len word \<Rightarrow> 'a word \<Rightarrow> 'a word" where
  "abs_diff a b = (if a \<le> b then b - a else a - b)"

text \<open>\<open>usize\<close> subtraction on \<open>nat\<close>: it wraps modulo \<open>2 ^ 64\<close> when it underflows.\<close>

definition usize_sub :: "nat \<Rightarrow> nat \<Rightarrow> nat" where
  "usize_sub a b = (if b \<le> a then a - b else 2 ^ 64 - (b - a))"

text \<open>Shifts of a \<open>u32\<close> by a run-time amount: the processor takes the amount modulo 32 (a build
  with overflow checks panics instead).\<close>

definition u32_shl :: "u32 \<Rightarrow> u8 \<Rightarrow> u32" where
  "u32_shl x n = push_bit (unat n mod 32) x"

definition u32_shr :: "u32 \<Rightarrow> u8 \<Rightarrow> u32" where
  "u32_shr x n = drop_bit (unat n mod 32) x"

text \<open>\<open>(a.wrapping_sub(b) as i32)\<close>: the signed distance between two sequence numbers.\<close>

definition seq_diff :: "u32 \<Rightarrow> u32 \<Rightarrow> int" where
  "seq_diff a b = sint (a - b)"

declare saturating_add_def [arith_defs] saturating_sub_def [arith_defs]
  saturating_mul_def [arith_defs] abs_diff_def [arith_defs] usize_sub_def [arith_defs]
  seq_diff_def [arith_defs]

lemma unat_max_word: "unat (- 1 :: 'a::len word) = 2 ^ LENGTH('a) - 1"
  by (simp add: unsigned_minus_1_eq_mask mask_eq_exp_minus_1)

lemma word_add_wraps_iff: "(a :: 'a::len word) \<le> a + b \<longleftrightarrow> unat a + unat b < 2 ^ LENGTH('a)"
  by (rule no_olen_add_nat)

lemma unat_saturating_add [unat_rules]:
  "unat (saturating_add a b) = min (unat a + unat b) (2 ^ LENGTH('a) - 1)"
  for a b :: "'a::len word"
proof (cases "unat a + unat b < 2 ^ LENGTH('a)")
  case True
  then show ?thesis
    by (simp add: saturating_add_def word_add_wraps_iff unat_add_lem [THEN iffD1])
next
  case False
  then show ?thesis
    by (simp add: saturating_add_def word_add_wraps_iff unat_max_word min_absorb2)
qed

lemma unat_saturating_sub [unat_rules]: "unat (saturating_sub a b) = unat a - unat b"
  by (auto simp: saturating_sub_def unat_sub word_le_nat_alt)

lemma unat_saturating_mul [unat_rules]:
  "unat (saturating_mul a b) = min (unat a * unat b) (2 ^ LENGTH('a) - 1)"
  for a b :: "'a::len word"
proof (cases "unat a * unat b < 2 ^ LENGTH('a)")
  case True
  then show ?thesis by (simp add: saturating_mul_def unat_mult_lem [THEN iffD1])
next
  case False
  then show ?thesis by (simp add: saturating_mul_def unat_max_word min_absorb2)
qed

lemma unat_max_word_eq [unat_rules]: "unat (max a b) = max (unat a) (unat b)" for a b :: "'a::len word"
  by (simp add: max_def word_le_nat_alt)

lemma unat_min_word_eq [unat_rules]: "unat (min a b) = min (unat a) (unat b)" for a b :: "'a::len word"
  by (simp add: min_def word_le_nat_alt)

lemma saturating_add_ge: "a \<le> saturating_add a b" for a b :: "'a::len word"
  by (simp add: saturating_add_def)

lemma saturating_sub_le: "saturating_sub a b \<le> a" for a b :: "'a::len word"
  by (simp add: word_le_nat_alt unat_saturating_sub)

lemma unat_word_sub_le: "b \<le> a \<Longrightarrow> unat (a - b) = unat a - unat b" for a b :: "'a::len word"
  by (rule unat_sub)

section \<open>Sequence-number distance\<close>

lemma unat_less_uint: "unat w < 2 ^ k \<longleftrightarrow> uint w < 2 ^ k" for w :: "'a::len word"
  using of_nat_less_iff [of "unat w" "2 ^ k", where ?'a = int] by simp

lemma sint32_eq: "sint (x :: u32) = (if uint x < 2 ^ 31 then uint x else uint x - 2 ^ 32)"
proof (cases "uint x < 2 ^ 31")
  case True
  then have "signed_take_bit 31 (uint x) = uint x"
    by (intro signed_take_bit_int_eq_self order_trans [OF _ uint_ge_0]) simp_all
  with True show ?thesis by (simp add: sint_uint)
next
  case False
  have lt: "uint x < 2 ^ 32" using uint_lt2p [of x] by simp
  have "uint x div 2 ^ 31 = 1"
    using False lt by (simp add: int_div_pos_eq [of _ _ 1 "uint x - 2 ^ 31"])
  then have "bit (uint x) 31" by (simp add: bit_iff_odd)
  then have "signed_take_bit 31 (uint x) = take_bit 32 (uint x) - 2 ^ 32"
    by (simp add: signed_take_bit_eq_take_bit_minus)
  with False lt show ?thesis by (simp add: sint_uint take_bit_int_eq_self)
qed

lemma seq_diff_self [simp]: "seq_diff a a = 0"
  by (simp add: seq_diff_def)

lemma seq_diff_nonneg_iff: "0 \<le> seq_diff a b \<longleftrightarrow> unat (a - b) < 2 ^ 31"
  using uint_lt2p [of "a - b"] unfolding seq_diff_def sint32_eq unat_less_uint by simp

lemma seq_diff_neg_iff: "seq_diff a b < 0 \<longleftrightarrow> 2 ^ 31 \<le> unat (a - b)"
  using seq_diff_nonneg_iff [of a b] by linarith

lemma seq_diff_zero_iff [simp]: "seq_diff a b = 0 \<longleftrightarrow> a = b"
  by (metis seq_diff_def right_minus_eq signed_eq_0_iff)

lemma seq_diff_pos_iff: "0 < seq_diff a b \<longleftrightarrow> a \<noteq> b \<and> unat (a - b) < 2 ^ 31"
  using seq_diff_nonneg_iff [of a b] seq_diff_zero_iff [of a b] by linarith

lemma seq_diff_le_zero_iff: "seq_diff a b \<le> 0 \<longleftrightarrow> a = b \<or> 2 ^ 31 \<le> unat (a - b)"
  using seq_diff_pos_iff [of a b] by linarith

lemma seq_diff_eq_nat: "unat (a - b) < 2 ^ 31 \<Longrightarrow> seq_diff a b = int (unat (a - b))"
  unfolding seq_diff_def sint32_eq unat_less_uint by simp

lemma seq_diff_offsets:
  assumes "x < 2 ^ 31" "y < 2 ^ 31"
  shows "seq_diff (base + word_of_nat x) (base + word_of_nat y) = int x - int y"
proof -
  have d: "base + word_of_nat x - (base + word_of_nat y) = (word_of_int (int x - int y) :: u32)"
    by simp
  have "sint (word_of_int (int x - int y) :: u32) = signed_take_bit 31 (int x - int y)"
    using sint_sbintrunc' [where ?'a = 32, of "int x - int y"] by simp
  also have "\<dots> = int x - int y"
    using assms by (intro signed_take_bit_int_eq_self) auto
  finally show ?thesis by (simp add: seq_diff_def d)
qed

section \<open>Scanning for a set bit\<close>

text \<open>\<open>trailing_zeros\<close> is the index of the lowest set bit and \<open>BITS - 1 - leading_zeros\<close> that of the highest one; both scans
  give the width on a zero word.\<close>

definition trailing_zeros :: "'a::len word \<Rightarrow> nat" where
  "trailing_zeros w = (case find (bit w) [0..<LENGTH('a)] of Some i \<Rightarrow> i | None \<Rightarrow> LENGTH('a))"

definition leading_zeros :: "'a::len word \<Rightarrow> nat" where
  "leading_zeros w = (case find (bit w) (rev [0..<LENGTH('a)]) of Some i \<Rightarrow> LENGTH('a) - 1 - i | None \<Rightarrow> LENGTH('a))"

lemma word_bit_ex: "w \<noteq> 0 \<Longrightarrow> \<exists>n < LENGTH('a). bit w n" for w :: "'a::len word"
  by (metis bit_0_eq bit_eqI bit_imp_le_length bot_apply bot_bool_def)

lemma trailing_zeros_bit:
  fixes w :: "'a::len word"
  assumes "w \<noteq> 0"
  shows "trailing_zeros w < LENGTH('a) \<and> bit w (trailing_zeros w) \<and> (\<forall>i < trailing_zeros w. \<not> bit w i)"
proof -
  obtain i where i: "find (bit w) [0..<LENGTH('a)] = Some i"
    using word_bit_ex [OF assms] by (cases "find (bit w) [0..<LENGTH('a)]") (auto simp: find_None_iff)
  then have "i < LENGTH('a)" "bit w i" "\<forall>j < i. \<not> bit w j" by (auto simp: find_Some_iff)
  with i show ?thesis by (simp add: trailing_zeros_def)
qed

lemma leading_zeros_bit:
  fixes w :: "'a::len word"
  assumes "w \<noteq> 0"
  shows "leading_zeros w < LENGTH('a) \<and> bit w (LENGTH('a) - 1 - leading_zeros w) \<and>
    (\<forall>i. bit w i \<longrightarrow> i \<le> LENGTH('a) - 1 - leading_zeros w)"
proof -
  obtain i where i: "find (bit w) (rev [0..<LENGTH('a)]) = Some i"
    using word_bit_ex [OF assms] by (cases "find (bit w) (rev [0..<LENGTH('a)])") (auto simp: find_None_iff)
  then obtain k where k: "k < LENGTH('a)" "i = LENGTH('a) - Suc k" "bit w i" "\<forall>j < k. \<not> bit w (LENGTH('a) - Suc j)"
    by (auto simp: find_Some_iff rev_nth)
  have "n \<le> i" if "bit w n" for n
  proof (rule ccontr)
    assume "\<not> n \<le> i"
    with k(2) have "LENGTH('a) - Suc n < k" using bit_imp_le_length [OF that] by simp
    with k(4) have "\<not> bit w (LENGTH('a) - Suc (LENGTH('a) - Suc n))" by blast
    with that bit_imp_le_length [OF that] show False by simp
  qed
  with i k show ?thesis by (simp add: leading_zeros_def)
qed

lemma bit_flag [simp]: "bit (2 ^ i :: 'a::len word) j \<longleftrightarrow> i < LENGTH('a) \<and> j = i"
  by (auto simp: bit_exp_iff possible_bit_def)

section \<open>Big-endian bytes\<close>

definition u16_from_be :: "u8 \<Rightarrow> u8 \<Rightarrow> u16" where
  "u16_from_be hi lo = push_bit 8 (ucast hi) OR ucast lo"

definition u16_to_be :: "u16 \<Rightarrow> u8 list" where
  "u16_to_be w = [ucast (drop_bit 8 w), ucast w]"

definition u32_from_be :: "u8 \<Rightarrow> u8 \<Rightarrow> u8 \<Rightarrow> u8 \<Rightarrow> u32" where
  "u32_from_be a b c d =
     push_bit 24 (ucast a) OR push_bit 16 (ucast b) OR push_bit 8 (ucast c) OR ucast d"

definition u32_to_be :: "u32 \<Rightarrow> u8 list" where
  "u32_to_be w = [ucast (drop_bit 24 w), ucast (drop_bit 16 w), ucast (drop_bit 8 w), ucast w]"

lemma length_u16_to_be [simp]: "length (u16_to_be w) = 2"
  by (simp add: u16_to_be_def)

lemma length_u32_to_be [simp]: "length (u32_to_be w) = 4"
  by (simp add: u32_to_be_def)

lemma u16_be_roundtrip: "u16_from_be (ucast (drop_bit 8 w)) (ucast w) = w"
proof (rule bit_word_eqI)
  fix n assume "n < LENGTH(16)"
  then show "bit (u16_from_be (ucast (drop_bit 8 w)) (ucast w)) n = bit w n"
    unfolding u16_from_be_def
    by (cases "n < 8"; simp only: bit_or_iff bit_push_bit_iff bit_unsigned_iff bit_drop_bit_eq
          o_apply not_less) (auto simp: possible_bit_def)
qed

lemma u32_be_roundtrip:
  "u32_from_be (ucast (drop_bit 24 w)) (ucast (drop_bit 16 w)) (ucast (drop_bit 8 w)) (ucast w) = w"
proof (rule bit_word_eqI)
  fix n assume "n < LENGTH(32)"
  then show "bit (u32_from_be (ucast (drop_bit 24 w)) (ucast (drop_bit 16 w))
      (ucast (drop_bit 8 w)) (ucast w)) n = bit w n"
    unfolding u32_from_be_def
    by (cases "n < 8"; cases "n < 16"; cases "n < 24"; simp only: bit_or_iff bit_push_bit_iff
          bit_unsigned_iff bit_drop_bit_eq o_apply not_less) (auto simp: possible_bit_def)
qed

section \<open>Slices and copies\<close>

text \<open>\<open>&xs[a..b]\<close> for indices in range.\<close>

definition slice :: "'a list \<Rightarrow> nat \<Rightarrow> nat \<Rightarrow> 'a list" where
  "slice xs a b = take (b - a) (drop a xs)"

text \<open>\<open>buf[off..off + src.len()].copy_from_slice(src)\<close>, or \<open>ptr::copy_nonoverlapping\<close> into
  \<open>buf\<close> at \<open>off\<close>.\<close>

definition copy_into :: "'a list \<Rightarrow> nat \<Rightarrow> 'a list \<Rightarrow> 'a list" where
  "copy_into buf off src = take off buf @ src @ drop (off + length src) buf"

lemma length_copy_into [simp]:
  "off + length src \<le> length buf \<Longrightarrow> length (copy_into buf off src) = length buf"
  by (simp add: copy_into_def)

lemma copy_into_Nil [simp]: "copy_into buf off [] = buf"
  by (simp add: copy_into_def)

lemma nth_copy_into:
  assumes "off + length src \<le> length buf" "i < length buf"
  shows "copy_into buf off src ! i = (if off \<le> i \<and> i < off + length src then src ! (i - off) else buf ! i)"
  using assms by (auto simp: copy_into_def nth_append)

lemma length_slice [simp]: "b \<le> length xs \<Longrightarrow> length (slice xs a b) = b - a"
  by (simp add: slice_def)

lemma unat_of_nat_len: "n < 2 ^ LENGTH('a) \<Longrightarrow> unat (of_nat n :: 'a::len word) = n"
  by (simp add: unat_of_nat take_bit_nat_eq_self)

text \<open>Wrap-around written out on naturals, for 32-bit sequence numbers.\<close>

lemma u32_less: "unat (x :: u32) < 4294967296"
  using unsigned_less [of x, where ?'a = nat] by simp

lemma unat_add_wrap: "unat (a + b :: u32) = (if unat a + unat b < 4294967296 then unat a + unat b
    else unat a + unat b - 4294967296)"
proof -
  have "unat (a + b) = (unat a + unat b) mod 4294967296" by (simp add: unat_word_ariths(1))
  moreover have "(n :: nat) mod 4294967296 = n - 4294967296" if "\<not> n < 4294967296" "n < 8589934592" for n
    using that by (simp add: le_mod_geq not_less)
  ultimately show ?thesis using u32_less [of a] u32_less [of b] by auto
qed

lemma unat_sub_wrap: "unat (a - b :: u32) = (if unat b \<le> unat a then unat a - unat b
    else unat a + 4294967296 - unat b)"
proof -
  have "unat a = unat ((a - b) + b)" by simp
  then show ?thesis
    using unat_add_wrap [of "a - b" b] u32_less [of a] u32_less [of b] u32_less [of "a - b"]
    by (auto split: if_splits)
qed

lemma unat_ucast_u16_u32: "unat (ucast (w :: u16) :: u32) = unat w"
  using unsigned_less [of w, where ?'a = nat] by (simp add: unsigned_ucast_eq take_bit_nat_eq_self_iff)

end
