(* ===== verification/Tcp_Receive_Buffer.thy ===== *)
theory Tcp_Receive_Buffer
  imports Rust_Prelude
begin

text \<open>
  The TCP receive ring of \<^verbatim>\<open>kernel/src/driver/net/proto/tcp/receive_buffer.rs\<close>: the record is the
  struct, and every method of it is a definition. The abstraction \<open>rb_contents\<close> is the byte
  sequence the application can read, \<open>rb_ahead\<close> the bytes written past it (out of order).
  The lemmas show each method against that abstraction; the locale \<open>byte_queue\<close> states the
  contract of the contiguous path (\<open>write\<close> and \<open>read\<close>), is interpreted on the methods, and
  gives first-in-first-out delivery for every sequence of calls.
\<close>

record tcp_receive_buffer =
  rb_data :: "u8 list"
  rb_head :: nat
  rb_tail :: nat
  rb_size :: nat
  rb_occupied :: nat
  rb_capacity :: nat

section \<open>Methods\<close>

definition rb_new :: "nat \<Rightarrow> tcp_receive_buffer" where
  "rb_new capacity =
     \<lparr>rb_data = replicate capacity 0, rb_head = 0, rb_tail = 0, rb_size = 0,
      rb_occupied = 0, rb_capacity = capacity\<rparr>"

definition rb_free_space :: "tcp_receive_buffer \<Rightarrow> nat" where
  "rb_free_space b = usize_sub (rb_capacity b) (max (rb_occupied b) (rb_size b))"

text \<open>
  The two \<open>copy_nonoverlapping\<close> calls that store the first \<open>n\<close> bytes of \<open>buf\<close> in the ring from
  index \<open>idx\<close> on, wrapping at the capacity.
\<close>

definition ring_store :: "u8 list \<Rightarrow> nat \<Rightarrow> nat \<Rightarrow> u8 list \<Rightarrow> nat \<Rightarrow> u8 list" where
  "ring_store data capacity idx buf n =
     (let first = min n (usize_sub capacity idx);
          data1 = copy_into data idx (take first buf)
      in if n > first then copy_into data1 0 (take (n - first) (drop first buf)) else data1)"

definition rb_write :: "tcp_receive_buffer \<Rightarrow> u8 list \<Rightarrow> tcp_receive_buffer \<times> nat" where
  "rb_write b buf =
     (let to_write = min (length buf) (rb_free_space b)
      in if to_write = 0 then (b, 0)
         else let size' = rb_size b + to_write
              in (b\<lparr>rb_data := ring_store (rb_data b) (rb_capacity b) (rb_head b) buf to_write,
                    rb_head := (rb_head b + to_write) mod rb_capacity b,
                    rb_size := size',
                    rb_occupied := max (rb_occupied b) size'\<rparr>, to_write))"

definition rb_write_at ::
  "tcp_receive_buffer \<Rightarrow> u32 \<Rightarrow> u32 \<Rightarrow> u8 list \<Rightarrow> tcp_receive_buffer \<times> nat" where
  "rb_write_at b rcv_nxt seq buf =
     (if buf = [] then (b, 0)
      else if seq_diff seq rcv_nxt < 0 then (b, 0)
      else let off = nat (seq_diff seq rcv_nxt)
           in if off \<ge> rb_capacity b then (b, 0)
              else let max_len = rb_capacity b - off;
                       n = min (length buf) max_len
                   in if n = 0 then (b, 0)
                      else let idx = (rb_head b + off) mod rb_capacity b;
                               b1 = b\<lparr>rb_data := ring_store (rb_data b) (rb_capacity b) idx buf n,
                                      rb_occupied := (if off + n > rb_occupied b then off + n
                                                      else rb_occupied b)\<rparr>
                           in if seq = rcv_nxt
                              then let size' = rb_size b1 + n
                                   in (b1\<lparr>rb_size := size',
                                          rb_head := (rb_head b1 + n) mod rb_capacity b1,
                                          rb_occupied := max (rb_occupied b1) size'\<rparr>, n)
                              else (b1, n))"

definition rb_advance_contig :: "tcp_receive_buffer \<Rightarrow> nat \<Rightarrow> tcp_receive_buffer" where
  "rb_advance_contig b n0 =
     (let n = min n0 (rb_capacity b - rb_size b)
      in if n = 0 then b
         else let size' = rb_size b + n
              in b\<lparr>rb_size := size',
                   rb_head := (rb_head b + n) mod rb_capacity b,
                   rb_occupied := max (rb_occupied b) size'\<rparr>)"

text \<open>\<open>read\<close> fills a buffer of \<open>out_len\<close> bytes; the model returns the bytes it stores there.\<close>

definition rb_read :: "tcp_receive_buffer \<Rightarrow> nat \<Rightarrow> tcp_receive_buffer \<times> u8 list" where
  "rb_read b out_len =
     (let to_read = min out_len (rb_size b)
      in if to_read = 0 then (b, [])
         else let first = min to_read (usize_sub (rb_capacity b) (rb_tail b));
                  out1 = slice (rb_data b) (rb_tail b) (rb_tail b + first);
                  out = (if to_read > first then out1 @ take (to_read - first) (rb_data b) else out1);
                  size' = rb_size b - to_read;
                  occ = rb_occupied b - to_read
              in (b\<lparr>rb_tail := (rb_tail b + to_read) mod rb_capacity b,
                    rb_size := size',
                    rb_occupied := (if occ < size' then size' else occ)\<rparr>, out))"

section \<open>Invariant and abstraction\<close>

definition rb_inv :: "tcp_receive_buffer \<Rightarrow> bool" where
  "rb_inv b \<longleftrightarrow> length (rb_data b) = rb_capacity b \<and> 0 < rb_capacity b \<and>
     rb_head b < rb_capacity b \<and> rb_tail b < rb_capacity b \<and>
     rb_size b \<le> rb_occupied b \<and> rb_occupied b \<le> rb_capacity b \<and>
     rb_head b = (rb_tail b + rb_size b) mod rb_capacity b"

definition rb_contents :: "tcp_receive_buffer \<Rightarrow> u8 list" where
  "rb_contents b = map (\<lambda>i. rb_data b ! ((rb_tail b + i) mod rb_capacity b)) [0..<rb_size b]"

definition rb_ahead :: "tcp_receive_buffer \<Rightarrow> nat \<Rightarrow> u8" where
  "rb_ahead b i = rb_data b ! ((rb_head b + i) mod rb_capacity b)"

lemma length_rb_contents [simp]: "length (rb_contents b) = rb_size b"
  by (simp add: rb_contents_def)

lemma nth_rb_contents: "i < rb_size b \<Longrightarrow> rb_contents b ! i = rb_data b ! ((rb_tail b + i) mod rb_capacity b)"
  by (simp add: rb_contents_def)

lemma rb_new_inv: "0 < capacity \<Longrightarrow> rb_inv (rb_new capacity)"
  by (simp add: rb_inv_def rb_new_def)

lemma rb_new_fields [simp]: "rb_size (rb_new c) = 0" "rb_capacity (rb_new c) = c" "rb_occupied (rb_new c) = 0"
  by (simp_all add: rb_new_def)

lemma rb_new_contents [simp]: "rb_contents (rb_new capacity) = []"
  by (simp add: rb_contents_def rb_new_def)

lemma rb_free_space_inv: "rb_inv b \<Longrightarrow> rb_free_space b = rb_capacity b - rb_occupied b"
  by (auto simp: rb_inv_def rb_free_space_def usize_sub_def max_def)

section \<open>Modular index arithmetic\<close>

lemma mod_offset_inj:
  assumes "i < c" "j < c" "((s::nat) + i) mod c = (s + j) mod c"
  shows "i = j"
proof (rule ccontr)
  have shift: "a = b" if "a \<le> b" "b < c" "(s + b) mod c = (s + a) mod c" for a b
  proof -
    from that have "c dvd b - a" by (simp add: mod_eq_dvd_iff_nat)
    with that show ?thesis by (auto dest: dvd_imp_le)
  qed
  assume "i \<noteq> j"
  then show False
    using shift [of i j] shift [of j i] assms by (cases "i \<le> j") auto
qed

lemma mod_index_wrap:
  assumes "start < (c::nat)" "i < c" "\<not> start + i < c"
  shows "(start + i) mod c = start + i - c"
proof -
  have "(start + i) mod c = (start + i - c) mod c" using assms by (metis le_mod_geq not_less)
  also have "\<dots> = start + i - c" using assms by simp
  finally show ?thesis .
qed

text \<open>The ring store, seen through ring indices: byte \<open>i\<close> of the buffer lands \<open>i\<close> places past the
  start index, and nothing else changes.\<close>

lemma ring_store_cases:
  assumes "start < c" "n \<le> length buf"
  shows "ring_store data c start buf n =
    (if n \<le> c - start then copy_into data start (take n buf)
     else copy_into (copy_into data start (take (c - start) buf)) 0
       (take (n - (c - start)) (drop (c - start) buf)))"
  using assms by (simp add: ring_store_def usize_sub_def Let_def)

lemma length_ring_store:
  assumes "length data = c" "start < c" "n \<le> c" "n \<le> length buf"
  shows "length (ring_store data c start buf n) = c"
  using assms by (simp add: ring_store_cases)

lemma ring_store_nth:
  assumes "length data = c" "start < c" "n \<le> c" "n \<le> length buf" "i < c"
  shows "ring_store data c start buf n ! ((start + i) mod c) =
    (if i < n then buf ! i else data ! ((start + i) mod c))"
proof (cases "start + i < c")
  case True
  then have m: "(start + i) mod c = start + i" by simp
  show ?thesis
    unfolding m using True assms by (auto simp: ring_store_cases nth_copy_into)
next
  case False
  with assms have m: "(start + i) mod c = start + i - c" by (intro mod_index_wrap)
  show ?thesis
    unfolding m using False assms by (auto simp: ring_store_cases nth_copy_into)
qed

lemma ring_store_shifted:
  assumes "length data = c" "start < c" "off < c" "n \<le> c" "n \<le> length buf" "off + n \<le> c" "i < c"
  shows "ring_store data c ((start + off) mod c) buf n ! ((start + i) mod c) =
    (if off \<le> i \<and> i < off + n then buf ! (i - off) else data ! ((start + i) mod c))"
proof -
  define k where "k = (if off \<le> i then i - off else c + i - off)"
  have k: "k < c" "start + off + k = (if off \<le> i then start + i else start + i + c)"
    using assms by (auto simp: k_def)
  have idx: "((start + off) mod c + k) mod c = (start + i) mod c"
    by (simp add: mod_add_left_eq k(2))
  have "ring_store data c ((start + off) mod c) buf n ! (((start + off) mod c + k) mod c) =
      (if k < n then buf ! k else data ! (((start + off) mod c + k) mod c))"
    using assms k(1) by (intro ring_store_nth) auto
  moreover have "(if k < n then buf ! k else x) =
      (if off \<le> i \<and> i < off + n then buf ! (i - off) else x)" for x
    using assms by (auto simp: k_def)
  ultimately show ?thesis by (simp add: idx)
qed

section \<open>The methods against the abstraction\<close>

lemma tail_shift_index:
  assumes "rb_inv b"
  shows "(rb_head b + i) mod rb_capacity b = (rb_tail b + (rb_size b + i)) mod rb_capacity b"
  using assms by (simp add: rb_inv_def mod_simps add.assoc)

lemma rb_write_count:
  "rb_inv b \<Longrightarrow> snd (rb_write b buf) = min (length buf) (rb_capacity b - rb_occupied b)"
  by (auto simp: rb_write_def rb_free_space_inv Let_def)

lemma rb_write_inv: "rb_inv b \<Longrightarrow> rb_inv (fst (rb_write b buf))"
  by (auto simp: rb_write_def rb_free_space_inv Let_def rb_inv_def length_ring_store mod_simps add.assoc)

text \<open>A store of \<open>n\<close> bytes that starts \<open>off\<close> places past the head, in the room the unread bytes
  leave, changes neither the unread bytes nor any other byte ahead.\<close>

definition ring_fill :: "tcp_receive_buffer \<Rightarrow> nat \<Rightarrow> u8 list \<Rightarrow> nat \<Rightarrow> u8 list" where
  "ring_fill b off buf n =
     ring_store (rb_data b) (rb_capacity b) ((rb_head b + off) mod rb_capacity b) buf n"

lemma ring_fill_tail:
  assumes "rb_inv b" "n \<le> length buf" "off < rb_capacity b" "rb_size b + off + n \<le> rb_capacity b"
    "i < rb_capacity b"
  shows "ring_fill b off buf n ! ((rb_tail b + i) mod rb_capacity b) =
    (if rb_size b + off \<le> i \<and> i < rb_size b + off + n then buf ! (i - (rb_size b + off))
     else rb_data b ! ((rb_tail b + i) mod rb_capacity b))"
proof (cases "n = 0")
  case True
  then show ?thesis
    using assms by (auto simp: ring_fill_def ring_store_def)
next
  case False
  have "(rb_head b + off) mod rb_capacity b = (rb_tail b + (rb_size b + off)) mod rb_capacity b"
    using assms(1) by (rule tail_shift_index)
  moreover have "rb_size b + off < rb_capacity b" using False assms(4) by simp
  ultimately show ?thesis
    unfolding ring_fill_def using assms
    by (auto simp: ring_store_shifted rb_inv_def)
qed

lemma ring_fill_ahead:
  assumes "rb_inv b" "n \<le> length buf" "off + n \<le> rb_capacity b" "off < rb_capacity b" "i < rb_capacity b"
  shows "ring_fill b off buf n ! ((rb_head b + i) mod rb_capacity b) =
    (if off \<le> i \<and> i < off + n then buf ! (i - off) else rb_ahead b i)"
  unfolding ring_fill_def rb_ahead_def using assms
  by (auto simp: ring_store_shifted rb_inv_def)

lemma rb_write_eq:
  assumes "rb_inv b" "n = min (length buf) (rb_capacity b - rb_occupied b)" "n \<noteq> 0"
  shows "rb_write b buf =
    (b\<lparr>rb_data := ring_fill b 0 buf n, rb_head := (rb_head b + n) mod rb_capacity b,
       rb_size := rb_size b + n, rb_occupied := max (rb_occupied b) (rb_size b + n)\<rparr>, n)"
proof -
  have "min (length buf) (rb_free_space b) = n" using assms by (simp add: rb_free_space_inv)
  then show ?thesis using assms(1,3) by (simp add: rb_write_def ring_fill_def rb_inv_def Let_def)
qed

lemma rb_write_full:
  assumes "rb_inv b" "min (length buf) (rb_capacity b - rb_occupied b) = 0"
  shows "rb_write b buf = (b, 0)"
  using assms by (simp add: rb_write_def rb_free_space_inv)

lemma rb_write_contents:
  assumes inv: "rb_inv b"
  shows "rb_contents (fst (rb_write b buf)) = rb_contents b @ take (snd (rb_write b buf)) buf"
proof (cases "min (length buf) (rb_capacity b - rb_occupied b) = 0")
  case True
  with inv show ?thesis by (simp add: rb_write_full)
next
  case False
  define n where "n = min (length buf) (rb_capacity b - rb_occupied b)"
  have eq: "rb_write b buf = (b\<lparr>rb_data := ring_fill b 0 buf n,
      rb_head := (rb_head b + n) mod rb_capacity b, rb_size := rb_size b + n,
      rb_occupied := max (rb_occupied b) (rb_size b + n)\<rparr>, n)"
    using inv False by (intro rb_write_eq) (simp_all add: n_def)
  have room: "n \<le> length buf" "rb_size b + n \<le> rb_capacity b" "0 < rb_capacity b"
    using inv by (auto simp: n_def rb_inv_def)
  show ?thesis
  proof (rule nth_equalityI)
    show "length (rb_contents (fst (rb_write b buf))) =
        length (rb_contents b @ take (snd (rb_write b buf)) buf)"
      using room by (simp add: eq)
  next
    fix i assume "i < length (rb_contents (fst (rb_write b buf)))"
    then have i: "i < rb_size b + n" by (simp add: eq)
    then have "rb_contents (fst (rb_write b buf)) ! i =
        ring_fill b 0 buf n ! ((rb_tail b + i) mod rb_capacity b)"
      by (simp add: eq nth_rb_contents)
    also have "\<dots> = (rb_contents b @ take (snd (rb_write b buf)) buf) ! i"
      using inv room i by (simp add: ring_fill_tail eq nth_append nth_rb_contents)
    finally show "rb_contents (fst (rb_write b buf)) ! i =
        (rb_contents b @ take (snd (rb_write b buf)) buf) ! i" .
  qed
qed

lemma rb_write_ahead:
  assumes inv: "rb_inv b" and i: "snd (rb_write b buf) + i < rb_capacity b"
  shows "rb_ahead (fst (rb_write b buf)) i = rb_ahead b (snd (rb_write b buf) + i)"
proof (cases "min (length buf) (rb_capacity b - rb_occupied b) = 0")
  case True
  with inv show ?thesis by (simp add: rb_write_full)
next
  case False
  define n where "n = min (length buf) (rb_capacity b - rb_occupied b)"
  have eq: "rb_write b buf = (b\<lparr>rb_data := ring_fill b 0 buf n,
      rb_head := (rb_head b + n) mod rb_capacity b, rb_size := rb_size b + n,
      rb_occupied := max (rb_occupied b) (rb_size b + n)\<rparr>, n)"
    using inv False by (intro rb_write_eq) (simp_all add: n_def)
  have "rb_ahead (fst (rb_write b buf)) i = ring_fill b 0 buf n ! ((rb_head b + (n + i)) mod rb_capacity b)"
    by (simp add: eq rb_ahead_def mod_add_left_eq add.assoc)
  also have "\<dots> = rb_ahead b (n + i)"
    using inv i by (subst ring_fill_ahead) (auto simp: eq n_def rb_inv_def)
  finally show ?thesis by (simp add: eq)
qed

text \<open>
  \<open>write_at\<close> with a segment that fits behind the unread bytes: a segment ahead of a gap changes no
  unread byte and lands at its offset, a segment at \<open>rcv_nxt\<close> extends the unread bytes.
\<close>

lemma rb_write_at_ooo_eq:
  assumes "rb_inv b" "buf \<noteq> []" "off = nat (seq_diff seq rcv_nxt)" "0 < seq_diff seq rcv_nxt"
    "rb_size b + off + length buf \<le> rb_capacity b"
  shows "rb_write_at b rcv_nxt seq buf =
    (b\<lparr>rb_data := ring_fill b off buf (length buf),
       rb_occupied := max (rb_occupied b) (off + length buf)\<rparr>, length buf)"
proof -
  have "off < rb_capacity b" "min (length buf) (rb_capacity b - off) = length buf"
    "seq \<noteq> rcv_nxt"
    using assms by (auto simp: min_def neq_Nil_conv)
  then show ?thesis
    using assms by (simp add: rb_write_at_def ring_fill_def Let_def max_def)
qed

lemma rb_write_at_inorder_eq:
  assumes "rb_inv b" "buf \<noteq> []" "rb_size b + length buf \<le> rb_capacity b"
  shows "rb_write_at b r r buf =
    (b\<lparr>rb_data := ring_fill b 0 buf (length buf),
       rb_head := (rb_head b + length buf) mod rb_capacity b,
       rb_size := rb_size b + length buf,
       rb_occupied := max (rb_occupied b) (rb_size b + length buf)\<rparr>, length buf)"
proof -
  have "min (length buf) (rb_capacity b) = length buf" using assms by simp
  then show ?thesis
    using assms by (auto simp: rb_write_at_def ring_fill_def Let_def max_def rb_inv_def)
qed

lemma ring_fill_contents:
  assumes "rb_inv b" "rb_size b + off + length buf \<le> rb_capacity b" "buf \<noteq> []" "i < rb_size b"
  shows "ring_fill b off buf (length buf) ! ((rb_tail b + i) mod rb_capacity b) = rb_contents b ! i"
proof -
  have "off < rb_capacity b" "i < rb_capacity b"
    using assms by (auto simp: neq_Nil_conv)
  then show ?thesis using assms by (simp add: ring_fill_tail nth_rb_contents)
qed

lemma length_ring_fill:
  assumes "rb_inv b" "n \<le> length buf" "n \<le> rb_capacity b"
  shows "length (ring_fill b off buf n) = rb_capacity b"
  using assms unfolding ring_fill_def by (intro length_ring_store) (auto simp: rb_inv_def)

lemma rb_write_at_ooo:
  assumes "rb_inv b" "buf \<noteq> []" "off = nat (seq_diff seq rcv_nxt)" "0 < seq_diff seq rcv_nxt"
    "rb_size b + off + length buf \<le> rb_capacity b"
  defines "b' \<equiv> fst (rb_write_at b rcv_nxt seq buf)"
  shows "rb_inv b'" "rb_contents b' = rb_contents b"
    "i < rb_capacity b \<Longrightarrow> rb_ahead b' i =
       (if off \<le> i \<and> i < off + length buf then buf ! (i - off) else rb_ahead b i)"
    "rb_size b' = rb_size b" "rb_capacity b' = rb_capacity b"
proof -
  note eq = rb_write_at_ooo_eq [OF assms(1-5)]
  have off: "off < rb_capacity b" using assms by (auto simp: neq_Nil_conv)
  show "rb_inv b'"
    using assms(1,5) by (simp add: b'_def eq rb_inv_def length_ring_fill [OF assms(1)] le_max_iff_disj)
  show "rb_contents b' = rb_contents b"
    by (rule nth_equalityI) (use assms(1,2,5) in
        \<open>simp_all add: b'_def eq nth_rb_contents ring_fill_contents\<close>)
  show "i < rb_capacity b \<Longrightarrow> rb_ahead b' i =
       (if off \<le> i \<and> i < off + length buf then buf ! (i - off) else rb_ahead b i)"
    unfolding b'_def eq fst_conv
    by (subst ring_fill_ahead [symmetric]) (use assms(1,5) off in \<open>auto simp: rb_ahead_def\<close>)
qed (simp_all add: b'_def rb_write_at_ooo_eq [OF assms(1-5)])

lemma rb_write_at_inorder:
  fixes r :: u32
  assumes "rb_inv b" "buf \<noteq> []" "rb_size b + length buf \<le> rb_capacity b"
  defines "b' \<equiv> fst (rb_write_at b r r buf)"
  shows "rb_inv b'" "rb_contents b' = rb_contents b @ buf"
    "length buf + i < rb_capacity b \<Longrightarrow> rb_ahead b' i = rb_ahead b (length buf + i)"
    "rb_size b' = rb_size b + length buf" "rb_capacity b' = rb_capacity b"
proof -
  note eq = rb_write_at_inorder_eq [OF assms(1-3)]
  show "rb_inv b'"
    using assms(1,3)
    by (auto simp: b'_def eq rb_inv_def length_ring_fill [OF assms(1)] mod_simps add.assoc)
  show "rb_contents b' = rb_contents b @ buf"
  proof (rule nth_equalityI)
    fix i assume "i < length (rb_contents b')"
    then have i: "i < rb_size b + length buf" by (simp add: b'_def eq)
    then have "rb_contents b' ! i = ring_fill b 0 buf (length buf) ! ((rb_tail b + i) mod rb_capacity b)"
      by (simp add: b'_def eq nth_rb_contents)
    also have "\<dots> = (rb_contents b @ buf) ! i"
      using assms(1,3) i by (simp add: ring_fill_tail nth_append nth_rb_contents rb_inv_def)
    finally show "rb_contents b' ! i = (rb_contents b @ buf) ! i" .
  qed (simp add: b'_def eq)
  assume i: "length buf + i < rb_capacity b"
  have "rb_ahead b' i = ring_fill b 0 buf (length buf) ! ((rb_head b + (length buf + i)) mod rb_capacity b)"
    by (simp add: b'_def eq rb_ahead_def mod_add_left_eq add.assoc)
  also have "\<dots> = rb_ahead b (length buf + i)"
    using assms(1,3) i by (subst ring_fill_ahead) (auto simp: rb_inv_def)
  finally show "rb_ahead b' i = rb_ahead b (length buf + i)" .
qed (simp_all add: b'_def rb_write_at_inorder_eq [OF assms(1-3)])

text \<open>\<open>advance_contig\<close> turns bytes stored ahead of the unread ones into unread ones.\<close>

lemma rb_advance_contig_eq:
  assumes "rb_inv b" "rb_size b + n \<le> rb_capacity b"
  shows "rb_advance_contig b n =
    b\<lparr>rb_size := rb_size b + n, rb_head := (rb_head b + n) mod rb_capacity b,
      rb_occupied := max (rb_occupied b) (rb_size b + n)\<rparr>"
  using assms by (cases "n = 0") (simp_all add: rb_advance_contig_def rb_inv_def Let_def min_absorb1)

lemma rb_advance_contig_contents:
  assumes "rb_inv b" "rb_size b + n \<le> rb_capacity b"
  defines "b' \<equiv> rb_advance_contig b n"
  shows "rb_inv b'" "rb_contents b' = rb_contents b @ map (rb_ahead b) [0..<n]"
    "rb_ahead b' i = rb_ahead b (n + i)"
    "rb_size b' = rb_size b + n" "rb_capacity b' = rb_capacity b"
proof -
  note eq = rb_advance_contig_eq [OF assms(1,2)]
  show "rb_inv b'" using assms(1,2) by (auto simp: b'_def eq rb_inv_def mod_simps add.assoc)
  show "rb_contents b' = rb_contents b @ map (rb_ahead b) [0..<n]"
  proof (rule nth_equalityI)
    fix i assume "i < length (rb_contents b')"
    then have i: "i < rb_size b + n" by (simp add: b'_def eq)
    then have "rb_contents b' ! i = rb_data b ! ((rb_tail b + i) mod rb_capacity b)"
      by (simp add: b'_def eq nth_rb_contents)
    also have "\<dots> = (rb_contents b @ map (rb_ahead b) [0..<n]) ! i"
      using i tail_shift_index [OF assms(1), of "i - rb_size b"]
      by (auto simp: nth_append nth_rb_contents rb_ahead_def)
    finally show "rb_contents b' ! i = (rb_contents b @ map (rb_ahead b) [0..<n]) ! i" .
  qed (simp add: b'_def eq)
  show "rb_ahead b' i = rb_ahead b (n + i)"
    by (simp add: b'_def eq rb_ahead_def mod_add_left_eq add.assoc)
qed (simp_all add: b'_def rb_advance_contig_eq [OF assms(1,2)])

text \<open>\<open>read\<close> hands out a prefix of the unread bytes and keeps the rest, and what lies ahead.\<close>

definition ring_slice :: "u8 list \<Rightarrow> nat \<Rightarrow> nat \<Rightarrow> nat \<Rightarrow> u8 list" where
  "ring_slice data c start n = map (\<lambda>i. data ! ((start + i) mod c)) [0..<n]"

lemma ring_slice_split:
  assumes "length data = c" "start < c" "n \<le> c"
  shows "ring_slice data c start n =
    (if n \<le> c - start then slice data start (start + n)
     else slice data start c @ take (n - (c - start)) data)"
proof (rule nth_equalityI)
  fix i assume "i < length (ring_slice data c start n)"
  then have i: "i < n" by (simp add: ring_slice_def)
  show "ring_slice data c start n ! i = (if n \<le> c - start then slice data start (start + n)
     else slice data start c @ take (n - (c - start)) data) ! i"
  proof (cases "start + i < c")
    case True
    with assms i show ?thesis by (auto simp: ring_slice_def slice_def nth_append)
  next
    case False
    moreover have "(start + i) mod c = start + i - c"
      using False assms i by (intro mod_index_wrap) auto
    ultimately show ?thesis
      using assms i by (auto simp: ring_slice_def slice_def nth_append add.commute)
  qed
qed (use assms in \<open>auto simp: ring_slice_def slice_def\<close>)

lemma rb_read_out:
  assumes "rb_inv b"
  shows "snd (rb_read b k) = take k (rb_contents b)"
proof (cases "min k (rb_size b) = 0")
  case True
  then show ?thesis by (auto simp: rb_read_def min_def rb_contents_def split: if_splits)
next
  case False
  define n where "n = min k (rb_size b)"
  have bounds: "length (rb_data b) = rb_capacity b" "rb_tail b < rb_capacity b" "n \<le> rb_capacity b"
    using assms by (auto simp: n_def rb_inv_def)
  have "snd (rb_read b k) = ring_slice (rb_data b) (rb_capacity b) (rb_tail b) n"
    using False bounds
    by (auto simp: rb_read_def ring_slice_split Let_def usize_sub_def simp flip: n_def)
  also have "\<dots> = take k (rb_contents b)"
    by (rule nth_equalityI) (auto simp: ring_slice_def n_def nth_rb_contents)
  finally show ?thesis .
qed

lemma rb_read_state:
  assumes "rb_inv b" "n = min k (rb_size b)"
  shows "fst (rb_read b k) = b\<lparr>rb_tail := (rb_tail b + n) mod rb_capacity b, rb_size := rb_size b - n,
     rb_occupied := rb_occupied b - n\<rparr>"
  using assms by (cases "n = 0") (auto simp: rb_read_def Let_def rb_inv_def)

lemma rb_read_contents:
  fixes k :: nat
  assumes "rb_inv b"
  defines "b' \<equiv> fst (rb_read b k)"
  shows "rb_inv b'" "rb_contents b' = drop k (rb_contents b)" "rb_ahead b' i = rb_ahead b i"
    "rb_capacity b' = rb_capacity b"
proof -
  define n where "n = min k (rb_size b)"
  note eq = rb_read_state [OF assms(1) n_def]
  have "((rb_tail b + n) mod rb_capacity b + (rb_size b - n)) mod rb_capacity b =
      (rb_tail b + rb_size b) mod rb_capacity b"
    by (subst mod_add_left_eq) (simp add: n_def)
  then show "rb_inv b'"
    using assms(1) by (auto simp: b'_def eq rb_inv_def)
  show "rb_contents b' = drop k (rb_contents b)"
    by (rule nth_equalityI)
      (auto simp: b'_def eq n_def nth_rb_contents mod_add_left_eq add.assoc min_def split: if_splits)
  show "rb_ahead b' i = rb_ahead b i" "rb_capacity b' = rb_capacity b"
    by (simp_all add: b'_def eq rb_ahead_def)
qed

section \<open>The contiguous path is a byte queue\<close>

text \<open>
  A client that only appends and reads, as the receive path without SACK does, sees a bounded byte
  queue: \<open>write\<close> takes a prefix of what it is given, \<open>read\<close> delivers a prefix of what is there.
\<close>

datatype queue_op = Write "u8 list" | Read nat

fun queue_step :: "('q \<Rightarrow> u8 list \<Rightarrow> 'q \<times> nat) \<Rightarrow> ('q \<Rightarrow> nat \<Rightarrow> 'q \<times> u8 list) \<Rightarrow>
    'q \<times> u8 list \<times> u8 list \<Rightarrow> queue_op \<Rightarrow> 'q \<times> u8 list \<times> u8 list" where
  "queue_step wr rd (q, accepted, delivered) (Write buf) =
     (let (q', n) = wr q buf in (q', accepted @ take n buf, delivered))"
| "queue_step wr rd (q, accepted, delivered) (Read k) =
     (let (q', out) = rd q k in (q', accepted, delivered @ out))"

definition queue_run :: "('q \<Rightarrow> u8 list \<Rightarrow> 'q \<times> nat) \<Rightarrow> ('q \<Rightarrow> nat \<Rightarrow> 'q \<times> u8 list) \<Rightarrow> 'q \<Rightarrow>
    queue_op list \<Rightarrow> 'q \<times> u8 list \<times> u8 list" where
  "queue_run wr rd q ops = foldl (queue_step wr rd) (q, [], []) ops"

locale byte_queue =
  fixes wr :: "'q \<Rightarrow> u8 list \<Rightarrow> 'q \<times> nat"
    and rd :: "'q \<Rightarrow> nat \<Rightarrow> 'q \<times> u8 list"
    and contents :: "'q \<Rightarrow> u8 list"
    and inv :: "'q \<Rightarrow> bool"
  assumes wr_inv: "inv q \<Longrightarrow> inv (fst (wr q buf))"
    and wr_contents: "inv q \<Longrightarrow> contents (fst (wr q buf)) = contents q @ take (snd (wr q buf)) buf"
    and rd_inv: "inv q \<Longrightarrow> inv (fst (rd q k))"
    and rd_contents: "inv q \<Longrightarrow> contents (fst (rd q k)) = drop k (contents q)"
    and rd_out: "inv q \<Longrightarrow> snd (rd q k) = take k (contents q)"
begin

lemma step_fifo:
  assumes "inv q" "c0 @ accepted = delivered @ contents q"
    "queue_step wr rd (q, accepted, delivered) op = (q', accepted', delivered')"
  shows "inv q' \<and> c0 @ accepted' = delivered' @ contents q'"
  using assms wr_inv wr_contents rd_inv rd_contents rd_out
  by (cases op) (auto split: prod.splits; metis append_take_drop_id fst_conv snd_conv append_assoc)+

lemma foldl_fifo:
  assumes "inv q" "c0 @ accepted = delivered @ contents q"
    "foldl (queue_step wr rd) (q, accepted, delivered) ops = (q', accepted', delivered')"
  shows "inv q' \<and> c0 @ accepted' = delivered' @ contents q'"
  using assms
proof (induction ops arbitrary: q accepted delivered)
  case (Cons op ops)
  obtain q1 a1 d1 where st: "queue_step wr rd (q, accepted, delivered) op = (q1, a1, d1)"
    by (metis prod_cases3)
  then show ?case
    using step_fifo [OF Cons.prems(1,2) st] Cons.IH [of q1 a1 d1] Cons.prems(3) by simp
qed simp

lemma run_fifo:
  assumes "inv q" "queue_run wr rd q ops = (q', accepted, delivered)"
  shows "inv q' \<and> contents q @ accepted = delivered @ contents q'"
  using assms foldl_fifo [of q "contents q" "[]" "[]"] by (simp add: queue_run_def)

end

interpretation rbq: byte_queue rb_write rb_read rb_contents rb_inv
  by unfold_locales (simp_all add: rb_write_inv rb_write_contents rb_read_contents rb_read_out)

section \<open>Properties\<close>

text \<open>C12: a receive buffer that starts empty is a first-in-first-out byte queue under every sequence
  of \<open>write\<close> and \<open>read\<close> calls: the bytes the writes accepted are, in order, the bytes the reads
  delivered followed by the bytes still unread, and the unread bytes never exceed the capacity.\<close>

theorem rb_fifo:
  assumes "0 < capacity"
    and "queue_run rb_write rb_read (rb_new capacity) ops = (b, accepted, delivered)"
  shows "accepted = delivered @ rb_contents b \<and> rb_inv b"
  using rbq.run_fifo [OF rb_new_inv [OF assms(1)] assms(2)] by simp

theorem rb_fifo_witness:
  "[1, 2, 3, 4] = [1, 2] @ rb_contents
     (fst (queue_run rb_write rb_read (rb_new 3) [Write [1, 2], Read 2, Write [3, 4]])) \<and>
   snd (queue_run rb_write rb_read (rb_new 3) [Write [1, 2], Read 2, Write [3, 4]]) = ([1, 2, 3, 4], [1, 2])"
proof -
  have ran: "snd (queue_run rb_write rb_read (rb_new 3) [Write [1, 2], Read 2, Write [3, 4]]) =
      ([1, 2, 3, 4], [1, 2])"
    by code_simp
  then show ?thesis
    using rb_fifo [of 3 "[Write [1, 2], Read 2, Write [3, 4]]"]
    by (metis prod.collapse zero_less_numeral)
qed

text \<open>C13: out-of-order reassembly. A segment that arrives ahead of a gap and fits behind the unread
  bytes changes nothing the application can read; once the gap is filled in order and
  \<open>advance_contig\<close> is told the length of the early segment, the application reads the old bytes,
  the gap and the early segment, in that order.\<close>

theorem rb_reassembly:
  assumes "rb_inv b" "gap \<noteq> []" "early \<noteq> []" "length gap < 2 ^ 31"
    and fits: "rb_size b + length gap + length early \<le> rb_capacity b"
  shows "let b1 = fst (rb_write_at b rcv_nxt (rcv_nxt + of_nat (length gap)) early);
             b2 = fst (rb_write_at b1 rcv_nxt rcv_nxt gap)
         in rb_contents b1 = rb_contents b \<and> rb_contents b2 = rb_contents b @ gap \<and>
            rb_contents (rb_advance_contig b2 (length early)) = rb_contents b @ gap @ early"
proof -
  let ?off = "length gap"
  define b1 where "b1 = fst (rb_write_at b rcv_nxt (rcv_nxt + of_nat ?off) early)"
  define b2 where "b2 = fst (rb_write_at b1 rcv_nxt rcv_nxt gap)"
  have un: "unat (of_nat ?off :: u32) = ?off" using assms(4) by (intro unat_of_nat_len) simp
  have off: "?off = nat (seq_diff (rcv_nxt + of_nat ?off) rcv_nxt)"
    "0 < seq_diff (rcv_nxt + of_nat ?off) rcv_nxt"
    using assms(2,4) un seq_diff_eq_nat [of "rcv_nxt + of_nat ?off" rcv_nxt] by simp_all
  note ooo = rb_write_at_ooo [OF assms(1,3) off fits, folded b1_def]
  have fits2: "rb_size b1 + ?off \<le> rb_capacity b1" using ooo(4,5) fits by simp
  note inorder = rb_write_at_inorder [where r = rcv_nxt, OF ooo(1) assms(2) fits2, folded b2_def]
  have "map (rb_ahead b2) [0..<length early] = early"
    using fits ooo(5) by (intro nth_equalityI) (auto simp: inorder(3) ooo(3))
  moreover have "rb_size b2 + length early \<le> rb_capacity b2"
    using inorder(4,5) ooo(4,5) fits by simp
  ultimately have "rb_contents (rb_advance_contig b2 (length early)) = rb_contents b @ gap @ early"
    using rb_advance_contig_contents(2) [OF inorder(1)] inorder(2) ooo(2) by simp
  then show ?thesis
    using inorder(2) ooo(2) by (simp add: Let_def flip: b1_def b2_def)
qed

theorem rb_reassembly_witness:
  "rb_contents (rb_advance_contig (fst (rb_write_at (fst (rb_write_at (rb_new 8) 4294967295
     (4294967295 + of_nat (length [1, 2 :: u8])) [3, 4])) 4294967295 4294967295 [1, 2]))
     (length [3, 4 :: u8])) = [1, 2, 3, 4]"
proof -
  have "rb_inv (rb_new 8)" "length [1, 2 :: u8] < 2 ^ 31"
    "rb_size (rb_new 8) + length [1, 2 :: u8] + length [3, 4 :: u8] \<le> rb_capacity (rb_new 8)"
    by (simp_all add: rb_new_inv)
  then show ?thesis
    using rb_reassembly [of "rb_new 8" "[1, 2]" "[3, 4]" 4294967295]
    unfolding Let_def by (simp only: rb_new_contents append.simps list.distinct(2) simp_thms)
qed

text \<open>C35: \<open>write_at\<close> clips a segment to \<open>capacity - off\<close> and not to the room behind the unread bytes.
  With three unread bytes in a ring of four, a two-byte segment one byte ahead of \<open>rcv_nxt\<close> is
  stored over the first unread byte, and a two-byte segment at \<open>rcv_nxt\<close> leaves five bytes in the
  ring of four, after which \<open>free_space\<close> underflows.\<close>

theorem rb_write_at_overwrites:
  "let b = fst (rb_write (rb_new 4) [1, 2, 3]);
       ahead = fst (rb_write_at b 100 101 [8, 9]);
       full = fst (rb_write_at b 100 100 [8, 9])
   in rb_contents b = [1, 2, 3] \<and> rb_contents ahead = [8, 9, 3] \<and> rb_size full = 5 \<and>
      rb_capacity full = 4 \<and> rb_free_space full = 2 ^ 64 - 1"
proof -
  define b where "b = fst (rb_write (rb_new 4) [1, 2, 3])"
  have "rb_contents b = [1, 2, 3]" "rb_contents (fst (rb_write_at b 100 101 [8, 9])) = [8, 9, 3]"
    "rb_size (fst (rb_write_at b 100 100 [8, 9])) = 5"
    "rb_capacity (fst (rb_write_at b 100 100 [8, 9])) = 4"
    "rb_occupied (fst (rb_write_at b 100 100 [8, 9])) = 5"
    unfolding b_def by code_simp+
  then show ?thesis
    by (simp add: Let_def rb_free_space_def usize_sub_def flip: b_def)
qed

end
