(* ===== verification/Tcp_Checksum.thy ===== *)
theory Tcp_Checksum
  imports Rust_Prelude
begin

text \<open>
  The TCP checksum, \<^verbatim>\<open>kernel/src/driver/net/proto/tcp/checksum.rs\<close>. The \<open>while\<close> loop that folds
  the carries is a recursion with a termination proof, and the lemmas characterise its result: the
  one's complement sum of the 16-bit words, which is the residue of their sum modulo 65535.
\<close>

text \<open>The loop over the two slices read as one (\<open>get\<close>), two bytes at a time, an odd last byte padded
  with zero; the additions wrap (\<open>wrapping_add\<close>).\<close>

fun add_words :: "u32 \<Rightarrow> u8 list \<Rightarrow> u32" where
  "add_words s (hi # lo # rest) = add_words (s + ucast (u16_from_be hi lo)) rest"
| "add_words s [hi] = s + ucast (u16_from_be hi 0)"
| "add_words s [] = s"

lemma low_half: "unat (s AND 0xFFFF :: u32) = unat s mod 65536"
proof -
  have "s AND 0xFFFF = take_bit 16 s" by (simp add: take_bit_eq_mask mask_eq_exp_minus_1)
  then show ?thesis by (simp only: unsigned_take_bit_eq) (simp add: take_bit_eq_mod)
qed

lemma high_half: "unat (drop_bit 16 s :: u32) = unat s div 65536"
  by (simp add: drop_bit_eq_div unat_div)

lemma half_sum_le: "(n :: nat) mod 65536 + n div 65536 \<le> n"
  using div_mult_mod_eq [of n 65536] by linarith

lemma half_sum_less: "(n :: nat) div 65536 \<noteq> 0 \<Longrightarrow> n mod 65536 + n div 65536 < n"
  using div_mult_mod_eq [of n 65536] by linarith

lemma half_sum_mod: "((n :: nat) mod 65536 + n div 65536) mod 65535 = n mod 65535"
proof -
  have "n = (n mod 65536 + n div 65536) + n div 65536 * 65535"
    using div_mult_mod_eq [of n 65536] by linarith
  then show ?thesis by (metis mod_mult_self1)
qed

lemma fold_step_value: "unat ((s AND 0xFFFF) + drop_bit 16 s :: u32) = unat s mod 65536 + unat s div 65536"
proof -
  have "unat s < 2 ^ 32" using unsigned_less [of s, where ?'a = nat] by simp
  moreover have "unat s mod 65536 + unat s div 65536 \<le> unat s" by (rule half_sum_le)
  ultimately have "unat s mod 65536 + unat s div 65536 < 2 ^ 32" by linarith
  then show ?thesis
    by (simp add: unat_word_ariths(1) low_half high_half)
qed

function fold_carries :: "u32 \<Rightarrow> u32" where
  "fold_carries s = (if drop_bit 16 s \<noteq> 0 then fold_carries ((s AND 0xFFFF) + drop_bit 16 s) else s)"
  by pat_completeness auto
termination
proof (relation "measure unat")
  fix s :: u32
  assume "drop_bit 16 s \<noteq> 0"
  then have "unat s div 65536 \<noteq> 0" by (metis high_half unat_eq_zero)
  then have "unat s mod 65536 + unat s div 65536 < unat s" by (rule half_sum_less)
  then show "((s AND 0xFFFF) + drop_bit 16 s, s) \<in> measure unat" by (simp add: fold_step_value)
qed simp

declare fold_carries.simps [simp del]

definition calculate_tcp_checksum :: "u8 list \<Rightarrow> u8 list \<Rightarrow> u8 list \<Rightarrow> u8 list \<Rightarrow> u16" where
  "calculate_tcp_checksum src_addr dst_addr header payload =
     (let s0 = 0;
          s1 = s0 + ucast (u16_from_be (src_addr ! 0) (src_addr ! 1));
          s2 = s1 + ucast (u16_from_be (src_addr ! 2) (src_addr ! 3));
          s3 = s2 + ucast (u16_from_be (dst_addr ! 0) (dst_addr ! 1));
          s4 = s3 + ucast (u16_from_be (dst_addr ! 2) (dst_addr ! 3));
          s5 = s4 + ucast (u16_from_be 0 6);
          tcp_len = (of_nat (length header + length payload) :: u16);
          s6 = s5 + ucast tcp_len;
          s7 = add_words s6 (header @ payload)
      in NOT (ucast (fold_carries s7)))"

section \<open>The value of the sum\<close>

fun word_total :: "u8 list \<Rightarrow> nat" where
  "word_total (hi # lo # rest) = unat (u16_from_be hi lo) + word_total rest"
| "word_total [hi] = unat (u16_from_be hi 0)"
| "word_total [] = 0"

definition pseudo_total :: "u8 list \<Rightarrow> u8 list \<Rightarrow> nat \<Rightarrow> nat" where
  "pseudo_total src dst n = word_total (take 4 src) + word_total (take 4 dst) + 6 + n mod 65536"

lemma unat_u16_less: "unat (w :: u16) < 65536"
  using unsigned_less [of w, where ?'a = nat] by simp

lemma word_total_le: "word_total bs \<le> 65535 * ((length bs + 1) div 2)"
proof (induction bs rule: word_total.induct)
  case (1 hi lo rest)
  then show ?case using unat_u16_less [of "u16_from_be hi lo"] by simp
next
  case (2 hi)
  then show ?case using unat_u16_less [of "u16_from_be hi 0"] by simp
qed simp

lemma unat_ucast_u16: "unat (ucast (w :: u16) :: u32) = unat w"
  using unat_u16_less [of w] by (simp add: unsigned_ucast_eq take_bit_nat_eq_self_iff)

lemma unat_add_u16: "unat s + unat (w :: u16) < 2 ^ 32 \<Longrightarrow> unat (s + ucast w :: u32) = unat s + unat w"
  by (simp add: unat_word_ariths(1) unat_ucast_u16)

lemma unat_foldl_u16:
  "unat s + sum_list (map unat ws) < 2 ^ 32 \<Longrightarrow>
   unat (foldl (\<lambda>s (w :: u16). s + ucast w) (s :: u32) ws) = unat s + sum_list (map unat ws)"
  by (induction ws arbitrary: s) (simp_all add: unat_add_u16)

lemma add_words_value: "unat s + word_total bs < 2 ^ 32 \<Longrightarrow> unat (add_words s bs) = unat s + word_total bs"
  by (induction s bs rule: add_words.induct) (simp_all add: unat_add_u16)

lemma fold_carries_mod: "unat (fold_carries s) mod 65535 = unat s mod 65535"
proof (induction s rule: fold_carries.induct)
  case (1 s)
  then show ?case by (simp add: fold_carries.simps [of s] fold_step_value half_sum_mod)
qed

lemma fold_carries_small: "unat (fold_carries s) < 65536"
proof (induction s rule: fold_carries.induct)
  case (1 s)
  have "unat s < 65536" if "drop_bit 16 s = 0"
    using that high_half [of s] by simp
  with 1 show ?case by (simp add: fold_carries.simps [of s])
qed

lemma fold_carries_pos: "s \<noteq> 0 \<Longrightarrow> fold_carries s \<noteq> 0"
proof (induction s rule: fold_carries.induct)
  case (1 s)
  have "(s AND 0xFFFF) + drop_bit 16 s \<noteq> 0"
  proof
    assume "(s AND 0xFFFF) + drop_bit 16 s = 0"
    then have "unat s mod 65536 + unat s div 65536 = 0" by (metis fold_step_value unsigned_0)
    then have "unat s = 0" using div_mult_mod_eq [of "unat s" 65536] by linarith
    with 1(2) show False by (simp add: unat_eq_zero)
  qed
  with 1 show ?case by (simp add: fold_carries.simps [of s])
qed

lemma word_total_4: "length bs = 4 \<Longrightarrow> word_total bs = unat (u16_from_be (bs ! 0) (bs ! 1)) + unat (u16_from_be (bs ! 2) (bs ! 3))"
  by (auto simp: numeral_eq_Suc length_Suc_conv)

lemma calculate_tcp_checksum_eq:
  assumes "length src = 4" "length dst = 4" "length header + length payload < 65536"
  shows "\<exists>s. calculate_tcp_checksum src dst header payload = NOT (ucast (fold_carries s)) \<and>
    unat s = pseudo_total src dst (length header + length payload) + word_total (header @ payload)"
proof -
  let ?n = "length header + length payload"
  have six: "unat (u16_from_be 0 6) = 6" by (simp add: u16_from_be_def)
  have len: "unat (of_nat ?n :: u16) = ?n" using assms(3) by (intro unat_of_nat_len) simp
  have small: "word_total (header @ payload) \<le> 65535 * 32768"
    using word_total_le [of "header @ payload"] assms(3) by simp
  have addr: "word_total src \<le> 65535 * 2" "word_total dst \<le> 65535 * 2"
    using word_total_le [of src] word_total_le [of dst] assms(1,2) by simp_all
  define ws where "ws = [u16_from_be (src ! 0) (src ! 1), u16_from_be (src ! 2) (src ! 3),
    u16_from_be (dst ! 0) (dst ! 1), u16_from_be (dst ! 2) (dst ! 3), u16_from_be 0 6, of_nat ?n]"
  have total: "sum_list (map unat ws) = word_total src + word_total dst + 6 + ?n"
    using assms(1,2) six len by (simp add: ws_def word_total_4 del: of_nat_add)
  define s6 :: u32 where "s6 = foldl (\<lambda>s w. s + ucast w) 0 ws"
  have "unat s6 = word_total src + word_total dst + 6 + ?n"
    unfolding s6_def using addr assms(3) total unat_foldl_u16 [of 0 ws] by simp
  moreover have "calculate_tcp_checksum src dst header payload =
      NOT (ucast (fold_carries (add_words s6 (header @ payload))))"
    by (simp add: calculate_tcp_checksum_def Let_def s6_def ws_def)
  ultimately show ?thesis
    using small addr assms
    by (intro exI [of _ "add_words s6 (header @ payload)"]) (simp add: add_words_value pseudo_total_def)
qed

lemma fold_carries_eq_iff:
  assumes "s \<noteq> 0" "t \<noteq> 0"
  shows "(ucast (fold_carries s) :: u16) = ucast (fold_carries t) \<longleftrightarrow> unat s mod 65535 = unat t mod 65535"
proof -
  have pos: "0 < unat (fold_carries s)" "0 < unat (fold_carries t)"
    using fold_carries_pos assms by (simp_all add: unat_gt_0)
  have "unat (fold_carries s) = unat (fold_carries t)" if "unat s mod 65535 = unat t mod 65535"
  proof -
    let ?a = "unat (fold_carries s)" and ?b = "unat (fold_carries t)"
    have eq: "?a mod 65535 = ?b mod 65535" using that by (simp add: fold_carries_mod)
    have "?a \<le> 65535" "?b \<le> 65535" using fold_carries_small [of s] fold_carries_small [of t] by simp_all
    with pos eq show ?thesis by (cases "?a = 65535"; cases "?b = 65535") auto
  qed
  moreover have "(ucast (fold_carries s) :: u16) = ucast (fold_carries t) \<longleftrightarrow>
      unat (fold_carries s) = unat (fold_carries t)"
  proof -
    have "unat (ucast (fold_carries x) :: u16) = unat (fold_carries x)" for x
      using fold_carries_small [of x] by (simp add: unsigned_ucast_eq take_bit_nat_eq_self)
    then show ?thesis by (simp only: word_unat_eq_iff)
  qed
  ultimately show ?thesis by (metis fold_carries_mod)
qed



end
