(* ===== verification/Clock_Time.thy ===== *)
theory Clock_Time
  imports Rust_Prelude
begin

text \<open>
  The time types of \<^verbatim>\<open>kernel/src/subsystem/clock/time.rs\<close>: a \<open>Duration\<close> and an \<open>Instant\<close> are
  nanosecond counts in a \<open>u64\<close>, so both are modelled by that word. Arithmetic on instants
  saturates, as the source's \<open>Add\<close> and \<open>Sub\<close> implementations do. Reading the clock
  (\<open>Instant::now()\<close>) is an argument of the operations that read it.
\<close>

type_synonym duration = u64
type_synonym instant = u64

definition from_nanos :: "u64 \<Rightarrow> duration" where
  "from_nanos nanos = nanos"

definition from_millis :: "u64 \<Rightarrow> duration" where
  "from_millis millis = millis * 1000000"

definition from_secs :: "u64 \<Rightarrow> duration" where
  "from_secs secs = secs * 1000000000"

definition as_nanos :: "duration \<Rightarrow> u64" where
  "as_nanos d = d"

definition instant_add :: "instant \<Rightarrow> duration \<Rightarrow> instant" where
  "instant_add t d = saturating_add t (as_nanos d)"

definition instant_sub :: "instant \<Rightarrow> duration \<Rightarrow> instant" where
  "instant_sub t d = saturating_sub t (as_nanos d)"

definition instant_diff :: "instant \<Rightarrow> instant \<Rightarrow> duration" where
  "instant_diff t s = from_nanos (saturating_sub t s)"

lemmas time_defs = from_nanos_def from_millis_def from_secs_def as_nanos_def
  instant_add_def instant_sub_def instant_diff_def

lemma instant_add_ge: "t \<le> instant_add t d"
  by (simp add: instant_add_def saturating_add_ge)

lemma instant_diff_add:
  assumes "unat t + unat d < 2 ^ 64"
  shows "instant_diff (instant_add t d) t = d"
  using assms
  by (simp add: time_defs saturating_add_def saturating_sub_def word_add_wraps_iff)

lemma instant_diff_self [simp]: "instant_diff t t = 0"
  by (simp add: time_defs saturating_sub_def)

end
