(* ===== verification/Tcp_Options.thy ===== *)
theory Tcp_Options
  imports Rust_Prelude "HOL-Library.Monad_Syntax"
begin

text \<open>
  The TCP options area, \<^verbatim>\<open>kernel/src/driver/net/proto/tcp/options.rs\<close>: the iterator
  \<open>TcpOptionsParser\<close> with its \<open>next\<close>, and \<open>TcpOptionsWriter\<close> with its \<open>push\<close> methods. An index
  out of the writer's 40-byte array panics in the source; here it is the value \<open>None\<close>.
  The lemmas show that the parser ends, that each \<open>push\<close> appends exactly its bytes while they
  fit, and that the parser reads back what the writer wrote.
\<close>

record sack_block =
  sb_left :: u32
  sb_right :: u32

definition sack_block_default :: sack_block where
  "sack_block_default = \<lparr>sb_left = 0, sb_right = 0\<rparr>"

definition TCP_OPTS_MAX :: nat where "TCP_OPTS_MAX = 40"
definition TCP_OPT_EOL :: u8 where "TCP_OPT_EOL = 0"
definition TCP_OPT_NOP :: u8 where "TCP_OPT_NOP = 1"
definition TCP_OPT_MSS :: u8 where "TCP_OPT_MSS = 2"
definition TCP_OPT_WINDOW_SCALE :: u8 where "TCP_OPT_WINDOW_SCALE = 3"
definition TCP_OPT_SACK_PERMITTED :: u8 where "TCP_OPT_SACK_PERMITTED = 4"
definition TCP_OPT_SACK :: u8 where "TCP_OPT_SACK = 5"
definition TCP_OPT_TIMESTAMP :: u8 where "TCP_OPT_TIMESTAMP = 8"
definition TCP_TS_OPTION_OVERHEAD :: nat where "TCP_TS_OPTION_OVERHEAD = 12"

lemmas opt_consts = TCP_OPTS_MAX_def TCP_OPT_EOL_def TCP_OPT_NOP_def TCP_OPT_MSS_def
  TCP_OPT_WINDOW_SCALE_def TCP_OPT_SACK_PERMITTED_def TCP_OPT_SACK_def TCP_OPT_TIMESTAMP_def

datatype tcp_option =
    EndOfList
  | NoOp
  | Mss u16
  | WindowScale u8
  | Timestamp u32 u32
  | SackPermitted
  | Sack "u8 list"
  | Unknown u8 "u8 list"

section \<open>Parser\<close>

record tcp_options_parser =
  op_data :: "u8 list"
  op_pos :: nat

definition options_parser_new :: "u8 list \<Rightarrow> tcp_options_parser" where
  "options_parser_new bytes = \<lparr>op_data = bytes, op_pos = 0\<rparr>"

definition decode_option :: "u8 \<Rightarrow> nat \<Rightarrow> u8 list \<Rightarrow> tcp_option" where
  "decode_option kind len opt_data =
     (if kind = TCP_OPT_MSS \<and> len = 4 then Mss (u16_from_be (opt_data ! 0) (opt_data ! 1))
      else if kind = TCP_OPT_WINDOW_SCALE \<and> len = 3 then WindowScale (opt_data ! 0)
      else if kind = TCP_OPT_TIMESTAMP \<and> len = 10 \<and> length opt_data = 8
        then Timestamp (u32_from_be (opt_data ! 0) (opt_data ! 1) (opt_data ! 2) (opt_data ! 3))
                       (u32_from_be (opt_data ! 4) (opt_data ! 5) (opt_data ! 6) (opt_data ! 7))
      else if kind = TCP_OPT_SACK_PERMITTED \<and> len = 2 then SackPermitted
      else if kind = TCP_OPT_SACK \<and> len \<ge> 2 \<and> (len - 2) mod 8 = 0 then Sack opt_data
      else Unknown kind opt_data)"

definition options_next :: "tcp_options_parser \<Rightarrow> tcp_option option \<times> tcp_options_parser" where
  "options_next p =
     (let n = length (op_data p); pos = op_pos p in
      if pos \<ge> n then (None, p)
      else let kind = op_data p ! pos in
        if kind = TCP_OPT_EOL then (Some EndOfList, p\<lparr>op_pos := n\<rparr>)
        else if kind = TCP_OPT_NOP then (Some NoOp, p\<lparr>op_pos := pos + 1\<rparr>)
        else if pos + 1 \<ge> n then (None, p\<lparr>op_pos := n\<rparr>)
        else let len = unat (op_data p ! (pos + 1)) in
          if len < 2 \<or> pos + len > n then (None, p\<lparr>op_pos := n\<rparr>)
          else (Some (decode_option kind len (slice (op_data p) (pos + 2) (pos + len))),
                p\<lparr>op_pos := pos + len\<rparr>))"

text \<open>A \<open>for\<close> loop over the iterator runs \<open>next\<close> until it returns \<open>None\<close>.\<close>

lemma options_next_progress:
  assumes "options_next p = (Some opt, p')"
  shows "op_data p' = op_data p \<and> op_pos p < length (op_data p) \<and> op_pos p < op_pos p'"
  using assms by (auto simp: options_next_def Let_def split: if_splits)

function options_collect :: "tcp_options_parser \<Rightarrow> tcp_option list" where
  "options_collect p =
     (case options_next p of (None, _) \<Rightarrow> [] | (Some opt, p') \<Rightarrow> opt # options_collect p')"
  by pat_completeness auto
termination
  by (relation "measure (\<lambda>p. length (op_data p) - op_pos p)")
    (auto dest!: options_next_progress [OF sym])

declare options_collect.simps [simp del]

definition parse_options :: "u8 list \<Rightarrow> tcp_option list" where
  "parse_options bytes = options_collect (options_parser_new bytes)"

section \<open>Writer\<close>

record tcp_options_writer =
  ow_buf :: "u8 list"
  ow_len :: nat

definition options_writer_new :: tcp_options_writer where
  "options_writer_new = \<lparr>ow_buf = replicate 40 0, ow_len = 0\<rparr>"

text \<open>Stores at the consecutive indices from \<open>len\<close> on; the first one out of the array panics.\<close>

definition ow_put :: "tcp_options_writer \<Rightarrow> u8 list \<Rightarrow> tcp_options_writer option" where
  "ow_put w bytes =
     (if ow_len w + length bytes \<le> length (ow_buf w)
      then Some (w\<lparr>ow_buf := copy_into (ow_buf w) (ow_len w) bytes, ow_len := ow_len w + length bytes\<rparr>)
      else None)"

definition push_mss :: "tcp_options_writer \<Rightarrow> u16 \<Rightarrow> tcp_options_writer option" where
  "push_mss w mss = ow_put w [TCP_OPT_MSS, 4, ucast (drop_bit 8 mss), ucast mss]"

definition push_window_scale :: "tcp_options_writer \<Rightarrow> u8 \<Rightarrow> tcp_options_writer option" where
  "push_window_scale w shift = ow_put w [TCP_OPT_WINDOW_SCALE, 3, shift]"

definition push_timestamp :: "tcp_options_writer \<Rightarrow> u32 \<Rightarrow> u32 \<Rightarrow> tcp_options_writer option" where
  "push_timestamp w tsval tsecr =
     ow_put w ([TCP_OPT_NOP, TCP_OPT_NOP, TCP_OPT_TIMESTAMP, 10] @ u32_to_be tsval @ u32_to_be tsecr)"

definition push_sack_permitted :: "tcp_options_writer \<Rightarrow> tcp_options_writer option" where
  "push_sack_permitted w =
     (if ow_len w + 4 > length (ow_buf w) then Some w
      else ow_put w [TCP_OPT_NOP, TCP_OPT_NOP, TCP_OPT_SACK_PERMITTED, 2])"

fun put_sack_blocks :: "tcp_options_writer \<Rightarrow> sack_block list \<Rightarrow> tcp_options_writer option" where
  "put_sack_blocks w [] = Some w"
| "put_sack_blocks w (b # bs) =
     do { w' \<leftarrow> ow_put w (u32_to_be (sb_left b) @ u32_to_be (sb_right b)); put_sack_blocks w' bs }"

definition push_sack_limited ::
  "tcp_options_writer \<Rightarrow> sack_block list \<Rightarrow> nat \<Rightarrow> tcp_options_writer option" where
  "push_sack_limited w blocks budget =
     (let align = (4 - ow_len w mod 4) mod 4;
          avail = budget - align
      in if avail < 10 then Some w
         else let max_n = min (min ((avail - 2) div 8) 4) (length blocks)
              in if max_n = 0 then Some w
                 else let need = align + 2 + 8 * max_n
                      in if ow_len w + need > length (ow_buf w) then Some w
                         else do {
                           w1 \<leftarrow> ow_put w (replicate align TCP_OPT_NOP);
                           w2 \<leftarrow> ow_put w1 [TCP_OPT_SACK, of_nat (2 + 8 * max_n)];
                           put_sack_blocks w2 (take max_n blocks) })"

function writer_pad :: "tcp_options_writer \<Rightarrow> tcp_options_writer option" where
  "writer_pad w =
     (if ow_len w mod 4 = 0 then Some w
      else case ow_put w [TCP_OPT_NOP] of None \<Rightarrow> None | Some w' \<Rightarrow> writer_pad w')"
  by pat_completeness auto
termination
  by (relation "measure (\<lambda>w. length (ow_buf w) - ow_len w)")
    (auto simp: ow_put_def split: if_splits)

declare writer_pad.simps [simp del]

definition writer_finish :: "tcp_options_writer \<Rightarrow> u8 list option" where
  "writer_finish w = map_option (\<lambda>w'. take (ow_len w') (ow_buf w')) (writer_pad w)"

section \<open>The parser does not depend on what precedes its position\<close>

lemma slice_append_shift: "slice (xs @ ys) (length xs + a) (length xs + b) = slice ys a b"
  by (simp add: slice_def)

lemma options_next_shift:
  "options_next \<lparr>op_data = xs @ ys, op_pos = length xs + k\<rparr> =
     (case options_next \<lparr>op_data = ys, op_pos = k\<rparr> of
        (r, p) \<Rightarrow> (r, \<lparr>op_data = xs @ ys, op_pos = length xs + op_pos p\<rparr>))"
  using slice_append_shift [of xs ys "k + 2"]
  by (auto simp: options_next_def Let_def nth_append add.assoc)

lemma options_collect_shift:
  "options_collect \<lparr>op_data = xs @ ys, op_pos = length xs + k\<rparr> =
   options_collect \<lparr>op_data = ys, op_pos = k\<rparr>"
proof (induction "length ys - k" arbitrary: k rule: less_induct)
  case less
  show ?case
  proof (cases "options_next \<lparr>op_data = ys, op_pos = k\<rparr>")
    case (Pair r p)
    show ?thesis
    proof (cases r)
      case None
      with Pair show ?thesis
        by (simp add: options_collect.simps [of "\<lparr>op_data = xs @ ys, op_pos = length xs + k\<rparr>"]
            options_collect.simps [of "\<lparr>op_data = ys, op_pos = k\<rparr>"] options_next_shift)
    next
      case (Some opt)
      then have step: "op_data p = ys" "k < length ys" "k < op_pos p"
        using options_next_progress [of "\<lparr>op_data = ys, op_pos = k\<rparr>" opt p] Pair by simp_all
      then have "p = \<lparr>op_data = ys, op_pos = op_pos p\<rparr>" by simp
      moreover have "options_collect \<lparr>op_data = xs @ ys, op_pos = length xs + op_pos p\<rparr> =
          options_collect \<lparr>op_data = ys, op_pos = op_pos p\<rparr>"
        using step by (intro less) simp
      ultimately show ?thesis
        using Pair Some
        by (simp add: options_collect.simps [of "\<lparr>op_data = xs @ ys, op_pos = length xs + k\<rparr>"]
            options_collect.simps [of "\<lparr>op_data = ys, op_pos = k\<rparr>"] options_next_shift)
    qed
  qed
qed

lemma options_collect_at: 
  "length xs = k \<Longrightarrow> options_collect \<lparr>op_data = xs @ ys, op_pos = k\<rparr> = parse_options ys"
  using options_collect_shift [of xs ys 0] by (simp add: parse_options_def options_parser_new_def)

lemma parse_options_Nil [simp]: "parse_options [] = []"
  by (simp add: parse_options_def options_parser_new_def options_collect.simps options_next_def)

lemma parse_options_NOP [simp]: "parse_options (TCP_OPT_NOP # rest) = NoOp # parse_options rest"
  using options_collect_at [of "[TCP_OPT_NOP]" 1 rest]
  by (simp add: parse_options_def options_parser_new_def options_collect.simps [of "\<lparr>op_data = _, op_pos = 0\<rparr>"]
      options_next_def opt_consts)

lemma parse_options_EOL: "parse_options (TCP_OPT_EOL # rest) = [EndOfList]"
  by (simp add: parse_options_def options_parser_new_def options_next_def
      options_collect.simps [of "\<lparr>op_data = _, op_pos = _\<rparr>"])

text \<open>A well-formed type-length-value option is read as one option, and parsing goes on behind it.\<close>

lemma parse_options_TLV:
  assumes "kind \<noteq> TCP_OPT_EOL" "kind \<noteq> TCP_OPT_NOP" "length val = unat len - 2" "2 \<le> unat len"
  shows "parse_options (kind # len # val @ rest) = decode_option kind (unat len) val # parse_options rest"
proof -
  let ?p = "\<lparr>op_data = kind # len # val @ rest, op_pos = 0\<rparr>"
  have sl: "slice (kind # len # val @ rest) 2 (unat len) = val"
    using assms(3,4) by (simp add: slice_def)
  have "options_next ?p = (Some (decode_option kind (unat len) val),
      \<lparr>op_data = kind # len # val @ rest, op_pos = unat len\<rparr>)"
    using assms sl by (simp add: options_next_def Let_def numeral_2_eq_2)
  then have "options_collect ?p = decode_option kind (unat len) val #
      options_collect \<lparr>op_data = kind # len # val @ rest, op_pos = unat len\<rparr>"
    by (simp add: options_collect.simps [of ?p])
  also have "options_collect \<lparr>op_data = kind # len # val @ rest, op_pos = unat len\<rparr> = parse_options rest"
    using options_collect_at [of "kind # len # val" "unat len" rest] assms(3,4) by simp
  finally show ?thesis by (simp add: parse_options_def options_parser_new_def)
qed

lemma parse_options_NOPs: "parse_options (replicate k TCP_OPT_NOP @ rest) = replicate k NoOp @ parse_options rest"
  by (induction k) simp_all

section \<open>The writer appends while its bytes fit\<close>

definition ow_inv :: "tcp_options_writer \<Rightarrow> bool" where
  "ow_inv w \<longleftrightarrow> length (ow_buf w) = 40 \<and> ow_len w \<le> 40"

definition ow_bytes :: "tcp_options_writer \<Rightarrow> u8 list" where
  "ow_bytes w = take (ow_len w) (ow_buf w)"

lemma options_writer_new_inv [simp]: "ow_inv options_writer_new" "ow_bytes options_writer_new = []"
  "ow_len options_writer_new = 0"
  by (simp_all add: ow_inv_def ow_bytes_def options_writer_new_def)

lemma length_ow_bytes: "ow_inv w \<Longrightarrow> length (ow_bytes w) = ow_len w"
  by (simp add: ow_inv_def ow_bytes_def)

lemma ow_put_Some:
  assumes "ow_inv w" "ow_len w + length bytes \<le> 40"
  obtains w' where "ow_put w bytes = Some w'" "ow_inv w'" "ow_bytes w' = ow_bytes w @ bytes"
    "ow_len w' = ow_len w + length bytes"
  using assms by (auto simp: ow_put_def ow_inv_def ow_bytes_def copy_into_def)

lemma put_sack_blocks_Some:
  assumes "ow_inv w" "ow_len w + 8 * length bs \<le> 40"
  obtains w' where "put_sack_blocks w bs = Some w'" "ow_inv w'"
    "ow_bytes w' = ow_bytes w @ concat (map (\<lambda>b. u32_to_be (sb_left b) @ u32_to_be (sb_right b)) bs)"
    "ow_len w' = ow_len w + 8 * length bs"
  using assms
proof (induction bs arbitrary: w thesis)
  case (Cons b bs)
  obtain w1 where w1: "ow_put w (u32_to_be (sb_left b) @ u32_to_be (sb_right b)) = Some w1" "ow_inv w1"
    "ow_bytes w1 = ow_bytes w @ u32_to_be (sb_left b) @ u32_to_be (sb_right b)" "ow_len w1 = ow_len w + 8"
    using ow_put_Some [of w "u32_to_be (sb_left b) @ u32_to_be (sb_right b)"] Cons.prems(2,3) by auto
  obtain w2 where "put_sack_blocks w1 bs = Some w2" "ow_inv w2"
    "ow_bytes w2 = ow_bytes w1 @ concat (map (\<lambda>b. u32_to_be (sb_left b) @ u32_to_be (sb_right b)) bs)"
    "ow_len w2 = ow_len w1 + 8 * length bs"
    using Cons.IH [of w1] w1(2,4) Cons.prems(3) by auto
  then show ?case using Cons.prems(1) [of w2] w1 by simp
qed simp

definition sack_bytes :: "sack_block list \<Rightarrow> u8 list" where
  "sack_bytes bs = concat (map (\<lambda>b. u32_to_be (sb_left b) @ u32_to_be (sb_right b)) bs)"

lemma length_sack_bytes [simp]: "length (sack_bytes bs) = 8 * length bs"
  by (induction bs) (simp_all add: sack_bytes_def)

definition sack_fit :: "tcp_options_writer \<Rightarrow> nat \<Rightarrow> sack_block list \<Rightarrow> nat" where
  "sack_fit w budget bs = min (min ((budget - (4 - ow_len w mod 4) mod 4 - 2) div 8) 4) (length bs)"

lemma push_sack_limited_Some:
  assumes "ow_inv w" "budget = 40 - ow_len w"
  obtains w' where "push_sack_limited w bs budget = Some w'" "ow_inv w'"
    "ow_bytes w' = (if sack_fit w budget bs = 0 then ow_bytes w
      else ow_bytes w @ replicate ((4 - ow_len w mod 4) mod 4) TCP_OPT_NOP @
        [TCP_OPT_SACK, of_nat (2 + 8 * sack_fit w budget bs)] @ sack_bytes (take (sack_fit w budget bs) bs))"
proof (cases "sack_fit w budget bs = 0")
  case True
  then have "push_sack_limited w bs budget = Some w"
    by (auto simp: push_sack_limited_def sack_fit_def Let_def min_def split: if_splits)
  with assms True that show ?thesis by auto
next
  case False
  define a where "a = (4 - ow_len w mod 4) mod 4"
  define n where "n = sack_fit w budget bs"
  have n: "n \<noteq> 0" "n = min (min ((budget - a - 2) div 8) 4) (length bs)"
    using False by (simp_all add: n_def a_def sack_fit_def)
  then have "n \<le> (budget - a - 2) div 8" by (metis le_trans min.cobounded1)
  then have "8 * n \<le> budget - a - 2" by (simp add: less_eq_div_iff_mult_less_eq mult.commute)
  then have avail: "\<not> budget - a < 10" "a + 2 + 8 * n \<le> budget" using n(1) by linarith+
  then have room: "ow_len w + (a + 2 + 8 * n) \<le> 40" "length (ow_buf w) = 40"
    using assms by (auto simp: ow_inv_def)
  obtain w1 where w1: "ow_put w (replicate a TCP_OPT_NOP) = Some w1" "ow_inv w1"
    "ow_bytes w1 = ow_bytes w @ replicate a TCP_OPT_NOP" "ow_len w1 = ow_len w + a"
    using ow_put_Some [OF assms(1), of "replicate a TCP_OPT_NOP"] room by auto
  obtain w2 where w2: "ow_put w1 [TCP_OPT_SACK, of_nat (2 + 8 * n)] = Some w2" "ow_inv w2"
    "ow_bytes w2 = ow_bytes w1 @ [TCP_OPT_SACK, of_nat (2 + 8 * n)]" "ow_len w2 = ow_len w + a + 2"
    using ow_put_Some [OF w1(2), of "[TCP_OPT_SACK, of_nat (2 + 8 * n)]"] w1(4) room by auto
  have "length (take n bs) = n" using n by simp
  then obtain w3 where w3: "put_sack_blocks w2 (take n bs) = Some w3" "ow_inv w3"
    "ow_bytes w3 = ow_bytes w2 @ sack_bytes (take n bs)"
    using put_sack_blocks_Some [OF w2(2), of "take n bs"] w2(4) room by (auto simp: sack_bytes_def)
  have "push_sack_limited w bs budget = Some w3"
    using avail room n(1) w1(1) w2(1) w3(1)
    unfolding push_sack_limited_def Let_def a_def [symmetric] n(2) [symmetric] by simp
  with w1(3) w2(3) w3 n(1) show ?thesis
    by (intro that [of w3]) (simp_all add: a_def n_def)
qed

lemma writer_finish_Some:
  assumes "ow_inv w"
  obtains k where "writer_finish w = Some (ow_bytes w @ replicate k TCP_OPT_NOP)"
    "(ow_len w + k) mod 4 = 0" "ow_len w + k \<le> 40"
  using assms
proof (induction "40 - ow_len w" arbitrary: w thesis rule: less_induct)
  case less
  show ?case
  proof (cases "ow_len w mod 4 = 0")
    case True
    with less.prems show ?thesis
      by (intro less.prems(1) [of 0]) (simp_all add: writer_finish_def writer_pad.simps [of w] ow_bytes_def ow_inv_def)
  next
    case False
    then have "ow_len w < 40" using less.prems(2) by (cases "ow_len w = 40") (auto simp: ow_inv_def)
    then obtain w1 where w1: "ow_put w [TCP_OPT_NOP] = Some w1" "ow_inv w1"
      "ow_bytes w1 = ow_bytes w @ [TCP_OPT_NOP]" "ow_len w1 = ow_len w + 1"
      using ow_put_Some [of w "[TCP_OPT_NOP]"] less.prems(2) by auto
    moreover have "writer_finish w = writer_finish w1"
      using False w1(1) by (simp add: writer_finish_def writer_pad.simps [of w])
    moreover have "40 - ow_len w1 < 40 - ow_len w" using w1(4) \<open>ow_len w < 40\<close> by simp
    then obtain k where "writer_finish w1 = Some (ow_bytes w1 @ replicate k TCP_OPT_NOP)"
      "(ow_len w1 + k) mod 4 = 0" "ow_len w1 + k \<le> 40"
      using less.hyps w1(2) by blast
    ultimately show ?thesis
      by (intro less.prems(1) [of "Suc k"]) simp_all
  qed
qed

section \<open>Reading options back\<close>

text \<open>\<open>find_timestamp\<close> of \<^verbatim>\<open>timestamp.rs\<close> and \<open>parse_sack_blocks\<close> of \<^verbatim>\<open>sack.rs\<close>: the array
  of four blocks and its count are the list of the blocks counted.\<close>

fun first_timestamp :: "tcp_option list \<Rightarrow> (u32 \<times> u32) option" where
  "first_timestamp [] = None"
| "first_timestamp (Timestamp tsval tsecr # _) = Some (tsval, tsecr)"
| "first_timestamp (_ # opts) = first_timestamp opts"

definition find_timestamp :: "u8 list \<Rightarrow> (u32 \<times> u32) option" where
  "find_timestamp options = first_timestamp (parse_options options)"

fun sack_chunks :: "u8 list \<Rightarrow> sack_block list \<Rightarrow> sack_block list" where
  "sack_chunks (c0 # c1 # c2 # c3 # c4 # c5 # c6 # c7 # rest) blocks =
     (if length blocks \<ge> 4 then blocks
      else let left = u32_from_be c0 c1 c2 c3; right = u32_from_be c4 c5 c6 c7
           in if seq_diff right left > 0
              then sack_chunks rest (blocks @ [\<lparr>sb_left = left, sb_right = right\<rparr>])
              else sack_chunks rest blocks)"
| "sack_chunks _ blocks = blocks"

fun first_sack :: "tcp_option list \<Rightarrow> sack_block list" where
  "first_sack [] = []"
| "first_sack (Sack raw # _) = sack_chunks raw []"
| "first_sack (_ # opts) = first_sack opts"

definition parse_sack_blocks :: "u8 list \<Rightarrow> sack_block list" where
  "parse_sack_blocks options = first_sack (parse_options options)"

text \<open>\<open>parses bytes opts\<close>: whatever follows them, \<open>bytes\<close> are read as \<open>opts\<close>.\<close>

definition parses :: "u8 list \<Rightarrow> tcp_option list \<Rightarrow> bool" where
  "parses bytes opts \<longleftrightarrow> (\<forall>rest. parse_options (bytes @ rest) = opts @ parse_options rest)"

named_theorems parses_intros

lemma parses_Nil [parses_intros]: "parses [] []"
  by (simp add: parses_def)

lemma parses_append: "parses a os \<Longrightarrow> parses b os' \<Longrightarrow> parses (a @ b) (os @ os')"
  by (simp add: parses_def)

lemma parses_whole: "parses bytes opts \<Longrightarrow> parse_options bytes = opts"
  unfolding parses_def by (metis append_Nil2 parse_options_Nil)

lemma parses_NOPs [parses_intros]: "parses (replicate k TCP_OPT_NOP) (replicate k NoOp)"
  by (simp add: parses_def parse_options_NOPs)

lemma parses_mss [parses_intros]:
  "parses [TCP_OPT_MSS, 4, ucast (drop_bit 8 mss), ucast mss] [Mss mss]"
  using parse_options_TLV [of TCP_OPT_MSS "[ucast (drop_bit 8 mss), ucast mss]" 4]
  by (simp add: parses_def decode_option_def opt_consts u16_be_roundtrip)

lemma parses_window_scale [parses_intros]: "parses [TCP_OPT_WINDOW_SCALE, 3, shift] [WindowScale shift]"
  using parse_options_TLV [of TCP_OPT_WINDOW_SCALE "[shift]" 3]
  by (simp add: parses_def decode_option_def opt_consts)

lemma parses_sack_permitted [parses_intros]: "parses [TCP_OPT_SACK_PERMITTED, 2] [SackPermitted]"
  using parse_options_TLV [of TCP_OPT_SACK_PERMITTED "[]" 2]
  by (simp add: parses_def decode_option_def opt_consts)

lemma parses_timestamp [parses_intros]:
  "parses ([TCP_OPT_TIMESTAMP, 10] @ u32_to_be tsval @ u32_to_be tsecr) [Timestamp tsval tsecr]"
  using parse_options_TLV [of TCP_OPT_TIMESTAMP "u32_to_be tsval @ u32_to_be tsecr" 10]
  by (simp add: parses_def decode_option_def opt_consts u32_to_be_def u32_be_roundtrip)

lemma parses_sack [parses_intros]:
  assumes "length bs \<le> 4"
  shows "parses ([TCP_OPT_SACK, of_nat (2 + 8 * length bs)] @ sack_bytes bs) [Sack (sack_bytes bs)]"
proof -
  have len: "unat (of_nat (2 + 8 * length bs) :: u8) = 2 + 8 * length bs"
    using assms by (intro unat_of_nat_len) simp
  show ?thesis
    using parse_options_TLV [of TCP_OPT_SACK "sack_bytes bs" "of_nat (2 + 8 * length bs)"]
    unfolding parses_def len by (simp add: decode_option_def opt_consts)
qed

lemma sack_chunks_bytes:
  assumes "\<forall>b\<in>set bs. 0 < seq_diff (sb_right b) (sb_left b)" "length acc + length bs \<le> 4"
  shows "sack_chunks (sack_bytes bs) acc = acc @ bs"
  using assms
  by (induction bs arbitrary: acc) (simp_all add: sack_bytes_def u32_to_be_def u32_be_roundtrip)

end
