(* ===== verification/Tcp_Types.thy ===== *)
theory Tcp_Types
  imports Clock_Time Tcp_Options Tcp_Receive_Buffer
begin

text \<open>
  The core TCP types of \<^verbatim>\<open>kernel/src/driver/net/proto/tcp/types.rs\<close> and the state structs of the
  modules it groups (\<^verbatim>\<open>abc.rs\<close>, \<^verbatim>\<open>cc/\<close>, \<^verbatim>\<open>cwv.rs\<close>, \<^verbatim>\<open>ecn.rs\<close>, \<^verbatim>\<open>eifel.rs\<close>, \<^verbatim>\<open>frto.rs\<close>,
  \<^verbatim>\<open>pacing.rs\<close>, \<^verbatim>\<open>sack.rs\<close>, \<^verbatim>\<open>timestamp.rs\<close>): every struct is a record, every enum a datatype.
  Fields of the control block keep their names; the fields of a sub-struct carry its prefix.
  The \<open>event\<close> is the number of \<open>notify\<close> calls, the \<open>handshake_gate\<close> whether it is open. The
  \<open>socket\<close> field only addresses outgoing segments and is represented by the \<open>tuple\<close>.
\<close>

section \<open>State of the sub-modules\<close>

record abc_state =
  abc_l_smss :: u8
  abc_ca_accum :: u32
  abc_ca_accum_raw :: u32
  abc_bytes_credited :: u64
  abc_ss_capped :: u32
  abc_ca_increments :: u32

definition abc_new :: abc_state where
  "abc_new = \<lparr>abc_l_smss = 2, abc_ca_accum = 0, abc_ca_accum_raw = 0, abc_bytes_credited = 0,
     abc_ss_capped = 0, abc_ca_increments = 0\<rparr>"

definition clear_accumulators :: "abc_state \<Rightarrow> abc_state" where
  "clear_accumulators a = a\<lparr>abc_ca_accum := 0, abc_ca_accum_raw := 0\<rparr>"

record reno_state =
  reno_recover :: u32

record cubic_state =
  cubic_w_max :: u32
  cubic_epoch_start :: instant
  cubic_k_ns :: u64
  cubic_beta :: u32
  cubic_c :: u32
  cubic_last_max_cwnd :: u32
  cubic_recover :: u32

datatype congestion_control = Reno reno_state | Cubic cubic_state

record tcp_ecn_state =
  ecn_enabled :: bool
  ecn_echo_pending :: bool
  ecn_cwr_pending :: bool
  ecn_ce_seen :: u32
  ecn_ece_tx :: u32
  ecn_ece_rx :: u32
  ecn_md :: u32
  ecn_cwr_tx :: u32

definition ecn_new :: tcp_ecn_state where
  "ecn_new = \<lparr>ecn_enabled = False, ecn_echo_pending = False, ecn_cwr_pending = False,
     ecn_ce_seen = 0, ecn_ece_tx = 0, ecn_ece_rx = 0, ecn_md = 0, ecn_cwr_tx = 0\<rparr>"

record new_cwv_state =
  cwv_enabled :: bool
  cwv_validated :: bool
  cwv_pipe_max :: u32
  cwv_last_data_tx :: instant
  cwv_app_limited_since :: "instant option"
  cwv_cwnd_raw :: u32
  cwv_no_increase :: u32
  cwv_idle_reduce :: u32
  cwv_applim_reduce :: u32

definition cwv_new :: "instant \<Rightarrow> bool \<Rightarrow> u32 \<Rightarrow> new_cwv_state" where
  "cwv_new now is_enabled initial_cwnd =
     \<lparr>cwv_enabled = is_enabled, cwv_validated = True, cwv_pipe_max = 0, cwv_last_data_tx = now,
      cwv_app_limited_since = None, cwv_cwnd_raw = initial_cwnd, cwv_no_increase = 0,
      cwv_idle_reduce = 0, cwv_applim_reduce = 0\<rparr>"

record eifel_state =
  eifel_pipe_prev :: "u32 option"
  eifel_retransmit_ts :: "u32 option"
  eifel_snd_max :: "u32 option"
  eifel_bytes_acked :: u32
  eifel_spurious_count :: u32

definition eifel_new :: eifel_state where
  "eifel_new = \<lparr>eifel_pipe_prev = None, eifel_retransmit_ts = None, eifel_snd_max = None,
     eifel_bytes_acked = 0, eifel_spurious_count = 0\<rparr>"

datatype retransmit_cause = Rto | FastRetransmit | PartialAck

datatype frto_phase = Idle | Step1 | Step2

record frto_state =
  frto_ph :: frto_phase
  frto_recover_nxt :: u32
  frto_rto_retrans_end :: u32
  frto_prev_cwnd :: u32
  frto_prev_ssthresh :: u32
  frto_spurious_count :: u32
  frto_declared_loss_count :: u32

definition frto_new :: frto_state where
  "frto_new = \<lparr>frto_ph = Idle, frto_recover_nxt = 0, frto_rto_retrans_end = 0, frto_prev_cwnd = 0,
     frto_prev_ssthresh = 0, frto_spurious_count = 0, frto_declared_loss_count = 0\<rparr>"

definition frto_clear :: "frto_state \<Rightarrow> frto_state" where
  "frto_clear f = f\<lparr>frto_ph := Idle\<rparr>"

record pacing_state =
  pacing_enabled :: bool
  pacing_next_tx :: "instant option"
  pacing_rate_bps :: u64
  pacing_last_gap :: duration
  pacing_held_count :: u32
  pacing_paced_count :: u32

definition pacing_new :: "bool \<Rightarrow> pacing_state" where
  "pacing_new is_enabled =
     \<lparr>pacing_enabled = is_enabled, pacing_next_tx = None, pacing_rate_bps = 0,
      pacing_last_gap = from_nanos 0, pacing_held_count = 0, pacing_paced_count = 0\<rparr>"

definition clear_deadline :: "pacing_state \<Rightarrow> pacing_state" where
  "clear_deadline p = p\<lparr>pacing_next_tx := None\<rparr>"

record rtt_probe =
  probe_seq :: u32
  probe_end :: u32
  probe_sent_at :: instant

record rtt_measurement_state =
  rtt_probe :: "rtt_probe option"
  rtt_last_probe_sample :: "duration option"
  rtt_last_ts_sample :: "duration option"

definition rtt_new :: rtt_measurement_state where
  "rtt_new = \<lparr>rtt_probe = None, rtt_last_probe_sample = None, rtt_last_ts_sample = None\<rparr>"

record tcp_timestamp_state =
  ts_enabled :: bool
  ts_recent :: u32
  ts_last_ack_ts_seq :: u32
  ts_recent_age :: instant
  ts_last_tx_tsval :: u32
  ts_offset :: u32

text \<open>\<open>rnd\<close> is what the processor's random number instruction returned, if it did.\<close>

definition ts_new :: "instant \<Rightarrow> u32 option \<Rightarrow> tcp_timestamp_state" where
  "ts_new now rnd =
     \<lparr>ts_enabled = False, ts_recent = 0, ts_last_ack_ts_seq = 0, ts_recent_age = now,
      ts_last_tx_tsval = 0, ts_offset = (case rnd of Some r \<Rightarrow> r | None \<Rightarrow> 0xA5A55A5A)\<rparr>"

definition SACK_RX_RANGES_MAX :: nat where "SACK_RX_RANGES_MAX = 8"

record sack_rack_state =
  sack_enabled :: bool
  sack_rx_ranges :: "sack_block list"
  sack_rx_range_len :: nat
  sack_rx_recent :: "sack_block option"
  sack_high_sacked :: u32
  sack_undo_cwnd :: u32
  sack_undo_ssthresh :: u32
  sack_undo_pending :: bool
  rack_min_rtt :: duration
  rack_xmit_ts :: instant
  rack_reorder_window :: duration
  rack_reorder_window_persist :: u8
  tlp_deadline :: "instant option"
  tlp_high_rxt :: u32
  tlp_is_retrans :: bool
  sack_blocks_rx :: u32
  sack_blocks_tx :: u32
  sack_islost_marks :: u32
  sack_rack_marks :: u32
  sack_tlp_probes :: u32
  sack_dsack_undo_count :: u32
  sack_dsack_seen :: u32
  sack_rexmit_holes :: u32

definition sack_new :: "instant \<Rightarrow> sack_rack_state" where
  "sack_new now =
     \<lparr>sack_enabled = False, sack_rx_ranges = replicate SACK_RX_RANGES_MAX sack_block_default,
      sack_rx_range_len = 0, sack_rx_recent = None, sack_high_sacked = 0, sack_undo_cwnd = 0,
      sack_undo_ssthresh = 0, sack_undo_pending = False, rack_min_rtt = from_secs 60,
      rack_xmit_ts = now, rack_reorder_window = from_nanos 0, rack_reorder_window_persist = 0,
      tlp_deadline = None, tlp_high_rxt = 0, tlp_is_retrans = False, sack_blocks_rx = 0,
      sack_blocks_tx = 0, sack_islost_marks = 0, sack_rack_marks = 0, sack_tlp_probes = 0,
      sack_dsack_undo_count = 0, sack_dsack_seen = 0, sack_rexmit_holes = 0\<rparr>"

section \<open>The control block\<close>

datatype tcp_state =
    Closed | Listen | SynSent | SynReceived | Established | FinWait1 | FinWait2
  | CloseWait | Closing | LastAck | TimeWait

datatype tcp_error = ConnectionRefused | Timeout | NoRoute | ConnectionReset | NotConnected

record connection_tuple =
  local_ip :: "u8 list"
  local_port :: u16
  remote_ip :: "u8 list"
  remote_port :: u16

record unacked_segment =
  seg_seq :: u32
  seg_data :: "u8 list"
  seg_flags :: u8
  seg_send_time :: instant
  seg_retries :: u32
  seg_retransmit_tsval :: "u32 option"
  seg_sacked :: bool
  seg_lost :: bool
  seg_xmit_mstamp :: instant
  seg_retrans :: bool

record tcp_control_block =
  snd_una :: u32
  snd_nxt :: u32
  snd_wnd :: u32
  snd_wl1 :: u32
  snd_wl2 :: u32
  iss :: u32
  rcv_nxt :: u32
  rcv_wnd :: u16
  irs :: u32
  state :: tcp_state
  tuple :: connection_tuple
  receive_buffer :: tcp_receive_buffer
  send_buffer :: "u8 list"
  event :: nat
  handshake_gate :: bool
  ack_needed :: bool
  ack_deadline :: "instant option"
  unacked_segments :: u8
  retransmission_queue :: "unacked_segment list"
  rto :: duration
  srtt :: "duration option"
  rttvar :: "duration option"
  rtt_m :: rtt_measurement_state
  persist_timer :: "instant option"
  persist_backoff :: duration
  last_rx_time :: instant
  keepalive_deadline :: "instant option"
  timewait_deadline :: "instant option"
  keepalive_count :: u32
  last_error :: "tcp_error option"
  nagle_enabled :: bool
  last_ack_received :: u32
  duplicate_ack_count :: u32
  congestion_control :: congestion_control
  cwnd :: u32
  ssthresh :: u32
  in_fast_recovery :: bool
  max_rcv_wnd :: u32
  peer_mss :: u16
  rcv_wscale :: u8
  snd_wscale :: u8
  wnd_scale_enabled :: bool
  ts :: tcp_timestamp_state
  eifel :: eifel_state
  frto :: frto_state
  ecn :: tcp_ecn_state
  cwv :: new_cwv_state
  abc :: abc_state
  pacing :: pacing_state
  sack :: sack_rack_state
  effective_mss :: u32

record tcp_session_settings =
  set_nagle_enabled :: bool
  set_recv_buf_size :: nat
  set_rcv_wscale :: u8
  set_cwv_enabled :: bool
  set_pacing_enabled :: bool
  set_wnd_scale_enabled :: bool
  set_sack_enabled :: bool
  set_timestamps_enabled :: bool
  set_ecn_enabled :: bool
  set_receive_buffer_size :: nat

definition MSS :: nat where "MSS = 1460"
definition DEFAULT_MSS :: u16 where "DEFAULT_MSS = 1460"
definition DEFAULT_RCV_WSCALE :: u8 where "DEFAULT_RCV_WSCALE = 7"
definition INITIAL_CWND :: u32 where "INITIAL_CWND = 1512"
definition INITIAL_SSTHRESH :: u32 where "INITIAL_SSTHRESH = 0x7fffffff"
definition DEFAULT_TCP_RECV_BUFFER_BYTES :: nat where "DEFAULT_TCP_RECV_BUFFER_BYTES = 4096"
definition MAX_TCP_RECV_BUFFER_BYTES :: nat where "MAX_TCP_RECV_BUFFER_BYTES = 256 * 1024"

definition settings_default :: tcp_session_settings where
  "settings_default = \<lparr>set_nagle_enabled = True, set_recv_buf_size = 4096,
     set_rcv_wscale = DEFAULT_RCV_WSCALE, set_cwv_enabled = True, set_pacing_enabled = True,
     set_wnd_scale_enabled = True, set_sack_enabled = True, set_timestamps_enabled = True,
     set_ecn_enabled = True, set_receive_buffer_size = 4096\<rparr>"

definition clamp_tcp_receive_buffer_bytes :: "nat \<Rightarrow> nat" where
  "clamp_tcp_receive_buffer_bytes requested =
     (let cap = (if requested > 0 then requested else DEFAULT_TCP_RECV_BUFFER_BYTES)
      in if cap > MAX_TCP_RECV_BUFFER_BYTES then MAX_TCP_RECV_BUFFER_BYTES
         else max cap DEFAULT_TCP_RECV_BUFFER_BYTES)"

definition tcb_new ::
  "instant \<Rightarrow> u32 option \<Rightarrow> u32 \<Rightarrow> connection_tuple \<Rightarrow> tcp_session_settings \<Rightarrow> tcp_control_block" where
  "tcb_new now rnd isn connection settings =
     \<lparr>snd_una = isn, snd_nxt = isn, snd_wnd = 0, snd_wl1 = 0, snd_wl2 = 0, iss = isn,
      rcv_nxt = 0, rcv_wnd = 0, irs = 0, state = Closed, tuple = connection,
      receive_buffer = rb_new (clamp_tcp_receive_buffer_bytes (set_receive_buffer_size settings)),
      send_buffer = [], event = 0, handshake_gate = False, ack_needed = False, ack_deadline = None,
      unacked_segments = 0, retransmission_queue = [], rto = from_secs 1, srtt = None, rttvar = None,
      rtt_m = rtt_new, persist_timer = None, persist_backoff = from_millis 500, last_rx_time = now,
      keepalive_deadline = None, timewait_deadline = None, keepalive_count = 0, last_error = None,
      nagle_enabled = set_nagle_enabled settings, last_ack_received = 0, duplicate_ack_count = 0,
      congestion_control = Cubic \<lparr>cubic_w_max = 0, cubic_epoch_start = now, cubic_k_ns = 0,
        cubic_beta = 717, cubic_c = 410, cubic_last_max_cwnd = 0, cubic_recover = 0\<rparr>,
      cwnd = INITIAL_CWND, ssthresh = INITIAL_SSTHRESH, in_fast_recovery = False, max_rcv_wnd = 0,
      peer_mss = DEFAULT_MSS, rcv_wscale = 0, snd_wscale = 0, wnd_scale_enabled = False,
      ts = ts_new now rnd, eifel = eifel_new, frto = frto_new, ecn = ecn_new,
      cwv = cwv_new now (set_cwv_enabled settings) INITIAL_CWND, abc = abc_new,
      pacing = pacing_new (set_pacing_enabled settings), sack = sack_new now,
      effective_mss = of_nat MSS\<rparr>"

end
