(* ===== verification/Tcp_Control_Block.thy ===== *)
theory Tcp_Control_Block
  imports Tcp_Types
begin

text \<open>
  The methods of \<open>TcpControlBlock\<close>, \<open>UnackedSegment\<close>, \<open>TcpSessionSettings\<close> and
  \<open>TcpDatagramHeader\<close> in \<^verbatim>\<open>kernel/src/driver/net/proto/tcp/types.rs\<close>, with the wire form of the
  header. The lemmas relate the wrap-around tests on sequence numbers to distances modulo
  \<open>2 ^ 32\<close>.
\<close>

section \<open>Segments and header\<close>

definition FIN :: u8 where "FIN = 0x01"
definition SYN :: u8 where "SYN = 0x02"
definition RST :: u8 where "RST = 0x04"
definition PSH :: u8 where "PSH = 0x08"
definition ACK :: u8 where "ACK = 0x10"
definition URG :: u8 where "URG = 0x20"
definition ECE :: u8 where "ECE = 0x40"
definition CWR :: u8 where "CWR = 0x80"

lemmas flag_defs = FIN_def SYN_def RST_def PSH_def ACK_def URG_def ECE_def CWR_def

definition seg_is_syn :: "unacked_segment \<Rightarrow> bool" where
  "seg_is_syn s \<longleftrightarrow> seg_flags s AND SYN \<noteq> 0"

definition seg_is_fin :: "unacked_segment \<Rightarrow> bool" where
  "seg_is_fin s \<longleftrightarrow> seg_flags s AND FIN \<noteq> 0"

definition end_seq :: "unacked_segment \<Rightarrow> u32" where
  "end_seq s = seg_seq s + (if seg_is_syn s \<or> seg_is_fin s then 1 else of_nat (length (seg_data s)))"

record tcp_datagram_header =
  source_port :: u16
  dest_port :: u16
  sequence_number :: u32
  ack_number :: u32
  offset_res :: u8
  flags :: u8
  window_size :: u16
  checksum :: u16
  urgent_pointer :: u16

definition set_offset :: "tcp_datagram_header \<Rightarrow> u8 \<Rightarrow> tcp_datagram_header option" where
  "set_offset h off =
     (if 5 \<le> off \<and> off \<le> 15
      then Some (h\<lparr>offset_res := (offset_res h AND 0x0F) OR push_bit 4 off\<rparr>)
      else None)"

definition get_offset :: "tcp_datagram_header \<Rightarrow> u8" where
  "get_offset h = drop_bit 4 (offset_res h) AND 0x0F"

definition header_len_bytes :: "tcp_datagram_header \<Rightarrow> nat" where
  "header_len_bytes h = unat (get_offset h) * 4"

definition set_flag :: "tcp_datagram_header \<Rightarrow> u8 \<Rightarrow> bool \<Rightarrow> tcp_datagram_header" where
  "set_flag h m v = h\<lparr>flags := (if v then flags h OR m else flags h AND NOT m)\<rparr>"

definition get_flag :: "tcp_datagram_header \<Rightarrow> u8 \<Rightarrow> bool" where
  "get_flag h m \<longleftrightarrow> flags h AND m \<noteq> 0"

definition set_flags :: "tcp_datagram_header \<Rightarrow> u8 \<Rightarrow> tcp_datagram_header" where
  "set_flags h f = h\<lparr>flags := f\<rparr>"

definition set_sequence_number :: "tcp_datagram_header \<Rightarrow> u32 \<Rightarrow> tcp_datagram_header" where
  "set_sequence_number h v = h\<lparr>sequence_number := v\<rparr>"

definition set_acknowledgement_number :: "tcp_datagram_header \<Rightarrow> u32 \<Rightarrow> tcp_datagram_header" where
  "set_acknowledgement_number h v = h\<lparr>ack_number := v\<rparr>"

definition is_syn :: "tcp_datagram_header \<Rightarrow> bool" where "is_syn h = get_flag h SYN"
definition is_ack :: "tcp_datagram_header \<Rightarrow> bool" where "is_ack h = get_flag h ACK"
definition is_fin :: "tcp_datagram_header \<Rightarrow> bool" where "is_fin h = get_flag h FIN"
definition is_rst :: "tcp_datagram_header \<Rightarrow> bool" where "is_rst h = get_flag h RST"

text \<open>The packed struct of big-endian fields as bytes, and back.\<close>

definition header_as_bytes :: "tcp_datagram_header \<Rightarrow> u8 list" where
  "header_as_bytes h =
     u16_to_be (source_port h) @ u16_to_be (dest_port h) @ u32_to_be (sequence_number h) @
     u32_to_be (ack_number h) @ [offset_res h, flags h] @ u16_to_be (window_size h) @
     u16_to_be (checksum h) @ u16_to_be (urgent_pointer h)"

definition header_read_from_prefix :: "u8 list \<Rightarrow> tcp_datagram_header option" where
  "header_read_from_prefix bs =
     (if length bs < 20 then None
      else Some \<lparr>source_port = u16_from_be (bs ! 0) (bs ! 1), dest_port = u16_from_be (bs ! 2) (bs ! 3),
        sequence_number = u32_from_be (bs ! 4) (bs ! 5) (bs ! 6) (bs ! 7),
        ack_number = u32_from_be (bs ! 8) (bs ! 9) (bs ! 10) (bs ! 11),
        offset_res = bs ! 12, flags = bs ! 13, window_size = u16_from_be (bs ! 14) (bs ! 15),
        checksum = u16_from_be (bs ! 16) (bs ! 17), urgent_pointer = u16_from_be (bs ! 18) (bs ! 19)\<rparr>)"

lemma length_header_as_bytes [simp]: "length (header_as_bytes h) = 20"
  by (simp add: header_as_bytes_def)

lemma header_roundtrip: "header_read_from_prefix (header_as_bytes h @ rest) = Some h"
  by (simp add: header_read_from_prefix_def header_as_bytes_def u16_to_be_def u32_to_be_def
      u16_be_roundtrip u32_be_roundtrip)

section \<open>Methods of the control block\<close>

definition recompute_effective_mss :: "tcp_control_block \<Rightarrow> tcp_control_block" where
  "recompute_effective_mss t =
     (let mss = min MSS (unat (peer_mss t));
          mss' = (if ts_enabled (ts t) then mss - TCP_TS_OPTION_OVERHEAD else mss)
      in t\<lparr>effective_mss := of_nat (max mss' 1)\<rparr>)"

definition effective_rcv_wnd :: "tcp_control_block \<Rightarrow> u32" where
  "effective_rcv_wnd t = of_nat (min (rb_free_space (receive_buffer t)) (unat (max_rcv_wnd t)))"

definition update_rcv_wnd_from_buffer :: "tcp_control_block \<Rightarrow> tcp_control_block" where
  "update_rcv_wnd_from_buffer t = t\<lparr>rcv_wnd := ucast (min (effective_rcv_wnd t) 0xFFFF)\<rparr>"

definition advertised_rcv_wnd_u16 :: "tcp_control_block \<Rightarrow> u16" where
  "advertised_rcv_wnd_u16 t =
     (let wnd = ucast (rcv_wnd t) :: u32
      in if wnd_scale_enabled t \<and> rcv_wscale t > 0
         then ucast (min (u32_shr wnd (rcv_wscale t)) 65535)
         else ucast (min wnd 65535))"

definition scale_peer_window :: "tcp_control_block \<Rightarrow> u16 \<Rightarrow> u32" where
  "scale_peer_window t wire_wnd =
     (if wnd_scale_enabled t \<and> snd_wscale t > 0
      then u32_shl (ucast wire_wnd) (snd_wscale t)
      else ucast wire_wnd)"

definition maybe_update_send_window ::
  "tcp_control_block \<Rightarrow> u32 \<Rightarrow> u32 \<Rightarrow> u16 \<Rightarrow> tcp_control_block" where
  "maybe_update_send_window t s a wire_wnd =
     (let seq_newer = seq_diff s (snd_wl1 t) > 0;
          ack_newer_same_seq = (snd_wl1 t = s \<and> seq_diff a (snd_wl2 t) \<ge> 0)
      in if seq_newer \<or> ack_newer_same_seq
         then t\<lparr>snd_wnd := scale_peer_window t wire_wnd, snd_wl1 := s, snd_wl2 := a\<rparr>
         else t)"

definition is_acceptable_ack :: "tcp_control_block \<Rightarrow> u32 \<Rightarrow> bool" where
  "is_acceptable_ack t a \<longleftrightarrow> a - snd_una t \<le> snd_nxt t - snd_una t"

definition is_in_receive_window :: "tcp_control_block \<Rightarrow> u32 \<Rightarrow> bool" where
  "is_in_receive_window t s =
     (let e = rcv_nxt t + ucast (rcv_wnd t)
      in if rcv_nxt t \<le> e then s \<ge> rcv_nxt t \<and> s < e else s \<ge> rcv_nxt t \<or> s < e)"

definition is_segment_acceptable :: "tcp_control_block \<Rightarrow> u32 \<Rightarrow> u32 \<Rightarrow> bool" where
  "is_segment_acceptable t s len =
     (if len = 0 then (if rcv_wnd t = 0 then s = rcv_nxt t else is_in_receive_window t s)
      else let seq_end = s + (len - 1)
           in is_in_receive_window t s \<or> is_in_receive_window t seq_end)"

definition can_send :: "tcp_control_block \<Rightarrow> u32 \<Rightarrow> bool" where
  "can_send t n =
     (let in_flight = snd_nxt t - snd_una t; total = in_flight + n
      in \<not> total < in_flight \<and> total \<le> snd_wnd t)"

definition handle_fin_flag :: "instant \<Rightarrow> tcp_control_block \<Rightarrow> tcp_control_block" where
  "handle_fin_flag now t =
     (let t1 = t\<lparr>rcv_nxt := rcv_nxt t + 1, ack_needed := True\<rparr>
      in case state t1 of
           Established \<Rightarrow> t1\<lparr>state := CloseWait, event := event t1 + 1\<rparr>
         | FinWait1 \<Rightarrow> t1\<lparr>state := Closing\<rparr>
         | FinWait2 \<Rightarrow> t1\<lparr>state := TimeWait, timewait_deadline := Some (instant_add now (from_secs 120))\<rparr>
         | _ \<Rightarrow> t1)"

definition flight_size_bytes :: "tcp_control_block \<Rightarrow> u32" where
  "flight_size_bytes t = snd_nxt t - snd_una t"

definition header_new :: "tcp_control_block \<Rightarrow> tcp_datagram_header" where
  "header_new t =
     (let h = \<lparr>source_port = local_port (tuple t), dest_port = remote_port (tuple t),
               sequence_number = snd_nxt t, ack_number = rcv_nxt t, offset_res = 0, flags = 0,
               window_size = advertised_rcv_wnd_u16 t, checksum = 0, urgent_pointer = 0\<rparr>
      in the (set_offset h 5))"

definition apply_receive_path :: "tcp_session_settings \<Rightarrow> tcp_control_block \<Rightarrow> tcp_control_block" where
  "apply_receive_path s t =
     (let buf_cap = max (set_recv_buf_size s) 1
      in update_rcv_wnd_from_buffer
           (t\<lparr>receive_buffer := rb_new buf_cap, max_rcv_wnd := of_nat buf_cap,
              rcv_wscale := set_rcv_wscale s, wnd_scale_enabled := set_wnd_scale_enabled s\<rparr>))"

section \<open>Sequence number tests\<close>

lemma is_in_receive_window_iff:
  "is_in_receive_window t s \<longleftrightarrow> unat (s - rcv_nxt t) < unat (rcv_wnd t)"
proof -
  have "unat (rcv_wnd t) < 65536" using unsigned_less [of "rcv_wnd t", where ?'a = nat] by simp
  then show ?thesis
    using u32_less [of s] u32_less [of "rcv_nxt t"]
    by (auto simp: is_in_receive_window_def Let_def word_le_nat_alt word_less_nat_alt unat_sub_wrap
        unat_add_wrap unat_ucast_u16_u32)
qed

lemma is_acceptable_ack_iff:
  "is_acceptable_ack t a \<longleftrightarrow> unat (a - snd_una t) \<le> unat (snd_nxt t - snd_una t)"
  by (simp add: is_acceptable_ack_def word_le_nat_alt)

text \<open>C25: for a segment no longer than the receive window, the two-ended test of
  \<open>is_segment_acceptable\<close> is exact: it accepts a non-empty segment if and only if at least one of
  its bytes lies in the window \<open>[RCV.NXT, RCV.NXT + RCV.WND)\<close>, sequence wrap-around included.\<close>

theorem segment_acceptable_iff:
  assumes "0 < len" "unat len \<le> unat (rcv_wnd t)"
  shows "is_segment_acceptable t s len \<longleftrightarrow>
    (\<exists>i < unat len. unat (s + of_nat i - rcv_nxt t) < unat (rcv_wnd t))"
proof -
  let ?d = "s - rcv_nxt t" and ?n = "unat len" and ?w = "unat (rcv_wnd t)"
  have w: "?w < 65536" using unsigned_less [of "rcv_wnd t", where ?'a = nat] by simp
  have shift: "unat (s + of_nat i - rcv_nxt t) =
      (if unat ?d + i < 4294967296 then unat ?d + i else unat ?d + i - 4294967296)" if "i < ?n" for i
  proof -
    have "s + of_nat i - rcv_nxt t = ?d + of_nat i" by simp
    moreover have "unat (of_nat i :: u32) = i" using that assms w by (intro unat_of_nat_len) simp
    ultimately show ?thesis by (simp only: unat_add_wrap)
  qed
  have pos: "0 < ?n" using assms(1) by (simp add: word_less_nat_alt)
  have last: "s + (len - 1) = s + of_nat (?n - 1)"
    using pos by (simp add: of_nat_diff)
  have "is_segment_acceptable t s len \<longleftrightarrow> unat (s + of_nat 0 - rcv_nxt t) < ?w \<or>
      unat (s + of_nat (?n - 1) - rcv_nxt t) < ?w"
    using assms(1) by (simp add: is_segment_acceptable_def Let_def is_in_receive_window_iff last word_gt_0)
  also have "\<dots> \<longleftrightarrow> (\<exists>i < ?n. unat (s + of_nat i - rcv_nxt t) < ?w)"
  proof
    assume "\<exists>i < ?n. unat (s + of_nat i - rcv_nxt t) < ?w"
    then obtain i where i: "i < ?n" "unat (s + of_nat i - rcv_nxt t) < ?w" by auto
    then show "unat (s + of_nat 0 - rcv_nxt t) < ?w \<or> unat (s + of_nat (?n - 1) - rcv_nxt t) < ?w"
      using assms(2) w pos u32_less [of ?d]
      unfolding shift [OF i(1)] shift [OF pos] by (subst shift) (auto split: if_splits)
  qed (use pos in \<open>auto intro: exI [of _ "0 :: nat"] exI [of _ "?n - 1"]\<close>)
  finally show ?thesis .
qed

text \<open>A block in the established state with its receive window wide open, used by the examples.\<close>

definition example_tuple :: connection_tuple where
  "example_tuple = \<lparr>local_ip = [10, 0, 0, 1], local_port = 80, remote_ip = [10, 0, 0, 2], remote_port = 5000\<rparr>"

definition example_tcb :: tcp_control_block where
  "example_tcb = (tcb_new 0 None 100 example_tuple settings_default)
     \<lparr>state := Established, rcv_nxt := 1000, rcv_wnd := 16\<rparr>"

lemma example_tcb_simps [simp]:
  "state example_tcb = Established" "rcv_nxt example_tcb = 1000" "rcv_wnd example_tcb = 16"
  "snd_una example_tcb = 100" "snd_nxt example_tcb = 100" "snd_wnd example_tcb = 0"
  "snd_wl1 example_tcb = 0" "snd_wl2 example_tcb = 0" "wnd_scale_enabled example_tcb = False"
  by (simp_all add: example_tcb_def tcb_new_def)

theorem segment_acceptable_iff_witness:
  "is_segment_acceptable example_tcb 995 10 \<longleftrightarrow>
     (\<exists>i < unat (10 :: u32). unat (995 + of_nat i - rcv_nxt example_tcb) < unat (rcv_wnd example_tcb))"
  using segment_acceptable_iff [of 10 example_tcb 995] by simp

text \<open>the comment on \<open>is_segment_acceptable\<close> asks only that a segment overlaps the window
  somewhere, but a segment that starts before the window and ends behind it is rejected: its first
  and its last byte are outside, although it carries every byte the window waits for.\<close>

theorem segment_covering_window_rejected:
  "\<not> is_segment_acceptable example_tcb 990 30 \<and>
   {s. is_in_receive_window example_tcb s} \<subseteq> {s. unat (s - 990) < 30}"
proof
  show "\<not> is_segment_acceptable example_tcb 990 30"
    by (simp add: is_segment_acceptable_def is_in_receive_window_def)
  show "{s. is_in_receive_window example_tcb s} \<subseteq> {s. unat (s - 990) < 30}"
    using u32_less by (auto simp: is_in_receive_window_iff unat_sub_wrap split: if_splits)
qed

text \<open>\<open>maybe_update_send_window\<close> is a newest-wins register: the recorded pair \<open>(WL1, WL2)\<close> never
  moves back in sequence order, and an advertisement older than the recorded one changes nothing.\<close>

theorem send_window_newest_wins:
  "let t' = maybe_update_send_window t s a w in
     seq_diff (snd_wl1 t') (snd_wl1 t) \<ge> 0 \<and>
     (snd_wl1 t' = snd_wl1 t \<longrightarrow> seq_diff (snd_wl2 t') (snd_wl2 t) \<ge> 0) \<and>
     (seq_diff s (snd_wl1 t) < 0 \<longrightarrow> t' = t) \<and>
     (s = snd_wl1 t \<and> seq_diff a (snd_wl2 t) < 0 \<longrightarrow> t' = t)"
  by (auto simp: maybe_update_send_window_def Let_def)

text \<open>a peer window advertised with a scale of at most 14, the cap the option parser applies, is
  the advertised value times the power of two, without overflow of the 32-bit window.\<close>

theorem scale_peer_window_exact:
  assumes "wnd_scale_enabled t" "unat (snd_wscale t) \<le> 14"
  shows "unat (scale_peer_window t w) = unat w * 2 ^ unat (snd_wscale t)"
proof -
  have "unat w * 2 ^ unat (snd_wscale t) < 65536 * 2 ^ 14"
  proof (rule mult_less_le_imp_less)
    show "unat w < 65536" using unsigned_less [of w, where ?'a = nat] by simp
    show "(2 :: nat) ^ unat (snd_wscale t) \<le> 2 ^ 14" using assms(2) by (rule power_increasing) simp
  qed simp_all
  then have "unat (push_bit (unat (snd_wscale t)) (ucast w :: u32)) = unat w * 2 ^ unat (snd_wscale t)"
    unfolding unsigned_push_bit_eq unat_ucast_u16_u32
    by (simp add: push_bit_eq_mult take_bit_nat_eq_self)
  then show ?thesis
    using assms unat_eq_zero [of "snd_wscale t"]
    by (auto simp: scale_peer_window_def u32_shl_def unat_ucast_u16_u32 word_gt_0)
qed

lemma can_send_iff: "can_send t n \<longleftrightarrow> unat (flight_size_bytes t) + unat n \<le> unat (snd_wnd t)"
  using u32_less [of "snd_wnd t"] u32_less [of n]
  by (auto simp: can_send_def flight_size_bytes_def Let_def word_less_nat_alt word_le_nat_alt unat_add_wrap)

lemma clamp_bounds:
  "4096 \<le> clamp_tcp_receive_buffer_bytes n \<and> clamp_tcp_receive_buffer_bytes n \<le> 262144"
  by (simp add: clamp_tcp_receive_buffer_bytes_def Let_def DEFAULT_TCP_RECV_BUFFER_BYTES_def
      MAX_TCP_RECV_BUFFER_BYTES_def)

lemma recompute_effective_mss_bounds:
  "1 \<le> unat (effective_mss (recompute_effective_mss t)) \<and> unat (effective_mss (recompute_effective_mss t)) \<le> 1460"
proof -
  define m where "m = max (if ts_enabled (ts t) then min MSS (unat (peer_mss t)) - TCP_TS_OPTION_OVERHEAD
    else min MSS (unat (peer_mss t))) 1"
  have "1 \<le> m" "m \<le> 1460" by (auto simp: m_def MSS_def)
  moreover have "unat (of_nat m :: u32) = m" using \<open>m \<le> 1460\<close> by (intro unat_of_nat_len) simp
  moreover have "effective_mss (recompute_effective_mss t) = of_nat m"
    by (simp add: recompute_effective_mss_def Let_def m_def)
  ultimately show ?thesis by simp
qed

end
