(* ===== verification/Tcp_Sack.thy ===== *)
theory Tcp_Sack
  imports Tcp_Control_Block "HOL-Library.Multiset"
begin

text \<open>
  Selective acknowledgment, \<^verbatim>\<open>kernel/src/driver/net/proto/tcp/sack.rs\<close>: the receiver's scoreboard
  of out-of-order ranges, the sender's marking of segments as delivered or lost (RFC 6675 and RACK),
  the undo on a duplicate SACK and the arming of the tail loss probe. The probe itself sends and is
  in the theory of the send path. Loops over the fixed array are recursions on its index with a
  termination proof.
\<close>

section \<open>Blocks\<close>

definition sb_len :: "sack_block \<Rightarrow> u32" where
  "sb_len b = sb_right b - sb_left b"

definition sb_covers :: "sack_block \<Rightarrow> u32 \<Rightarrow> u32 \<Rightarrow> bool" where
  "sb_covers b s e \<longleftrightarrow> seq_diff s (sb_left b) \<ge> 0 \<and> seq_diff (sb_right b) e \<ge> 0"

definition DUP_THRESH :: u32 where "DUP_THRESH = 3"

section \<open>Receiver scoreboard\<close>

definition sb_touches :: "sack_block \<Rightarrow> sack_block \<Rightarrow> bool" where
  "sb_touches merged b \<longleftrightarrow>
     seq_diff (sb_left merged) (sb_right b) \<le> 0 \<and> seq_diff (sb_left b) (sb_right merged) \<le> 0"

definition sb_merge :: "sack_block \<Rightarrow> sack_block \<Rightarrow> sack_block" where
  "sb_merge merged b =
     (let m1 = (if seq_diff (sb_left b) (sb_left merged) < 0 then merged\<lparr>sb_left := sb_left b\<rparr> else merged)
      in if seq_diff (sb_right b) (sb_right m1) > 0 then m1\<lparr>sb_right := sb_right b\<rparr> else m1)"

text \<open>Removal of entry \<open>i\<close>: the last entry moves into its slot.\<close>

definition swap_remove :: "sack_block list \<Rightarrow> nat \<Rightarrow> nat \<Rightarrow> sack_block list" where
  "swap_remove ranges n i = (ranges[i := ranges ! (n - 1)])[n - 1 := sack_block_default]"

function sack_merge_scan ::
  "sack_block list \<Rightarrow> nat \<Rightarrow> sack_block \<Rightarrow> nat \<Rightarrow> sack_block list \<times> nat \<times> sack_block" where
  "sack_merge_scan ranges n merged i =
     (if i < n then
        let b = ranges ! i
        in if sb_touches merged b
           then sack_merge_scan (swap_remove ranges n i) (n - 1) (sb_merge merged b) i
           else sack_merge_scan ranges n merged (i + 1)
      else (ranges, n, merged))"
  by pat_completeness auto
termination by (relation "measure (\<lambda>(ranges, n, merged, i). n - i)") auto

declare sack_merge_scan.simps [simp del]

definition sack_rx_insert_range :: "sack_rack_state \<Rightarrow> u32 \<Rightarrow> u32 \<Rightarrow> sack_rack_state" where
  "sack_rx_insert_range k l r =
     (case sack_merge_scan (sack_rx_ranges k) (sack_rx_range_len k) \<lparr>sb_left = l, sb_right = r\<rparr> 0 of
        (ranges, n, merged) \<Rightarrow>
          if n \<ge> SACK_RX_RANGES_MAX
          then k\<lparr>sack_rx_ranges := ranges, sack_rx_range_len := n\<rparr>
          else k\<lparr>sack_rx_ranges := ranges[n := merged], sack_rx_range_len := n + 1,
                 sack_rx_recent := Some merged\<rparr>)"

definition sack_receive_out_of_order ::
  "tcp_control_block \<Rightarrow> u32 \<Rightarrow> u8 list \<Rightarrow> tcp_control_block" where
  "sack_receive_out_of_order t s payload =
     (case rb_write_at (receive_buffer t) (rcv_nxt t) s payload of
        (rb, n) \<Rightarrow>
          let t1 = t\<lparr>receive_buffer := rb\<rparr>
          in if n = 0 then t1
             else t1\<lparr>sack := sack_rx_insert_range (sack t1) s (s + of_nat n)\<rparr>)"

text \<open>The \<open>for\<close> loop of \<open>sack_rx_advance_from_scoreboard\<close>: the first range that starts at
  \<open>RCV.NXT\<close>.\<close>

fun find_range_at :: "sack_block list \<Rightarrow> u32 \<Rightarrow> nat \<Rightarrow> nat option" where
  "find_range_at [] p i = None"
| "find_range_at (b # bs) p i = (if sb_left b = p then Some i else find_range_at bs p (i + 1))"

definition fold_range :: "tcp_control_block \<Rightarrow> nat \<Rightarrow> tcp_control_block" where
  "fold_range t i =
     (let k = sack t; b = sack_rx_ranges k ! i; n = sb_len b
      in t\<lparr>receive_buffer := rb_advance_contig (receive_buffer t) (unat n),
           rcv_nxt := rcv_nxt t + n,
           sack := k\<lparr>sack_rx_ranges := swap_remove (sack_rx_ranges k) (sack_rx_range_len k) i,
                     sack_rx_range_len := sack_rx_range_len k - 1,
                     sack_rx_recent := (if sack_rx_recent k = Some b then None else sack_rx_recent k)\<rparr>\<rparr>)"

definition next_range :: "tcp_control_block \<Rightarrow> nat option" where
  "next_range t = find_range_at (take (sack_rx_range_len (sack t)) (sack_rx_ranges (sack t))) (rcv_nxt t) 0"

lemma find_range_at_Some: "find_range_at bs p i = Some j \<Longrightarrow> i \<le> j \<and> j < i + length bs \<and> sb_left (bs ! (j - i)) = p"
proof (induction bs arbitrary: i)
  case (Cons b bs)
  show ?case
  proof (cases "sb_left b = p")
    case False
    with Cons.prems have "find_range_at bs p (i + 1) = Some j" by simp
    from Cons.IH [OF this] show ?thesis by (auto simp: nth_Cons')
  qed (use Cons.prems in simp)
qed simp

lemma find_range_at_None: "find_range_at bs p i = None \<longleftrightarrow> (\<forall>b\<in>set bs. sb_left b \<noteq> p)"
  by (induction bs arbitrary: i) auto

function sack_rx_advance_from_scoreboard :: "tcp_control_block \<Rightarrow> tcp_control_block" where
  "sack_rx_advance_from_scoreboard t =
     (case next_range t of
        None \<Rightarrow> t
      | Some i \<Rightarrow> sack_rx_advance_from_scoreboard (fold_range t i))"
  by pat_completeness auto
termination
  by (relation "measure (\<lambda>t. sack_rx_range_len (sack t))")
    (auto simp: next_range_def fold_range_def Let_def dest!: find_range_at_Some)

declare sack_rx_advance_from_scoreboard.simps [simp del]

section \<open>Sender side\<close>

definition sack_dsack_undo :: "tcp_control_block \<Rightarrow> tcp_control_block" where
  "sack_dsack_undo t =
     (let t1 =
        (if sack_undo_pending (sack t)
         then let smss = max (effective_mss t) 1; w = max (sack_undo_cwnd (sack t)) smss
              in t\<lparr>cwnd := w, ssthresh := sack_undo_ssthresh (sack t),
                   cwv := (cwv t)\<lparr>cwv_cwnd_raw := w\<rparr>, in_fast_recovery := False,
                   sack := (sack t)\<lparr>sack_undo_pending := False,
                     sack_dsack_undo_count := saturating_add (sack_dsack_undo_count (sack t)) 1\<rparr>\<rparr>
         else t);
          widened = from_nanos (max (saturating_mul (as_nanos (rack_reorder_window (sack t1))) 2)
                                    (as_nanos (from_millis 1)))
      in t1\<lparr>sack := (sack t1)\<lparr>rack_reorder_window := widened,
            rack_reorder_window_persist := saturating_add (rack_reorder_window_persist (sack t1)) 16\<rparr>\<rparr>)"

text \<open>The inner loop over the retransmission queue for one block; the highest SACKed edge is
  threaded through it.\<close>

fun sack_mark_block :: "sack_block \<Rightarrow> unacked_segment list \<Rightarrow> u32 \<Rightarrow> unacked_segment list \<times> u32" where
  "sack_mark_block b [] high = ([], high)"
| "sack_mark_block b (s # ss) high =
     (if seg_sacked s then let (ss', high') = sack_mark_block b ss high in (s # ss', high')
      else if sb_covers b (seg_seq s) (end_seq s)
        then let high1 = (if seq_diff (sb_right b) high > 0 then sb_right b else high);
                 (ss', high') = sack_mark_block b ss high1
             in (s\<lparr>seg_sacked := True, seg_lost := False\<rparr> # ss', high')
      else let (ss', high') = sack_mark_block b ss high in (s # ss', high'))"

definition sack_apply_block :: "u32 \<Rightarrow> tcp_control_block \<Rightarrow> sack_block \<Rightarrow> tcp_control_block" where
  "sack_apply_block a t b =
     (if seq_diff (sb_right b) a \<le> 0
      then sack_dsack_undo (t\<lparr>sack := (sack t)\<lparr>sack_dsack_seen := saturating_add (sack_dsack_seen (sack t)) 1\<rparr>\<rparr>)
      else case sack_mark_block b (retransmission_queue t) (sack_high_sacked (sack t)) of
             (q, high) \<Rightarrow> t\<lparr>retransmission_queue := q, sack := (sack t)\<lparr>sack_high_sacked := high\<rparr>\<rparr>)"

definition sack_tx_apply :: "tcp_control_block \<Rightarrow> u32 \<Rightarrow> sack_block list \<Rightarrow> tcp_control_block" where
  "sack_tx_apply t a blocks =
     (if blocks = [] then t
      else foldl (sack_apply_block a)
             (t\<lparr>sack := (sack t)\<lparr>sack_blocks_rx :=
                saturating_add (sack_blocks_rx (sack t)) (of_nat (length blocks))\<rparr>\<rparr>) blocks)"

definition sack_enter_recovery :: "tcp_control_block \<Rightarrow> tcp_control_block" where
  "sack_enter_recovery t =
     t\<lparr>sack := (sack t)\<lparr>sack_undo_cwnd := cwnd t, sack_undo_ssthresh := ssthresh t, sack_undo_pending := True\<rparr>\<rparr>"

definition seg_len :: "unacked_segment \<Rightarrow> u32" where
  "seg_len s = end_seq s - seg_seq s"

definition sack_bytes_above :: "tcp_control_block \<Rightarrow> u32 \<Rightarrow> u32" where
  "sack_bytes_above t s =
     foldl saturating_add 0
       (map seg_len (filter (\<lambda>x. seg_sacked x \<and> seq_diff (seg_seq x) s \<ge> 0) (retransmission_queue t)))"

definition sack_pipe_bytes :: "tcp_control_block \<Rightarrow> u32" where
  "sack_pipe_bytes t =
     foldl saturating_add 0
       (map seg_len (filter (\<lambda>x. \<not> seg_sacked x \<and> \<not> seg_lost x) (retransmission_queue t)))"

definition sack_has_lost :: "tcp_control_block \<Rightarrow> bool" where
  "sack_has_lost t \<longleftrightarrow> list_ex (\<lambda>s. seg_lost s \<and> \<not> seg_sacked s) (retransmission_queue t)"

text \<open>\<open>iter_mut().find\<close>: the change goes to the first segment that starts at \<open>p\<close>.\<close>

fun mark_lost_at :: "u32 \<Rightarrow> unacked_segment list \<Rightarrow> unacked_segment list \<times> bool" where
  "mark_lost_at p [] = ([], False)"
| "mark_lost_at p (s # ss) =
     (if seg_seq s = p
      then if \<not> seg_sacked s \<and> \<not> seg_lost s then (s\<lparr>seg_lost := True\<rparr> # ss, True) else (s # ss, False)
      else let (ss', m) = mark_lost_at p ss in (s # ss', m))"

definition sack_mark_candidate :: "u32 \<Rightarrow> tcp_control_block \<Rightarrow> u32 \<Rightarrow> tcp_control_block" where
  "sack_mark_candidate threshold t p =
     (if sack_bytes_above t p < threshold then t
      else case mark_lost_at p (retransmission_queue t) of
             (q, marked) \<Rightarrow>
               t\<lparr>retransmission_queue := q,
                 sack := (sack t)\<lparr>sack_islost_marks :=
                   (if marked then saturating_add (sack_islost_marks (sack t)) 1
                    else sack_islost_marks (sack t))\<rparr>\<rparr>)"

definition sack_mark_lost :: "tcp_control_block \<Rightarrow> tcp_control_block" where
  "sack_mark_lost t =
     (let smss = max (effective_mss t) 1;
          threshold = saturating_mul DUP_THRESH smss;
          candidates = map seg_seq (filter (\<lambda>s. \<not> seg_sacked s) (retransmission_queue t))
      in foldl (sack_mark_candidate threshold) t candidates)"

section \<open>RACK and the tail loss probe timer\<close>

definition rack_update_reordering_winow :: "tcp_control_block \<Rightarrow> tcp_control_block" where
  "rack_update_reordering_winow t =
     (if rack_reorder_window_persist (sack t) > 0
      then t\<lparr>sack := (sack t)\<lparr>rack_reorder_window_persist := rack_reorder_window_persist (sack t) - 1\<rparr>\<rparr>
      else t\<lparr>sack := (sack t)\<lparr>rack_reorder_window := from_nanos (as_nanos (rack_min_rtt (sack t)) div 4)\<rparr>\<rparr>)"

definition rack_feed_rtt :: "tcp_control_block \<Rightarrow> duration \<Rightarrow> tcp_control_block" where
  "rack_feed_rtt t r = t\<lparr>sack := (sack t)\<lparr>rack_min_rtt := min (rack_min_rtt (sack t)) r\<rparr>\<rparr>"

fun max_instant :: "instant list \<Rightarrow> instant option" where
  "max_instant [] = None"
| "max_instant (x # xs) = (case max_instant xs of None \<Rightarrow> Some x | Some m \<Rightarrow> Some (max x m))"

fun rack_mark :: "instant \<Rightarrow> duration \<Rightarrow> unacked_segment list \<Rightarrow> u32 \<Rightarrow> unacked_segment list \<times> u32" where
  "rack_mark xmit_ts reo_wnd [] marks = ([], marks)"
| "rack_mark xmit_ts reo_wnd (s # ss) marks =
     (if seg_sacked s \<or> seg_lost s
      then let (ss', marks') = rack_mark xmit_ts reo_wnd ss marks in (s # ss', marks')
      else if xmit_ts > seg_xmit_mstamp s \<and> instant_diff xmit_ts (seg_xmit_mstamp s) > reo_wnd
        then let (ss', marks') = rack_mark xmit_ts reo_wnd ss (saturating_add marks 1)
             in (s\<lparr>seg_lost := True\<rparr> # ss', marks')
      else let (ss', marks') = rack_mark xmit_ts reo_wnd ss marks in (s # ss', marks'))"

definition rack_note_newest :: "instant \<Rightarrow> tcp_control_block \<Rightarrow> tcp_control_block" where
  "rack_note_newest now t =
     (case max_instant (map seg_xmit_mstamp (filter seg_sacked (retransmission_queue t))) of
        None \<Rightarrow> t
      | Some xmit_ts \<Rightarrow>
          if xmit_ts > rack_xmit_ts (sack t)
          then let t1 = t\<lparr>sack := (sack t)\<lparr>rack_xmit_ts := xmit_ts\<rparr>\<rparr>
               in if now > xmit_ts
                  then t1\<lparr>sack := (sack t1)\<lparr>rack_min_rtt := min (rack_min_rtt (sack t1)) (instant_diff now xmit_ts)\<rparr>\<rparr>
                  else t1
          else t)"

definition rack_detect :: "instant \<Rightarrow> tcp_control_block \<Rightarrow> tcp_control_block" where
  "rack_detect now t =
     (let t2 = rack_update_reordering_winow (rack_note_newest now t)
      in case rack_mark (rack_xmit_ts (sack t2)) (rack_reorder_window (sack t2))
                (retransmission_queue t2) (sack_rack_marks (sack t2)) of
           (q, marks) \<Rightarrow> t2\<lparr>retransmission_queue := q, sack := (sack t2)\<lparr>sack_rack_marks := marks\<rparr>\<rparr>)"

definition tlp_arm :: "instant \<Rightarrow> tcp_control_block \<Rightarrow> tcp_control_block" where
  "tlp_arm now t =
     (if retransmission_queue t = [] \<or> in_fast_recovery t
      then t\<lparr>sack := (sack t)\<lparr>tlp_deadline := None\<rparr>\<rparr>
      else let srtt_v = (case srtt t of Some d \<Rightarrow> d | None \<Rightarrow> from_millis 200);
               rttvar_v = (case rttvar t of Some d \<Rightarrow> d | None \<Rightarrow> from_millis 50);
               min_pto = from_millis 10;
               worst_case_delayed_ack = from_millis 200;
               pto = (if length (retransmission_queue t) > 1
                      then max (from_nanos (saturating_mul (as_nanos srtt_v) 2)) min_pto
                      else let jitter = from_nanos (saturating_mul (as_nanos rttvar_v) 4)
                           in max (from_nanos (saturating_add (as_nanos srtt_v) (as_nanos jitter)))
                                  worst_case_delayed_ack)
           in t\<lparr>sack := (sack t)\<lparr>tlp_deadline := Some (instant_add now pto)\<rparr>\<rparr>)"

section \<open>Sequence intervals\<close>

text \<open>Blocks within half the sequence space of a base are intervals of naturals: \<open>lo\<close> and \<open>hi\<close>.\<close>

definition lo :: "u32 \<Rightarrow> sack_block \<Rightarrow> nat" where "lo base b = unat (sb_left b - base)"
definition hi :: "u32 \<Rightarrow> sack_block \<Rightarrow> nat" where "hi base b = unat (sb_right b - base)"

definition block_ok :: "u32 \<Rightarrow> sack_block \<Rightarrow> bool" where
  "block_ok base b \<longleftrightarrow> lo base b < hi base b \<and> hi base b < 2 ^ 31"

definition block_set :: "u32 \<Rightarrow> sack_block \<Rightarrow> nat set" where
  "block_set base b = {lo base b..<hi base b}"

lemma seq_diff_base:
  assumes "unat (a - base) < 2 ^ 31" "unat (b - base) < 2 ^ 31"
  shows "seq_diff a b = int (unat (a - base)) - int (unat (b - base))"
  using seq_diff_offsets [OF assms, of base] by simp

lemma seq_diff_cmp:
  assumes "unat (a - base) < 2 ^ 31" "unat (b - base) < 2 ^ 31"
  shows "seq_diff a b \<le> 0 \<longleftrightarrow> unat (a - base) \<le> unat (b - base)"
    "seq_diff a b < 0 \<longleftrightarrow> unat (a - base) < unat (b - base)"
    "0 < seq_diff a b \<longleftrightarrow> unat (b - base) < unat (a - base)"
  unfolding seq_diff_base [OF assms] by linarith+

lemma sb_touches_iff:
  assumes "block_ok base m" "block_ok base b"
  shows "sb_touches m b \<longleftrightarrow> lo base m \<le> hi base b \<and> lo base b \<le> hi base m"
  using assms
  by (auto simp: sb_touches_def block_ok_def lo_def hi_def seq_diff_cmp [of _ base])

lemma sb_merge_bounds:
  assumes "block_ok base m" "block_ok base b"
  shows "lo base (sb_merge m b) = min (lo base m) (lo base b)"
    "hi base (sb_merge m b) = max (hi base m) (hi base b)"
  using assms
  by (auto simp: sb_merge_def Let_def block_ok_def lo_def hi_def seq_diff_cmp [of _ base] min_def max_def)

lemma sb_merge_ok: "block_ok base m \<Longrightarrow> block_ok base b \<Longrightarrow> block_ok base (sb_merge m b)"
  by (auto simp: block_ok_def sb_merge_bounds [of base] min_def max_def)

lemma sb_merge_set:
  assumes "block_ok base m" "block_ok base b" "sb_touches m b"
  shows "block_set base (sb_merge m b) = block_set base m \<union> block_set base b"
proof -
  have "lo base m \<le> hi base b" "lo base b \<le> hi base m" "lo base m < hi base m" "lo base b < hi base b"
    using assms sb_touches_iff [OF assms(1,2)] by (auto simp: block_ok_def)
  then show ?thesis
    unfolding block_set_def sb_merge_bounds [OF assms(1,2)] by (auto simp: min_def max_def)
qed

section \<open>The scoreboard as a set of byte positions\<close>

lemma nth_in_take: "k < n \<Longrightarrow> n \<le> length xs \<Longrightarrow> xs ! k \<in> set (take n xs)"
  using nth_mem [of k "take n xs"] by simp

lemma in_take_nth: "x \<in> set (take n xs) \<Longrightarrow> \<exists>j < n. j < length xs \<and> x = xs ! j"
  by (subst (asm) in_set_conv_nth) auto

lemma length_swap_remove [simp]: "length (swap_remove rs n i) = length rs"
  by (simp add: swap_remove_def)

lemma nth_swap_remove: "j < i \<Longrightarrow> i < n \<Longrightarrow> n \<le> length rs \<Longrightarrow> swap_remove rs n i ! j = rs ! j"
  by (simp add: swap_remove_def)

lemma swap_remove_mset:
  assumes "i < n" "n \<le> length rs"
  shows "mset (take n rs) = mset (rs ! i # take (n - 1) (swap_remove rs n i))"
proof -
  obtain m where n: "n = Suc m" using assms(1) by (cases n) auto
  have tk: "take n rs = take m rs @ [rs ! m]" using assms n by (simp add: take_Suc_conv_app_nth)
  have sw: "take (n - 1) (swap_remove rs n i) = (take m rs)[i := rs ! m]"
    by (simp add: swap_remove_def n take_update_swap list_update_beyond)
  show ?thesis
  proof (cases "i = m")
    case True
    then show ?thesis unfolding tk sw by (simp add: list_update_beyond)
  next
    case False
    then have i: "i < length (take m rs)" using assms n by simp
    then have "rs ! i \<in># mset (take m rs)" by (metis nth_mem nth_take length_take min_less_iff_conj set_mset_mset)
    then show ?thesis unfolding tk sw using i by (simp add: mset_update)
  qed
qed

definition rx_live :: "sack_rack_state \<Rightarrow> sack_block list" where
  "rx_live k = take (sack_rx_range_len k) (sack_rx_ranges k)"

definition ranges_ok :: "u32 \<Rightarrow> sack_block list \<Rightarrow> bool" where
  "ranges_ok base bs \<longleftrightarrow> distinct bs \<and> (\<forall>b\<in>set bs. block_ok base b) \<and>
     (\<forall>a\<in>set bs. \<forall>b\<in>set bs. a \<noteq> b \<longrightarrow> \<not> sb_touches a b)"

definition ranges_set :: "u32 \<Rightarrow> sack_block list \<Rightarrow> nat set" where
  "ranges_set base bs = (\<Union>b\<in>set bs. block_set base b)"

lemma ranges_ok_perm: "mset bs = mset bs' \<Longrightarrow> ranges_ok base bs = ranges_ok base bs'"
  using mset_eq_imp_distinct_iff [of bs bs'] mset_eq_setD [of bs bs'] by (simp add: ranges_ok_def)

lemma ranges_set_perm: "mset bs = mset bs' \<Longrightarrow> ranges_set base bs = ranges_set base bs'"
  using mset_eq_setD [of bs bs'] by (simp add: ranges_set_def)

lemma touches_merge:
  assumes "block_ok base m" "block_ok base b" "block_ok base c" "sb_touches m b"
    "\<not> sb_touches m c" "\<not> sb_touches b c"
  shows "\<not> sb_touches (sb_merge m b) c"
proof -
  have ok: "block_ok base (sb_merge m b)" using assms(1,2) by (rule sb_merge_ok)
  show ?thesis
    using assms(4-6)
    unfolding sb_touches_iff [OF ok assms(3)] sb_touches_iff [OF assms(1,2)] sb_touches_iff [OF assms(1,3)]
      sb_touches_iff [OF assms(2,3)] sb_merge_bounds [OF assms(1,2)]
    using assms(1-3) by (auto simp: block_ok_def min_def max_def split: if_splits)
qed

definition scan_ok :: "u32 \<Rightarrow> sack_block list \<Rightarrow> nat \<Rightarrow> sack_block \<Rightarrow> nat \<Rightarrow> bool" where
  "scan_ok base rs n m i \<longleftrightarrow> n \<le> length rs \<and> i \<le> n \<and> ranges_ok base (take n rs) \<and> block_ok base m \<and>
     (\<forall>j < i. \<not> sb_touches m (rs ! j))"

lemma scan_ok_merge:
  assumes ok: "scan_ok base rs n m i" and i: "i < n" and touch: "sb_touches m (rs ! i)"
  shows "scan_ok base (swap_remove rs n i) (n - 1) (sb_merge m (rs ! i)) i"
    "ranges_set base (take (n - 1) (swap_remove rs n i)) \<union> block_set base (sb_merge m (rs ! i)) =
     ranges_set base (take n rs) \<union> block_set base m"
proof -
  let ?b = "rs ! i" and ?rs = "take (n - 1) (swap_remove rs n i)"
  have perm: "mset (take n rs) = mset (?b # ?rs)" using swap_remove_mset i ok by (simp add: scan_ok_def)
  have rok: "ranges_ok base (?b # ?rs)" using ok ranges_ok_perm [OF perm] by (simp add: scan_ok_def)
  have m: "block_ok base m" "block_ok base ?b" using ok rok by (auto simp: scan_ok_def ranges_ok_def)
  have early: "\<not> sb_touches (sb_merge m ?b) (swap_remove rs n i ! j)" if "j < i" for j
  proof (rule touches_merge [OF m _ touch])
    have len: "n \<le> length rs" and sep: "distinct (take n rs)" using ok by (auto simp: scan_ok_def ranges_ok_def)
    have at: "swap_remove rs n i ! j = rs ! j" using that i len by (simp add: nth_swap_remove)
    have mem: "rs ! j \<in> set (take n rs)" "?b \<in> set (take n rs)"
      using that i len by (simp_all add: nth_in_take)
    have ne: "?b \<noteq> rs ! j" using sep that i len by (auto simp: distinct_conv_nth)
    show "block_ok base (swap_remove rs n i ! j)" "\<not> sb_touches m (swap_remove rs n i ! j)"
      "\<not> sb_touches ?b (swap_remove rs n i ! j)"
      using ok mem ne that unfolding at by (auto simp: scan_ok_def ranges_ok_def)
  qed
  show "scan_ok base (swap_remove rs n i) (n - 1) (sb_merge m ?b) i"
    using ok i rok m early by (auto simp: scan_ok_def ranges_ok_def sb_merge_ok)
  show "ranges_set base ?rs \<union> block_set base (sb_merge m ?b) = ranges_set base (take n rs) \<union> block_set base m"
    unfolding ranges_set_perm [OF perm] sb_merge_set [OF m touch] by (auto simp: ranges_set_def)
qed

lemma sack_merge_scan_ok:
  assumes "scan_ok base rs n m i" "sack_merge_scan rs n m i = (rs', n', m')"
  shows "scan_ok base rs' n' m' n' \<and> length rs' = length rs \<and> n' \<le> n \<and>
    ranges_set base (take n' rs') \<union> block_set base m' = ranges_set base (take n rs) \<union> block_set base m \<and>
    (n' = n \<longrightarrow> rs' = rs)"
  using assms
proof (induction rs n m i rule: sack_merge_scan.induct)
  case (1 rs n m i)
  consider "i < n" "sb_touches m (rs ! i)" | "i < n" "\<not> sb_touches m (rs ! i)" | "\<not> i < n" by auto
  then show ?case
  proof cases
    case 1
    have rec: "sack_merge_scan (swap_remove rs n i) (n - 1) (sb_merge m (rs ! i)) i = (rs', n', m')"
      using 1 \<open>sack_merge_scan rs n m i = _\<close> by (simp add: sack_merge_scan.simps [of rs])
    show ?thesis
      using "1.IH"(1) [OF 1(1) refl 1(2) scan_ok_merge(1) [OF \<open>scan_ok base rs n m i\<close> 1] rec]
        scan_ok_merge(2) [OF \<open>scan_ok base rs n m i\<close> 1] 1(1) by auto
  next
    case 2
    have rec: "sack_merge_scan rs n m (i + 1) = (rs', n', m')"
      using 2 \<open>sack_merge_scan rs n m i = _\<close> by (simp add: sack_merge_scan.simps [of rs])
    have "scan_ok base rs n m (i + 1)"
      using \<open>scan_ok base rs n m i\<close> 2 by (auto simp: scan_ok_def less_Suc_eq)
    then show ?thesis using "1.IH"(2) [OF 2(1) refl 2(2) _ rec] by auto
  next
    case 3
    then show ?thesis
      using 1(3,4) by (simp add: sack_merge_scan.simps [of rs] scan_ok_def)
  qed
qed

text \<open>The receiver's scoreboard is well formed relative to a base sequence number: a fixed array of
  eight slots, live ranges that are non-empty and pairwise neither overlapping nor adjacent, and a
  most recent block that is one of them.\<close>

definition rx_ok :: "u32 \<Rightarrow> sack_rack_state \<Rightarrow> bool" where
  "rx_ok base k \<longleftrightarrow> length (sack_rx_ranges k) = SACK_RX_RANGES_MAX \<and>
     sack_rx_range_len k \<le> SACK_RX_RANGES_MAX \<and> ranges_ok base (rx_live k) \<and>
     (\<forall>b. sack_rx_recent k = Some b \<longrightarrow> b \<in> set (rx_live k))"

definition rx_set :: "u32 \<Rightarrow> sack_rack_state \<Rightarrow> nat set" where
  "rx_set base k = ranges_set base (rx_live k)"

lemma sb_touches_sym:
  "block_ok base a \<Longrightarrow> block_ok base b \<Longrightarrow> sb_touches a b = sb_touches b a"
  by (auto simp: sb_touches_iff)

lemma sack_new_ok: "rx_ok base (sack_new now)" "rx_set base (sack_new now) = {}"
  by (simp_all add: rx_ok_def rx_live_def sack_new_def ranges_ok_def rx_set_def ranges_set_def)

lemma sack_rx_insert_range_spec:
  assumes ok: "rx_ok base k" and new: "block_ok base \<lparr>sb_left = l, sb_right = r\<rparr>"
  defines "k' \<equiv> sack_rx_insert_range k l r"
  shows "rx_ok base k'"
    "rx_set base k' = rx_set base k \<union> block_set base \<lparr>sb_left = l, sb_right = r\<rparr> \<or>
     k' = k \<and> sack_rx_range_len k = SACK_RX_RANGES_MAX"
proof -
  let ?m = "\<lparr>sb_left = l, sb_right = r\<rparr>"
  obtain rs n m where sc: "sack_merge_scan (sack_rx_ranges k) (sack_rx_range_len k) ?m 0 = (rs, n, m)"
    by (metis prod_cases3)
  have "scan_ok base (sack_rx_ranges k) (sack_rx_range_len k) ?m 0"
    using ok new by (simp add: scan_ok_def rx_ok_def rx_live_def)
  from sack_merge_scan_ok [OF this sc] ok
  have res: "scan_ok base rs n m n" "length rs = 8" "n \<le> sack_rx_range_len k"
    "ranges_set base (take n rs) \<union> block_set base m = rx_set base k \<union> block_set base ?m"
    "n = sack_rx_range_len k \<Longrightarrow> rs = sack_rx_ranges k" "sack_rx_range_len k \<le> 8"
    by (auto simp: rx_set_def rx_live_def rx_ok_def SACK_RX_RANGES_MAX_def)
  show "rx_ok base k'"
  proof (cases "n \<ge> 8")
    case True
    with res have "k' = k" by (simp add: k'_def sack_rx_insert_range_def sc SACK_RX_RANGES_MAX_def)
    with ok show ?thesis by simp
  next
    case False
    then have live: "rx_live k' = take n rs @ [m]"
      using res(2) by (simp add: k'_def sack_rx_insert_range_def sc SACK_RX_RANGES_MAX_def rx_live_def
          take_Suc_conv_app_nth)
    have sep: "\<not> sb_touches m b" "\<not> sb_touches b m" if b: "b \<in> set (take n rs)" for b
    proof -
      obtain j where "j < n" "b = rs ! j" using in_take_nth [OF b] by blast
      then show "\<not> sb_touches m b" using res(1) by (simp add: scan_ok_def)
      moreover have "block_ok base m" "block_ok base b" using res(1) b by (auto simp: scan_ok_def ranges_ok_def)
      ultimately show "\<not> sb_touches b m" using sb_touches_sym by blast
    qed
    have "block_ok base m" using res(1) by (simp add: scan_ok_def)
    then have "sb_touches m m" by (simp add: sb_touches_iff [of base]) (simp add: block_ok_def)
    then have "m \<notin> set (take n rs)" using sep by blast
    then have "ranges_ok base (take n rs @ [m])"
      using res(1) sep by (auto simp: scan_ok_def ranges_ok_def)
    with False res(2) show ?thesis
      by (simp add: rx_ok_def live) (simp add: k'_def sack_rx_insert_range_def sc SACK_RX_RANGES_MAX_def)
  qed
  show "rx_set base k' = rx_set base k \<union> block_set base ?m \<or> k' = k \<and> sack_rx_range_len k = SACK_RX_RANGES_MAX"
  proof (cases "n \<ge> 8")
    case True
    with res show ?thesis by (simp add: k'_def sack_rx_insert_range_def sc SACK_RX_RANGES_MAX_def)
  next
    case False
    then have "rx_live k' = take n rs @ [m]"
      using res(2) by (simp add: k'_def sack_rx_insert_range_def sc SACK_RX_RANGES_MAX_def rx_live_def
          take_Suc_conv_app_nth)
    with res(4) show ?thesis by (auto simp: rx_set_def ranges_set_def)
  qed
qed

end
