(* ===== verification/Tcp_Reassembly.thy ===== *)
theory Tcp_Reassembly
  imports Tcp_Sack
begin

text \<open>
  The receive ring and the scoreboard together reassemble the peer's byte stream. \<open>rx_stream S p t\<close>
  says that the control block \<open>t\<close> has received the first \<open>p\<close> bytes of the stream \<open>S\<close> contiguously:
  what the application can read are the last of them, and every byte the scoreboard lists ahead of
  \<open>RCV.NXT\<close> is in the ring at its place. Each step of the receive path keeps it.
\<close>

definition rx_stream :: "(nat \<Rightarrow> u8) \<Rightarrow> nat \<Rightarrow> tcp_control_block \<Rightarrow> bool" where
  "rx_stream S p t \<longleftrightarrow>
     rb_inv (receive_buffer t) \<and> rx_ok (rcv_nxt t) (sack t) \<and>
     rb_size (receive_buffer t) \<le> p \<and>
     rb_contents (receive_buffer t) = map S [p - rb_size (receive_buffer t)..<p] \<and>
     (\<forall>i\<in>rx_set (rcv_nxt t) (sack t).
        rb_ahead (receive_buffer t) i = S (p + i) \<and>
        rb_size (receive_buffer t) + i < rb_capacity (receive_buffer t))"

section \<open>Moving the base of the scoreboard\<close>

lemma lo_hi_shift:
  assumes "block_ok base b" "n \<le> lo base b"
  shows "lo (base + of_nat n) b = lo base b - n" "hi (base + of_nat n) b = hi base b - n"
proof -
  have n: "n < 2 ^ 31" using assms by (simp add: block_ok_def)
  then have un: "unat (of_nat n :: u32) = n" by (intro unat_of_nat_len) simp
  have eq: "x - (base + of_nat n) = (x - base) - of_nat n" for x :: u32 by simp
  show "lo (base + of_nat n) b = lo base b - n" "hi (base + of_nat n) b = hi base b - n"
    using assms un unfolding lo_def hi_def eq unat_sub_wrap [of "_ - base"] block_ok_def by auto
qed

lemma block_ok_shift:
  assumes "block_ok base b" "n \<le> lo base b"
  shows "block_ok (base + of_nat n) b"
  using assms unfolding block_ok_def lo_hi_shift [OF assms] by auto

lemma block_set_shift:
  assumes "block_ok base b" "n \<le> lo base b"
  shows "block_set (base + of_nat n) b = {i. i + n \<in> block_set base b}"
  using assms(2) unfolding block_set_def lo_hi_shift [OF assms] by auto

lemma ranges_ok_shift:
  "ranges_ok base bs \<Longrightarrow> \<forall>b\<in>set bs. n \<le> lo base b \<Longrightarrow> ranges_ok (base + of_nat n) bs"
  by (simp add: ranges_ok_def block_ok_shift)

lemma ranges_set_shift:
  assumes "ranges_ok base bs" "\<forall>b\<in>set bs. n \<le> lo base b"
  shows "ranges_set (base + of_nat n) bs = {i. i + n \<in> ranges_set base bs}"
  using assms by (auto simp: ranges_set_def ranges_ok_def block_set_shift)

section \<open>The steps\<close>

lemma rx_set_mono: "ranges_set base bs \<subseteq> ranges_set base (b # bs)"
  by (auto simp: ranges_set_def)

lemma rx_stream_out_of_order:
  assumes st: "rx_stream S p t"
    and off: "off = unat (s - rcv_nxt t)" "0 < off" "off + length payload < 2 ^ 31"
    and data: "payload \<noteq> []" "payload = map S [p + off..<p + off + length payload]"
    and room: "rb_size (receive_buffer t) + off + length payload \<le> rb_capacity (receive_buffer t)"
  shows "rx_stream S p (sack_receive_out_of_order t s payload)"
proof -
  let ?rb = "receive_buffer t" and ?n = "length payload"
  have sd: "seq_diff s (rcv_nxt t) = int off"
    using off seq_diff_eq_nat [of s "rcv_nxt t"] by simp
  then have off': "off = nat (seq_diff s (rcv_nxt t))" "0 < seq_diff s (rcv_nxt t)" using off(2) by simp_all
  have inv: "rb_inv ?rb" using st by (simp add: rx_stream_def)
  define rb where "rb = fst (rb_write_at ?rb (rcv_nxt t) s payload)"
  note wr = rb_write_at_ooo [OF inv data(1) off' room, folded rb_def]
  have n: "snd (rb_write_at ?rb (rcv_nxt t) s payload) = ?n"
    using rb_write_at_ooo_eq [OF inv data(1) off' room] by simp
  define b where "b = \<lparr>sb_left = s, sb_right = s + of_nat ?n\<rparr>"
  have "unat (of_nat ?n :: u32) = ?n" using off(3) by (intro unat_of_nat_len) simp
  moreover have "s + of_nat ?n - rcv_nxt t = (s - rcv_nxt t) + of_nat ?n" by simp
  ultimately have b: "lo (rcv_nxt t) b = off" "hi (rcv_nxt t) b = off + ?n"
    using off unfolding b_def lo_def hi_def by (simp_all only: sack_block.simps unat_add_wrap) auto
  then have bok: "block_ok (rcv_nxt t) b" using off(3) data(1) by (simp add: block_ok_def)
  define k where "k = sack_rx_insert_range (sack t) s (s + of_nat ?n)"
  have "sack_receive_out_of_order t s payload = t\<lparr>receive_buffer := rb, sack := k\<rparr>"
    using n data(1) by (auto simp: sack_receive_out_of_order_def rb_def k_def Let_def split: prod.split)
  moreover have "rx_ok (rcv_nxt t) (sack t)" using st by (simp add: rx_stream_def)
  from sack_rx_insert_range_spec [OF this bok [unfolded b_def], folded k_def b_def]
  have "rx_ok (rcv_nxt t) k" "rx_set (rcv_nxt t) k \<subseteq> rx_set (rcv_nxt t) (sack t) \<union> {off..<off + ?n}"
    by (auto simp: block_set_def b)
  moreover have "rb_ahead rb i = S (p + i) \<and> rb_size rb + i < rb_capacity rb"
    if "i \<in> rx_set (rcv_nxt t) (sack t) \<union> {off..<off + ?n}" for i
  proof (cases "i \<in> {off..<off + ?n}")
    case True
    then have "payload ! (i - off) = S (p + i)" by (subst data(2)) (auto simp del: upt_Suc)
    with True room show ?thesis by (simp add: wr(3) wr(4) wr(5))
  next
    case False
    with that st have "rb_ahead ?rb i = S (p + i)" "rb_size ?rb + i < rb_capacity ?rb"
      by (auto simp: rx_stream_def)
    with False show ?thesis by (auto simp: wr(3) wr(4) wr(5))
  qed
  ultimately show ?thesis using st wr(1,2) by (auto simp: rx_stream_def wr(4))
qed

text \<open>\<open>RCV.NXT\<close> moves by the \<open>n\<close> bytes that became contiguous, none of which belongs to a range.\<close>

lemma rx_ok_shift:
  assumes "rx_ok base k" "\<forall>b\<in>set (rx_live k). n \<le> lo base b"
  shows "rx_ok (base + of_nat n) k" "rx_set (base + of_nat n) k = {i. i + n \<in> rx_set base k}"
  using assms by (simp_all add: rx_ok_def ranges_ok_shift rx_set_def ranges_set_shift)

lemma rx_stream_in_order:
  assumes st: "rx_stream S p t"
    and data: "payload \<noteq> []" "payload = map S [p..<p + length payload]"
    and room: "rb_size (receive_buffer t) + length payload \<le> rb_capacity (receive_buffer t)"
    and gap: "\<forall>b\<in>set (rx_live (sack t)). length payload \<le> lo (rcv_nxt t) b"
  shows "rx_stream S (p + length payload)
    (t\<lparr>receive_buffer := fst (rb_write_at (receive_buffer t) (rcv_nxt t) (rcv_nxt t) payload),
       rcv_nxt := rcv_nxt t + of_nat (length payload)\<rparr>)"
proof -
  let ?rb = "receive_buffer t" and ?n = "length payload"
  have inv: "rb_inv ?rb" and ok: "rx_ok (rcv_nxt t) (sack t)" using st by (simp_all add: rx_stream_def)
  define rb where "rb = fst (rb_write_at ?rb (rcv_nxt t) (rcv_nxt t) payload)"
  note wr = rb_write_at_inorder [where r = "rcv_nxt t", OF inv data(1) room, folded rb_def]
  note sh = rx_ok_shift [OF ok gap]
  have "rb_contents rb = map S [p - rb_size ?rb..<p] @ map S [p..<p + ?n]"
    using st wr(2) data(2) by (simp add: rx_stream_def)
  also have "\<dots> = map S [p - rb_size ?rb..<p + ?n]"
    using st by (metis diff_le_self map_append upt_add_eq_append)
  finally have "rb_contents rb = map S [p + ?n - rb_size rb..<p + ?n]" by (simp add: wr(4))
  moreover have "rb_ahead rb i = S (p + ?n + i) \<and> rb_size rb + i < rb_capacity rb"
    if "i \<in> rx_set (rcv_nxt t + of_nat ?n) (sack t)" for i
  proof -
    have "rb_ahead ?rb (i + ?n) = S (p + (i + ?n))" "rb_size ?rb + (i + ?n) < rb_capacity ?rb"
      using that st unfolding sh(2) rx_stream_def by auto
    then show ?thesis by (simp add: wr(3) wr(4) wr(5) add_ac)
  qed
  ultimately show ?thesis using st wr(1,4) sh(1) by (simp add: rx_stream_def flip: rb_def)
qed

text \<open>A range that starts at \<open>RCV.NXT\<close> is folded into the readable bytes: it is an initial interval
  of the positions ahead, and the other ranges lie behind it.\<close>

lemma fold_range_split:
  assumes ok: "rx_ok base k" and i: "i < sack_rx_range_len k" and left: "sb_left (sack_rx_ranges k ! i) = base"
  defines "b \<equiv> sack_rx_ranges k ! i"
    and "rest \<equiv> take (sack_rx_range_len k - 1) (swap_remove (sack_rx_ranges k) (sack_rx_range_len k) i)"
  shows "set (rx_live k) = insert b (set rest)" "ranges_ok base rest" "0 < unat (sb_len b)"
    "\<forall>c\<in>set rest. unat (sb_len b) \<le> lo base c"
    "rx_set base k = {0..<unat (sb_len b)} \<union> ranges_set base rest"
proof -
  have perm: "mset (rx_live k) = mset (b # rest)"
    using swap_remove_mset [OF i, of "sack_rx_ranges k"] ok by (simp add: rx_live_def rx_ok_def b_def rest_def)
  have rok: "ranges_ok base (b # rest)" using ok ranges_ok_perm [OF perm] by (simp add: rx_ok_def)
  have b: "lo base b = 0" "hi base b = unat (sb_len b)" "block_ok base b"
    using left rok by (simp_all add: lo_def hi_def sb_len_def b_def ranges_ok_def)
  show "set (rx_live k) = insert b (set rest)" using mset_eq_setD [OF perm] by simp
  show "ranges_ok base rest" "0 < unat (sb_len b)" using rok b by (auto simp: ranges_ok_def block_ok_def)
  show "\<forall>c\<in>set rest. unat (sb_len b) \<le> lo base c"
  proof
    fix c assume "c \<in> set rest"
    then have "\<not> sb_touches b c" "block_ok base c" using rok by (auto simp: ranges_ok_def)
    then show "unat (sb_len b) \<le> lo base c" using b by (simp add: sb_touches_iff)
  qed
  show "rx_set base k = {0..<unat (sb_len b)} \<union> ranges_set base rest"
    using ranges_set_perm [OF perm, of base] b by (auto simp: rx_set_def ranges_set_def block_set_def)
qed

lemma rx_stream_fold_range:
  assumes st: "rx_stream S p t" and i: "i < sack_rx_range_len (sack t)"
    and left: "sb_left (sack_rx_ranges (sack t) ! i) = rcv_nxt t"
  defines "n \<equiv> unat (sb_len (sack_rx_ranges (sack t) ! i))"
  shows "rx_stream S (p + n) (fold_range t i)"
    "rb_size (receive_buffer (fold_range t i)) = rb_size (receive_buffer t) + n"
proof -
  let ?k = "sack t" and ?rb = "receive_buffer t" and ?base = "rcv_nxt t"
  define rest where "rest = take (sack_rx_range_len ?k - 1) (swap_remove (sack_rx_ranges ?k) (sack_rx_range_len ?k) i)"
  define rb where "rb = rb_advance_contig ?rb n"
  have inv: "rb_inv ?rb" and ok: "rx_ok ?base ?k" using st by (simp_all add: rx_stream_def)
  note sp = fold_range_split [OF ok i left, folded rest_def, folded n_def]
  have bytes: "rb_ahead ?rb j = S (p + j) \<and> rb_size ?rb + j < rb_capacity ?rb"
    if "j \<in> {0..<n} \<union> ranges_set ?base rest" for j
    using st that unfolding rx_stream_def sp(5) by blast
  have room: "rb_size ?rb + n \<le> rb_capacity ?rb" using sp(3) bytes [of "n - 1"] by auto
  note adv = rb_advance_contig_contents [OF inv room, folded rb_def]
  have "rb_contents rb = map S [p - rb_size ?rb..<p] @ map S [p..<p + n]"
    using st adv(2) bytes by (auto simp: rx_stream_def intro!: nth_equalityI)
  also have "\<dots> = map S [p - rb_size ?rb..<p + n]"
    by (metis diff_le_self map_append upt_add_eq_append)
  finally have "rb_contents rb = map S [p + n - rb_size rb..<p + n]" by (simp add: adv(4))
  moreover have "rb_ahead rb j = S (p + n + j) \<and> rb_size rb + j < rb_capacity rb"
    if "j \<in> ranges_set (?base + of_nat n) rest" for j
    using that bytes [of "j + n"] unfolding ranges_set_shift [OF sp(2,4)]
    by (simp add: adv(3) adv(4) adv(5) add_ac)
  moreover have "rx_live (sack (fold_range t i)) = rest" "rcv_nxt (fold_range t i) = ?base + of_nat n"
    "receive_buffer (fold_range t i) = rb"
    by (simp_all add: fold_range_def Let_def rx_live_def rest_def n_def rb_def)
  moreover have "c \<in> set rest" if "sack_rx_recent (sack (fold_range t i)) = Some c" for c
    using that ok sp(1) by (auto simp: fold_range_def Let_def rx_ok_def split: if_splits)
  ultimately show "rx_stream S (p + n) (fold_range t i)"
    using st adv(1) i ok ranges_ok_shift [OF sp(2,4)]
    by (auto simp: rx_stream_def rx_ok_def rx_set_def adv(4)) (auto simp: fold_range_def Let_def)
  show "rb_size (receive_buffer (fold_range t i)) = rb_size ?rb + n"
    using adv(4) by (simp add: fold_range_def Let_def rb_def n_def)
qed

lemma rx_stream_advance:
  assumes "rx_stream S p t"
  obtains p' where "p \<le> p'" "rx_stream S p' (sack_rx_advance_from_scoreboard t)"
    "rcv_nxt (sack_rx_advance_from_scoreboard t) = rcv_nxt t + of_nat (p' - p)"
    "rb_size (receive_buffer (sack_rx_advance_from_scoreboard t)) = rb_size (receive_buffer t) + (p' - p)"
    "next_range (sack_rx_advance_from_scoreboard t) = None"
  using assms
proof (induction t arbitrary: p thesis rule: sack_rx_advance_from_scoreboard.induct)
  case (1 t)
  show ?case
  proof (cases "next_range t")
    case None
    with 1(2) [of p] 1(3) show ?thesis by (simp add: sack_rx_advance_from_scoreboard.simps [of t])
  next
    case (Some i)
    define n where "n = unat (sb_len (sack_rx_ranges (sack t) ! i))"
    have i: "i < sack_rx_range_len (sack t)" "sb_left (sack_rx_ranges (sack t) ! i) = rcv_nxt t"
      using find_range_at_Some [OF Some [unfolded next_range_def]] by (auto simp: nth_take)
    have st: "rx_stream S (p + n) (fold_range t i)"
      and size: "rb_size (receive_buffer (fold_range t i)) = rb_size (receive_buffer t) + n"
      using rx_stream_fold_range [OF 1(3) i] by (simp_all add: n_def)
    obtain p' where "p + n \<le> p'" "rx_stream S p' (sack_rx_advance_from_scoreboard (fold_range t i))"
      "rcv_nxt (sack_rx_advance_from_scoreboard (fold_range t i)) = rcv_nxt (fold_range t i) + of_nat (p' - (p + n))"
      "rb_size (receive_buffer (sack_rx_advance_from_scoreboard (fold_range t i))) =
         rb_size (receive_buffer (fold_range t i)) + (p' - (p + n))"
      "next_range (sack_rx_advance_from_scoreboard (fold_range t i)) = None"
      using 1(1) [OF Some _ st] by blast
    moreover have "rcv_nxt (fold_range t i) = rcv_nxt t + of_nat n" by (simp add: fold_range_def Let_def n_def)
    moreover have "of_nat (p' - p) = (of_nat n + of_nat (p' - (p + n)) :: u32)" if "p + n \<le> p'"
      using that by (simp add: of_nat_diff)
    ultimately show ?thesis
      using 1(2) [of p'] Some size by (simp add: sack_rx_advance_from_scoreboard.simps [of t] add.assoc)
  qed
qed

text \<open>The application reads a prefix of what is readable and the rest stays.\<close>

lemma rx_stream_read:
  assumes st: "rx_stream S p t"
  shows "rx_stream S p (t\<lparr>receive_buffer := fst (rb_read (receive_buffer t) len)\<rparr>)"
    "snd (rb_read (receive_buffer t) len) =
       map S [p - rb_size (receive_buffer t)..<min p (p - rb_size (receive_buffer t) + len)]"
proof -
  let ?rb = "receive_buffer t"
  have inv: "rb_inv ?rb" and con: "rb_contents ?rb = map S [p - rb_size ?rb..<p]" "rb_size ?rb \<le> p"
    using st by (simp_all add: rx_stream_def)
  note rd = rb_read_contents [where k = len, OF inv]
  have size: "rb_size (fst (rb_read ?rb len)) = rb_size ?rb - len"
    using arg_cong [OF rd(2), of length] by simp
  have "rb_contents (fst (rb_read ?rb len)) = map S [p - (rb_size ?rb - len)..<p]"
    using con by (auto simp: rd(2) drop_map drop_upt intro!: arg_cong [of _ _ "map S"] nth_equalityI)
  then show "rx_stream S p (t\<lparr>receive_buffer := fst (rb_read ?rb len)\<rparr>)"
    using st rd(1,3,4) size by (force simp: rx_stream_def)
  show "snd (rb_read ?rb len) = map S [p - rb_size ?rb..<min p (p - rb_size ?rb + len)]"
    unfolding rb_read_out [OF inv] con by (auto simp: take_map take_upt min_def intro!: nth_equalityI)
qed

end
