(* ===== verification/Tcp_Congestion.thy ===== *)
theory Tcp_Congestion
  imports Tcp_Sack Complex_Main
begin

text \<open>
  Congestion control: \<^verbatim>\<open>cc/mod.rs\<close>, \<^verbatim>\<open>cwv.rs\<close> and \<^verbatim>\<open>pacing.rs\<close> of
  \<^verbatim>\<open>kernel/src/driver/net/proto/tcp\<close>. Clock readings are the argument \<open>now\<close>. The CUBIC formula is
  evaluated in \<open>f64\<close> by the source: here every floating-point operation is the rational one followed
  by a rounding function, and both that function and the cube root of the \<open>libm\<close> crate are
  arguments (\<open>f64_env\<close>), so that the lemmas hold for every rounding.
\<close>

record f64_env =
  f64_round :: "rat \<Rightarrow> rat"
  f64_cbrt :: "rat \<Rightarrow> rat"

text \<open>The casts \<open>as u32\<close> and \<open>as u64\<close> from a float truncate toward zero and saturate.\<close>

definition f64_as_u32 :: "rat \<Rightarrow> u32" where
  "f64_as_u32 x = (if x \<le> 0 then 0 else if x \<ge> 4294967295 then - 1 else of_int \<lfloor>x\<rfloor>)"

definition f64_as_u64 :: "rat \<Rightarrow> u64" where
  "f64_as_u64 x = (if x \<le> 0 then 0 else if x \<ge> 18446744073709551615 then - 1 else of_int \<lfloor>x\<rfloor>)"

section \<open>Congestion window validation\<close>

datatype cwv_reduce_reason = IdleReason | AppLimited

definition cwv_note_validated :: "tcp_control_block \<Rightarrow> tcp_control_block" where
  "cwv_note_validated t =
     (if \<not> cwv_enabled (cwv t) then t
      else t\<lparr>cwv := (cwv t)\<lparr>cwv_validated := True, cwv_app_limited_since := None\<rparr>\<rparr>)"

definition cwv_note_app_limited :: "instant \<Rightarrow> tcp_control_block \<Rightarrow> tcp_control_block" where
  "cwv_note_app_limited now t =
     (if \<not> cwv_enabled (cwv t) then t
      else t\<lparr>cwv := (cwv t)\<lparr>cwv_validated := False,
             cwv_app_limited_since := (case cwv_app_limited_since (cwv t) of
                None \<Rightarrow> Some now | Some since \<Rightarrow> Some since)\<rparr>\<rparr>)"

definition cwv_reduce_cwnd :: "cwv_reduce_reason \<Rightarrow> tcp_control_block \<Rightarrow> tcp_control_block" where
  "cwv_reduce_cwnd reason t =
     (let pipe = max (cwv_pipe_max (cwv t)) (flight_size_bytes t);
          floor = max (2 * effective_mss t) 1;
          target = max pipe floor;
          t1 = (if cwnd t > target
                then t\<lparr>cwnd := target,
                       ssthresh := (if ssthresh t < target then target else ssthresh t),
                       cwv := (case reason of
                           IdleReason \<Rightarrow> (cwv t)\<lparr>cwv_idle_reduce := saturating_add (cwv_idle_reduce (cwv t)) 1\<rparr>
                         | AppLimited \<Rightarrow> (cwv t)\<lparr>cwv_applim_reduce := saturating_add (cwv_applim_reduce (cwv t)) 1\<rparr>)\<rparr>
                else t)
      in t1\<lparr>cwv := (cwv t1)\<lparr>cwv_pipe_max := pipe\<rparr>\<rparr>)"

section \<open>Window growth\<close>

definition calculate_cubic_window :: "f64_env \<Rightarrow> cubic_state \<Rightarrow> duration \<Rightarrow> u32" where
  "calculate_cubic_window fp cubic elapsed =
     (let r = f64_round fp;
          t = r (r (of_nat (unat (as_nanos elapsed))) / 1000000000);
          k = r (r (of_nat (unat (cubic_k_ns cubic))) / 1000000000);
          c = r (r (of_nat (unat (cubic_c cubic))) / 1024);
          diff = r (t - k);
          w = r (r (c * r (r (diff * diff) * diff)) + r (of_nat (unat (cubic_w_max cubic))))
      in if w < 0 then cubic_w_max cubic else f64_as_u32 w)"

lemma unat_sub_less: "wnd \<noteq> 0 \<Longrightarrow> \<not> accum < wnd \<Longrightarrow> unat (accum - wnd) < unat (accum :: u32)"
proof -
  assume "wnd \<noteq> 0" "\<not> accum < wnd"
  then have "0 < unat wnd" "unat wnd \<le> unat accum" by (simp_all add: unat_gt_0 not_less word_le_nat_alt)
  then show ?thesis by (simp add: unat_sub word_le_nat_alt)
qed

text \<open>The congestion avoidance loop: one SMSS for each full window in the accumulator. It returns the
  window, what is left in the accumulator and the number of increments counted.\<close>

function reno_grow :: "u32 \<Rightarrow> u32 \<Rightarrow> u32 \<Rightarrow> u32 \<Rightarrow> u32 \<times> u32 \<times> u32" where
  "reno_grow smss accum wnd increments =
     (if wnd = 0 \<or> accum < wnd then (wnd, accum, increments)
      else reno_grow smss (accum - wnd) (saturating_add wnd smss) (saturating_add increments 1))"
  by pat_completeness auto
termination
  by (relation "measure (\<lambda>(smss, accum, wnd, increments). unat accum)")
    (auto intro: unat_sub_less)

declare reno_grow.simps [simp del]

definition slow_start_credit :: "u32 \<Rightarrow> u32 \<Rightarrow> abc_state \<Rightarrow> u32" where
  "slow_start_credit smss bytes_acked a = min bytes_acked (saturating_mul smss (ucast (abc_l_smss a)))"

definition grow_slow_start :: "bool \<Rightarrow> u32 \<Rightarrow> tcp_control_block \<Rightarrow> tcp_control_block" where
  "grow_slow_start raw bytes_acked t =
     (let smss = max (effective_mss t) 1;
          credit = slow_start_credit smss bytes_acked (abc t);
          a = (if credit < bytes_acked
               then (abc t)\<lparr>abc_ss_capped := saturating_add (abc_ss_capped (abc t)) 1\<rparr> else abc t);
          a' = a\<lparr>abc_bytes_credited := saturating_add (abc_bytes_credited a) (ucast credit)\<rparr>
      in if raw
         then t\<lparr>cwv := (cwv t)\<lparr>cwv_cwnd_raw := saturating_add (cwv_cwnd_raw (cwv t)) credit\<rparr>, abc := a'\<rparr>
         else t\<lparr>cwnd := saturating_add (cwnd t) credit, abc := a'\<rparr>)"

definition cubic_step :: "u32 \<Rightarrow> u32 \<Rightarrow> u32 \<Rightarrow> u32 \<Rightarrow> u32" where
  "cubic_step smss cubic_target reno_wnd w =
     (let target = max cubic_target reno_wnd
      in if target > w then saturating_add w (min (target - w) smss) else reno_wnd)"

definition grow_avoidance :: "f64_env \<Rightarrow> instant \<Rightarrow> bool \<Rightarrow> u32 \<Rightarrow> tcp_control_block \<Rightarrow> tcp_control_block" where
  "grow_avoidance fp now raw bytes_acked t =
     (let smss = max (effective_mss t) 1;
          a = (if raw
               then (abc t)\<lparr>abc_ca_accum_raw := saturating_add (abc_ca_accum_raw (abc t)) bytes_acked\<rparr>
               else (abc t)\<lparr>abc_ca_accum := saturating_add (abc_ca_accum (abc t)) bytes_acked,
                            abc_bytes_credited := saturating_add (abc_bytes_credited (abc t)) (ucast bytes_acked)\<rparr>);
          w = (if raw then cwv_cwnd_raw (cwv t) else cwnd t)
      in case reno_grow smss (if raw then abc_ca_accum_raw a else abc_ca_accum a) w (abc_ca_increments a) of
           (reno_wnd, accum, increments) \<Rightarrow>
             let a1 = (if raw then a\<lparr>abc_ca_accum_raw := accum\<rparr> else a\<lparr>abc_ca_accum := accum\<rparr>);
                 t1 = t\<lparr>abc := a1\<lparr>abc_ca_increments := increments\<rparr>\<rparr>;
                 w' = (case congestion_control t of
                         Cubic cubic \<Rightarrow>
                           cubic_step smss
                             (calculate_cubic_window fp cubic (instant_diff now (cubic_epoch_start cubic)))
                             reno_wnd w
                       | Reno _ \<Rightarrow> reno_wnd)
             in if raw then t1\<lparr>cwv := (cwv t1)\<lparr>cwv_cwnd_raw := w'\<rparr>\<rparr> else t1\<lparr>cwnd := w'\<rparr>)"

definition grow_cwnd_value ::
  "f64_env \<Rightarrow> instant \<Rightarrow> bool \<Rightarrow> u32 \<Rightarrow> tcp_control_block \<Rightarrow> tcp_control_block" where
  "grow_cwnd_value fp now raw bytes_acked t =
     (if bytes_acked = 0 then t
      else if (if raw then cwv_cwnd_raw (cwv t) else cwnd t) < ssthresh t
        then grow_slow_start raw bytes_acked t
        else grow_avoidance fp now raw bytes_acked t)"

definition cwv_reduce_when_idle :: "instant \<Rightarrow> tcp_control_block \<Rightarrow> tcp_control_block" where
  "cwv_reduce_when_idle now t =
     (let t1 = (if instant_diff now (cwv_last_data_tx (cwv t)) > rto t
                then cwv_reduce_cwnd IdleReason t else t)
      in case cwv_app_limited_since (cwv t1) of
           None \<Rightarrow> t1
         | Some since \<Rightarrow>
             if instant_diff now since \<ge> rto t1
             then let t2 = cwv_reduce_cwnd AppLimited t1
                  in t2\<lparr>cwv := (cwv t2)\<lparr>cwv_app_limited_since := Some now\<rparr>\<rparr>
             else t1)"

definition update_congestion_window ::
  "f64_env \<Rightarrow> instant \<Rightarrow> u32 \<Rightarrow> tcp_control_block \<Rightarrow> tcp_control_block" where
  "update_congestion_window fp now bytes_acked t =
     (if in_fast_recovery t then t
      else let t1 = grow_cwnd_value fp now True bytes_acked t
           in if \<not> cwv_enabled (cwv t1) then t1\<lparr>cwnd := cwv_cwnd_raw (cwv t1)\<rparr>
              else let t2 = cwv_reduce_when_idle now t1
                   in if \<not> cwv_validated (cwv t2)
                      then t2\<lparr>cwv := (cwv t2)\<lparr>cwv_no_increase := saturating_add (cwv_no_increase (cwv t2)) 1\<rparr>\<rparr>
                      else grow_cwnd_value fp now False bytes_acked
                             (t2\<lparr>cwv := (cwv t2)\<lparr>cwv_validated := False, cwv_pipe_max := 0\<rparr>\<rparr>))"

section \<open>Multiplicative decrease\<close>

text \<open>\<open>(w as u64 * beta as u64) >> 10\<close>, cut to 32 bits.\<close>

definition beta_cut :: "u32 \<Rightarrow> u32 \<Rightarrow> u32" where
  "beta_cut w beta = ucast (drop_bit 10 (ucast w * ucast beta :: u64))"

definition cubic_k :: "f64_env \<Rightarrow> u32 \<Rightarrow> u32 \<Rightarrow> u64" where
  "cubic_k fp diff c =
     (let r = f64_round fp;
          d = r (of_nat (unat diff));
          cf = r (r (of_nat (unat c)) / 1024);
          k_s = (if d > 0 \<and> cf > 0 then f64_cbrt fp (r (d / cf)) else 0)
      in f64_as_u64 (r (k_s * 1000000000)))"

definition cubic_event :: "f64_env \<Rightarrow> instant \<Rightarrow> cubic_state \<Rightarrow> tcp_control_block \<Rightarrow> tcp_control_block" where
  "cubic_event fp now cubic t =
     (let smss = max (effective_mss t) 1;
          w_max = (if cwnd t < cubic_last_max_cwnd cubic then cwnd t * 9 div 10 else cwnd t);
          ss = beta_cut (cwnd t) (cubic_beta cubic);
          w = ss + 3 * smss;
          raw_ss = beta_cut (cwv_cwnd_raw (cwv t)) (cubic_beta cubic);
          diff = saturating_sub w_max w
      in t\<lparr>ssthresh := ss, cwnd := w, cwv := (cwv t)\<lparr>cwv_cwnd_raw := raw_ss + 3 * smss\<rparr>,
           congestion_control := Cubic (cubic\<lparr>cubic_epoch_start := now, cubic_last_max_cwnd := cwnd t,
             cubic_w_max := w_max, cubic_recover := snd_nxt t,
             cubic_k_ns := cubic_k fp diff (cubic_c cubic)\<rparr>)\<rparr>)"

definition reno_event :: "reno_state \<Rightarrow> tcp_control_block \<Rightarrow> tcp_control_block" where
  "reno_event reno t =
     (let flight = (if sack_enabled (sack t) then sack_pipe_bytes t else flight_size_bytes t);
          smss = max (effective_mss t) 1;
          ss = max (flight div 2) (2 * smss)
      in t\<lparr>ssthresh := ss, cwnd := ss + 3 * smss,
           cwv := (cwv t)\<lparr>cwv_cwnd_raw :=
             saturating_add (max (cwv_cwnd_raw (cwv t) div 2) (2 * smss)) (3 * smss)\<rparr>,
           congestion_control := Reno (reno\<lparr>reno_recover := snd_nxt t\<rparr>)\<rparr>)"

definition on_congestion_event :: "f64_env \<Rightarrow> instant \<Rightarrow> tcp_control_block \<Rightarrow> tcp_control_block" where
  "on_congestion_event fp now t =
     (let t1 = (case congestion_control t of Cubic cubic \<Rightarrow> cubic_event fp now cubic t
                | Reno reno \<Rightarrow> reno_event reno t)
      in t1\<lparr>abc := clear_accumulators (abc t1)\<rparr>)"

section \<open>Pacing\<close>

text \<open>The rate is computed in 128 bits, which none of these products exceeds.\<close>

definition pacing_rate :: "tcp_control_block \<Rightarrow> duration \<Rightarrow> u64" where
  "pacing_rate t d =
     (let srtt_ns = max (unat (as_nanos d)) 1;
          wnd = unat (max (cwnd t) 1);
          gain = (if cwnd t < ssthresh t then 200 else 120);
          rate = (wnd * 1000000000 * gain) div (srtt_ns * 100)
      in of_nat (max rate 1))"

definition pacing_gap :: "u64 \<Rightarrow> u32 \<Rightarrow> duration \<Rightarrow> duration" where
  "pacing_gap rate send_len cap =
     (let gap_ns = (unat send_len * 1000000000) div unat rate
      in min (from_nanos (of_nat (max gap_ns 1000))) cap)"

definition pacing_gap_for :: "u32 \<Rightarrow> tcp_control_block \<Rightarrow> tcp_control_block \<times> duration option" where
  "pacing_gap_for send_len t =
     (if \<not> pacing_enabled (pacing t) \<or> send_len = 0 then (t, None)
      else case srtt t of
        None \<Rightarrow> (t\<lparr>pacing := (pacing t)\<lparr>pacing_rate_bps := 0\<rparr>\<rparr>, None)
      | Some d \<Rightarrow>
          let rate = pacing_rate t d;
              gap = pacing_gap rate send_len (rto t)
          in (t\<lparr>pacing := (pacing t)\<lparr>pacing_rate_bps := rate, pacing_last_gap := gap\<rparr>\<rparr>, Some gap))"

definition pacing_should_hold :: "instant \<Rightarrow> tcp_control_block \<Rightarrow> tcp_control_block \<times> bool" where
  "pacing_should_hold now t =
     (if \<not> pacing_enabled (pacing t) \<or> frto_ph (frto t) = Step2 then (t, False)
      else case pacing_next_tx (pacing t) of
        None \<Rightarrow> (t, False)
      | Some nxt \<Rightarrow>
          if now < nxt
          then (t\<lparr>pacing := (pacing t)\<lparr>pacing_held_count := saturating_add (pacing_held_count (pacing t)) 1\<rparr>\<rparr>, True)
          else (t, False))"

section \<open>Bounds on the window\<close>

lemma reno_grow_ge: "reno_grow smss accum wnd inc = (w, a, k) \<Longrightarrow> wnd \<le> w"
proof (induction smss accum wnd inc rule: reno_grow.induct)
  case (1 smss accum wnd inc)
  show ?case
  proof (cases "wnd = 0 \<or> accum < wnd")
    case False
    then have "saturating_add wnd smss \<le> w"
      using 1 by (simp add: reno_grow.simps [of smss accum wnd])
    then show ?thesis using saturating_add_ge [of wnd smss] by order
  qed (use 1(2) in \<open>auto simp: reno_grow.simps [of smss accum wnd]\<close>)
qed

lemma reno_grow_exit: "reno_grow smss accum wnd inc = (w, a, k) \<Longrightarrow> w = 0 \<or> a < w"
proof (induction smss accum wnd inc rule: reno_grow.induct)
  case (1 smss accum wnd inc)
  then show ?case
    by (cases "wnd = 0 \<or> accum < wnd") (auto simp: reno_grow.simps [of smss accum wnd])
qed

lemma cubic_step_bounds:
  assumes "w \<le> reno_wnd"
  shows "w \<le> cubic_step smss target reno_wnd w"
    "unat (cubic_step smss target reno_wnd w) \<le> unat w + unat smss"
proof -
  show "w \<le> cubic_step smss target reno_wnd w"
    using assms by (simp add: cubic_step_def Let_def saturating_add_ge)
  have "unat (saturating_add w (min (max target reno_wnd - w) smss)) \<le> unat w + unat smss"
    unfolding unat_saturating_add unat_min_word_eq by linarith
  moreover have "reno_wnd = w" if "\<not> max target reno_wnd > w" using that assms by (simp add: not_less)
  ultimately show "unat (cubic_step smss target reno_wnd w) \<le> unat w + unat smss"
    by (auto simp: cubic_step_def Let_def)
qed

lemma grow_avoidance_cwnd:
  "\<exists>reno_wnd. cwnd t \<le> reno_wnd \<and> cwnd (grow_avoidance fp now False bytes_acked t) =
     (case congestion_control t of
        Cubic cubic \<Rightarrow> cubic_step (max (effective_mss t) 1)
          (calculate_cubic_window fp cubic (instant_diff now (cubic_epoch_start cubic))) reno_wnd (cwnd t)
      | Reno _ \<Rightarrow> reno_wnd)"
proof -
  obtain w a k where r: "reno_grow (max (effective_mss t) 1)
      (saturating_add (abc_ca_accum (abc t)) bytes_acked) (cwnd t) (abc_ca_increments (abc t)) = (w, a, k)"
    by (metis prod_cases3)
  then show ?thesis
    using reno_grow_ge [OF r]
    by (intro exI [of _ w]) (auto simp: grow_avoidance_def Let_def split: congestion_control.split)
qed


definition example_fp :: f64_env where
  "example_fp = \<lparr>f64_round = (\<lambda>x. x), f64_cbrt = (\<lambda>x. x)\<rparr>"

lemma example_tcb_cc [simp]:
  "cwnd example_tcb = 1512" "ssthresh example_tcb = 0x7fffffff" "effective_mss example_tcb = 1460"
  "abc_l_smss (abc example_tcb) = 2" "in_fast_recovery example_tcb = False"
  "cwv_enabled (cwv example_tcb) = True" "cwv_pipe_max (cwv example_tcb) = 0"
  "congestion_control example_tcb = Cubic \<lparr>cubic_w_max = 0, cubic_epoch_start = 0, cubic_k_ns = 0,
     cubic_beta = 717, cubic_c = 410, cubic_last_max_cwnd = 0, cubic_recover = 0\<rparr>"
  by (simp_all add: example_tcb_def tcb_new_def abc_new_def cwv_new_def INITIAL_CWND_def INITIAL_SSTHRESH_def
      MSS_def settings_default_def)


lemma unat_double: "unat (2 * m :: u32) \<le> 2 * unat m"
proof -
  have "2 * m = m + m" by simp
  then show ?thesis by (simp only: unat_add_wrap) (auto split: if_splits)
qed

lemma cwv_reduce_cwnd_bounds:
  "cwnd (cwv_reduce_cwnd r t) \<le> cwnd t"
  "min (cwnd t) (2 * effective_mss t) \<le> cwnd (cwv_reduce_cwnd r t)"
  "effective_mss (cwv_reduce_cwnd r t) = effective_mss t"
  "cwv_validated (cwv (cwv_reduce_cwnd r t)) = cwv_validated (cwv t)"
  by (auto simp: cwv_reduce_cwnd_def Let_def min_def max_def split: cwv_reduce_reason.split)

lemma cwv_reduce_when_idle_bounds:
  "cwnd (cwv_reduce_when_idle now t) \<le> cwnd t"
  "min (cwnd t) (2 * effective_mss t) \<le> cwnd (cwv_reduce_when_idle now t)"
  "cwv_validated (cwv (cwv_reduce_when_idle now t)) = cwv_validated (cwv t)"
proof -
  define t1 where "t1 = (if instant_diff now (cwv_last_data_tx (cwv t)) > rto t
    then cwv_reduce_cwnd IdleReason t else t)"
  have t1: "cwnd t1 \<le> cwnd t" "min (cwnd t) (2 * effective_mss t) \<le> cwnd t1"
    "effective_mss t1 = effective_mss t" "cwv_validated (cwv t1) = cwv_validated (cwv t)"
    unfolding t1_def using cwv_reduce_cwnd_bounds [where r = IdleReason and t = t] by auto
  have eq: "cwnd (cwv_reduce_when_idle now t) = cwnd t1 \<or>
      cwnd (cwv_reduce_when_idle now t) = cwnd (cwv_reduce_cwnd AppLimited t1)"
    "cwv_validated (cwv (cwv_reduce_when_idle now t)) = cwv_validated (cwv t1)"
    unfolding cwv_reduce_when_idle_def t1_def [symmetric]
    by (auto simp: Let_def cwv_reduce_cwnd_bounds split: option.split)
  show "cwnd (cwv_reduce_when_idle now t) \<le> cwnd t"
    using eq(1) t1(1) cwv_reduce_cwnd_bounds(1) [where r = AppLimited and t = t1] by auto
  show "min (cwnd t) (2 * effective_mss t) \<le> cwnd (cwv_reduce_when_idle now t)"
    using eq(1) t1(2,3) cwv_reduce_cwnd_bounds(2) [where r = AppLimited and t = t1] by (auto simp: min_le_iff_disj)
  show "cwv_validated (cwv (cwv_reduce_when_idle now t)) = cwv_validated (cwv t)"
    using eq(2) t1(4) by simp
qed

lemma grow_raw_frame:
  "cwnd (grow_cwnd_value fp now True b t) = cwnd t"
  "effective_mss (grow_cwnd_value fp now True b t) = effective_mss t"
  "cwv_enabled (cwv (grow_cwnd_value fp now True b t)) = cwv_enabled (cwv t)"
  "cwv_validated (cwv (grow_cwnd_value fp now True b t)) = cwv_validated (cwv t)"
  by (auto simp: grow_cwnd_value_def grow_slow_start_def grow_avoidance_def Let_def split: prod.split)

text \<open>New CWV (RFC 7661) holds the window of an application-limited sender: while it is not
  validated, \<open>update_congestion_window\<close> never raises \<open>cwnd\<close>, and what it takes away for idleness stops
  at two SMSS (or at \<open>cwnd\<close> itself if that is smaller).\<close>

theorem cwv_blocks_growth:
  assumes "cwv_enabled (cwv t)" "\<not> cwv_validated (cwv t)"
  shows "cwnd (update_congestion_window fp now b t) \<le> cwnd t \<and>
    min (cwnd t) (2 * effective_mss t) \<le> cwnd (update_congestion_window fp now b t)"
proof (cases "in_fast_recovery t")
  case False
  define t1 where "t1 = grow_cwnd_value fp now True b t"
  have "\<not> cwv_validated (cwv (cwv_reduce_when_idle now t1))" "cwv_enabled (cwv t1)"
    using assms by (simp_all add: t1_def grow_raw_frame cwv_reduce_when_idle_bounds(3))
  then have "cwnd (update_congestion_window fp now b t) = cwnd (cwv_reduce_when_idle now t1)"
    using False by (simp add: update_congestion_window_def Let_def flip: t1_def)
  then show ?thesis
    using cwv_reduce_when_idle_bounds(1) [of now t1] cwv_reduce_when_idle_bounds(2) [of t1 now]
    by (simp add: t1_def grow_raw_frame)
qed (simp add: update_congestion_window_def)

lemma unat_u32_u64: "unat (ucast (x :: u32) :: u64) = unat x"
  using u32_less [of x] by (simp add: unsigned_ucast_eq take_bit_nat_eq_self_iff)

lemma beta_cut_value:
  assumes "unat beta \<le> 1024"
  shows "unat (beta_cut w beta) = unat w * unat beta div 1024"
proof -
  have le: "unat w * unat beta \<le> unat w * 1024" using assms by simp
  then have "unat w * unat beta < 18446744073709551616" using u32_less [of w] by linarith
  then have prod: "unat (ucast w * ucast beta :: u64) = unat w * unat beta"
    by (simp add: unat_word_ariths(2) unat_u32_u64)
  have "unat (drop_bit 10 (ucast w * ucast beta :: u64)) = unat w * unat beta div 1024"
    by (simp add: drop_bit_eq_div unat_div prod)
  moreover have "unat w * unat beta div 1024 < 4294967296"
    using div_le_mono [OF le, of 1024] u32_less [of w] by simp
  ultimately show ?thesis
    by (simp add: beta_cut_def unsigned_ucast_eq take_bit_nat_eq_self)
qed

text \<open>a congestion event of a CUBIC connection is a multiplicative decrease by \<open>beta / 1024\<close>,
  exact in 32 bits: \<open>ssthresh\<close> becomes that fraction of \<open>cwnd\<close>, \<open>cwnd\<close> lands three segments above
  it, the recovery point is \<open>SND.NXT\<close> and the byte-counting credits are dropped.\<close>

theorem cubic_multiplicative_decrease:
  assumes "congestion_control t = Cubic cubic" "cubic_beta cubic = 717" "unat (effective_mss t) \<le> 1460"
  shows "let t' = on_congestion_event fp now t; smss = max (effective_mss t) 1 in
    unat (ssthresh t') = unat (cwnd t) * 717 div 1024 \<and>
    unat (cwnd t') = unat (ssthresh t') + 3 * unat smss \<and>
    (\<exists>c. congestion_control t' = Cubic c \<and> cubic_recover c = snd_nxt t) \<and>
    abc_ca_accum (abc t') = 0 \<and> snd_nxt t' = snd_nxt t"
proof -
  let ?m = "max (effective_mss t) 1" and ?ss = "beta_cut (cwnd t) 717"
  have ss: "unat ?ss = unat (cwnd t) * 717 div 1024" by (simp add: beta_cut_value)
  then have small: "unat ?ss < 3100000000"
    using u32_less [of "cwnd t"] by (simp add: div_less_iff_less_mult)
  have m: "unat ?m \<le> 1460" using assms(3) by (simp add: unat_max_word_eq)
  have three: "unat (3 * ?m) = 3 * unat ?m"
    using m by (simp only: unat_word_ariths(2)) simp
  have sum: "unat (?ss + 3 * ?m) = unat ?ss + 3 * unat ?m"
    unfolding unat_add_wrap three using small m by simp
  have ev: "ssthresh (on_congestion_event fp now t) = ?ss" "cwnd (on_congestion_event fp now t) = ?ss + 3 * ?m"
    "\<exists>c. congestion_control (on_congestion_event fp now t) = Cubic c \<and> cubic_recover c = snd_nxt t"
    "abc_ca_accum (abc (on_congestion_event fp now t)) = 0" "snd_nxt (on_congestion_event fp now t) = snd_nxt t"
    using assms by (simp_all add: on_congestion_event_def cubic_event_def Let_def clear_accumulators_def)
  show ?thesis unfolding Let_def ev(1,2) sum ss using ev(3-5) by simp
qed

lemma pacing_gap_value:
  "pacing_gap rate len cap \<le> cap" "pacing_gap rate len cap = cap \<or> 1000 \<le> pacing_gap rate len cap"
proof -
  define ns where "ns = max ((unat len * 1000000000) div unat rate) 1000"
  have "(unat len * 1000000000) div unat rate \<le> unat len * 1000000000" by (rule div_le_dividend)
  then have "ns \<le> unat len * 1000000000 + 1000" unfolding ns_def by (intro max.boundedI) linarith+
  then have "ns < 18446744073709551616" using u32_less [of len] by linarith
  then have "unat (of_nat ns :: u64) = ns" by (intro unat_of_nat_len) simp
  moreover have "1000 \<le> ns" by (simp add: ns_def)
  ultimately have "1000 \<le> from_nanos (of_nat ns)" by (simp add: word_le_nat_alt from_nanos_def)
  moreover have "pacing_gap rate len cap = min (from_nanos (of_nat ns)) cap"
    by (simp add: pacing_gap_def ns_def)
  ultimately show "pacing_gap rate len cap \<le> cap" "pacing_gap rate len cap = cap \<or> 1000 \<le> pacing_gap rate len cap"
    by (auto simp: min_def)
qed

text \<open>the pacing gap never stops the sender: whenever a gap is computed it is at most the
  retransmission timeout, and at least one microsecond unless the timeout is shorter.\<close>

theorem pacing_gap_bounds:
  assumes "pacing_gap_for len t = (t', Some gap)"
  shows "gap \<le> rto t \<and> (gap = rto t \<or> 1000 \<le> gap) \<and> rto t' = rto t"
proof -
  obtain d where "gap = pacing_gap (pacing_rate t d) len (rto t)" "rto t' = rto t"
    using assms by (auto simp: pacing_gap_for_def Let_def split: if_splits option.splits)
  then show ?thesis using pacing_gap_value by blast
qed

end
