(* ===== verification/Tcp_Recovery.thy ===== *)
theory Tcp_Recovery
  imports Tcp_Congestion
begin

text \<open>
  Round-trip estimation, PAWS and the undo of spurious timeouts: \<^verbatim>\<open>timestamp.rs\<close>, \<^verbatim>\<open>eifel.rs\<close>
  and \<^verbatim>\<open>frto.rs\<close> of \<^verbatim>\<open>kernel/src/driver/net/proto/tcp\<close>.
\<close>

section \<open>Timestamps and the retransmission timeout\<close>

definition PAWS_IDLE :: duration where
  "PAWS_IDLE = from_secs (24 * 24 * 3600)"

definition tcp_ts_now :: "instant \<Rightarrow> u32 \<Rightarrow> u32" where
  "tcp_ts_now now off = ucast (now div 1000000) + off"

definition on_rx_timestamp ::
  "instant \<Rightarrow> tcp_control_block \<Rightarrow> u32 \<Rightarrow> u32 \<Rightarrow> bool \<Rightarrow> bool \<Rightarrow> tcp_control_block \<times> bool" where
  "on_rx_timestamp now t s tsval syn rst =
     (if \<not> ts_enabled (ts t) then (t, True)
      else let idle = instant_diff now (ts_recent_age (ts t)) > PAWS_IDLE
           in if \<not> rst \<and> \<not> syn \<and> \<not> idle \<and> ts_recent (ts t) \<noteq> 0 \<and> seq_diff tsval (ts_recent (ts t)) < 0
              then (t, False)
              else let advances = seq_diff s (ts_last_ack_ts_seq (ts t)) \<ge> 0
                   in if advances \<or> syn
                      then (t\<lparr>ts := (ts t)\<lparr>ts_recent := tsval, ts_last_ack_ts_seq := s, ts_recent_age := now\<rparr>\<rparr>, True)
                      else (t, True))"

definition smoothed_rtt :: "duration \<Rightarrow> duration \<Rightarrow> duration" where
  "smoothed_rtt s r = from_nanos ((7 * as_nanos s) div 8 + as_nanos r div 8)"

definition rtt_variance :: "duration \<Rightarrow> duration \<Rightarrow> duration \<Rightarrow> duration" where
  "rtt_variance v s r = from_nanos ((3 * as_nanos v) div 4 + abs_diff (as_nanos s) (as_nanos r) div 4)"

definition rto_of :: "duration \<Rightarrow> duration \<Rightarrow> duration" where
  "rto_of s v =
     (let four_rttvar = from_nanos (saturating_mul (as_nanos v) 4);
          total = from_nanos (saturating_add (as_nanos s) (as_nanos four_rttvar))
      in min (max total (from_secs 1)) (from_secs 60))"

definition update_rtt_estimators :: "tcp_control_block \<Rightarrow> duration \<Rightarrow> tcp_control_block" where
  "update_rtt_estimators t0 r =
     (let t = rack_feed_rtt t0 r;
          (s, v) = (case (srtt t, rttvar t) of
                      (Some s, Some v) \<Rightarrow> (smoothed_rtt s r, rtt_variance v s r)
                    | _ \<Rightarrow> (r, from_nanos (as_nanos r div 2)))
      in t\<lparr>rttvar := Some v, srtt := Some s, rto := rto_of s v\<rparr>)"

section \<open>Eifel\<close>

definition EIFEL_IW_BYTES :: u32 where "EIFEL_IW_BYTES = 4380"

definition eifel_on_rto_before_md :: "tcp_control_block \<Rightarrow> tcp_control_block" where
  "eifel_on_rto_before_md t =
     (if \<not> ts_enabled (ts t) then t
      else t\<lparr>frto := frto_clear (frto t),
             eifel := (eifel t)\<lparr>eifel_pipe_prev := Some (max (flight_size_bytes t) (ssthresh t)),
               eifel_snd_max := Some (snd_nxt t), eifel_bytes_acked := 0\<rparr>\<rparr>)"

definition eifel_clear_pending :: "tcp_control_block \<Rightarrow> tcp_control_block" where
  "eifel_clear_pending t =
     t\<lparr>eifel := (eifel t)\<lparr>eifel_pipe_prev := None, eifel_retransmit_ts := None, eifel_snd_max := None,
       eifel_bytes_acked := 0\<rparr>\<rparr>"

definition eifel_undo :: "tcp_control_block \<Rightarrow> tcp_control_block" where
  "eifel_undo t =
     (let pipe_prev = (case eifel_pipe_prev (eifel t) of Some p \<Rightarrow> p | None \<Rightarrow> flight_size_bytes t);
          snd_max = (case eifel_snd_max (eifel t) of Some m \<Rightarrow> m | None \<Rightarrow> snd_nxt t);
          bump = min (eifel_bytes_acked (eifel t)) EIFEL_IW_BYTES;
          w = saturating_add (flight_size_bytes t) bump
      in eifel_clear_pending
           (t\<lparr>cwnd := w, cwv := (cwv t)\<lparr>cwv_cwnd_raw := w\<rparr>, ssthresh := pipe_prev,
              abc := clear_accumulators (abc t),
              snd_nxt := (if seq_diff snd_max (snd_una t) \<ge> 0 then snd_max else snd_nxt t),
              in_fast_recovery := False,
              eifel := (eifel t)\<lparr>eifel_spurious_count := saturating_add (eifel_spurious_count (eifel t)) 1\<rparr>\<rparr>))"

definition eifel_on_acceptable_ack :: "tcp_control_block \<Rightarrow> u32 option \<Rightarrow> bool \<Rightarrow> tcp_control_block" where
  "eifel_on_acceptable_ack t tsecr ece =
     (case eifel_retransmit_ts (eifel t) of
        None \<Rightarrow> t
      | Some retransmit_ts \<Rightarrow>
          (case tsecr of
             None \<Rightarrow> eifel_clear_pending t
           | Some echo \<Rightarrow>
               let spurious = seq_diff echo retransmit_ts < 0
               in if \<not> spurious \<or> ece then eifel_clear_pending t else eifel_undo t))"

section \<open>F-RTO\<close>

definition frto_on_rto :: "tcp_control_block \<Rightarrow> u32 \<Rightarrow> tcp_control_block" where
  "frto_on_rto t rto_retrans_end =
     (if \<not> ts_enabled (ts t) then t
      else eifel_clear_pending
             (t\<lparr>frto := (frto t)\<lparr>frto_prev_cwnd := cwnd t, frto_prev_ssthresh := ssthresh t,
                frto_recover_nxt := snd_nxt t, frto_rto_retrans_end := rto_retrans_end, frto_ph := Step1\<rparr>\<rparr>))"

definition frto_declare_spurious :: "tcp_control_block \<Rightarrow> tcp_control_block" where
  "frto_declare_spurious t =
     (let smss = max (effective_mss t) 1;
          ss = max (frto_prev_ssthresh (frto t)) (max (2 * smss) (ssthresh t));
          w = max (saturating_add (flight_size_bytes t) smss) (2 * smss);
          t1 = eifel_clear_pending
                 (t\<lparr>ssthresh := ss, cwnd := w, cwv := (cwv t)\<lparr>cwv_cwnd_raw := w\<rparr>,
                    abc := clear_accumulators (abc t)\<rparr>)
      in t1\<lparr>in_fast_recovery := False,
            frto := frto_clear ((frto t1)\<lparr>frto_spurious_count := saturating_add (frto_spurious_count (frto t1)) 1\<rparr>)\<rparr>)"

definition frto_declare_loss :: "tcp_control_block \<Rightarrow> tcp_control_block" where
  "frto_declare_loss t =
     t\<lparr>frto := frto_clear ((frto t)\<lparr>frto_declared_loss_count :=
       saturating_add (frto_declared_loss_count (frto t)) 1\<rparr>)\<rparr>"

definition frto_on_ack :: "tcp_control_block \<Rightarrow> u32 \<Rightarrow> bool \<Rightarrow> tcp_control_block" where
  "frto_on_ack t a is_dup =
     (if ts_enabled (ts t) then t\<lparr>frto := frto_clear (frto t)\<rparr>
      else case frto_ph (frto t) of
        Idle \<Rightarrow> t
      | Step1 \<Rightarrow>
          if is_dup then frto_declare_loss t
          else let smss = max (effective_mss t) 1
               in t\<lparr>frto := (frto t)\<lparr>frto_ph := Step2\<rparr>, cwnd := max (cwnd t) smss,
                    cwv := (cwv t)\<lparr>cwv_cwnd_raw := max (cwv_cwnd_raw (cwv t)) smss\<rparr>\<rparr>
      | Step2 \<Rightarrow> if is_dup then frto_declare_loss t else frto_declare_spurious t)"

section \<open>Properties\<close>

lemma secs_values: "from_secs 1 = 1000000000" "from_secs 60 = 60000000000"
  by (simp_all add: from_secs_def)

lemma rto_of_bounds: "from_secs 1 \<le> rto_of s v" "rto_of s v \<le> from_secs 60"
  by (auto simp: rto_of_def Let_def secs_values min_def max_def)

text \<open>after every RTT sample the retransmission timeout is within one second and one minute
  (RFC 6298), and RACK's minimum RTT is at most the sample.\<close>

theorem rto_clamped:
  "let t' = update_rtt_estimators t r in
     from_secs 1 \<le> rto t' \<and> rto t' \<le> from_secs 60 \<and> rack_min_rtt (sack t') \<le> r \<and>
     srtt t' \<noteq> None \<and> rttvar t' \<noteq> None"
  by (simp add: update_rtt_estimators_def Let_def rack_feed_rtt_def rto_of_bounds split: prod.split)

text \<open>C28: PAWS (RFC 7323) only moves \<open>TS.Recent\<close> forward. For a segment that is neither SYN nor RST, on
  a connection that has a recent timestamp and was not idle for 24 days, \<open>on_rx_timestamp\<close> accepts
  exactly the timestamps that are not older, and the recorded timestamp never goes back.\<close>

theorem paws_monotone:
  assumes "ts_enabled (ts t)" "ts_recent (ts t) \<noteq> 0"
    and "\<not> instant_diff now (ts_recent_age (ts t)) > PAWS_IDLE"
    and "on_rx_timestamp now t s tsval False False = (t', ok)"
  shows "(ok \<longleftrightarrow> 0 \<le> seq_diff tsval (ts_recent (ts t))) \<and>
    0 \<le> seq_diff (ts_recent (ts t')) (ts_recent (ts t)) \<and> (\<not> ok \<longrightarrow> t' = t)"
  using assms by (auto simp: on_rx_timestamp_def Let_def split: if_splits)

definition example_ts_tcb :: tcp_control_block where
  "example_ts_tcb = example_tcb\<lparr>ts := (ts example_tcb)\<lparr>ts_enabled := True, ts_recent := 50\<rparr>\<rparr>"

theorem paws_monotone_witness:
  "\<not> snd (on_rx_timestamp 10 example_ts_tcb 1000 49 False False)"
proof -
  have "seq_diff 49 (ts_recent (ts example_ts_tcb)) < 0"
    by (simp add: example_ts_tcb_def seq_diff_neg_iff unat_max_word)
  moreover have "ts_recent_age (ts example_ts_tcb) = 0"
    by (simp add: example_ts_tcb_def example_tcb_def tcb_new_def ts_new_def)
  ultimately show ?thesis
    using paws_monotone [of example_ts_tcb 10 1000 49
        "fst (on_rx_timestamp 10 example_ts_tcb 1000 49 False False)"
        "snd (on_rx_timestamp 10 example_ts_tcb 1000 49 False False)"]
    by (simp add: example_ts_tcb_def PAWS_IDLE_def time_defs saturating_sub_def word_less_nat_alt)
qed

text \<open>F-RTO is documented as the detector for connections without Timestamps, but \<open>frto_on_rto\<close>
  returns early on exactly those connections. A retransmission timeout followed by any
  acknowledgment leaves the control block of such a connection as it was: the probe never starts.\<close>

theorem frto_never_arms:
  assumes "\<not> ts_enabled (ts t)" "frto_ph (frto t) = Idle"
  shows "frto_on_ack (frto_on_rto t e) a is_dup = t"
  using assms by (simp add: frto_on_rto_def frto_on_ack_def)

text \<open>Eifel restores what the timeout took. If the snapshot of \<open>eifel_on_rto_before_md\<close> is still
  pending when an acknowledgment echoes a timestamp older than the retransmission's and carries no
  congestion mark, \<open>ssthresh\<close> is the larger of flight size and threshold at the timeout, \<open>cwnd\<close> is the
  flight size plus at most 4380 bytes, recovery is over and no Eifel state is left.\<close>

theorem eifel_restores:
  assumes "ts_enabled (ts t0)"
    and "eifel_pipe_prev (eifel t) = eifel_pipe_prev (eifel (eifel_on_rto_before_md t0))"
    and "eifel_retransmit_ts (eifel t) = Some rts" "seq_diff echo rts < 0"
  shows "let t' = eifel_on_acceptable_ack t (Some echo) False in
    ssthresh t' = max (flight_size_bytes t0) (ssthresh t0) \<and>
    unat (cwnd t') \<le> unat (flight_size_bytes t) + 4380 \<and> flight_size_bytes t \<le> cwnd t' \<and>
    \<not> in_fast_recovery t' \<and> eifel_retransmit_ts (eifel t') = None \<and> eifel_pipe_prev (eifel t') = None"
proof -
  have "unat (saturating_add (flight_size_bytes t) (min (eifel_bytes_acked (eifel t)) EIFEL_IW_BYTES))
      \<le> unat (flight_size_bytes t) + 4380"
    unfolding unat_saturating_add unat_min_word_eq EIFEL_IW_BYTES_def by simp
  then show ?thesis
    using assms saturating_add_ge [of "flight_size_bytes t"]
    by (simp add: eifel_on_acceptable_ack_def eifel_undo_def eifel_clear_pending_def Let_def
        eifel_on_rto_before_md_def)
qed

definition example_eifel_tcb :: tcp_control_block where
  "example_eifel_tcb = (eifel_on_rto_before_md example_ts_tcb)\<lparr>ssthresh := 2,
     eifel := (eifel (eifel_on_rto_before_md example_ts_tcb))\<lparr>eifel_retransmit_ts := Some 60\<rparr>\<rparr>"

end
