(* ===== verification/Net_Packet_Buffer.thy ===== *)
theory Net_Packet_Buffer
  imports Rust_Prelude
begin

text \<open>
  The packet storage of \<^verbatim>\<open>kernel/src/driver/net/proto/mod.rs\<close>: the slot bitmap \<open>PacketAllocator\<close>
  and the cursor \<open>PacketBuffer\<close> over one slot. A failed \<open>assert!\<close> or \<open>unwrap\<close> is the value \<open>None\<close>.
\<close>

section \<open>Slots\<close>

definition SLOT_COUNT :: nat where "SLOT_COUNT = 64"
definition SLOT_SIZE :: nat where "SLOT_SIZE = 1522"
definition DEFAULT_HEADER_RESERVE :: nat where "DEFAULT_HEADER_RESERVE = 96"

record packet_allocator =
  pa_slots :: "u8 list list"
  pa_available :: u64

definition allocator_new :: packet_allocator where
  "allocator_new = \<lparr>pa_slots = replicate SLOT_COUNT (replicate SLOT_SIZE 0), pa_available = - 1\<rparr>"

definition try_acquire_slot :: "packet_allocator \<Rightarrow> packet_allocator \<times> nat option" where
  "try_acquire_slot a =
     (if pa_available a = 0 then (a, None)
      else let index = trailing_zeros (pa_available a)
           in (a\<lparr>pa_available := pa_available a AND NOT (push_bit index 1)\<rparr>, Some index))"

definition release_slot :: "packet_allocator \<Rightarrow> nat \<Rightarrow> packet_allocator option" where
  "release_slot a index =
     (if index < SLOT_COUNT then Some (a\<lparr>pa_available := pa_available a OR push_bit index 1\<rparr>) else None)"

definition free_slots :: "packet_allocator \<Rightarrow> nat set" where
  "free_slots a = {i. i < SLOT_COUNT \<and> bit (pa_available a) i}"

lemma free_slots_new: "free_slots allocator_new = {i. i < SLOT_COUNT}"
  by (auto simp: free_slots_def allocator_new_def SLOT_COUNT_def)

lemma acquire_spec:
  "try_acquire_slot a = (a', Some i) \<Longrightarrow>
     i \<in> free_slots a \<and> free_slots a' = free_slots a - {i} \<and> (\<forall>j \<in> free_slots a. i \<le> j)"
proof -
  assume h: "try_acquire_slot a = (a', Some i)"
  then have nz: "pa_available a \<noteq> 0" and i: "i = trailing_zeros (pa_available a)"
    and a': "pa_available a' = pa_available a AND NOT (push_bit i 1)"
    by (auto simp: try_acquire_slot_def Let_def split: if_splits)
  show ?thesis
    using trailing_zeros_bit [OF nz] i a'
    by (auto simp: free_slots_def SLOT_COUNT_def bit_and_iff bit_not_iff not_less [symmetric])
qed

text \<open>the slot bitmap never hands out a slot twice. \<open>try_acquire_slot\<close> fails only when no slot is
  free, otherwise it returns the lowest free slot and takes exactly that one from the free set;
  releasing it gives the free set back.\<close>

theorem slot_allocation:
  assumes "try_acquire_slot a = (a', r)"
  shows "(case r of
      None \<Rightarrow> free_slots a = {} \<and> a' = a
    | Some i \<Rightarrow> i \<in> free_slots a \<and> free_slots a' = free_slots a - {i} \<and>
        free_slots a \<inter> {..<i} = {} \<and>
        (\<exists>a''. release_slot a' i = Some a'' \<and> free_slots a'' = free_slots a))"
proof (cases r)
  case None
  with assms show ?thesis
    by (auto simp: try_acquire_slot_def Let_def free_slots_def split: if_splits)
next
  case (Some i)
  with assms have sp: "i \<in> free_slots a" "free_slots a' = free_slots a - {i}" "\<forall>j \<in> free_slots a. i \<le> j"
    using acquire_spec by blast+
  then have i: "i < 64" by (auto simp: free_slots_def SLOT_COUNT_def)
  have "free_slots (a'\<lparr>pa_available := pa_available a' OR push_bit i 1\<rparr>) = insert i (free_slots a')"
    using i by (auto simp: free_slots_def SLOT_COUNT_def bit_or_iff)
  with sp i Some show ?thesis
    by (auto simp: release_slot_def SLOT_COUNT_def not_le [symmetric])
qed

section \<open>The cursor\<close>

record packet_buffer =
  pb_storage :: "u8 list"
  pb_buffer_start :: nat
  pb_payload_start :: nat
  pb_payload_end :: nat
  pb_buffer_end :: nat

definition from_received_slot :: "u8 list \<Rightarrow> nat \<Rightarrow> nat \<Rightarrow> packet_buffer" where
  "from_received_slot storage header_reserve received_length =
     \<lparr>pb_storage = storage, pb_buffer_start = header_reserve, pb_payload_start = header_reserve,
      pb_payload_end = header_reserve + received_length, pb_buffer_end = length storage\<rparr>"

definition for_transmit :: "u8 list \<Rightarrow> nat \<Rightarrow> packet_buffer option" where
  "for_transmit storage header_reserve =
     (if length storage \<ge> header_reserve
      then Some \<lparr>pb_storage = storage, pb_buffer_start = 0, pb_payload_start = header_reserve,
        pb_payload_end = header_reserve, pb_buffer_end = length storage\<rparr>
      else None)"

definition pb_payload :: "packet_buffer \<Rightarrow> u8 list" where
  "pb_payload b = slice (pb_storage b) (pb_payload_start b) (pb_payload_end b)"

definition append_data :: "packet_buffer \<Rightarrow> u8 list \<Rightarrow> packet_buffer option" where
  "append_data b bytes =
     (let new_end = pb_payload_end b + length bytes
      in if new_end \<le> pb_buffer_end b
         then Some (b\<lparr>pb_storage := copy_into (pb_storage b) (pb_payload_end b) bytes, pb_payload_end := new_end\<rparr>)
         else None)"

definition prepend_bytes :: "packet_buffer \<Rightarrow> u8 list \<Rightarrow> packet_buffer option" where
  "prepend_bytes b bytes =
     (if pb_payload_start b \<ge> pb_buffer_start b + length bytes
      then let start = pb_payload_start b - length bytes
           in Some (b\<lparr>pb_payload_start := start, pb_storage := copy_into (pb_storage b) start bytes\<rparr>)
      else None)"

text \<open>\<open>consume_header\<close> for a header type that takes \<open>n\<close> bytes: the bytes of the header, read off the
  front. A payload shorter than the header makes the \<open>unwrap\<close> of \<open>read_from_prefix\<close> panic.\<close>

definition consume_header :: "packet_buffer \<Rightarrow> nat \<Rightarrow> (packet_buffer \<times> u8 list) option" where
  "consume_header b n =
     (let remaining = pb_payload b
      in if length remaining < n then None
         else Some (b\<lparr>pb_payload_start := pb_payload_start b + n\<rparr>, take n remaining))"

definition consume_bytes :: "packet_buffer \<Rightarrow> nat \<Rightarrow> packet_buffer option" where
  "consume_bytes b n =
     (if pb_payload_start b + n \<le> pb_payload_end b
      then Some (b\<lparr>pb_payload_start := pb_payload_start b + n\<rparr>) else None)"

definition trim_payload :: "packet_buffer \<Rightarrow> nat \<Rightarrow> packet_buffer" where
  "trim_payload b len =
     (let e = pb_payload_start b + len
      in if e < pb_payload_end b then b\<lparr>pb_payload_end := e\<rparr> else b)"

definition pb_inv :: "packet_buffer \<Rightarrow> bool" where
  "pb_inv b \<longleftrightarrow> pb_buffer_start b \<le> pb_payload_start b \<and> pb_payload_start b \<le> pb_payload_end b \<and>
     pb_payload_end b \<le> pb_buffer_end b \<and> pb_buffer_end b = length (pb_storage b)"

lemma length_pb_payload: "pb_inv b \<Longrightarrow> length (pb_payload b) = pb_payload_end b - pb_payload_start b"
  by (simp add: pb_inv_def pb_payload_def)

lemma for_transmit_spec:
  assumes "header_reserve \<le> length storage"
  obtains b where "for_transmit storage header_reserve = Some b" "pb_inv b" "pb_payload b = []"
    "pb_payload_start b = header_reserve" "pb_buffer_start b = 0"
    "pb_payload_end b = header_reserve" "pb_buffer_end b = length storage"
  using assms by (intro that [of "the (for_transmit storage header_reserve)"])
    (simp_all add: for_transmit_def pb_inv_def pb_payload_def slice_def)

lemma append_data_spec:
  assumes "pb_inv b" "pb_payload_end b + length bytes \<le> pb_buffer_end b"
  obtains b' where "append_data b bytes = Some b'" "pb_inv b'" "pb_payload b' = pb_payload b @ bytes"
    "pb_payload_start b' = pb_payload_start b" "pb_buffer_start b' = pb_buffer_start b"
  using assms by (intro that [of "the (append_data b bytes)"])
    (auto simp: append_data_def Let_def pb_inv_def pb_payload_def slice_def copy_into_def drop_take)

lemma prepend_bytes_spec:
  assumes "pb_inv b" "pb_buffer_start b + length bytes \<le> pb_payload_start b"
  obtains b' where "prepend_bytes b bytes = Some b'" "pb_inv b'" "pb_payload b' = bytes @ pb_payload b"
    "pb_payload_start b' = pb_payload_start b - length bytes" "pb_buffer_start b' = pb_buffer_start b"
proof -
  let ?s = "pb_payload_start b - length bytes"
  let ?st = "copy_into (pb_storage b) ?s bytes"
  have len: "?s + length bytes = pb_payload_start b" "pb_payload_start b \<le> length (pb_storage b)"
    using assms by (auto simp: pb_inv_def)
  have "drop ?s ?st = bytes @ drop (pb_payload_start b) (pb_storage b)"
    using len by (simp add: copy_into_def)
  then have "slice ?st ?s (pb_payload_end b) = bytes @ pb_payload b"
    using assms len(1) by (auto simp: slice_def pb_payload_def pb_inv_def)
  then show ?thesis
    using assms len
    by (intro that [of "b\<lparr>pb_payload_start := ?s, pb_storage := ?st\<rparr>"])
      (auto simp: prepend_bytes_def Let_def pb_inv_def pb_payload_def)
qed

text \<open>\<open>consume_header\<close> returns a \<open>Result\<close>, but a payload one byte shorter than the header makes its
  \<open>unwrap\<close> panic instead of reporting the parse error; with enough bytes it strips exactly the
  header.\<close>

theorem consume_header_panics:
  "consume_header (from_received_slot (replicate 1522 0) 0 13) 14 = None \<and>
   map_option (\<lambda>(b, h). (length (pb_payload b), length h))
     (consume_header (from_received_slot (replicate 1522 0) 0 20) 14) = Some (6, 14)"
  by (simp add: consume_header_def pb_payload_def from_received_slot_def slice_def)

end
