(* ===== verification/Tcp_Send.thy ===== *)
theory Tcp_Send
  imports Tcp_Recovery Tcp_Checksum Net_Packet_Buffer
begin

text \<open>
  The send path, \<^verbatim>\<open>driver/send.rs\<close>, \<^verbatim>\<open>driver/retransmit.rs\<close>, \<^verbatim>\<open>ecn.rs\<close> and the tail loss probe of
  \<^verbatim>\<open>sack.rs\<close> (under \<^verbatim>\<open>kernel/src/driver/net/proto/tcp\<close>). An operation returns the new control
  block and the segments it hands to the network; \<open>None\<close> is a panic (an index or an assertion that
  fails). The send loop reads the clock once per round, \<open>clk i\<close> in round \<open>i\<close>.
\<close>

section \<open>Segments on the wire\<close>

record tx_segment =
  tx_tuple :: connection_tuple
  tx_header :: tcp_datagram_header
  tx_options :: "u8 list"
  tx_payload :: "u8 list"
  tx_tos :: u8

definition net_send_tcp_datagram_with_options :: "tx_segment \<Rightarrow> u8 list option" where
  "net_send_tcp_datagram_with_options x =
     (let options = tx_options x; payload = tx_payload x; header_len = 20 + length options
      in do {
        h1 \<leftarrow> set_offset (tx_header x) (of_nat (header_len div 4));
        if header_len > 60 then None
        else let header_buf = header_as_bytes h1 @ options;
                 csum = calculate_tcp_checksum (local_ip (tx_tuple x)) (remote_ip (tx_tuple x)) header_buf payload;
                 h2 = h1\<lparr>checksum := csum\<rparr>
             in do {
               b0 \<leftarrow> for_transmit (replicate (DEFAULT_HEADER_RESERVE + SLOT_SIZE) 0) DEFAULT_HEADER_RESERVE;
               b1 \<leftarrow> append_data b0 payload;
               b2 \<leftarrow> (if options \<noteq> [] then prepend_bytes b1 options else Some b1);
               b3 \<leftarrow> prepend_bytes b2 (header_as_bytes h2);
               Some (pb_payload b3) } })"

definition IP_ECN_ECT0 :: u8 where "IP_ECN_ECT0 = 2"
definition IP_ECN_CE :: u8 where "IP_ECN_CE = 3"

definition apply_outgoing_ecn ::
  "tcp_control_block \<Rightarrow> tcp_datagram_header \<Rightarrow> u8 list \<Rightarrow> tcp_control_block \<times> tcp_datagram_header \<times> u8" where
  "apply_outgoing_ecn t h payload =
     (if \<not> ecn_enabled (ecn t) then (t, h, 0)
      else let (t1, h1) =
                 (if ecn_echo_pending (ecn t) \<and> is_ack h
                  then (t\<lparr>ecn := (ecn t)\<lparr>ecn_ece_tx := saturating_add (ecn_ece_tx (ecn t)) 1\<rparr>\<rparr>, set_flag h ECE True)
                  else (t, h));
               (t2, h2) =
                 (if ecn_cwr_pending (ecn t1) \<and> payload \<noteq> []
                  then (t1\<lparr>ecn := (ecn t1)\<lparr>ecn_cwr_tx := saturating_add (ecn_cwr_tx (ecn t1)) 1,
                          ecn_cwr_pending := False\<rparr>\<rparr>, set_flag h1 CWR True)
                  else (t1, h1))
           in (t2, h2, IP_ECN_ECT0))"

text \<open>The blocks to report, the most recent one first. The source collects them in an array of eight
  entries; a ninth one is out of bounds.\<close>

definition ordered_sack_blocks :: "sack_rack_state \<Rightarrow> sack_block list" where
  "ordered_sack_blocks k =
     (case sack_rx_recent k of Some recent \<Rightarrow> [recent] | None \<Rightarrow> []) @
     filter (\<lambda>b. Some b \<noteq> sack_rx_recent k) (rx_live k)"

definition write_timestamp_option ::
  "instant \<Rightarrow> tcp_control_block \<Rightarrow> tcp_options_writer \<Rightarrow>
   (tcp_control_block \<times> tcp_options_writer \<times> u32 option) option" where
  "write_timestamp_option now t w =
     (if ts_enabled (ts t)
      then let tsval = tcp_ts_now now (ts_offset (ts t))
           in do { w' \<leftarrow> push_timestamp w tsval (ts_recent (ts t));
                   Some (t\<lparr>ts := (ts t)\<lparr>ts_last_tx_tsval := tsval\<rparr>\<rparr>, w', Some tsval) }
      else Some (t, w, None))"

definition write_sack_option ::
  "tcp_control_block \<Rightarrow> tcp_options_writer \<Rightarrow> (tcp_control_block \<times> tcp_options_writer) option" where
  "write_sack_option t w =
     (if sack_enabled (sack t) \<and> sack_rx_range_len (sack t) > 0
      then let ordered = ordered_sack_blocks (sack t)
           in if length ordered > SACK_RX_RANGES_MAX then None
              else do {
                w' \<leftarrow> push_sack_limited w ordered (TCP_OPTS_MAX - ow_len w);
                Some (if ow_len w' \<noteq> ow_len w
                      then t\<lparr>sack := (sack t)\<lparr>sack_blocks_tx := saturating_add (sack_blocks_tx (sack t)) 1\<rparr>\<rparr>
                      else t, w') }
      else Some (t, w))"

definition established_outgoing_options ::
  "instant \<Rightarrow> tcp_control_block \<Rightarrow> (tcp_control_block \<times> u8 list \<times> u32 option) option" where
  "established_outgoing_options now t =
     do { (t1, w1, tsval) \<leftarrow> write_timestamp_option now t options_writer_new;
          (t2, w2) \<leftarrow> write_sack_option t1 w1;
          opts \<leftarrow> writer_finish w2;
          Some (t2, opts, tsval) }"

text \<open>Options, ECN marks and the segment for a header and a payload: the common tail of every send.\<close>

definition stamp_segment ::
  "instant \<Rightarrow> tcp_control_block \<Rightarrow> tcp_datagram_header \<Rightarrow> u8 list \<Rightarrow>
   (tcp_control_block \<times> tx_segment \<times> u32 option) option" where
  "stamp_segment now t h payload =
     do { (t1, opts, tsval) \<leftarrow> established_outgoing_options now t;
          let (t2, h', tos) = apply_outgoing_ecn t1 h payload in
          Some (t2, \<lparr>tx_tuple = tuple t2, tx_header = h', tx_options = opts, tx_payload = payload,
                     tx_tos = tos\<rparr>, tsval) }"

definition net_send_from_tcb ::
  "instant \<Rightarrow> tcp_control_block \<Rightarrow> tcp_datagram_header \<Rightarrow> u8 list \<Rightarrow>
   (tcp_control_block \<times> tx_segment list) option" where
  "net_send_from_tcb now t h payload =
     map_option (\<lambda>(t', x, _). (t', [x])) (stamp_segment now t h payload)"

definition net_send_tcp_datagram :: "connection_tuple \<Rightarrow> tcp_datagram_header \<Rightarrow> u8 list \<Rightarrow> tx_segment" where
  "net_send_tcp_datagram tu h payload =
     \<lparr>tx_tuple = tu, tx_header = h, tx_options = [], tx_payload = payload, tx_tos = 0\<rparr>"

definition send_immediate_ack_unlocked ::
  "instant \<Rightarrow> tcp_control_block \<Rightarrow> (tcp_control_block \<times> tx_segment list) option" where
  "send_immediate_ack_unlocked now t =
     map_option (\<lambda>(t', x, _). (t', [x])) (stamp_segment now t (set_flag (header_new t) ACK True) [])"

definition send_standalone_rst :: "connection_tuple \<Rightarrow> tcp_datagram_header \<Rightarrow> tx_segment" where
  "send_standalone_rst tu received =
     (let (s, a, f) = (if is_ack received then (ack_number received, 0, RST)
                       else (0, sequence_number received + 1, RST OR ACK))
      in net_send_tcp_datagram tu
           \<lparr>source_port = local_port tu, dest_port = remote_port tu, sequence_number = s, ack_number = a,
            offset_res = push_bit 4 5, flags = f, window_size = 0, checksum = 0, urgent_pointer = 0\<rparr> [])"

section \<open>Close\<close>

definition new_unacked :: "instant \<Rightarrow> u32 \<Rightarrow> u8 list \<Rightarrow> u8 \<Rightarrow> unacked_segment" where
  "new_unacked now s payload f =
     \<lparr>seg_seq = s, seg_data = payload, seg_flags = f, seg_send_time = now, seg_retries = 0,
      seg_retransmit_tsval = None, seg_sacked = False, seg_lost = False, seg_xmit_mstamp = now,
      seg_retrans = False\<rparr>"

definition close_connection ::
  "instant \<Rightarrow> tcp_control_block \<Rightarrow> (tcp_control_block \<times> tx_segment list) option" where
  "close_connection now t =
     (let new_state = (case state t of Established \<Rightarrow> Some FinWait1 | SynReceived \<Rightarrow> Some FinWait1
                       | CloseWait \<Rightarrow> Some LastAck | _ \<Rightarrow> None)
      in case new_state of
           None \<Rightarrow> Some (t, [])
         | Some st \<Rightarrow>
             do { (t1, x, _) \<leftarrow> stamp_segment now t (set_flag (set_flag (header_new t) FIN True) ACK True) [];
                  Some (t1\<lparr>retransmission_queue := retransmission_queue t1 @
                             [new_unacked now (snd_nxt t) [] (flags (tx_header x) AND NOT CWR)],
                           snd_nxt := snd_nxt t1 + 1, state := st\<rparr>, [x]) })"

section \<open>The send loop\<close>

datatype send_outcome = Stop tcp_control_block | Sent tcp_control_block tx_segment

definition send_blocked :: "instant \<Rightarrow> u32 \<Rightarrow> tcp_control_block \<Rightarrow> tcp_control_block" where
  "send_blocked now in_flight t =
     (let t1 = (if snd_wnd t > in_flight \<and> cwnd t \<le> in_flight
                then cwv_note_validated t else cwv_note_app_limited now t)
      in if persist_timer t1 = None
         then t1\<lparr>persist_timer := Some (instant_add now (from_millis 50)), persist_backoff := from_millis 50\<rparr>
         else t1)"

definition arm_rtt_probe :: "instant \<Rightarrow> u8 list \<Rightarrow> tcp_control_block \<Rightarrow> tcp_control_block" where
  "arm_rtt_probe now payload t =
     (if rtt_probe (rtt_m t) = None
      then t\<lparr>rtt_m := (rtt_m t)\<lparr>rtt_probe := Some \<lparr>probe_seq = snd_nxt t,
             probe_end = snd_nxt t + of_nat (length payload), probe_sent_at = now\<rparr>\<rparr>\<rparr>
      else t)"

definition cwv_after_send :: "instant \<Rightarrow> u32 \<Rightarrow> tcp_control_block \<Rightarrow> tcp_control_block" where
  "cwv_after_send now flight_after t =
     (let t1 = t\<lparr>cwv := (cwv t)\<lparr>cwv_pipe_max := max (cwv_pipe_max (cwv t)) flight_after,
                 cwv_last_data_tx := now, cwv_app_limited_since := None\<rparr>\<rparr>
      in if flight_after \<ge> cwnd t1 \<and> cwnd t1 \<le> snd_wnd t1 then cwv_note_validated t1 else t1)"

definition schedule_next :: "instant \<Rightarrow> u32 \<Rightarrow> tcp_control_block \<Rightarrow> tcp_control_block" where
  "schedule_next now send_len t =
     (case pacing_gap_for send_len t of
        (t1, Some gap) \<Rightarrow>
          t1\<lparr>pacing := (pacing t1)\<lparr>pacing_next_tx := Some (instant_add now gap),
             pacing_paced_count := saturating_add (pacing_paced_count (pacing t1)) 1\<rparr>\<rparr>
      | (t1, None) \<Rightarrow> t1\<lparr>pacing := clear_deadline (pacing t1)\<rparr>)"

definition send_new_data :: "instant \<Rightarrow> u32 \<Rightarrow> nat \<Rightarrow> tcp_control_block \<Rightarrow> (tcp_control_block \<times> tx_segment) option" where
  "send_new_data now in_flight send_len t =
     (let payload = take send_len (send_buffer t);
          t1 = t\<lparr>send_buffer := drop send_len (send_buffer t)\<rparr>;
          h = set_sequence_number (set_flag (set_flag (header_new t1) ACK True) PSH True) (snd_nxt t1)
      in do {
        (t2, x, _) \<leftarrow> stamp_segment now t1 h payload;
        let t3 = arm_rtt_probe now payload t2;
            nxt = snd_nxt t3;
            t4 = cwv_after_send now (saturating_add in_flight (of_nat send_len)) t3;
            t5 = t4\<lparr>retransmission_queue := retransmission_queue t4 @
                     [new_unacked now nxt payload (flags (tx_header x) AND NOT CWR)],
                   snd_nxt := snd_nxt t4 + of_nat send_len\<rparr>;
            t6 = tlp_arm now t5;
            t7 = schedule_next now (of_nat send_len) t6
        in Some (t7, x) })"

definition nagle_holds :: "u32 \<Rightarrow> tcp_control_block \<Rightarrow> bool" where
  "nagle_holds in_flight t \<longleftrightarrow>
     nagle_enabled t \<and> frto_ph (frto t) \<noteq> Step2 \<and> in_flight > 0 \<and>
     length (send_buffer t) < unat (effective_mss t)"

definition window_closed :: "u32 \<Rightarrow> tcp_control_block \<Rightarrow> bool" where
  "window_closed in_flight t \<longleftrightarrow> min (snd_wnd t) (cwnd t) \<le> in_flight \<or> snd_wnd t = 0"

definition send_length :: "u32 \<Rightarrow> tcp_control_block \<Rightarrow> nat" where
  "send_length in_flight t =
     (let window_remaining = saturating_sub (min (snd_wnd t) (cwnd t)) in_flight
      in min (min (length (send_buffer t)) (unat window_remaining)) (unat (effective_mss t)))"

definition send_open :: "instant \<Rightarrow> u32 \<Rightarrow> tcp_control_block \<Rightarrow> send_outcome option" where
  "send_open now in_flight t =
     (if send_length in_flight t = 0 then Some (Stop t)
      else map_option (\<lambda>(t', x). Sent t' x) (send_new_data now in_flight (send_length in_flight t) t))"

definition send_unheld :: "instant \<Rightarrow> tcp_control_block \<Rightarrow> send_outcome option" where
  "send_unheld now t1 =
     (let in_flight = snd_nxt t1 - snd_una t1;
          t2 = t1\<lparr>cwv := (cwv t1)\<lparr>cwv_pipe_max := max (cwv_pipe_max (cwv t1)) in_flight\<rparr>\<rparr>
      in if nagle_holds in_flight t2 then Some (Stop (cwv_note_app_limited now t2))
         else if window_closed in_flight t2 then Some (Stop (send_blocked now in_flight t2))
         else send_open now in_flight (t2\<lparr>persist_timer := None\<rparr>))"

definition send_round :: "instant \<Rightarrow> tcp_control_block \<Rightarrow> send_outcome option" where
  "send_round now t =
     (if send_buffer t = []
      then let t1 = cwv_note_app_limited now t in Some (Stop (t1\<lparr>pacing := clear_deadline (pacing t1)\<rparr>))
      else case pacing_should_hold now t of
             (t1, hold) \<Rightarrow> if hold then Some (Stop t1) else send_unheld now t1)"

text \<open>What each piece of a send leaves alone.\<close>

lemma write_timestamp_option_frame:
  "write_timestamp_option now t w = Some (t', w', tsval) \<Longrightarrow> \<exists>a. t' = t\<lparr>ts := a\<rparr>"
  by (auto simp: write_timestamp_option_def Let_def split: if_splits bind_splits intro: exI [of _ "ts t"])

lemma write_sack_option_frame:
  "write_sack_option t w = Some (t', w') \<Longrightarrow> \<exists>n. t' = t\<lparr>sack := (sack t)\<lparr>sack_blocks_tx := n\<rparr>\<rparr>"
  by (auto simp: write_sack_option_def Let_def split: if_splits bind_splits
      intro: exI [of _ "sack_blocks_tx (sack t)"])

lemma apply_outgoing_ecn_frame:
  "apply_outgoing_ecn t h payload = (t', h', tos) \<Longrightarrow> (\<exists>c. t' = t\<lparr>ecn := c\<rparr>) \<and> (\<exists>f. h' = h\<lparr>flags := f\<rparr>)"
  by (auto simp: apply_outgoing_ecn_def Let_def set_flag_def split: if_splits
      intro: exI [of _ "ecn t"] exI [of _ "flags h"])

lemma stamp_segment_frame:
  assumes "stamp_segment now t h payload = Some (t', x, tsval)"
  obtains a n c f where "t' = t\<lparr>ts := a, sack := (sack t)\<lparr>sack_blocks_tx := n\<rparr>, ecn := c\<rparr>"
    "tx_payload x = payload" "tx_tuple x = tuple t" "tx_header x = h\<lparr>flags := f\<rparr>"
proof -
  obtain t1 w1 t2 w2 opts h' tos where
    st: "write_timestamp_option now t options_writer_new = Some (t1, w1, tsval)"
    "write_sack_option t1 w1 = Some (t2, w2)" "writer_finish w2 = Some opts"
    "apply_outgoing_ecn t2 h payload = (t', h', tos)"
    "x = \<lparr>tx_tuple = tuple t', tx_header = h', tx_options = opts, tx_payload = payload, tx_tos = tos\<rparr>"
    using assms
    by (auto simp: stamp_segment_def established_outgoing_options_def Let_def split: bind_splits prod.splits)
  obtain a where t1: "t1 = t\<lparr>ts := a\<rparr>" using write_timestamp_option_frame [OF st(1)] by blast
  obtain n where t2: "t2 = t1\<lparr>sack := (sack t1)\<lparr>sack_blocks_tx := n\<rparr>\<rparr>"
    using write_sack_option_frame [OF st(2)] by blast
  obtain c f where t3: "t' = t2\<lparr>ecn := c\<rparr>" "h' = h\<lparr>flags := f\<rparr>"
    using apply_outgoing_ecn_frame [OF st(4)] by blast
  show ?thesis by (rule that [where a = a and n = n and c = c and f = f]) (simp_all add: t1 t2 t3 st(5))
qed

lemma cwv_note_frame:
  "\<exists>a. cwv_note_validated t = t\<lparr>cwv := a\<rparr>" "\<exists>a. cwv_note_app_limited now t = t\<lparr>cwv := a\<rparr>"
  by (auto simp: cwv_note_validated_def cwv_note_app_limited_def intro: exI [of _ "cwv t"])

lemma arm_rtt_probe_frame: "\<exists>a. arm_rtt_probe now payload t = t\<lparr>rtt_m := a\<rparr>"
  by (auto simp: arm_rtt_probe_def intro: exI [of _ "rtt_m t"])

lemma cwv_after_send_frame: "\<exists>a. cwv_after_send now fl t = t\<lparr>cwv := a\<rparr>"
  using cwv_note_frame(1) [of "t\<lparr>cwv := (cwv t)\<lparr>cwv_pipe_max := max (cwv_pipe_max (cwv t)) fl,
     cwv_last_data_tx := now, cwv_app_limited_since := None\<rparr>\<rparr>"]
  by (auto simp: cwv_after_send_def Let_def)

lemma tlp_arm_frame: "\<exists>d. tlp_arm now t = t\<lparr>sack := (sack t)\<lparr>tlp_deadline := d\<rparr>\<rparr>"
  by (auto simp: tlp_arm_def Let_def)

lemma schedule_next_frame: "\<exists>p. schedule_next now len t = t\<lparr>pacing := p\<rparr>"
  by (auto simp: schedule_next_def pacing_gap_for_def Let_def split: option.split prod.split if_splits)

lemma pacing_should_hold_frame: "\<exists>p. fst (pacing_should_hold now t) = t\<lparr>pacing := p\<rparr>"
  by (auto simp: pacing_should_hold_def split: option.split intro: exI [of _ "pacing t"])

lemma send_blocked_frame:
  "\<exists>a p b. send_blocked now fl t = t\<lparr>cwv := a, persist_timer := p, persist_backoff := b\<rparr>"
proof -
  obtain a where a: "(if snd_wnd t > fl \<and> cwnd t \<le> fl then cwv_note_validated t else cwv_note_app_limited now t)
      = t\<lparr>cwv := a\<rparr>"
    using cwv_note_frame by metis
  show ?thesis
  proof (cases "persist_timer t = None")
    case True
    then show ?thesis unfolding send_blocked_def a Let_def by auto
  next
    case False
    then have "send_blocked now fl t = t\<lparr>cwv := a, persist_timer := persist_timer t, persist_backoff := persist_backoff t\<rparr>"
      unfolding send_blocked_def a Let_def by auto
    then show ?thesis by blast
  qed
qed

text \<open>The effect of sending \<open>n\<close> new bytes on the fields that carry data.\<close>

lemma send_new_data_effect:
  assumes "send_new_data now fl n t = Some (t', x)" "n \<le> length (send_buffer t)"
  shows "send_buffer t' = drop n (send_buffer t)" "snd_nxt t' = snd_nxt t + of_nat n"
    "snd_una t' = snd_una t" "snd_wnd t' = snd_wnd t" "cwnd t' = cwnd t" "state t' = state t"
    "effective_mss t' = effective_mss t" "rx_live (sack t') = rx_live (sack t)" "sack_rx_ranges (sack t') = sack_rx_ranges (sack t)"
    "sack_rx_range_len (sack t') = sack_rx_range_len (sack t)"
    "sack_rx_recent (sack t') = sack_rx_recent (sack t)"
    "tx_payload x = take n (send_buffer t)" "sequence_number (tx_header x) = snd_nxt t"
    "\<exists>s. retransmission_queue t' = retransmission_queue t @ [s] \<and> seg_seq s = snd_nxt t \<and>
       seg_data s = take n (send_buffer t) \<and> \<not> seg_sacked s \<and> \<not> seg_lost s"
proof -
  define t1 where "t1 = t\<lparr>send_buffer := drop n (send_buffer t)\<rparr>"
  define h where "h = set_sequence_number (set_flag (set_flag (header_new t1) ACK True) PSH True) (snd_nxt t1)"
  obtain t2 tsval where st: "stamp_segment now t1 h (take n (send_buffer t)) = Some (t2, x, tsval)"
    using assms(1) by (auto simp: send_new_data_def t1_def h_def Let_def split: bind_splits)
  obtain a b c f where t2: "t2 = t1\<lparr>ts := a, sack := (sack t1)\<lparr>sack_blocks_tx := b\<rparr>, ecn := c\<rparr>"
    "tx_payload x = take n (send_buffer t)" "tx_header x = h\<lparr>flags := f\<rparr>"
    by (rule stamp_segment_frame [OF st])
  obtain r where t3: "arm_rtt_probe now (take n (send_buffer t)) t2 = t2\<lparr>rtt_m := r\<rparr>"
    using arm_rtt_probe_frame by blast
  obtain w where t4: "cwv_after_send now (saturating_add fl (of_nat n)) (t2\<lparr>rtt_m := r\<rparr>) = t2\<lparr>rtt_m := r, cwv := w\<rparr>"
    using cwv_after_send_frame by fastforce
  define s where "s = new_unacked now (snd_nxt t2) (take n (send_buffer t)) (flags (tx_header x) AND NOT CWR)"
  define t5 where "t5 = t2\<lparr>rtt_m := r, cwv := w, retransmission_queue := retransmission_queue t2 @ [s],
    snd_nxt := snd_nxt t2 + of_nat n\<rparr>"
  obtain d where t6: "tlp_arm now t5 = t5\<lparr>sack := (sack t5)\<lparr>tlp_deadline := d\<rparr>\<rparr>" using tlp_arm_frame by blast
  obtain p where t7: "schedule_next now (of_nat n) (tlp_arm now t5) = (tlp_arm now t5)\<lparr>pacing := p\<rparr>"
    using schedule_next_frame by blast
  have "t' = schedule_next now (of_nat n) (tlp_arm now t5)"
    using assms(1) st t3 t4
    by (simp add: send_new_data_def t1_def [symmetric] h_def [symmetric] Let_def t5_def s_def)
  then have "t' = (tlp_arm now t5)\<lparr>pacing := p\<rparr>" by (simp only: t7)
  then have t': "t' = t5\<lparr>sack := (sack t5)\<lparr>tlp_deadline := d\<rparr>, pacing := p\<rparr>" by (simp add: t6)
  show "send_buffer t' = drop n (send_buffer t)" "snd_nxt t' = snd_nxt t + of_nat n"
    "snd_una t' = snd_una t" "snd_wnd t' = snd_wnd t" "cwnd t' = cwnd t" "state t' = state t"
    "effective_mss t' = effective_mss t" "rx_live (sack t') = rx_live (sack t)" "sack_rx_ranges (sack t') = sack_rx_ranges (sack t)"
    "sack_rx_range_len (sack t') = sack_rx_range_len (sack t)"
    "sack_rx_recent (sack t') = sack_rx_recent (sack t)"
    "tx_payload x = take n (send_buffer t)" "sequence_number (tx_header x) = snd_nxt t"
    by (simp_all add: t' t5_def t2 t1_def rx_live_def h_def set_sequence_number_def)
  show "\<exists>s. retransmission_queue t' = retransmission_queue t @ [s] \<and> seg_seq s = snd_nxt t \<and>
       seg_data s = take n (send_buffer t) \<and> \<not> seg_sacked s \<and> \<not> seg_lost s"
    by (rule exI [of _ s]) (simp add: t' t5_def t2 t1_def s_def new_unacked_def)
qed

text \<open>A round that stops changes no data; a round that sends is \<open>send_new_data\<close> with a length within the
  window, the buffer and the segment size.\<close>

definition send_core :: "tcp_control_block \<Rightarrow> tcp_control_block" where
  "send_core t = t\<lparr>pacing := undefined, cwv := undefined, persist_timer := undefined, persist_backoff := undefined\<rparr>"

lemma send_core_simps [simp]:
  "send_core (t\<lparr>pacing := a\<rparr>) = send_core t" "send_core (t\<lparr>cwv := b\<rparr>) = send_core t"
  "send_core (t\<lparr>persist_timer := c\<rparr>) = send_core t" "send_core (t\<lparr>persist_backoff := d\<rparr>) = send_core t"
  by (simp_all add: send_core_def)

lemma send_core_pieces [simp]:
  "send_core (cwv_note_app_limited now t) = send_core t" "send_core (cwv_note_validated t) = send_core t"
  "send_core (send_blocked now fl t) = send_core t" "send_core (fst (pacing_should_hold now t)) = send_core t"
  using cwv_note_frame(2) [of now t] cwv_note_frame(1) [of t] send_blocked_frame [of now fl t]
    pacing_should_hold_frame [of now t] by auto

lemma send_core_fields:
  assumes "send_core t = send_core t'"
  shows "send_buffer t = send_buffer t'" "snd_nxt t = snd_nxt t'" "snd_una t = snd_una t'" "snd_wnd t = snd_wnd t'"
    "cwnd t = cwnd t'" "effective_mss t = effective_mss t'" "sack t = sack t'" "state t = state t'"
    "retransmission_queue t = retransmission_queue t'"
  using arg_cong [OF assms, of send_buffer] arg_cong [OF assms, of snd_nxt] arg_cong [OF assms, of snd_una]
    arg_cong [OF assms, of snd_wnd] arg_cong [OF assms, of cwnd] arg_cong [OF assms, of effective_mss]
    arg_cong [OF assms, of sack] arg_cong [OF assms, of state] arg_cong [OF assms, of retransmission_queue]
  by (simp_all add: send_core_def)

lemma pacing_hold_core: "pacing_should_hold now t = (t1, hold) \<Longrightarrow> send_core t1 = send_core t"
  using send_core_pieces(4) [of now t] by simp

lemma send_unheld_stop: "send_unheld now t = Some (Stop t') \<Longrightarrow> send_core t' = send_core t"
  by (auto simp: send_unheld_def send_open_def Let_def split: if_splits)

lemma send_unheld_sent:
  assumes "send_unheld now t = Some (Sent t' x)"
  obtains t3 fl n where "send_core t3 = send_core t" "fl = snd_nxt t - snd_una t"
    "send_new_data now fl n t3 = Some (t', x)" "n = send_length fl t3" "n \<noteq> 0" "\<not> window_closed fl t3"
proof -
  define fl where "fl = snd_nxt t - snd_una t"
  define t2 where "t2 = t\<lparr>cwv := (cwv t)\<lparr>cwv_pipe_max := max (cwv_pipe_max (cwv t)) fl\<rparr>\<rparr>"
  have "\<not> window_closed fl t2" "send_open now fl (t2\<lparr>persist_timer := None\<rparr>) = Some (Sent t' x)"
    using assms by (auto simp: send_unheld_def Let_def fl_def t2_def split: if_splits)
  then show ?thesis
    by (intro that [of "t2\<lparr>persist_timer := None\<rparr>" fl "send_length fl (t2\<lparr>persist_timer := None\<rparr>)"])
      (auto simp: send_open_def t2_def fl_def window_closed_def split: if_splits)
qed

lemma send_round_stop:
  assumes "send_round now t = Some (Stop t')"
  shows "send_core t' = send_core t"
proof (cases "send_buffer t = []")
  case False
  obtain t1 hold where h: "pacing_should_hold now t = (t1, hold)" by fastforce
  with False assms have "if hold then t' = t1 else send_unheld now t1 = Some (Stop t')"
    by (auto simp: send_round_def split: if_splits)
  then show ?thesis using pacing_hold_core [OF h] send_unheld_stop [of now t1 t'] by (auto split: if_splits)
qed (use assms in \<open>auto simp: send_round_def Let_def\<close>)

lemma send_round_sent:
  assumes "send_round now t = Some (Sent t' x)"
  obtains t3 fl n where "send_core t3 = send_core t" "fl = snd_nxt t - snd_una t"
    "send_new_data now fl n t3 = Some (t', x)" "0 < n" "n \<le> length (send_buffer t)" "n \<le> unat (effective_mss t)"
    "unat fl + n \<le> unat (min (snd_wnd t) (cwnd t))"
proof -
  obtain t1 hold where h: "pacing_should_hold now t = (t1, hold)" by fastforce
  then have t1: "send_core t1 = send_core t" "send_unheld now t1 = Some (Sent t' x)"
    using assms pacing_hold_core [OF h] by (auto simp: send_round_def Let_def split: if_splits)
  note c1 = send_core_fields [OF t1(1)]
  obtain t3 fl n where t3: "send_core t3 = send_core t1" "fl = snd_nxt t1 - snd_una t1"
    "send_new_data now fl n t3 = Some (t', x)" "n = send_length fl t3" "n \<noteq> 0" "\<not> window_closed fl t3"
    by (rule send_unheld_sent [OF t1(2)])
  note c3 = send_core_fields [OF t3(1)]
  have "unat fl \<le> unat (min (snd_wnd t) (cwnd t))"
    using t3(6) by (simp add: window_closed_def c3 c1 word_le_nat_alt not_le)
  moreover have "n \<le> length (send_buffer t)" "n \<le> unat (effective_mss t)"
    "n \<le> unat (min (snd_wnd t) (cwnd t)) - unat fl"
    unfolding t3(4) send_length_def Let_def c3 c1 unat_saturating_sub by auto
  ultimately show ?thesis
    using t3 t1 by (intro that [of t3 fl n]) (simp_all add: c1)
qed

function process_send_queue ::
  "(nat \<Rightarrow> instant) \<Rightarrow> nat \<Rightarrow> tcp_control_block \<Rightarrow> (tcp_control_block \<times> tx_segment list) option" where
  "process_send_queue clk i t =
     (case send_round (clk i) t of
        None \<Rightarrow> None
      | Some (Stop t') \<Rightarrow> Some (t', [])
      | Some (Sent t' x) \<Rightarrow> map_option (\<lambda>(t'', xs). (t'', x # xs)) (process_send_queue clk (Suc i) t'))"
  by pat_completeness auto
termination
proof (relation "measure (\<lambda>(clk, i, t). length (send_buffer t))")
  fix clk :: "nat \<Rightarrow> instant" and i t t' x o'
  assume r: "send_round (clk i) t = Some o'" "o' = Sent t' x"
  then have "send_round (clk i) t = Some (Sent t' x)" by simp
  then obtain t3 fl n where s: "send_core t3 = send_core t" "send_new_data (clk i) fl n t3 = Some (t', x)"
    "0 < n" "n \<le> length (send_buffer t)"
    by (rule send_round_sent)
  have "send_buffer t3 = send_buffer t" using send_core_fields [OF s(1)] by simp
  with send_new_data_effect(1) [OF s(2)] s(3,4)
  show "((clk, Suc i, t'), (clk, i, t)) \<in> measure (\<lambda>(clk, i, t). length (send_buffer t))" by auto
qed simp

declare process_send_queue.simps [simp del]

definition send_data ::
  "(nat \<Rightarrow> instant) \<Rightarrow> tcp_control_block \<Rightarrow> u8 list \<Rightarrow> (tcp_error + tcp_control_block \<times> tx_segment list) option" where
  "send_data clk t bytes =
     (if state t \<noteq> Established \<and> state t \<noteq> CloseWait then Some (Inl NotConnected)
      else map_option Inr (process_send_queue clk 0 (t\<lparr>send_buffer := send_buffer t @ bytes\<rparr>)))"

section \<open>What the send loop guarantees\<close>

text \<open>\<open>chained s segs e\<close>: the segments, given by sequence number and payload, follow each other without
  gap or overlap from \<open>s\<close> to \<open>e\<close>.\<close>

fun chained :: "u32 \<Rightarrow> (u32 \<times> u8 list) list \<Rightarrow> u32 \<Rightarrow> bool" where
  "chained s [] e \<longleftrightarrow> s = e"
| "chained s ((q, d) # segs) e \<longleftrightarrow> q = s \<and> chained (s + of_nat (length d)) segs e"

lemma chained_append: "chained s (xs @ ys) e \<longleftrightarrow> (\<exists>m. chained s xs m \<and> chained m ys e)"
  by (induction s xs e rule: chained.induct) auto

definition tx_data :: "tx_segment \<Rightarrow> u32 \<times> u8 list" where
  "tx_data x = (sequence_number (tx_header x), tx_payload x)"

definition seg_bytes :: "unacked_segment \<Rightarrow> u32 \<times> u8 list" where
  "seg_bytes s = (seg_seq s, seg_data s)"

definition sends :: "tcp_control_block \<Rightarrow> tcp_control_block \<Rightarrow> tx_segment list \<Rightarrow> bool" where
  "sends t t' xs \<longleftrightarrow>
     send_buffer t = concat (map tx_payload xs) @ send_buffer t' \<and>
     chained (snd_nxt t) (map tx_data xs) (snd_nxt t') \<and>
     (\<exists>qs. retransmission_queue t' = retransmission_queue t @ qs \<and> map seg_bytes qs = map tx_data xs) \<and>
     (\<forall>x\<in>set xs. tx_payload x \<noteq> [] \<and> length (tx_payload x) \<le> unat (effective_mss t)) \<and>
     (xs \<noteq> [] \<longrightarrow> unat (flight_size_bytes t') \<le> unat (min (snd_wnd t) (cwnd t))) \<and>
     snd_una t' = snd_una t \<and> snd_wnd t' = snd_wnd t \<and> cwnd t' = cwnd t \<and> state t' = state t \<and>
     effective_mss t' = effective_mss t \<and> sack_rx_ranges (sack t') = sack_rx_ranges (sack t) \<and>
     sack_rx_range_len (sack t') = sack_rx_range_len (sack t) \<and> sack_rx_recent (sack t') = sack_rx_recent (sack t)"

lemma sends_stop: "send_core t' = send_core t \<Longrightarrow> sends t t' []"
  using send_core_fields [of t' t] by (simp add: sends_def)

lemma sends_cons:
  assumes "sends t t1 [x]" "sends t1 t' xs"
  shows "sends t t' (x # xs)"
proof -
  obtain q where q: "retransmission_queue t1 = retransmission_queue t @ q" "map seg_bytes q = [tx_data x]"
    using assms(1) by (auto simp: sends_def)
  obtain qs where qs: "retransmission_queue t' = retransmission_queue t1 @ qs" "map seg_bytes qs = map tx_data xs"
    using assms(2) by (auto simp: sends_def)
  have "\<exists>ps. retransmission_queue t' = retransmission_queue t @ ps \<and> map seg_bytes ps = map tx_data (x # xs)"
    by (rule exI [of _ "q @ qs"]) (simp add: q qs)
  moreover have "unat (flight_size_bytes t') \<le> unat (min (snd_wnd t) (cwnd t))"
    using assms by (cases xs) (auto simp: sends_def flight_size_bytes_def)
  ultimately show ?thesis using assms by (auto simp: sends_def tx_data_def)
qed

lemma send_round_sends:
  assumes "send_round now t = Some (Sent t' x)"
  shows "sends t t' [x]"
proof -
  obtain t3 fl n where s: "send_core t3 = send_core t" "fl = snd_nxt t - snd_una t"
    "send_new_data now fl n t3 = Some (t', x)" "0 < n" "n \<le> length (send_buffer t)" "n \<le> unat (effective_mss t)"
    "unat fl + n \<le> unat (min (snd_wnd t) (cwnd t))"
    by (rule send_round_sent [OF assms])
  note c = send_core_fields [OF s(1)]
  have "n \<le> length (send_buffer t3)" using s(5) c by simp
  note e = send_new_data_effect [OF s(3) this]
  have "n < 4294967296" using s(7) u32_less [of "min (snd_wnd t) (cwnd t)"] by linarith
  then have un: "unat (of_nat n :: u32) = n" by (intro unat_of_nat_len) simp
  have "flight_size_bytes t' = fl + of_nat n"
    by (simp add: flight_size_bytes_def e c s(2))
  then have "unat (flight_size_bytes t') = unat fl + n"
    using s(7) u32_less [of "min (snd_wnd t) (cwnd t)"] by (simp only: unat_add_wrap un) auto
  moreover have "length (take n (send_buffer t)) = n" using s(5) by simp
  moreover have "\<exists>qs. retransmission_queue t' = retransmission_queue t @ qs \<and> map seg_bytes qs = [tx_data x]"
    using e(14) by (auto simp: c e seg_bytes_def tx_data_def)
  ultimately show ?thesis
    using s(4-7) by (auto simp: sends_def e c tx_data_def)
qed

lemma process_send_queue_sends: "process_send_queue clk i t = Some (t', xs) \<Longrightarrow> sends t t' xs"
proof (induction clk i t arbitrary: t' xs rule: process_send_queue.induct)
  case (1 clk i t)
  show ?case
  proof (cases "send_round (clk i) t")
    case None
    with 1(2) show ?thesis by (simp add: process_send_queue.simps [of clk i t])
  next
    case (Some r)
    show ?thesis
    proof (cases r)
      case (Stop t1)
      with Some 1(2) show ?thesis
        using send_round_stop [of "clk i" t t1] by (simp add: process_send_queue.simps [of clk i t] sends_stop)
    next
      case (Sent t1 x)
      then obtain ys where ys: "process_send_queue clk (Suc i) t1 = Some (t', ys)" "xs = x # ys"
        using Some 1(2) by (auto simp: process_send_queue.simps [of clk i t])
      have "sends t t1 [x]" using Some Sent send_round_sends by simp
      moreover have "sends t1 t' ys" using 1(1) [OF Some Sent ys(1)] .
      ultimately show ?thesis unfolding ys(2) by (rule sends_cons)
    qed
  qed
qed

section \<open>Options never overflow\<close>

text \<open>What the option builder needs of the scoreboard: eight slots, and a most recent block that is one
  of the live ones.\<close>

definition sack_wf :: "sack_rack_state \<Rightarrow> bool" where
  "sack_wf k \<longleftrightarrow> length (sack_rx_ranges k) = SACK_RX_RANGES_MAX \<and> sack_rx_range_len k \<le> SACK_RX_RANGES_MAX \<and>
     (\<forall>b. sack_rx_recent k = Some b \<longrightarrow> b \<in> set (rx_live k))"

lemma sack_wf_new: "sack_wf (sack_new now)"
  by (simp add: sack_wf_def sack_new_def)

lemma sack_wf_cong:
  "sack_rx_ranges k' = sack_rx_ranges k \<Longrightarrow> sack_rx_range_len k' = sack_rx_range_len k \<Longrightarrow>
   sack_rx_recent k' = sack_rx_recent k \<Longrightarrow> sack_wf k' = sack_wf k"
  by (simp add: sack_wf_def rx_live_def)

lemma ordered_sack_blocks_length:
  assumes "sack_wf k"
  shows "length (ordered_sack_blocks k) \<le> SACK_RX_RANGES_MAX"
proof (cases "sack_rx_recent k")
  case (Some r)
  then have "length (filter (\<lambda>b. b \<noteq> r) (rx_live k)) < length (rx_live k)"
    using assms by (intro length_filter_less [of r]) (simp_all add: sack_wf_def)
  then show ?thesis
    using assms Some by (simp add: ordered_sack_blocks_def sack_wf_def rx_live_def cong: filter_cong)
qed (use assms in \<open>simp add: ordered_sack_blocks_def sack_wf_def rx_live_def\<close>)

lemma write_timestamp_option_total:
  obtains t1 w1 tsval where "write_timestamp_option now t options_writer_new = Some (t1, w1, tsval)"
    "ow_inv w1" "sack t1 = sack t"
    "ow_bytes w1 = (if ts_enabled (ts t) then [TCP_OPT_NOP, TCP_OPT_NOP] @ [TCP_OPT_TIMESTAMP, 10] @
       u32_to_be (tcp_ts_now now (ts_offset (ts t))) @ u32_to_be (ts_recent (ts t)) else [])"
    "ow_len w1 = (if ts_enabled (ts t) then 12 else 0)"
proof (cases "ts_enabled (ts t)")
  case True
  let ?bytes = "[TCP_OPT_NOP, TCP_OPT_NOP, TCP_OPT_TIMESTAMP, 10] @
    u32_to_be (tcp_ts_now now (ts_offset (ts t))) @ u32_to_be (ts_recent (ts t))"
  obtain w where "ow_put options_writer_new ?bytes = Some w" "ow_inv w" "ow_bytes w = ?bytes" "ow_len w = 12"
    using ow_put_Some [of options_writer_new ?bytes] by auto
  with True that show ?thesis
    by (auto simp: write_timestamp_option_def Let_def push_timestamp_def)
qed (use that in \<open>auto simp: write_timestamp_option_def\<close>)

lemma write_sack_option_total:
  assumes "sack_wf (sack t)" "ow_inv w"
  obtains t' w' where "write_sack_option t w = Some (t', w')" "ow_inv w'"
    "ow_bytes w' = (let n = sack_fit w (40 - ow_len w) (ordered_sack_blocks (sack t)) in
       if sack_enabled (sack t) \<and> sack_rx_range_len (sack t) > 0 \<and> n \<noteq> 0
       then ow_bytes w @ replicate ((4 - ow_len w mod 4) mod 4) TCP_OPT_NOP @
         [TCP_OPT_SACK, of_nat (2 + 8 * n)] @ sack_bytes (take n (ordered_sack_blocks (sack t)))
       else ow_bytes w)"
proof (cases "sack_enabled (sack t) \<and> sack_rx_range_len (sack t) > 0")
  case True
  obtain w' where "push_sack_limited w (ordered_sack_blocks (sack t)) (40 - ow_len w) = Some w'" "ow_inv w'"
    "ow_bytes w' = (if sack_fit w (40 - ow_len w) (ordered_sack_blocks (sack t)) = 0 then ow_bytes w
      else ow_bytes w @ replicate ((4 - ow_len w mod 4) mod 4) TCP_OPT_NOP @
        [TCP_OPT_SACK, of_nat (2 + 8 * sack_fit w (40 - ow_len w) (ordered_sack_blocks (sack t)))] @
        sack_bytes (take (sack_fit w (40 - ow_len w) (ordered_sack_blocks (sack t))) (ordered_sack_blocks (sack t))))"
    by (rule push_sack_limited_Some [OF assms(2) refl])
  with True ordered_sack_blocks_length [OF assms(1)] that show ?thesis
    by (auto simp: write_sack_option_def Let_def TCP_OPTS_MAX_def)
next
  case False
  then show ?thesis using that assms(2) by (auto simp: write_sack_option_def Let_def)
qed

lemma stamp_segment_total:
  assumes "sack_wf (sack t)"
  obtains t' x tsval where "stamp_segment now t h payload = Some (t', x, tsval)"
    "length (tx_options x) \<le> 40" "length (tx_options x) mod 4 = 0"
proof -
  obtain t1 w1 tsval where s1: "write_timestamp_option now t options_writer_new = Some (t1, w1, tsval)"
    "ow_inv w1" "sack t1 = sack t"
    by (rule write_timestamp_option_total)
  have "sack_wf (sack t1)" using assms s1(3) by simp
  then obtain t2 w2 where s2: "write_sack_option t1 w1 = Some (t2, w2)" "ow_inv w2"
    using write_sack_option_total [OF _ s1(2)] by metis
  obtain k where s3: "writer_finish w2 = Some (ow_bytes w2 @ replicate k TCP_OPT_NOP)"
    "(ow_len w2 + k) mod 4 = 0" "ow_len w2 + k \<le> 40"
    by (rule writer_finish_Some [OF s2(2)])
  obtain t3 h' tos where s4: "apply_outgoing_ecn t2 h payload = (t3, h', tos)" by (metis prod_cases3)
  show ?thesis
    by (rule that [of t3 "\<lparr>tx_tuple = tuple t3, tx_header = h', tx_options = ow_bytes w2 @ replicate k TCP_OPT_NOP,
          tx_payload = payload, tx_tos = tos\<rparr>" tsval])
      (use s1 s2 s3 s4 in \<open>simp_all add: stamp_segment_def established_outgoing_options_def length_ow_bytes\<close>)
qed

end
