(* ===== verification/Tcp_Output.thy ===== *)
theory Tcp_Output
  imports Tcp_Send
begin

text \<open>
  Properties of the send path of \<^verbatim>\<open>driver/send.rs\<close>: the send loop returns and respects the windows, and
  the option block of an established segment reads back.
\<close>

section \<open>The send loop returns\<close>

lemma send_new_data_total:
  assumes "sack_wf (sack t)"
  shows "\<exists>r. send_new_data now fl n t = Some r"
proof -
  define t1 where "t1 = t\<lparr>send_buffer := drop n (send_buffer t)\<rparr>"
  have "sack_wf (sack t1)" using assms by (simp add: t1_def)
  then obtain t2 x tsval where
    "stamp_segment now t1 (set_sequence_number (set_flag (set_flag (header_new t1) ACK True) PSH True) (snd_nxt t1))
       (take n (send_buffer t)) = Some (t2, x, tsval)"
    by (rule stamp_segment_total)
  then show ?thesis by (simp add: send_new_data_def Let_def flip: t1_def)
qed

lemma send_round_total:
  assumes "sack_wf (sack t)"
  shows "send_round now t \<noteq> None"
proof -
  have open_total: "send_open now fl u \<noteq> None" if "sack_wf (sack u)" for fl u
    using send_new_data_total [OF that, of now fl "send_length fl u"] by (auto simp: send_open_def)
  have unheld: "send_unheld now u \<noteq> None" if "sack_wf (sack u)" for u
    using that by (auto simp: send_unheld_def Let_def intro!: open_total [simplified])
  obtain t1 hold where h: "pacing_should_hold now t = (t1, hold)" by fastforce
  have "sack_wf (sack t1)" using assms send_core_fields(7) [OF pacing_hold_core [OF h]] by simp
  then show ?thesis using unheld [of t1] h by (auto simp: send_round_def Let_def)
qed

lemma process_send_queue_total:
  "sack_wf (sack t) \<Longrightarrow> \<exists>t' xs. process_send_queue clk i t = Some (t', xs)"
proof (induction clk i t rule: process_send_queue.induct)
  case (1 clk i t)
  obtain r where r: "send_round (clk i) t = Some r" using send_round_total [OF 1(2)] by blast
  show ?case
  proof (cases r)
    case (Sent t1 x)
    then have "sends t t1 [x]" using r send_round_sends by simp
    then have "sack_wf (sack t1)" using 1(2) sack_wf_cong [of "sack t1" "sack t"] by (auto simp: sends_def)
    then show ?thesis using 1(1) [OF r Sent] r Sent by (auto simp: process_send_queue.simps [of clk i t])
  qed (use r in \<open>simp add: process_send_queue.simps [of clk i t]\<close>)
qed

text \<open>C23: the send loop returns for every clock, never indexes out of bounds, and is exact. The segments
  it emits carry a prefix of the send buffer, in order; their sequence numbers continue \<open>SND.NXT\<close>
  without gap up to the new \<open>SND.NXT\<close>; each is queued for retransmission with the same sequence number
  and bytes; none is empty or longer than the SMSS; and if anything was sent, the bytes in flight
  stay within both the peer's window and the congestion window.\<close>

theorem process_send_queue_correct:
  assumes "sack_wf (sack t)"
  shows "\<exists>t' xs. process_send_queue clk 0 t = Some (t', xs) \<and>
    send_buffer t = concat (map tx_payload xs) @ send_buffer t' \<and>
    chained (snd_nxt t) (map tx_data xs) (snd_nxt t') \<and>
    (\<exists>qs. retransmission_queue t' = retransmission_queue t @ qs \<and> map seg_bytes qs = map tx_data xs) \<and>
    (\<forall>x\<in>set xs. tx_payload x \<noteq> [] \<and> length (tx_payload x) \<le> unat (effective_mss t)) \<and>
    (xs \<noteq> [] \<longrightarrow> unat (flight_size_bytes t') \<le> unat (min (snd_wnd t) (cwnd t)))"
  using process_send_queue_total [OF assms, of clk 0] process_send_queue_sends [of clk 0 t]
  unfolding sends_def by blast

lemma example_sack [simp]: "sack example_tcb = sack_new 0"
  by (simp add: example_tcb_def tcb_new_def)

theorem process_send_queue_correct_witness:
  "\<exists>t' xs. process_send_queue (\<lambda>i. of_nat i) 0 (example_tcb\<lparr>send_buffer := [1, 2, 3], snd_wnd := 9\<rparr>) = Some (t', xs) \<and>
    [1, 2, 3] = concat (map tx_payload xs) @ send_buffer t'"
  using process_send_queue_correct [of "example_tcb\<lparr>send_buffer := [1, 2, 3], snd_wnd := 9\<rparr>" "\<lambda>i. of_nat i"]
  by (auto simp: sack_wf_new)

text \<open>the comments on the send loop arm the persist timer for a zero window, but it is armed whenever
  the loop is blocked, also when the peer's window is open and only the congestion window is full.\<close>

theorem persist_armed_without_zero_window:
  assumes "fl < snd_wnd t" "cwnd t \<le> fl" "persist_timer t = None"
  shows "window_closed fl t \<and> persist_timer (send_blocked now fl t) = Some (instant_add now (from_millis 50))"
proof -
  obtain w where "cwv_note_validated t = t\<lparr>cwv := w\<rparr>" using cwv_note_frame(1) by blast
  with assms show ?thesis by (simp add: window_closed_def send_blocked_def Let_def min_le_iff_disj)
qed

section \<open>Options of an established connection read back\<close>

lemma first_timestamp_NoOps [simp]: "first_timestamp (replicate k NoOp @ opts) = first_timestamp opts"
  by (induction k) simp_all

lemma first_sack_NoOps [simp]: "first_sack (replicate k NoOp @ opts) = first_sack opts"
  by (induction k) simp_all

lemma parses_two_NOPs: "parses [TCP_OPT_NOP, TCP_OPT_NOP] [NoOp, NoOp]"
  using parses_NOPs [of 2] by (simp add: numeral_2_eq_2)

definition ts_options :: "bool \<Rightarrow> u32 \<Rightarrow> u32 \<Rightarrow> tcp_option list" where
  "ts_options on tsval tsecr = (if on then [NoOp, NoOp, Timestamp tsval tsecr] else [])"

lemma parses_ts_bytes:
  "parses (if on then [TCP_OPT_NOP, TCP_OPT_NOP] @ [TCP_OPT_TIMESTAMP, 10] @ u32_to_be a @ u32_to_be b else [])
     (ts_options on a b)"
  using parses_append [OF parses_two_NOPs parses_timestamp [of a b]] parses_Nil
  by (simp add: ts_options_def)

lemma ts_options_simps [simp]:
  "first_timestamp (ts_options on a b @ opts) = (if on then Some (a, b) else first_timestamp opts)"
  "first_sack (ts_options on a b @ opts) = first_sack opts"
  by (simp_all add: ts_options_def)

text \<open>C27: the option block of an established segment fits its 40 bytes, is a multiple of four long, and
  reads back on the peer's side: \<open>find_timestamp\<close> returns the sender's clock and the echoed
  timestamp, and \<open>parse_sack_blocks\<close> the scoreboard's ranges, the most recent first, three of them
  when a timestamp shares the space and four otherwise.\<close>

theorem established_options_read_back:
  assumes wf: "sack_wf (sack t)" and pos: "\<forall>b\<in>set (rx_live (sack t)). 0 < seq_diff (sb_right b) (sb_left b)"
  shows "\<exists>t' opts tsval. established_outgoing_options now t = Some (t', opts, tsval) \<and>
    length opts \<le> 40 \<and> length opts mod 4 = 0 \<and>
    find_timestamp opts = (if ts_enabled (ts t) then Some (tcp_ts_now now (ts_offset (ts t)), ts_recent (ts t)) else None) \<and>
    parse_sack_blocks opts =
      (if sack_enabled (sack t) then take (if ts_enabled (ts t) then 3 else 4) (ordered_sack_blocks (sack t)) else [])"
proof -
  let ?bs = "ordered_sack_blocks (sack t)" and ?on = "ts_enabled (ts t)"
  let ?a = "tcp_ts_now now (ts_offset (ts t))" and ?b = "ts_recent (ts t)"
  obtain t1 w1 tsval where s1: "write_timestamp_option now t options_writer_new = Some (t1, w1, tsval)"
    "ow_inv w1" "sack t1 = sack t"
    "ow_bytes w1 = (if ?on then [TCP_OPT_NOP, TCP_OPT_NOP] @ [TCP_OPT_TIMESTAMP, 10] @ u32_to_be ?a @ u32_to_be ?b else [])"
    "ow_len w1 = (if ?on then 12 else 0)"
    by (rule write_timestamp_option_total)
  define n where "n = sack_fit w1 (40 - ow_len w1) ?bs"
  have n: "n = min (if ?on then 3 else 4) (length ?bs)" by (simp add: n_def sack_fit_def s1(5))
  have align: "(4 - ow_len w1 mod 4) mod 4 = 0" by (simp add: s1(5))
  have "sack_wf (sack t1)" using wf s1(3) by simp
  then obtain t2 w2 where s2: "write_sack_option t1 w1 = Some (t2, w2)" "ow_inv w2"
    "ow_bytes w2 = (let n = sack_fit w1 (40 - ow_len w1) (ordered_sack_blocks (sack t1)) in
       if sack_enabled (sack t1) \<and> sack_rx_range_len (sack t1) > 0 \<and> n \<noteq> 0
       then ow_bytes w1 @ replicate ((4 - ow_len w1 mod 4) mod 4) TCP_OPT_NOP @
         [TCP_OPT_SACK, of_nat (2 + 8 * n)] @ sack_bytes (take n (ordered_sack_blocks (sack t1)))
       else ow_bytes w1)"
    using s1(2) by (rule write_sack_option_total)
  note bytes = s2(3) [unfolded Let_def s1(3) align n_def [symmetric], simplified replicate_0 append_Nil]
  obtain k where s3: "writer_finish w2 = Some (ow_bytes w2 @ replicate k TCP_OPT_NOP)"
    "(ow_len w2 + k) mod 4 = 0" "ow_len w2 + k \<le> 40"
    by (rule writer_finish_Some [OF s2(2)])
  define sk where "sk = (if sack_enabled (sack t) \<and> sack_rx_range_len (sack t) > 0 \<and> n \<noteq> 0
    then [Sack (sack_bytes (take n ?bs))] else [])"
  have len: "length (take n ?bs) = n" using n by simp
  have "parses (ow_bytes w2) (ts_options ?on ?a ?b @ sk)"
    using parses_append [OF parses_ts_bytes [of ?on ?a ?b] parses_sack [of "take n ?bs"]] parses_ts_bytes [of ?on ?a ?b] n len
    unfolding bytes s1(4) sk_def by auto
  then have par: "parse_options (ow_bytes w2 @ replicate k TCP_OPT_NOP) = ts_options ?on ?a ?b @ sk @ replicate k NoOp"
    using parses_append [OF _ parses_NOPs] parses_whole by fastforce
  have empty: "?bs = []" if "sack_rx_range_len (sack t) = 0"
    using that wf by (auto simp: ordered_sack_blocks_def sack_wf_def rx_live_def split: option.split)
  have "\<forall>b\<in>set (take n ?bs). 0 < seq_diff (sb_right b) (sb_left b)"
    using pos wf by (auto simp: ordered_sack_blocks_def sack_wf_def dest!: in_set_takeD split: option.splits)
  then have "sack_chunks (sack_bytes (take n ?bs)) [] = take n ?bs"
    using n len by (subst sack_chunks_bytes) auto
  moreover have "take n ?bs = take (if ?on then 3 else 4) ?bs" by (auto simp: n min_def)
  ultimately have "parse_sack_blocks (ow_bytes w2 @ replicate k TCP_OPT_NOP) =
      (if sack_enabled (sack t) then take (if ?on then 3 else 4) ?bs else [])"
    using empty first_sack_NoOps [of k "[]"] by (auto simp: parse_sack_blocks_def par sk_def split: if_splits)
  moreover have "find_timestamp (ow_bytes w2 @ replicate k TCP_OPT_NOP) = (if ?on then Some (?a, ?b) else None)"
    using first_timestamp_NoOps [of k "[]"] by (simp add: find_timestamp_def par sk_def)
  ultimately show ?thesis
    using s1(1) s2(1) s3 by (simp add: established_outgoing_options_def length_ow_bytes [OF s2(2)])
qed

definition example_sack_tcb :: tcp_control_block where
  "example_sack_tcb = example_tcb\<lparr>sack := (sack_new 0)\<lparr>sack_enabled := True,
     sack_rx_ranges := (replicate 8 sack_block_default)[0 := \<lparr>sb_left = 1100, sb_right = 1200\<rparr>],
     sack_rx_range_len := 1, sack_rx_recent := Some \<lparr>sb_left = 1100, sb_right = 1200\<rparr>\<rparr>\<rparr>"

theorem established_options_read_back_witness:
  "\<exists>t' opts tsval. established_outgoing_options 7 example_sack_tcb = Some (t', opts, tsval) \<and>
     parse_sack_blocks opts = [\<lparr>sb_left = 1100, sb_right = 1200\<rparr>]"
proof -
  have live: "rx_live (sack example_sack_tcb) = [\<lparr>sb_left = 1100, sb_right = 1200\<rparr>]"
    by (simp add: example_sack_tcb_def rx_live_def eval_nat_numeral)
  have "sack_wf (sack example_sack_tcb)"
    using live by (simp add: sack_wf_def example_sack_tcb_def SACK_RX_RANGES_MAX_def)
  moreover have "\<forall>b\<in>set (rx_live (sack example_sack_tcb)). 0 < seq_diff (sb_right b) (sb_left b)"
    by (simp add: live seq_diff_pos_iff)
  moreover have "ordered_sack_blocks (sack example_sack_tcb) = [\<lparr>sb_left = 1100, sb_right = 1200\<rparr>]"
    unfolding ordered_sack_blocks_def live by (simp add: example_sack_tcb_def)
  moreover have "sack_enabled (sack example_sack_tcb)" by (simp add: example_sack_tcb_def)
  ultimately show ?thesis
    using established_options_read_back [of example_sack_tcb 7] by auto
qed

end
