(* ===== verification/Tcp_Close.thy ===== *)
theory Tcp_Close
  imports Tcp_Output
begin

text \<open>
  \<open>close_connection\<close> of \<^verbatim>\<open>driver/send.rs\<close>: what it sends, and what happens to data that is still in
  the send buffer when a connection is closed.
\<close>

section \<open>Closing with unsent data\<close>

lemma close_connection_total:
  assumes "sack_wf (sack t)" "state t \<in> {Established, SynReceived, CloseWait}"
  obtains a n c q fin where "close_connection now t = Some (t\<lparr>ts := a, sack := (sack t)\<lparr>sack_blocks_tx := n\<rparr>,
      ecn := c, retransmission_queue := q, snd_nxt := snd_nxt t + 1,
      state := if state t = CloseWait then LastAck else FinWait1\<rparr>, [fin])"
    "sequence_number (tx_header fin) = snd_nxt t" "tx_payload fin = []"
proof -
  define h where "h = set_flag (set_flag (header_new t) FIN True) ACK True"
  obtain t1 fin tsval where s: "stamp_segment now t h [] = Some (t1, fin, tsval)"
    using assms(1) by (rule stamp_segment_total)
  obtain a n c f where t1: "t1 = t\<lparr>ts := a, sack := (sack t)\<lparr>sack_blocks_tx := n\<rparr>, ecn := c\<rparr>"
    "tx_payload fin = []" "tx_header fin = h\<lparr>flags := f\<rparr>"
    by (rule stamp_segment_frame [OF s])
  have "sequence_number h = snd_nxt t" by (simp add: h_def header_new_def set_offset_def set_flag_def Let_def)
  moreover have "close_connection now t = Some (t1\<lparr>retransmission_queue := retransmission_queue t1 @
      [new_unacked now (snd_nxt t) [] (flags (tx_header fin) AND NOT CWR)], snd_nxt := snd_nxt t1 + 1,
      state := if state t = CloseWait then LastAck else FinWait1\<rparr>, [fin])"
    using assms(2) s by (elim insertE) (simp_all add: close_connection_def h_def)
  ultimately show ?thesis
    using t1 by (intro that [where a = a and n = n and c = c and fin = fin]) simp_all
qed

lemma process_send_queue_sends_first:
  assumes "sack_wf (sack t)" "send_buffer t \<noteq> []" "\<not> pacing_enabled (pacing t)" "\<not> nagle_enabled t"
    "flight_size_bytes t < min (snd_wnd t) (cwnd t)" "effective_mss t \<noteq> 0"
  shows "\<exists>t' x xs. process_send_queue clk i t = Some (t', x # xs)"
proof -
  define fl where "fl = snd_nxt t - snd_una t"
  define t2 where "t2 = t\<lparr>cwv := (cwv t)\<lparr>cwv_pipe_max := max (cwv_pipe_max (cwv t)) fl\<rparr>, persist_timer := None\<rparr>"
  have lt: "fl < min (snd_wnd t) (cwnd t)" using assms(5) by (simp add: fl_def flight_size_bytes_def)
  have "send_length fl t2 \<noteq> 0"
    using assms(2,6) lt by (auto simp: send_length_def t2_def unat_saturating_sub word_less_nat_alt unat_gt_0)
  moreover obtain r where "send_new_data (clk i) fl (send_length fl t2) t2 = Some r"
    using send_new_data_total assms(1) by (fastforce simp: t2_def)
  moreover have "send_round (clk i) t = send_open (clk i) fl t2"
    using assms(2-4) lt
    by (auto simp: send_round_def pacing_should_hold_def send_unheld_def nagle_holds_def window_closed_def Let_def
        fl_def t2_def min_le_iff_disj)
  ultimately obtain t1 x where "send_round (clk i) t = Some (Sent t1 x)"
    by (cases r) (auto simp: send_open_def)
  then show ?thesis
    using process_send_queue_total [OF assms(1), of clk i]
    by (auto simp: process_send_queue.simps [of clk i t])
qed

text \<open>C36: \<open>close_connection\<close> sends the FIN at \<open>SND.NXT\<close> at once, although the send buffer may still hold
  bytes, and leaves them in the buffer. When the window is open, the next run of the send loop emits
  them behind the FIN: the first one is numbered one past it, so the peer sees data after the end of
  the stream (here without pacing and with Nagle's algorithm off).\<close>

theorem data_sent_after_fin:
  assumes "sack_wf (sack t)" "state t = Established" "send_buffer t \<noteq> []"
    "\<not> pacing_enabled (pacing t)" "\<not> nagle_enabled t" "effective_mss t \<noteq> 0"
    "flight_size_bytes t + 1 < min (snd_wnd t) (cwnd t)"
  shows "\<exists>t1 fin t2 x xs. close_connection now t = Some (t1, [fin]) \<and>
    process_send_queue clk 0 t1 = Some (t2, x # xs) \<and>
    sequence_number (tx_header x) = sequence_number (tx_header fin) + 1 \<and> tx_payload x \<noteq> [] \<and>
    send_buffer t = tx_payload x @ concat (map tx_payload xs) @ send_buffer t2"
proof -
  have st: "state t \<in> {Established, SynReceived, CloseWait}" using assms(2) by simp
  obtain a n c q fin where cl: "close_connection now t = Some (t\<lparr>ts := a, sack := (sack t)\<lparr>sack_blocks_tx := n\<rparr>,
      ecn := c, retransmission_queue := q, snd_nxt := snd_nxt t + 1,
      state := if state t = CloseWait then LastAck else FinWait1\<rparr>, [fin])" (is "_ = Some (?t1, _)")
    "sequence_number (tx_header fin) = snd_nxt t" "tx_payload fin = []"
    by (rule close_connection_total [OF assms(1) st])
  have "sack_wf (sack ?t1)" using assms(1) by (simp add: sack_wf_def rx_live_def)
  moreover have "flight_size_bytes ?t1 < min (snd_wnd ?t1) (cwnd ?t1)"
    using assms(7) by (simp add: flight_size_bytes_def algebra_simps)
  ultimately obtain t2 x xs where run: "process_send_queue clk 0 ?t1 = Some (t2, x # xs)"
    using process_send_queue_sends_first [of ?t1 clk 0] assms(3-6) by auto
  then show ?thesis
    using cl process_send_queue_sends [OF run]
    by (intro exI [of _ ?t1] exI [of _ fin] exI [of _ t2] exI [of _ x] exI [of _ xs]) (simp add: sends_def tx_data_def)
qed

theorem data_sent_after_fin_witness:
  "\<exists>t1 fin t2 x xs.
     close_connection 0 (example_tcb\<lparr>send_buffer := [1, 2], snd_wnd := 9, nagle_enabled := False, pacing := pacing_new False\<rparr>)
       = Some (t1, [fin]) \<and>
     process_send_queue (\<lambda>i. of_nat i) 0 t1 = Some (t2, x # xs) \<and>
     sequence_number (tx_header x) = sequence_number (tx_header fin) + 1"
proof -
  have "cwnd example_tcb = INITIAL_CWND" "effective_mss example_tcb = of_nat MSS"
    by (simp_all add: example_tcb_def tcb_new_def)
  then show ?thesis
    using data_sent_after_fin [of "example_tcb\<lparr>send_buffer := [1, 2], snd_wnd := 9, nagle_enabled := False,
        pacing := pacing_new False\<rparr>" 0 "\<lambda>i. of_nat i"]
    by (auto simp: sack_wf_new pacing_new_def flight_size_bytes_def INITIAL_CWND_def MSS_def word_less_nat_alt)
qed

end
