(* ===== verification/Tcp_Retransmit.thy ===== *)
theory Tcp_Retransmit
  imports Tcp_Close
begin

text \<open>
  Retransmission, \<^verbatim>\<open>driver/retransmit.rs\<close>, and the tail loss probe of \<^verbatim>\<open>sack.rs\<close>: which segment is
  picked for a cause, how it is rebuilt, and how the cumulative acknowledgment drains the queue.
\<close>

section \<open>Operations\<close>

fun position :: "('a \<Rightarrow> bool) \<Rightarrow> 'a list \<Rightarrow> nat option" where
  "position P [] = None"
| "position P (x # xs) = (if P x then Some 0 else map_option Suc (position P xs))"

definition retransmit_index :: "u32 option \<Rightarrow> tcp_control_block \<Rightarrow> nat option" where
  "retransmit_index partial_ack t =
     (let q = retransmission_queue t
      in if sack_enabled (sack t)
         then (case position (\<lambda>s. seg_lost s \<and> \<not> seg_sacked s) q of
                 Some i \<Rightarrow> Some i
               | None \<Rightarrow> position (\<lambda>s. \<not> seg_sacked s) q)
         else (case partial_ack of
                 Some ack \<Rightarrow> position (\<lambda>s. seq_diff ack (end_seq s) < 0) q
               | None \<Rightarrow> if q = [] then None else Some 0))"

definition update_segment ::
  "nat \<Rightarrow> (unacked_segment \<Rightarrow> unacked_segment) \<Rightarrow> tcp_control_block \<Rightarrow> tcp_control_block" where
  "update_segment i f t = t\<lparr>retransmission_queue :=
     (if i < length (retransmission_queue t)
      then (retransmission_queue t)[i := f (retransmission_queue t ! i)] else retransmission_queue t)\<rparr>"

definition note_retransmit_ts :: "retransmit_cause \<Rightarrow> nat \<Rightarrow> u32 option \<Rightarrow> tcp_control_block \<Rightarrow> tcp_control_block" where
  "note_retransmit_ts cause i tsval t =
     (if cause = Rto \<and> ts_enabled (ts t)
      then (case tsval of
              Some v \<Rightarrow> update_segment i (\<lambda>s. s\<lparr>seg_retransmit_tsval := Some v\<rparr>)
                         (t\<lparr>eifel := (eifel t)\<lparr>eifel_retransmit_ts := Some v\<rparr>\<rparr>)
            | None \<Rightarrow> t)
      else t)"

text \<open>The header, the options and the ECN marks of a copy of queued segment \<open>i\<close>.\<close>

definition resend_segment ::
  "nat \<Rightarrow> u8 list \<Rightarrow> tcp_control_block \<Rightarrow> (tcp_control_block \<times> tx_segment list) option" where
  "resend_segment i opts t =
     (if i < length (retransmission_queue t)
      then let s = retransmission_queue t ! i;
               h = set_sequence_number (set_flags (header_new t) (seg_flags s AND NOT CWR)) (seg_seq s);
               (t', h', tos) = apply_outgoing_ecn t h (seg_data s)
           in Some (t', [\<lparr>tx_tuple = tuple t', tx_header = h', tx_options = opts, tx_payload = seg_data s,
                          tx_tos = tos\<rparr>])
      else None)"

definition retransmit_matching_unlocked ::
  "instant \<Rightarrow> retransmit_cause \<Rightarrow> u32 option \<Rightarrow> tcp_control_block \<Rightarrow> (tcp_control_block \<times> tx_segment list) option" where
  "retransmit_matching_unlocked now cause partial_ack t =
     (case retransmit_index partial_ack t of
        None \<Rightarrow> Some (t, [])
      | Some i \<Rightarrow>
          do { (t1, opts, tsval) \<leftarrow> established_outgoing_options now t;
               let t2 = note_retransmit_ts cause i tsval t1;
                   t3 = update_segment i (\<lambda>s. s\<lparr>seg_xmit_mstamp := now, seg_retrans := True, seg_lost := False\<rparr>) t2;
                   t4 = (if sack_enabled (sack t3)
                         then t3\<lparr>sack := (sack t3)\<lparr>sack_rexmit_holes := saturating_add (sack_rexmit_holes (sack t3)) 1\<rparr>\<rparr>
                         else t3)
               in resend_segment i opts t4 })"

definition retransmit_first_partial_ack ::
  "instant \<Rightarrow> u32 \<Rightarrow> tcp_control_block \<Rightarrow> (tcp_control_block \<times> tx_segment list) option" where
  "retransmit_first_partial_ack now ack = retransmit_matching_unlocked now PartialAck (Some ack)"

definition retransmit_front_unlocked ::
  "instant \<Rightarrow> retransmit_cause \<Rightarrow> tcp_control_block \<Rightarrow> (tcp_control_block \<times> tx_segment list) option" where
  "retransmit_front_unlocked now cause = retransmit_matching_unlocked now cause None"

definition fast_retransmit_front ::
  "instant \<Rightarrow> tcp_control_block \<Rightarrow> (tcp_control_block \<times> tx_segment list) option" where
  "fast_retransmit_front now = retransmit_front_unlocked now FastRetransmit"

definition drain_retransmission_queue :: "u32 \<Rightarrow> tcp_control_block \<Rightarrow> tcp_control_block" where
  "drain_retransmission_queue ack t =
     t\<lparr>retransmission_queue := filter (\<lambda>s. seq_diff ack (end_seq s) < 0) (retransmission_queue t)\<rparr>"

definition note_tlp_probe :: "bool \<Rightarrow> tcp_control_block \<Rightarrow> tcp_control_block" where
  "note_tlp_probe is_retrans t =
     t\<lparr>sack := (sack t)\<lparr>tlp_is_retrans := is_retrans, tlp_high_rxt := snd_nxt t,
                        sack_tlp_probes := saturating_add (sack_tlp_probes (sack t)) 1\<rparr>\<rparr>"

definition tlp_send_probe_unlocked ::
  "instant \<Rightarrow> (nat \<Rightarrow> instant) \<Rightarrow> tcp_control_block \<Rightarrow> (tcp_control_block \<times> tx_segment list) option" where
  "tlp_send_probe_unlocked now clk t =
     (if send_buffer t \<noteq> [] \<and> can_send t 1
      then process_send_queue clk 0 (note_tlp_probe False t)
      else if retransmission_queue t = [] then Some (t, [])
      else let i = length (retransmission_queue t) - 1
           in do { (t1, opts, _) \<leftarrow> established_outgoing_options now t;
                   let t2 = update_segment i (\<lambda>s. s\<lparr>seg_xmit_mstamp := now, seg_retrans := True\<rparr>) t1
                   in resend_segment i opts (note_tlp_probe True t2) })"

end
