(* ===== verification/Tcp_Recv.thy ===== *)
theory Tcp_Recv
  imports Tcp_Retransmit
begin

text \<open>
  Incoming segments, \<^verbatim>\<open>driver/recv.rs\<close>: the peer's options, the two halves of the handshake that work on
  one control block, and \<open>process_data_datagram\<close>, whose body is split into the stages its comment
  lists. A handler reads the clock once, \<open>now\<close>; the send loop it ends with reads \<open>clk i\<close> in round \<open>i\<close>.
  What is to be done once the control block is unlocked is collected in \<open>rx_actions\<close>.
\<close>

section \<open>Options and the handshake\<close>

fun apply_option :: "instant \<Rightarrow> u32 \<Rightarrow> tcp_control_block \<Rightarrow> tcp_option \<Rightarrow> tcp_control_block" where
  "apply_option now s t (Mss mss) = t\<lparr>peer_mss := mss\<rparr>"
| "apply_option now s t (WindowScale shift) = t\<lparr>snd_wscale := min shift 14, wnd_scale_enabled := True\<rparr>"
| "apply_option now s t (Timestamp tsval tsecr) =
     t\<lparr>ts := (ts t)\<lparr>ts_enabled := True, ts_recent := tsval, ts_last_ack_ts_seq := s, ts_recent_age := now\<rparr>\<rparr>"
| "apply_option now s t SackPermitted = t\<lparr>sack := (sack t)\<lparr>sack_enabled := True\<rparr>\<rparr>"
| "apply_option now s t _ = t"

definition apply_peer_tcp_options :: "instant \<Rightarrow> tcp_control_block \<Rightarrow> u8 list \<Rightarrow> u32 \<Rightarrow> tcp_control_block" where
  "apply_peer_tcp_options now t options s =
     recompute_effective_mss (foldl (apply_option now s) t (parse_options options))"

definition sample_timestamp :: "instant \<Rightarrow> (u32 \<Rightarrow> bool) \<Rightarrow> u32 \<Rightarrow> tcp_control_block \<Rightarrow> tcp_control_block" where
  "sample_timestamp now valid tsecr t =
     (if tsecr = 0 then t
      else let rtt_ms = tcp_ts_now now (ts_offset (ts t)) - tsecr
           in if valid rtt_ms
              then let r = from_millis (ucast rtt_ms)
                   in update_rtt_estimators (t\<lparr>rtt_m := (rtt_m t)\<lparr>rtt_last_ts_sample := Some r\<rparr>\<rparr>) r
              else t)"

definition syn_ack_timestamps :: "instant \<Rightarrow> u32 \<Rightarrow> u8 list \<Rightarrow> tcp_control_block \<Rightarrow> tcp_control_block" where
  "syn_ack_timestamps now s options t =
     (case find_timestamp options of
        None \<Rightarrow> t
      | Some (tsval, tsecr) \<Rightarrow>
          let t1 = t\<lparr>ts := (ts t)\<lparr>ts_enabled := True\<rparr>\<rparr>;
              t2 = fst (on_rx_timestamp now t1 s tsval True False)
          in recompute_effective_mss (sample_timestamp now (\<lambda>x. 0 < x \<and> x < 60000) tsecr t2))"

definition complete_syn_probe :: "instant \<Rightarrow> u32 \<Rightarrow> tcp_control_block \<Rightarrow> tcp_control_block" where
  "complete_syn_probe now ack t =
     (case rtt_probe (rtt_m t) of
        None \<Rightarrow> t
      | Some p \<Rightarrow>
          let t1 = t\<lparr>rtt_m := (rtt_m t)\<lparr>rtt_probe := None\<rparr>\<rparr>
          in if seq_diff ack (probe_end p) \<ge> 0
             then let diff = instant_diff now (probe_sent_at p);
                      t2 = t1\<lparr>rtt_m := (rtt_m t1)\<lparr>rtt_last_probe_sample := Some diff\<rparr>\<rparr>
                  in if ts_enabled (ts t2) then t2 else update_rtt_estimators t2 diff
             else t1)"

text \<open>A thread that takes a lock it already holds spins forever. \<open>Spinning\<close> carries what the other
  threads see from then on: the control block stays locked.\<close>

datatype 'a outcome = Finished 'a | Spinning 'a

definition establish_active :: "instant \<Rightarrow> tcp_datagram_header \<Rightarrow> u8 list \<Rightarrow> tcp_control_block \<Rightarrow> tcp_control_block" where
  "establish_active now h options t =
     (let s = sequence_number h; ack = ack_number h;
          t1 = apply_peer_tcp_options now t options s;
          t2 = syn_ack_timestamps now s options t1;
          t3 = complete_syn_probe now ack t2;
          t4 = t3\<lparr>ecn := (ecn t3)\<lparr>ecn_enabled := get_flag h ECE \<and> \<not> get_flag h CWR\<rparr>\<rparr>;
          t5 = t4\<lparr>snd_wnd := scale_peer_window t4 (window_size h), snd_wl1 := s, snd_wl2 := ack, irs := s,
                  rcv_nxt := s + 1, snd_una := ack\<rparr>;
          t6 = drain_retransmission_queue ack t5
      in t6\<lparr>state := Established, event := event t6 + 1\<rparr>)"

definition process_syn_ack ::
  "instant \<Rightarrow> tcp_control_block \<Rightarrow> tcp_datagram_header \<Rightarrow> u8 list \<Rightarrow> (tcp_control_block \<times> tx_segment list) outcome option" where
  "process_syn_ack now t h options =
     (if is_rst h
      then Some (Finished (t\<lparr>state := Closed, last_error := Some ConnectionReset, retransmission_queue := [],
                             rtt_m := (rtt_m t)\<lparr>rtt_probe := None\<rparr>, event := event t + 1,
                             handshake_gate := True\<rparr>, []))
      else if state t = Established
      then map_option Finished (net_send_from_tcb now t (set_flag (header_new t) ACK True) [])
      else if state t \<noteq> SynSent then Some (Finished (t, []))
      else if \<not> is_acceptable_ack t (ack_number h)
      then Some (Finished (t, [send_standalone_rst (tuple t) h]))
      else let t1 = establish_active now h options t
           in map_option Spinning (net_send_from_tcb now t1 (set_flag (header_new t1) ACK True) []))"

section \<open>The established-state handler\<close>

record rx_actions =
  act_send_ack :: bool
  act_fast_retransmit :: bool
  act_inflate :: bool
  act_partial :: "u32 option"
  act_run_send_queue :: bool

definition carries_nothing_new :: "tcp_datagram_header \<Rightarrow> u8 list \<Rightarrow> tcp_control_block \<Rightarrow> bool" where
  "carries_nothing_new h payload t \<longleftrightarrow>
     payload \<noteq> [] \<and> \<not> is_rst h \<and> seq_diff (sequence_number h + of_nat (length payload)) (rcv_nxt t) \<le> 0"

definition note_ce :: "bool \<Rightarrow> tcp_control_block \<Rightarrow> tcp_control_block" where
  "note_ce ce t =
     (if ecn_enabled (ecn t) \<and> ce
      then t\<lparr>ecn := (ecn t)\<lparr>ecn_ce_seen := saturating_add (ecn_ce_seen (ecn t)) 1, ecn_echo_pending := True\<rparr>\<rparr>
      else t)"

definition note_cwr :: "bool \<Rightarrow> tcp_control_block \<Rightarrow> tcp_control_block" where
  "note_cwr cwr t =
     (if ecn_enabled (ecn t) \<and> cwr then t\<lparr>ecn := (ecn t)\<lparr>ecn_echo_pending := False\<rparr>\<rparr> else t)"

text \<open>Timestamps: the new state and whether the segment is to be processed further.\<close>

definition check_timestamps ::
  "instant \<Rightarrow> tcp_datagram_header \<Rightarrow> (u32 \<times> u32) option \<Rightarrow> tcp_control_block \<Rightarrow> tcp_control_block \<times> bool" where
  "check_timestamps now h ts_opt t =
     (case ts_opt of
        None \<Rightarrow> (t, \<not> ts_enabled (ts t))
      | Some (tsval, tsecr) \<Rightarrow>
          (case on_rx_timestamp now t (sequence_number h) tsval (is_syn h) False of
             (t1, False) \<Rightarrow> (t1, False)
           | (t1, True) \<Rightarrow> (sample_timestamp now (\<lambda>x. x < 60000) tsecr t1, True)))"

definition react_to_ece ::
  "f64_env \<Rightarrow> instant \<Rightarrow> bool \<Rightarrow> bool \<Rightarrow> tcp_control_block \<Rightarrow> tcp_control_block \<times> bool" where
  "react_to_ece fp now ack_acceptable ece t =
     (if ack_acceptable \<and> ecn_enabled (ecn t) \<and> ece \<and> \<not> ecn_cwr_pending (ecn t) \<and> \<not> in_fast_recovery t
      then let t1 = t\<lparr>ecn := (ecn t)\<lparr>ecn_ece_rx := saturating_add (ecn_ece_rx (ecn t)) 1,
                                      ecn_md := saturating_add (ecn_md (ecn t)) 1\<rparr>\<rparr>;
               t2 = on_congestion_event fp now t1
           in (t2\<lparr>ecn := (ecn t2)\<lparr>ecn_cwr_pending := True\<rparr>\<rparr>, True)
      else (t, False))"

definition recovery_point :: "congestion_control \<Rightarrow> u32" where
  "recovery_point cc = (case cc of Reno r \<Rightarrow> reno_recover r | Cubic c \<Rightarrow> cubic_recover c)"

text \<open>Fast recovery on an advancing acknowledgment: it ends, or the acknowledgment is partial.\<close>

definition advance_recovery :: "u32 \<Rightarrow> tcp_control_block \<Rightarrow> tcp_control_block \<times> u32 option" where
  "advance_recovery ack t =
     (if \<not> in_fast_recovery t then (t, None)
      else if seq_diff ack (recovery_point (congestion_control t)) \<ge> 0
      then (t\<lparr>in_fast_recovery := False, cwnd := ssthresh t,
              cwv := (cwv t)\<lparr>cwv_cwnd_raw := ssthresh t\<rparr>, abc := clear_accumulators (abc t)\<rparr>, None)
      else let w = ssthresh t + 3 * max (effective_mss t) 1
           in (t\<lparr>cwnd := w, cwv := (cwv t)\<lparr>cwv_cwnd_raw := w\<rparr>\<rparr>, Some ack))"

definition complete_probe :: "instant \<Rightarrow> u32 \<Rightarrow> tcp_control_block \<Rightarrow> tcp_control_block" where
  "complete_probe now ack t =
     (case rtt_probe (rtt_m t) of
        None \<Rightarrow> t
      | Some p \<Rightarrow>
          if seq_diff ack (probe_end p) \<ge> 0
          then let diff = instant_diff now (probe_sent_at p);
                   t1 = t\<lparr>rtt_m := (rtt_m t)\<lparr>rtt_probe := None, rtt_last_probe_sample := Some diff\<rparr>\<rparr>
               in if ts_enabled (ts t1) then t1 else update_rtt_estimators t1 diff
          else t)"

text \<open>Loss detection on the scoreboard, and entering recovery.\<close>

definition detect_loss :: "instant \<Rightarrow> u32 \<Rightarrow> sack_block list \<Rightarrow> tcp_control_block \<Rightarrow> tcp_control_block" where
  "detect_loss now ack blocks t = rack_detect now (sack_mark_lost (sack_tx_apply t ack blocks))"

definition enter_recovery :: "f64_env \<Rightarrow> instant \<Rightarrow> tcp_control_block \<Rightarrow> tcp_control_block" where
  "enter_recovery fp now t =
     (let t1 = (if sack_enabled (sack t) then sack_enter_recovery t else t)
      in on_congestion_event fp now (t1\<lparr>in_fast_recovery := True\<rparr>))"

definition fin_acked :: "instant \<Rightarrow> tcp_state \<Rightarrow> tcp_control_block \<Rightarrow> tcp_control_block" where
  "fin_acked now prior t =
     (case prior of
        FinWait1 \<Rightarrow> t\<lparr>state := FinWait2\<rparr>
      | Closing \<Rightarrow> t\<lparr>state := TimeWait, timewait_deadline := Some (instant_add now (from_secs 120))\<rparr>
      | LastAck \<Rightarrow> t\<lparr>state := Closed, event := event t + 1\<rparr>
      | _ \<Rightarrow> t)"

definition ack_advances ::
  "f64_env \<Rightarrow> instant \<Rightarrow> u32 \<Rightarrow> (u32 \<times> u32) option \<Rightarrow> bool \<Rightarrow> sack_block list \<Rightarrow> tcp_control_block \<Rightarrow>
   tcp_control_block \<times> bool \<times> u32 option" where
  "ack_advances fp now ack ts_opt ece blocks t =
     (let (t1, partial) = advance_recovery ack t;
          had_fin = (\<exists>s\<in>set (retransmission_queue t1). seg_is_fin s);
          prior = state t1;
          bytes_acked = ack - snd_una t;
          t2 = t1\<lparr>snd_una := ack, duplicate_ack_count := 0, last_ack_received := ack,
                  eifel := (eifel t1)\<lparr>eifel_bytes_acked := bytes_acked\<rparr>\<rparr>;
          t3 = (if ts_enabled (ts t2) then eifel_on_acceptable_ack t2 (map_option snd ts_opt) ece
                else frto_on_ack t2 ack False);
          t4 = complete_probe now ack t3;
          t5 = update_congestion_window fp now bytes_acked t4;
          t6 = (if sack_enabled (sack t5) then detect_loss now ack blocks t5 else t5);
          lost = (sack_enabled (sack t6) \<and> \<not> in_fast_recovery t6 \<and> sack_has_lost t6);
          t7 = (if lost then enter_recovery fp now t6 else t6);
          t8 = tlp_arm now (drain_retransmission_queue ack t7);
          t9 = (if had_fin \<and> \<not> (\<exists>s\<in>set (retransmission_queue t8). seg_is_fin s)
                then fin_acked now prior t8 else t8)
      in (t9, lost, partial))"

definition ack_duplicate ::
  "f64_env \<Rightarrow> instant \<Rightarrow> u32 \<Rightarrow> sack_block list \<Rightarrow> tcp_control_block \<Rightarrow> tcp_control_block \<times> bool \<times> bool" where
  "ack_duplicate fp now ack blocks t =
     (let t1 = t\<lparr>duplicate_ack_count := duplicate_ack_count t + 1\<rparr>;
          t2 = (if ts_enabled (ts t1) then t1 else frto_on_ack t1 ack True);
          t3 = (if sack_enabled (sack t2) then detect_loss now ack blocks t2 else t2);
          lost_now = (sack_enabled (sack t2) \<and> sack_has_lost t3)
      in if \<not> in_fast_recovery t3 \<and> (duplicate_ack_count t3 = 3 \<or> lost_now)
         then (enter_recovery fp now t3, True, False)
         else if in_fast_recovery t3
         then let smss = max (effective_mss t3) 1
              in (t3\<lparr>cwnd := saturating_add (cwnd t3) smss,
                     cwv := (cwv t3)\<lparr>cwv_cwnd_raw := saturating_add (cwv_cwnd_raw (cwv t3)) smss\<rparr>\<rparr>, False, True)
         else (t3, False, False))"

definition process_ack ::
  "f64_env \<Rightarrow> instant \<Rightarrow> tcp_datagram_header \<Rightarrow> u8 list \<Rightarrow> (u32 \<times> u32) option \<Rightarrow> sack_block list \<Rightarrow> bool \<Rightarrow>
   tcp_control_block \<Rightarrow> tcp_control_block \<times> rx_actions" where
  "process_ack fp now h payload ts_opt blocks ce t =
     (let ack = ack_number h; ece = get_flag h ECE;
          acceptable = is_acceptable_ack t ack;
          send_ack = (ecn_enabled (ecn t) \<and> ecn_echo_pending (ecn t) \<and> ce);
          (t1, run) = react_to_ece fp now acceptable ece t;
          acts = \<lparr>act_send_ack = send_ack, act_fast_retransmit = False, act_inflate = False,
                  act_partial = None, act_run_send_queue = run\<rparr>
      in if \<not> acceptable then (t1, acts\<lparr>act_send_ack := True\<rparr>)
         else if ack > snd_una t1
         then let (t2, lost, partial) = ack_advances fp now ack ts_opt ece blocks t1
              in (t2, acts\<lparr>act_fast_retransmit := lost, act_partial := partial, act_run_send_queue := True\<rparr>)
         else if ack = snd_una t1 \<and> payload = [] \<and> retransmission_queue t1 \<noteq> []
         then let (t2, entered, inflated) = ack_duplicate fp now ack blocks t1
              in (t2, acts\<lparr>act_fast_retransmit := entered, act_inflate := inflated,
                           act_run_send_queue := run \<or> entered \<or> inflated\<rparr>)
         else if ack < snd_una t1 then (t1, acts\<lparr>act_send_ack := True\<rparr>)
         else (t1, acts))"

text \<open>Data in sequence goes into the ring and may join ranges received earlier; data out of sequence
  is kept for selective acknowledgment. The flag says whether an acknowledgment must go out now.\<close>

definition accept_in_order :: "u32 \<Rightarrow> u8 list \<Rightarrow> tcp_control_block \<Rightarrow> tcp_control_block \<times> bool" where
  "accept_in_order s payload t =
     (let (rb, n) = (if sack_enabled (sack t) then rb_write_at (receive_buffer t) (rcv_nxt t) s payload
                     else rb_write (receive_buffer t) payload);
          t1 = t\<lparr>receive_buffer := rb\<rparr>
      in if n = 0 then (t1, True)
         else let t2 = t1\<lparr>rcv_nxt := rcv_nxt t1 + of_nat n\<rparr>;
                  t3 = (if sack_enabled (sack t2) then sack_rx_advance_from_scoreboard t2 else t2);
                  t4 = update_rcv_wnd_from_buffer t3
              in (t4\<lparr>ack_needed := True, unacked_segments := unacked_segments t4 + 1\<rparr>, False))"

definition accept_payload :: "u32 \<Rightarrow> u8 list \<Rightarrow> tcp_control_block \<Rightarrow> tcp_control_block \<times> bool" where
  "accept_payload s payload t =
     (if payload = []
      then (if rcv_wnd t = 0 then t\<lparr>ack_needed := True, unacked_segments := unacked_segments t + 1\<rparr> else t, False)
      else if s \<noteq> rcv_nxt t
      then (if sack_enabled (sack t) then update_rcv_wnd_from_buffer (sack_receive_out_of_order t s payload) else t,
            True)
      else accept_in_order s payload t)"

definition schedule_ack :: "instant \<Rightarrow> tcp_datagram_header \<Rightarrow> tcp_control_block \<Rightarrow> tcp_control_block \<times> bool" where
  "schedule_ack now h t =
     (if ack_needed t
      then if get_flag h PSH \<or> is_fin h \<or> rcv_wnd t = 0 \<or> unacked_segments t \<ge> 2
           then (t\<lparr>ack_needed := False, unacked_segments := 0, ack_deadline := None\<rparr>, True)
           else (t\<lparr>ack_deadline := Some (instant_add now (from_millis 40))\<rparr>, False)
      else (t, False))"

definition receive_segment ::
  "instant \<Rightarrow> tcp_datagram_header \<Rightarrow> u8 list \<Rightarrow> tcp_control_block \<Rightarrow> tcp_control_block \<times> bool" where
  "receive_segment now h payload t =
     (let s = sequence_number h;
          t1 = maybe_update_send_window t s (ack_number h) (window_size h);
          t2 = t1\<lparr>last_rx_time := now, keepalive_count := 0, keepalive_deadline := None\<rparr>;
          (t3, now_ack) = accept_payload s payload t2;
          t4 = (if is_fin h then (handle_fin_flag now t3)\<lparr>ack_needed := True\<rparr> else t3);
          (t5, due) = schedule_ack now h t4;
          t6 = (if payload \<noteq> [] \<or> is_fin h then t5\<lparr>event := event t5 + 1\<rparr> else t5)
      in (t6, now_ack \<or> due))"

definition process_payload ::
  "instant \<Rightarrow> tcp_datagram_header \<Rightarrow> u8 list \<Rightarrow> bool \<Rightarrow> tcp_control_block \<times> rx_actions \<Rightarrow> tcp_control_block \<times> rx_actions" where
  "process_payload now h payload acceptable ta =
     (let (t, acts) = ta;
          process_receive = (acceptable \<and> (payload \<noteq> [] \<or> is_fin h \<or>
            (\<not> act_send_ack acts \<and> \<not> act_fast_retransmit acts \<and> \<not> act_inflate acts)))
      in if \<not> process_receive then (t, acts)
         else if \<not> is_segment_acceptable t (sequence_number h) (of_nat (length payload))
         then (t, acts\<lparr>act_send_ack := True\<rparr>)
         else let (t1, ack_now) = receive_segment now h payload t
              in (t1, acts\<lparr>act_send_ack := act_send_ack acts \<or> ack_now, act_run_send_queue := True\<rparr>))"

text \<open>The deferred actions, in the order of the source.\<close>

definition and_then ::
  "bool \<Rightarrow> (tcp_control_block \<Rightarrow> (tcp_control_block \<times> tx_segment list) option) \<Rightarrow>
   tcp_control_block \<times> tx_segment list \<Rightarrow> (tcp_control_block \<times> tx_segment list) option" where
  "and_then c f = (\<lambda>(t, xs). if c then map_option (\<lambda>(t', ys). (t', xs @ ys)) (f t) else Some (t, xs))"

definition run_actions ::
  "instant \<Rightarrow> (nat \<Rightarrow> instant) \<Rightarrow> tcp_control_block \<times> rx_actions \<Rightarrow> (tcp_control_block \<times> tx_segment list) option" where
  "run_actions now clk = (\<lambda>(t, acts).
     do { r1 \<leftarrow> and_then (act_send_ack acts) (send_immediate_ack_unlocked now) (t, []);
          r2 \<leftarrow> and_then (act_fast_retransmit acts) (fast_retransmit_front now) r1;
          r3 \<leftarrow> and_then (act_partial acts \<noteq> None) (retransmit_first_partial_ack now (the (act_partial acts))) r2;
          and_then (act_run_send_queue acts) (process_send_queue clk 0) r3 })"

definition process_data_datagram ::
  "f64_env \<Rightarrow> instant \<Rightarrow> (nat \<Rightarrow> instant) \<Rightarrow> u8 list \<Rightarrow> tcp_datagram_header \<Rightarrow> u8 list \<Rightarrow> u8 \<Rightarrow> tcp_control_block \<Rightarrow>
   (tcp_control_block \<times> tx_segment list) option" where
  "process_data_datagram fp now clk payload h options ip_ecn t =
     (let ce = ((ip_ecn AND 3) = IP_ECN_CE)
      in if carries_nothing_new h payload t then send_immediate_ack_unlocked now (note_ce ce t)
         else if is_rst h
         then Some (t\<lparr>state := Closed, last_error := Some ConnectionReset, event := event t + 1\<rparr>, [])
         else if \<not> is_ack h then Some (t, [])
         else let t1 = note_cwr (get_flag h CWR) (note_ce ce t);
                  ts_opt = find_timestamp options;
                  (t2, go) = check_timestamps now h ts_opt t1
              in if \<not> go then Some (t2, [])
                 else run_actions now clk
                        (process_payload now h payload (is_acceptable_ack t2 (ack_number h))
                           (process_ack fp now h payload ts_opt (parse_sack_blocks options) ce t2)))"

text \<open>The last acknowledgment of a passive open. \<open>Some port\<close> says that the connection is to be queued
  for \<open>accept\<close> on that port.\<close>

definition process_syn_received_ack ::
  "f64_env \<Rightarrow> instant \<Rightarrow> (nat \<Rightarrow> instant) \<Rightarrow> tcp_datagram_header \<Rightarrow> u8 list \<Rightarrow> u8 list \<Rightarrow> u8 \<Rightarrow> tcp_control_block \<Rightarrow>
   (tcp_control_block \<times> tx_segment list \<times> u16 option) option" where
  "process_syn_received_ack fp now clk h payload options ip_ecn t =
     (if is_rst h
      then Some (t\<lparr>state := Closed, last_error := Some ConnectionReset, event := event t + 1\<rparr>, [], None)
      else if state t \<noteq> SynReceived \<or> \<not> is_ack h \<or> \<not> is_acceptable_ack t (ack_number h)
      then Some (t, [], None)
      else let t1 = drain_retransmission_queue (ack_number h) (t\<lparr>snd_una := ack_number h\<rparr>);
               t2 = t1\<lparr>state := Established, event := event t1 + 1\<rparr>
           in if payload \<noteq> [] \<or> options \<noteq> []
              then map_option (\<lambda>(t', xs). (t', xs, Some (local_port (tuple t2))))
                     (process_data_datagram fp now clk payload h options ip_ecn t2)
              else Some (t2, [], Some (local_port (tuple t2))))"

end
