(* ===== verification/Tcp_Views.thy ===== *)
theory Tcp_Views
  imports Tcp_Recv
begin

text \<open>
  What the pieces of the receive path leave alone. A control block has a receive side, \<open>rx_view\<close> (the
  connection state, \<open>RCV.NXT\<close>, the ring and the scoreboard), and a send side, \<open>tx_view\<close> (\<open>SND.UNA\<close>,
  \<open>SND.NXT\<close>, the unsent bytes and the identity of the queued segments). Congestion control, timers,
  estimators and loss marking change neither.
\<close>

named_theorems views \<open>operations that keep a view of the control block\<close>

definition rx_view :: "tcp_control_block \<Rightarrow> _" where
  "rx_view t = (state t, tuple t, rcv_nxt t, rcv_wnd t, max_rcv_wnd t, receive_buffer t,
     sack_enabled (sack t), sack_rx_ranges (sack t), sack_rx_range_len (sack t), sack_rx_recent (sack t))"

definition seg_core :: "unacked_segment \<Rightarrow> u32 \<times> u8 list \<times> u8" where
  "seg_core s = (seg_seq s, seg_data s, seg_flags s)"

definition tx_view :: "tcp_control_block \<Rightarrow> _" where
  "tx_view t = (snd_una t, snd_nxt t, send_buffer t, map seg_core (retransmission_queue t))"

lemma rx_view_upd [views]:
  "rx_view (t\<lparr>snd_una := x0\<rparr>) = rx_view t" "rx_view (t\<lparr>snd_nxt := x1\<rparr>) = rx_view t"
  "rx_view (t\<lparr>snd_wnd := x2\<rparr>) = rx_view t" "rx_view (t\<lparr>snd_wl1 := x3\<rparr>) = rx_view t"
  "rx_view (t\<lparr>snd_wl2 := x4\<rparr>) = rx_view t" "rx_view (t\<lparr>iss := x5\<rparr>) = rx_view t"
  "rx_view (t\<lparr>irs := x6\<rparr>) = rx_view t" "rx_view (t\<lparr>send_buffer := x7\<rparr>) = rx_view t"
  "rx_view (t\<lparr>event := x8\<rparr>) = rx_view t"
  "rx_view (t\<lparr>handshake_gate := x9\<rparr>) = rx_view t"
  "rx_view (t\<lparr>ack_needed := x10\<rparr>) = rx_view t"
  "rx_view (t\<lparr>ack_deadline := x11\<rparr>) = rx_view t"
  "rx_view (t\<lparr>unacked_segments := x12\<rparr>) = rx_view t"
  "rx_view (t\<lparr>retransmission_queue := x13\<rparr>) = rx_view t"
  "rx_view (t\<lparr>rto := x14\<rparr>) = rx_view t" "rx_view (t\<lparr>srtt := x15\<rparr>) = rx_view t"
  "rx_view (t\<lparr>rttvar := x16\<rparr>) = rx_view t" "rx_view (t\<lparr>rtt_m := x17\<rparr>) = rx_view t"
  "rx_view (t\<lparr>persist_timer := x18\<rparr>) = rx_view t"
  "rx_view (t\<lparr>persist_backoff := x19\<rparr>) = rx_view t"
  "rx_view (t\<lparr>last_rx_time := x20\<rparr>) = rx_view t"
  "rx_view (t\<lparr>keepalive_deadline := x21\<rparr>) = rx_view t"
  "rx_view (t\<lparr>timewait_deadline := x22\<rparr>) = rx_view t"
  "rx_view (t\<lparr>keepalive_count := x23\<rparr>) = rx_view t"
  "rx_view (t\<lparr>last_error := x24\<rparr>) = rx_view t"
  "rx_view (t\<lparr>nagle_enabled := x25\<rparr>) = rx_view t"
  "rx_view (t\<lparr>last_ack_received := x26\<rparr>) = rx_view t"
  "rx_view (t\<lparr>duplicate_ack_count := x27\<rparr>) = rx_view t"
  "rx_view (t\<lparr>congestion_control := x28\<rparr>) = rx_view t"
  "rx_view (t\<lparr>cwnd := x29\<rparr>) = rx_view t" "rx_view (t\<lparr>ssthresh := x30\<rparr>) = rx_view t"
  "rx_view (t\<lparr>in_fast_recovery := x31\<rparr>) = rx_view t"
  "rx_view (t\<lparr>peer_mss := x32\<rparr>) = rx_view t"
  "rx_view (t\<lparr>rcv_wscale := x33\<rparr>) = rx_view t"
  "rx_view (t\<lparr>snd_wscale := x34\<rparr>) = rx_view t"
  "rx_view (t\<lparr>wnd_scale_enabled := x35\<rparr>) = rx_view t"
  "rx_view (t\<lparr>ts := x36\<rparr>) = rx_view t" "rx_view (t\<lparr>eifel := x37\<rparr>) = rx_view t"
  "rx_view (t\<lparr>frto := x38\<rparr>) = rx_view t" "rx_view (t\<lparr>ecn := x39\<rparr>) = rx_view t"
  "rx_view (t\<lparr>cwv := x40\<rparr>) = rx_view t" "rx_view (t\<lparr>abc := x41\<rparr>) = rx_view t"
  "rx_view (t\<lparr>pacing := x42\<rparr>) = rx_view t"
  "rx_view (t\<lparr>effective_mss := x43\<rparr>) = rx_view t"
  by (simp_all add: rx_view_def)

lemma tx_view_upd [views]:
  "tx_view (t\<lparr>snd_wnd := x0\<rparr>) = tx_view t" "tx_view (t\<lparr>snd_wl1 := x1\<rparr>) = tx_view t"
  "tx_view (t\<lparr>snd_wl2 := x2\<rparr>) = tx_view t" "tx_view (t\<lparr>iss := x3\<rparr>) = tx_view t"
  "tx_view (t\<lparr>rcv_nxt := x4\<rparr>) = tx_view t" "tx_view (t\<lparr>rcv_wnd := x5\<rparr>) = tx_view t"
  "tx_view (t\<lparr>irs := x6\<rparr>) = tx_view t" "tx_view (t\<lparr>state := x7\<rparr>) = tx_view t"
  "tx_view (t\<lparr>tuple := x8\<rparr>) = tx_view t"
  "tx_view (t\<lparr>receive_buffer := x9\<rparr>) = tx_view t"
  "tx_view (t\<lparr>event := x10\<rparr>) = tx_view t"
  "tx_view (t\<lparr>handshake_gate := x11\<rparr>) = tx_view t"
  "tx_view (t\<lparr>ack_needed := x12\<rparr>) = tx_view t"
  "tx_view (t\<lparr>ack_deadline := x13\<rparr>) = tx_view t"
  "tx_view (t\<lparr>unacked_segments := x14\<rparr>) = tx_view t"
  "tx_view (t\<lparr>rto := x15\<rparr>) = tx_view t" "tx_view (t\<lparr>srtt := x16\<rparr>) = tx_view t"
  "tx_view (t\<lparr>rttvar := x17\<rparr>) = tx_view t" "tx_view (t\<lparr>rtt_m := x18\<rparr>) = tx_view t"
  "tx_view (t\<lparr>persist_timer := x19\<rparr>) = tx_view t"
  "tx_view (t\<lparr>persist_backoff := x20\<rparr>) = tx_view t"
  "tx_view (t\<lparr>last_rx_time := x21\<rparr>) = tx_view t"
  "tx_view (t\<lparr>keepalive_deadline := x22\<rparr>) = tx_view t"
  "tx_view (t\<lparr>timewait_deadline := x23\<rparr>) = tx_view t"
  "tx_view (t\<lparr>keepalive_count := x24\<rparr>) = tx_view t"
  "tx_view (t\<lparr>last_error := x25\<rparr>) = tx_view t"
  "tx_view (t\<lparr>nagle_enabled := x26\<rparr>) = tx_view t"
  "tx_view (t\<lparr>last_ack_received := x27\<rparr>) = tx_view t"
  "tx_view (t\<lparr>duplicate_ack_count := x28\<rparr>) = tx_view t"
  "tx_view (t\<lparr>congestion_control := x29\<rparr>) = tx_view t"
  "tx_view (t\<lparr>cwnd := x30\<rparr>) = tx_view t" "tx_view (t\<lparr>ssthresh := x31\<rparr>) = tx_view t"
  "tx_view (t\<lparr>in_fast_recovery := x32\<rparr>) = tx_view t"
  "tx_view (t\<lparr>max_rcv_wnd := x33\<rparr>) = tx_view t"
  "tx_view (t\<lparr>peer_mss := x34\<rparr>) = tx_view t"
  "tx_view (t\<lparr>rcv_wscale := x35\<rparr>) = tx_view t"
  "tx_view (t\<lparr>snd_wscale := x36\<rparr>) = tx_view t"
  "tx_view (t\<lparr>wnd_scale_enabled := x37\<rparr>) = tx_view t"
  "tx_view (t\<lparr>ts := x38\<rparr>) = tx_view t" "tx_view (t\<lparr>eifel := x39\<rparr>) = tx_view t"
  "tx_view (t\<lparr>frto := x40\<rparr>) = tx_view t" "tx_view (t\<lparr>ecn := x41\<rparr>) = tx_view t"
  "tx_view (t\<lparr>cwv := x42\<rparr>) = tx_view t" "tx_view (t\<lparr>abc := x43\<rparr>) = tx_view t"
  "tx_view (t\<lparr>pacing := x44\<rparr>) = tx_view t" "tx_view (t\<lparr>sack := x45\<rparr>) = tx_view t"
  "tx_view (t\<lparr>effective_mss := x46\<rparr>) = tx_view t"
  by (simp_all add: tx_view_def)

section \<open>Congestion control and estimators\<close>

lemma cwv_views [views]:
  "rx_view (cwv_note_validated t) = rx_view t" "tx_view (cwv_note_validated t) = tx_view t"
  "rx_view (cwv_note_app_limited now t) = rx_view t" "tx_view (cwv_note_app_limited now t) = tx_view t"
  "rx_view (cwv_reduce_cwnd r t) = rx_view t" "tx_view (cwv_reduce_cwnd r t) = tx_view t"
  by (simp_all add: rx_view_def tx_view_def cwv_note_validated_def cwv_note_app_limited_def cwv_reduce_cwnd_def Let_def)

lemma cwv_idle_views [views]:
  "rx_view (cwv_reduce_when_idle now t) = rx_view t" "tx_view (cwv_reduce_when_idle now t) = tx_view t"
  using cwv_views(5,6) [of _ t] cwv_views(5,6) [of _ "cwv_reduce_cwnd _ t"]
  by (auto simp: rx_view_def tx_view_def cwv_reduce_when_idle_def Let_def split: option.split)

lemma grow_views [views]:
  "rx_view (grow_cwnd_value fp now raw n t) = rx_view t" "tx_view (grow_cwnd_value fp now raw n t) = tx_view t"
  by (simp_all add: rx_view_def tx_view_def grow_cwnd_value_def grow_slow_start_def grow_avoidance_def Let_def
      split: prod.split)

lemma update_congestion_window_views [views]:
  "rx_view (update_congestion_window fp now n t) = rx_view t" "tx_view (update_congestion_window fp now n t) = tx_view t"
proof -
  have upd: "rx_view (u\<lparr>cwnd := a\<rparr>) = rx_view u" "rx_view (u\<lparr>cwv := b\<rparr>) = rx_view u"
    "tx_view (u\<lparr>cwnd := a\<rparr>) = tx_view u" "tx_view (u\<lparr>cwv := b\<rparr>) = tx_view u" for u :: tcp_control_block and a b
    by (simp_all add: rx_view_def tx_view_def)
  show "rx_view (update_congestion_window fp now n t) = rx_view t"
    "tx_view (update_congestion_window fp now n t) = tx_view t"
    by (simp_all add: update_congestion_window_def Let_def views upd)
qed

lemma congestion_event_views [views]:
  "rx_view (on_congestion_event fp now t) = rx_view t" "tx_view (on_congestion_event fp now t) = tx_view t"
  by (simp_all add: rx_view_def tx_view_def on_congestion_event_def cubic_event_def reno_event_def Let_def
      split: congestion_control.split)

lemma rtt_views [views]:
  "rx_view (update_rtt_estimators t r) = rx_view t" "tx_view (update_rtt_estimators t r) = tx_view t"
  "rx_view (fst (on_rx_timestamp now t s v syn rst)) = rx_view t" "tx_view (fst (on_rx_timestamp now t s v syn rst)) = tx_view t"
  by (simp_all add: rx_view_def tx_view_def update_rtt_estimators_def rack_feed_rtt_def on_rx_timestamp_def Let_def
      split: option.split)

lemma frto_views [views]:
  "rx_view (frto_on_ack t a d) = rx_view t" "tx_view (frto_on_ack t a d) = tx_view t"
  by (simp_all add: rx_view_def tx_view_def frto_on_ack_def frto_declare_loss_def frto_declare_spurious_def
      eifel_clear_pending_def Let_def split: frto_phase.split)

lemma eifel_rx_view [views]:
  "rx_view (eifel_on_acceptable_ack t e x) = rx_view t"
  by (simp add: rx_view_def eifel_on_acceptable_ack_def eifel_clear_pending_def eifel_undo_def Let_def
      split: option.split)

section \<open>Loss marking\<close>

lemma sack_mark_block_core: "map seg_core (fst (sack_mark_block b q h)) = map seg_core q"
  by (induction q arbitrary: h) (simp_all add: seg_core_def Let_def case_prod_beta)

lemma mark_lost_at_core: "map seg_core (fst (mark_lost_at p q)) = map seg_core q"
  by (induction p q rule: mark_lost_at.induct) (auto simp: seg_core_def split: prod.splits)

lemma rack_mark_core: "map seg_core (fst (rack_mark x w q m)) = map seg_core q"
  by (induction x w q m rule: rack_mark.induct) (auto simp: seg_core_def Let_def split: prod.splits)

lemma sack_dsack_undo_views [views]:
  "rx_view (sack_dsack_undo t) = rx_view t" "tx_view (sack_dsack_undo t) = tx_view t"
  by (simp_all add: rx_view_def tx_view_def sack_dsack_undo_def Let_def)

lemma sack_apply_block_views [views]:
  "rx_view (sack_apply_block a t b) = rx_view t" "tx_view (sack_apply_block a t b) = tx_view t"
  using sack_mark_block_core [of b "retransmission_queue t" "sack_high_sacked (sack t)"]
  by (auto simp: sack_apply_block_def views split: prod.split) (auto simp: rx_view_def tx_view_def)

lemma foldl_keeps: "(\<And>t x. f (g t x) = f t) \<Longrightarrow> f (foldl g t xs) = f t"
  by (induction xs arbitrary: t) simp_all

lemma sack_tx_apply_views [views]:
  "rx_view (sack_tx_apply t a bs) = rx_view t" "tx_view (sack_tx_apply t a bs) = tx_view t"
  by (simp_all add: sack_tx_apply_def foldl_keeps [of rx_view] foldl_keeps [of tx_view] views)
    (simp_all add: rx_view_def tx_view_def)

lemma sack_mark_candidate_views [views]:
  "rx_view (sack_mark_candidate th t p) = rx_view t" "tx_view (sack_mark_candidate th t p) = tx_view t"
  using mark_lost_at_core [of p "retransmission_queue t"]
  by (auto simp: sack_mark_candidate_def rx_view_def tx_view_def split: prod.split)

lemma sack_mark_lost_views [views]:
  "rx_view (sack_mark_lost t) = rx_view t" "tx_view (sack_mark_lost t) = tx_view t"
  by (simp_all add: sack_mark_lost_def Let_def foldl_keeps [of rx_view] foldl_keeps [of tx_view] views)

lemma rack_detect_views [views]:
  "rx_view (rack_detect now t) = rx_view t" "tx_view (rack_detect now t) = tx_view t"
proof -
  define t2 where "t2 = rack_update_reordering_winow (rack_note_newest now t)"
  have t2: "rx_view t2 = rx_view t" "tx_view t2 = tx_view t"
    by (simp_all add: t2_def rack_update_reordering_winow_def rack_note_newest_def rx_view_def tx_view_def Let_def
        split: option.split)
  obtain q m where r: "rack_mark (rack_xmit_ts (sack t2)) (rack_reorder_window (sack t2)) (retransmission_queue t2)
      (sack_rack_marks (sack t2)) = (q, m)" by fastforce
  have "map seg_core q = map seg_core (retransmission_queue t2)"
    using rack_mark_core [of "rack_xmit_ts (sack t2)" "rack_reorder_window (sack t2)" "retransmission_queue t2"
        "sack_rack_marks (sack t2)"] r by simp
  with r t2 show "rx_view (rack_detect now t) = rx_view t" "tx_view (rack_detect now t) = tx_view t"
    by (auto simp: rack_detect_def rx_view_def tx_view_def simp flip: t2_def)
qed

lemma detect_loss_views [views]:
  "rx_view (detect_loss now ack bs t) = rx_view t" "tx_view (detect_loss now ack bs t) = tx_view t"
  by (simp_all add: detect_loss_def views)

lemma enter_recovery_views [views]:
  "rx_view (enter_recovery fp now t) = rx_view t" "tx_view (enter_recovery fp now t) = tx_view t"
  by (auto simp: enter_recovery_def views Let_def) (auto simp: sack_enter_recovery_def rx_view_def tx_view_def)

lemma tlp_arm_views [views]:
  "rx_view (tlp_arm now t) = rx_view t" "tx_view (tlp_arm now t) = tx_view t"
  using tlp_arm_frame [of now t] by (auto simp: rx_view_def tx_view_def)

end
