(* ===== verification/Tcp_Input.thy ===== *)
theory Tcp_Input
  imports Tcp_Views
begin

text \<open>
  Properties of the receive path: no segment makes a handler of a well-formed connection panic, the
  handlers keep it well-formed, and the connection state only moves along the transitions of RFC 9293
  that the segment justifies.
\<close>

section \<open>Sending keeps the receive side\<close>

lemma sack_wf_view: "rx_view t' = rx_view t \<Longrightarrow> sack_wf (sack t') = sack_wf (sack t)"
  by (rule sack_wf_cong) (simp_all add: rx_view_def)

lemma stamp_segment_views:
  assumes "stamp_segment now t h payload = Some (t', x, tsval)"
  shows "rx_view t' = rx_view t" "tx_view t' = tx_view t"
proof -
  obtain a n c where "t' = t\<lparr>ts := a, sack := (sack t)\<lparr>sack_blocks_tx := n\<rparr>, ecn := c\<rparr>"
    by (rule stamp_segment_frame [OF assms])
  then show "rx_view t' = rx_view t" "tx_view t' = tx_view t" by (simp_all add: rx_view_def tx_view_def)
qed

text \<open>\<open>sound f\<close>: on a control block with a well-formed scoreboard, \<open>f\<close> returns and keeps the receive side.\<close>

definition sound :: "(tcp_control_block \<Rightarrow> (tcp_control_block \<times> tx_segment list) option) \<Rightarrow> bool" where
  "sound f \<longleftrightarrow> (\<forall>t. sack_wf (sack t) \<longrightarrow> (\<exists>t' xs. f t = Some (t', xs) \<and> rx_view t' = rx_view t))"

lemma soundI:
  assumes "\<And>t :: tcp_control_block. sack_wf (sack t) \<Longrightarrow> \<exists>t' xs. f t = Some (t', xs) \<and> rx_view t' = rx_view t"
  shows "sound f"
  using assms by (simp add: sound_def)

lemma soundE:
  assumes "sound f" "sack_wf (sack t)"
  obtains t' xs where "f t = Some (t', xs)" "rx_view t' = rx_view t" "sack_wf (sack t')"
proof -
  obtain t' xs where f: "f t = Some (t', xs)" "rx_view t' = rx_view t" using assms unfolding sound_def by blast
  from that [OF this] show ?thesis using assms(2) sack_wf_view [OF f(2)] by simp
qed

lemma sound_immediate_ack: "sound (send_immediate_ack_unlocked now)"
proof (rule soundI)
  fix t :: tcp_control_block
  assume "sack_wf (sack t)"
  then obtain t' x tsval where "stamp_segment now t (set_flag (header_new t) ACK True) [] = Some (t', x, tsval)"
    by (rule stamp_segment_total)
  with stamp_segment_views show "\<exists>t' xs. send_immediate_ack_unlocked now t = Some (t', xs) \<and> rx_view t' = rx_view t"
    by (fastforce simp: send_immediate_ack_unlocked_def)
qed

lemma sound_net_send: "sound (\<lambda>t. net_send_from_tcb now t (h t) payload)"
proof (rule soundI)
  fix t :: tcp_control_block
  assume "sack_wf (sack t)"
  then obtain t' x tsval where "stamp_segment now t (h t) payload = Some (t', x, tsval)"
    by (rule stamp_segment_total)
  with stamp_segment_views show "\<exists>t' xs. net_send_from_tcb now t (h t) payload = Some (t', xs) \<and> rx_view t' = rx_view t"
    by (fastforce simp: net_send_from_tcb_def)
qed

lemma rx_view_core: "send_core t' = send_core t \<Longrightarrow> rx_view t' = rx_view t"
proof -
  have "rx_view (send_core u) = rx_view u" for u by (simp add: rx_view_def send_core_def)
  then show "send_core t' = send_core t \<Longrightarrow> rx_view t' = rx_view t" by metis
qed

lemma send_new_data_rx_view:
  assumes "send_new_data now fl n t = Some (t', x)"
  shows "rx_view t' = rx_view t"
proof -
  define t1 where "t1 = t\<lparr>send_buffer := drop n (send_buffer t)\<rparr>"
  define h where "h = set_sequence_number (set_flag (set_flag (header_new t1) ACK True) PSH True) (snd_nxt t1)"
  obtain t2 tsval where st: "stamp_segment now t1 h (take n (send_buffer t)) = Some (t2, x, tsval)"
    using assms(1) by (auto simp: send_new_data_def t1_def h_def Let_def split: bind_splits)
  have "rx_view t2 = rx_view t" using stamp_segment_views(1) [OF st] by (simp add: t1_def rx_view_def)
  moreover have "rx_view (schedule_next now m u) = rx_view u" for m and u :: tcp_control_block
    using schedule_next_frame [of now m u] by (auto simp: rx_view_def)
  moreover have "rx_view (cwv_after_send now m u) = rx_view u" for m and u :: tcp_control_block
    using cwv_after_send_frame [of now m u] by (auto simp: rx_view_def)
  moreover have "rx_view (arm_rtt_probe now p u) = rx_view u" for p and u :: tcp_control_block
    using arm_rtt_probe_frame [of now p u] by (auto simp: rx_view_def)
  moreover have "rx_view (u\<lparr>retransmission_queue := q, snd_nxt := s\<rparr>) = rx_view u" for q s and u :: tcp_control_block
    by (simp add: rx_view_def)
  ultimately show ?thesis
    using assms st by (auto simp: send_new_data_def t1_def [symmetric] h_def [symmetric] Let_def views)
qed

lemma process_send_queue_rx_view: "process_send_queue clk i t = Some (t', xs) \<Longrightarrow> rx_view t' = rx_view t"
proof (induction clk i t arbitrary: t' xs rule: process_send_queue.induct)
  case (1 clk i t)
  obtain r where r: "send_round (clk i) t = Some r"
    using 1(2) by (cases "send_round (clk i) t") (auto simp: process_send_queue.simps [of clk i t])
  show ?case
  proof (cases r)
    case (Stop t1)
    with r 1(2) send_round_stop [of "clk i" t t1] show ?thesis
      by (auto simp: process_send_queue.simps [of clk i t] intro: rx_view_core)
  next
    case (Sent t1 x)
    then obtain ys where ys: "process_send_queue clk (Suc i) t1 = Some (t', ys)"
      using r 1(2) by (auto simp: process_send_queue.simps [of clk i t])
    have "send_round (clk i) t = Some (Sent t1 x)" using r Sent by simp
    then obtain t3 fl n where "send_core t3 = send_core t" "send_new_data (clk i) fl n t3 = Some (t1, x)"
      by (rule send_round_sent)
    then have "rx_view t1 = rx_view t" using send_new_data_rx_view [of "clk i" fl n t3 t1 x] rx_view_core [of t3 t] by simp
    with 1(1) [OF r Sent ys] show ?thesis by simp
  qed
qed

lemma sound_send_queue: "sound (process_send_queue clk i)"
proof (rule soundI)
  fix t :: tcp_control_block
  assume "sack_wf (sack t)"
  then obtain t' xs where "process_send_queue clk i t = Some (t', xs)" using process_send_queue_total by blast
  with process_send_queue_rx_view [OF this]
  show "\<exists>t' xs. process_send_queue clk i t = Some (t', xs) \<and> rx_view t' = rx_view t" by simp
qed

section \<open>Retransmission\<close>

lemma position_Some: "position P xs = Some i \<Longrightarrow> i < length xs \<and> P (xs ! i) \<and> (\<forall>j < i. \<not> P (xs ! j))"
proof (induction xs arbitrary: i)
  case (Cons x xs)
  show ?case
  proof (cases "P x")
    case False
    with Cons.prems obtain k where "position P xs = Some k" "i = Suc k" by auto
    with Cons.IH [of k] False show ?thesis by (auto simp: less_Suc_eq_0_disj)
  qed (use Cons.prems in simp)
qed simp

lemma position_None: "position P xs = None \<longleftrightarrow> (\<forall>x\<in>set xs. \<not> P x)"
  by (induction xs) auto

lemma retransmit_index_less: "retransmit_index p t = Some i \<Longrightarrow> i < length (retransmission_queue t)"
  by (auto simp: retransmit_index_def Let_def split: if_splits option.splits dest: position_Some)

lemma established_options_frame:
  assumes "established_outgoing_options now t = Some (t', opts, tsval)"
  obtains a n where "t' = t\<lparr>ts := a, sack := (sack t)\<lparr>sack_blocks_tx := n\<rparr>\<rparr>"
proof -
  obtain t1 w1 w2 where st: "write_timestamp_option now t options_writer_new = Some (t1, w1, tsval)"
    "write_sack_option t1 w1 = Some (t', w2)"
    using assms by (auto simp: established_outgoing_options_def split: bind_splits)
  then show ?thesis
    using write_timestamp_option_frame [OF st(1)] write_sack_option_frame [OF st(2)] that by fastforce
qed

lemma established_options_total:
  assumes "sack_wf (sack t)"
  obtains a n opts tsval where
    "established_outgoing_options now t = Some (t\<lparr>ts := a, sack := (sack t)\<lparr>sack_blocks_tx := n\<rparr>\<rparr>, opts, tsval)"
proof -
  obtain t' x v where "stamp_segment now t (header_new t) [] = Some (t', x, v)"
    using assms by (rule stamp_segment_total)
  then obtain t1 opts tsval where o: "established_outgoing_options now t = Some (t1, opts, tsval)"
    by (auto simp: stamp_segment_def split: bind_splits)
  from established_options_frame [OF this] obtain a n where "t1 = t\<lparr>ts := a, sack := (sack t)\<lparr>sack_blocks_tx := n\<rparr>\<rparr>" .
  with o that show ?thesis by blast
qed

lemma update_segment_views:
  "rx_view (update_segment i f t) = rx_view t"
  "(\<And>s. seg_core (f s) = seg_core s) \<Longrightarrow> tx_view (update_segment i f t) = tx_view t"
  "length (retransmission_queue (update_segment i f t)) = length (retransmission_queue t)"
  by (simp_all add: update_segment_def rx_view_def tx_view_def map_update list_update_same_conv)

text \<open>The copy that goes out has the queued segment's sequence number and bytes.\<close>

lemma resend_segment_total:
  assumes "i < length (retransmission_queue t)"
  obtains t' x where "resend_segment i opts t = Some (t', [x])" "rx_view t' = rx_view t" "tx_view t' = tx_view t"
    "retransmission_queue t' = retransmission_queue t"
    "sequence_number (tx_header x) = seg_seq (retransmission_queue t ! i)" "tx_payload x = seg_data (retransmission_queue t ! i)"
proof -
  let ?s = "retransmission_queue t ! i"
  let ?h = "set_sequence_number (set_flags (header_new t) (seg_flags ?s AND NOT CWR)) (seg_seq ?s)"
  obtain t' h' tos where e: "apply_outgoing_ecn t ?h (seg_data ?s) = (t', h', tos)" by (metis prod_cases3)
  from apply_outgoing_ecn_frame [OF e] obtain c f where "t' = t\<lparr>ecn := c\<rparr>" "h' = ?h\<lparr>flags := f\<rparr>" by blast
  then show ?thesis
    using assms e that [of t' "\<lparr>tx_tuple = tuple t', tx_header = h', tx_options = opts, tx_payload = seg_data ?s, tx_tos = tos\<rparr>"]
    by (simp add: resend_segment_def Let_def rx_view_def tx_view_def set_sequence_number_def)
qed

lemma note_retransmit_ts_views:
  "rx_view (note_retransmit_ts c i v t) = rx_view t" "tx_view (note_retransmit_ts c i v t) = tx_view t"
  "length (retransmission_queue (note_retransmit_ts c i v t)) = length (retransmission_queue t)"
  by (simp_all add: note_retransmit_ts_def update_segment_views seg_core_def split: option.split)
    (simp_all add: rx_view_def tx_view_def)

lemma core_nth:
  assumes "map seg_core q' = map seg_core q" "i < length q"
  shows "seg_seq (q' ! i) = seg_seq (q ! i)" "seg_data (q' ! i) = seg_data (q ! i)"
proof -
  have "i < length q'" using assms map_eq_imp_length_eq [OF assms(1)] by simp
  then have "seg_core (q' ! i) = seg_core (q ! i)" using arg_cong [OF assms(1), of "\<lambda>l. l ! i"] assms(2) by simp
  then show "seg_seq (q' ! i) = seg_seq (q ! i)" "seg_data (q' ! i) = seg_data (q ! i)" by (simp_all add: seg_core_def)
qed

lemma retransmit_matching_total:
  assumes "sack_wf (sack t)" "retransmit_index p t = Some i"
  obtains t' x where "retransmit_matching_unlocked now cause p t = Some (t', [x])"
    "rx_view t' = rx_view t" "tx_view t' = tx_view t"
    "sequence_number (tx_header x) = seg_seq (retransmission_queue t ! i)"
    "tx_payload x = seg_data (retransmission_queue t ! i)"
proof -
  have i: "i < length (retransmission_queue t)" using assms(2) by (rule retransmit_index_less)
  obtain a n opts tsval where
    o: "established_outgoing_options now t = Some (t\<lparr>ts := a, sack := (sack t)\<lparr>sack_blocks_tx := n\<rparr>\<rparr>, opts, tsval)"
    (is "_ = Some (?t1, _)")
    by (rule established_options_total [OF assms(1)])
  define t2 where "t2 = note_retransmit_ts cause i tsval ?t1"
  define t3 where "t3 = update_segment i (\<lambda>s. s\<lparr>seg_xmit_mstamp := now, seg_retrans := True, seg_lost := False\<rparr>) t2"
  define t4 where "t4 = (if sack_enabled (sack t3)
    then t3\<lparr>sack := (sack t3)\<lparr>sack_rexmit_holes := saturating_add (sack_rexmit_holes (sack t3)) 1\<rparr>\<rparr> else t3)"
  have v4: "rx_view t4 = rx_view t3" "tx_view t4 = tx_view t3" "length (retransmission_queue t4) = length (retransmission_queue t3)"
    by (simp_all add: t4_def rx_view_def tx_view_def)
  have v3: "rx_view t3 = rx_view t2" "tx_view t3 = tx_view t2" "length (retransmission_queue t3) = length (retransmission_queue t2)"
    unfolding t3_def by (simp_all add: update_segment_views seg_core_def)
  have v1: "rx_view ?t1 = rx_view t" "tx_view ?t1 = tx_view t" by (simp_all add: rx_view_def tx_view_def)
  note v = v4 v3 note_retransmit_ts_views [of cause i tsval ?t1, folded t2_def] v1
  then have "i < length (retransmission_queue t4)" using i by simp
  then obtain t' x where r: "resend_segment i opts t4 = Some (t', [x])" "rx_view t' = rx_view t4" "tx_view t' = tx_view t4"
    "sequence_number (tx_header x) = seg_seq (retransmission_queue t4 ! i)" "tx_payload x = seg_data (retransmission_queue t4 ! i)"
    by (rule resend_segment_total)
  have "tx_view t4 = tx_view t" using v by simp
  then have "map seg_core (retransmission_queue t4) = map seg_core (retransmission_queue t)" by (simp add: tx_view_def)
  note core_nth [OF this i]
  moreover have "retransmit_matching_unlocked now cause p t = resend_segment i opts t4"
    by (simp add: retransmit_matching_unlocked_def assms(2) o Let_def t2_def t3_def t4_def)
  ultimately show ?thesis using r v by (intro that [of t' x]) simp_all
qed

lemma sound_retransmit: "sound (retransmit_matching_unlocked now cause p)"
proof (rule soundI)
  fix t :: tcp_control_block
  assume wf: "sack_wf (sack t)"
  show "\<exists>t' xs. retransmit_matching_unlocked now cause p t = Some (t', xs) \<and> rx_view t' = rx_view t"
  proof (cases "retransmit_index p t")
    case None
    then show ?thesis by (simp add: retransmit_matching_unlocked_def)
  next
    case (Some i)
    then show ?thesis by (rule retransmit_matching_total [OF wf]) blast
  qed
qed

section \<open>The scoreboard stays well-formed\<close>

lemma swap_remove_length [simp]: "length (swap_remove rs n i) = length rs"
  by (simp add: swap_remove_def)

lemma sack_merge_scan_shape:
  "sack_merge_scan rs n m i = (rs', n', m') \<Longrightarrow> n' \<le> n \<and> length rs' = length rs \<and> (n' = n \<longrightarrow> rs' = rs)"
proof (induction rs n m i rule: sack_merge_scan.induct)
  case (1 rs n m i)
  show ?case
    using 1(1) [of "rs ! i"] 1(2) 1(3)
    by (cases "i < n"; cases "sb_touches m (rs ! i)") (auto simp: sack_merge_scan.simps [of rs n m i] Let_def)
qed

lemma sack_wf_insert:
  assumes "sack_wf k"
  shows "sack_wf (sack_rx_insert_range k l r)"
proof -
  obtain rs n m where sc: "sack_merge_scan (sack_rx_ranges k) (sack_rx_range_len k) \<lparr>sb_left = l, sb_right = r\<rparr> 0 = (rs, n, m)"
    by (metis prod_cases3)
  note shape = sack_merge_scan_shape [OF sc]
  show ?thesis
  proof (cases "n \<ge> SACK_RX_RANGES_MAX")
    case True
    then have "n = sack_rx_range_len k" using shape assms by (auto simp: sack_wf_def)
    then have "sack_rx_insert_range k l r = k" using shape True by (simp add: sack_rx_insert_range_def sc)
    then show ?thesis using assms by simp
  next
    case False
    then have "m \<in> set (take (n + 1) (rs[n := m]))"
      using shape assms by (auto simp: sack_wf_def in_set_conv_nth intro!: exI [of _ n])
    then show ?thesis using shape assms False by (simp add: sack_rx_insert_range_def sc sack_wf_def rx_live_def)
  qed
qed

lemma sack_wf_out_of_order: "sack_wf (sack t) \<Longrightarrow> sack_wf (sack (sack_receive_out_of_order t s payload))"
  by (auto simp: sack_receive_out_of_order_def Let_def sack_wf_insert split: prod.split)

lemma sack_wf_fold_range:
  assumes "sack_wf (sack t)" "i < sack_rx_range_len (sack t)"
  shows "sack_wf (sack (fold_range t i))"
proof -
  let ?k = "sack t" and ?n = "sack_rx_range_len (sack t)" and ?rs = "sack_rx_ranges (sack t)"
  let ?rest = "take (?n - 1) (swap_remove ?rs ?n i)"
  have n: "?n \<le> length ?rs" using assms(1) by (simp add: sack_wf_def)
  have "mset (rx_live ?k) = mset (?rs ! i # ?rest)"
    using swap_remove_mset [OF assms(2) n] by (simp add: rx_live_def)
  then have "set (rx_live ?k) = insert (?rs ! i) (set ?rest)" by (metis set_mset_mset list.simps(15))
  then show ?thesis
    using assms(1) by (auto simp: sack_wf_def fold_range_def Let_def rx_live_def split: if_splits)
qed

lemma sack_wf_advance: "sack_wf (sack t) \<Longrightarrow> sack_wf (sack (sack_rx_advance_from_scoreboard t))"
proof (induction t rule: sack_rx_advance_from_scoreboard.induct)
  case (1 t)
  show ?case
  proof (cases "next_range t")
    case (Some i)
    then have "i < sack_rx_range_len (sack t)"
      by (auto simp: next_range_def dest!: find_range_at_Some)
    then show ?thesis
      using 1(1) [OF Some] sack_wf_fold_range [OF 1(2)] Some by (simp add: sack_rx_advance_from_scoreboard.simps [of t])
  qed (use 1(2) in \<open>simp add: sack_rx_advance_from_scoreboard.simps [of t]\<close>)
qed

section \<open>States\<close>

text \<open>The transitions of RFC 9293 a segment can cause on a synchronised connection, with the event that
  justifies each.\<close>

datatype segment_event = FinAcked | FinReceived | Reset

inductive transition :: "tcp_state \<Rightarrow> segment_event \<Rightarrow> tcp_state \<Rightarrow> bool" where
  FinWait1_acked: "transition FinWait1 FinAcked FinWait2"
| Closing_acked: "transition Closing FinAcked TimeWait"
| LastAck_acked: "transition LastAck FinAcked Closed"
| Established_fin: "transition Established FinReceived CloseWait"
| FinWait1_fin: "transition FinWait1 FinReceived Closing"
| FinWait2_fin: "transition FinWait2 FinReceived TimeWait"
| any_reset: "transition s Reset Closed"

inductive_simps transition_simps: "transition s FinAcked s'" "transition s FinReceived s'" "transition s Reset s'"

inductive transitions :: "tcp_state \<Rightarrow> segment_event list \<Rightarrow> tcp_state \<Rightarrow> bool" where
  none: "transitions s [] s"
| step: "transition s e s' \<Longrightarrow> transitions s' es s'' \<Longrightarrow> transitions s (e # es) s''"

lemma transitions_append: "transitions s es s' \<Longrightarrow> transitions s' fs s'' \<Longrightarrow> transitions s (es @ fs) s''"
  by (induction rule: transitions.induct) (auto intro: transitions.step)

lemma transitions_one: "transition s e s' \<Longrightarrow> transitions s [e] s'"
  by (auto intro: transitions.intros)

section \<open>The stages\<close>

lemma stage_views [views]:
  "rx_view (note_ce ce t) = rx_view t" "rx_view (note_cwr c t) = rx_view t"
  "rx_view (fst (advance_recovery ack t)) = rx_view t" "rx_view (drain_retransmission_queue ack t) = rx_view t"
  by (simp_all add: note_ce_def note_cwr_def advance_recovery_def drain_retransmission_queue_def rx_view_def Let_def)

lemma probe_views [views]:
  "rx_view (complete_probe now ack t) = rx_view t" "rx_view (sample_timestamp now valid e t) = rx_view t"
  by (simp_all add: complete_probe_def sample_timestamp_def views Let_def split: option.split)

lemma check_timestamps_view [views]: "rx_view (fst (check_timestamps now h ov t)) = rx_view t"
proof (cases ov)
  case (Some p)
  obtain v e where "p = (v, e)" by (cases p)
  moreover obtain t1 ok where "on_rx_timestamp now t (sequence_number h) v (is_syn h) False = (t1, ok)" by fastforce
  moreover from this have "rx_view t1 = rx_view t"
    using rtt_views(3) [of now t "sequence_number h" v "is_syn h" False] by simp
  ultimately show ?thesis using Some by (cases ok) (simp_all add: check_timestamps_def views)
qed (simp add: check_timestamps_def)

lemma sample_timestamp_queue: "retransmission_queue (sample_timestamp now valid e t) = retransmission_queue t"
  by (simp add: sample_timestamp_def update_rtt_estimators_def rack_feed_rtt_def Let_def split: prod.split)

lemma check_timestamps_queue: "retransmission_queue (fst (check_timestamps now h ov t)) = retransmission_queue t"
proof (cases ov)
  case (Some p)
  have q: "retransmission_queue (fst (on_rx_timestamp now t s v syn rst)) = retransmission_queue t" for s v syn rst
    by (simp add: on_rx_timestamp_def Let_def)
  from this [of "sequence_number h" "fst p" "is_syn h" False] show ?thesis
    by (auto simp: Some check_timestamps_def sample_timestamp_queue case_prod_beta split: bool.split)
qed (simp add: check_timestamps_def)

lemma react_to_ece_view [views]: "rx_view (fst (react_to_ece fp now ok ece t)) = rx_view t"
  by (simp add: react_to_ece_def views Let_def)

text \<open>An acknowledgment moves the state only when it takes the last FIN out of the queue.\<close>

definition ack_outcome :: "tcp_control_block \<Rightarrow> tcp_control_block \<Rightarrow> bool" where
  "ack_outcome t t' \<longleftrightarrow> snd (rx_view t') = snd (rx_view t) \<and>
     (state t' = state t \<or>
      transition (state t) FinAcked (state t') \<and> (\<exists>s\<in>set (retransmission_queue t). seg_is_fin s))"

lemma ack_outcome_refl: "rx_view t' = rx_view t \<Longrightarrow> ack_outcome t t'"
  by (simp add: ack_outcome_def rx_view_def)

lemma fin_acked_outcome:
  "snd (rx_view (fin_acked now s t)) = snd (rx_view t)"
  "state (fin_acked now (state t) t) = state t \<or> transition (state t) FinAcked (state (fin_acked now (state t) t))"
  by (auto simp: fin_acked_def rx_view_def transition_simps split: tcp_state.split)

lemma ack_advances_outcome: "ack_outcome t (fst (ack_advances fp now ack ts_opt ece bs t))"
proof -
  obtain t1 partial where r: "advance_recovery ack t = (t1, partial)" by fastforce
  have t1: "rx_view t1 = rx_view t" "retransmission_queue t1 = retransmission_queue t"
    using stage_views(3) [of ack t] r by (auto simp: advance_recovery_def Let_def split: if_splits)
  define t2 where "t2 = t1\<lparr>snd_una := ack, duplicate_ack_count := 0, last_ack_received := ack,
    eifel := (eifel t1)\<lparr>eifel_bytes_acked := ack - snd_una t\<rparr>\<rparr>"
  define t3 where "t3 = (if ts_enabled (ts t2) then eifel_on_acceptable_ack t2 (map_option snd ts_opt) ece
    else frto_on_ack t2 ack False)"
  define t5 where "t5 = update_congestion_window fp now (ack - snd_una t) (complete_probe now ack t3)"
  define t6 where "t6 = (if sack_enabled (sack t5) then detect_loss now ack bs t5 else t5)"
  define lost where "lost = (sack_enabled (sack t6) \<and> \<not> in_fast_recovery t6 \<and> sack_has_lost t6)"
  define t7 where "t7 = (if lost then enter_recovery fp now t6 else t6)"
  define t8 where "t8 = tlp_arm now (drain_retransmission_queue ack t7)"
  have "rx_view t2 = rx_view t" using t1(1) by (simp add: t2_def rx_view_def)
  then have v: "rx_view t8 = rx_view t" by (simp add: t8_def t7_def t6_def t5_def t3_def views)
  have st: "state t8 = state t1" "state t8 = state t" using v t1 by (simp_all add: rx_view_def)
  define acked where "acked \<longleftrightarrow> (\<exists>s\<in>set (retransmission_queue t1). seg_is_fin s) \<and>
    \<not> (\<exists>s\<in>set (retransmission_queue t8). seg_is_fin s)"
  have "fst (ack_advances fp now ack ts_opt ece bs t) = (if acked then fin_acked now (state t1) t8 else t8)"
    unfolding ack_advances_def r Let_def acked_def t8_def t7_def lost_def t6_def t5_def t3_def t2_def by simp
  then have eq: "fst (ack_advances fp now ack ts_opt ece bs t) = (if acked then fin_acked now (state t8) t8 else t8)"
    by (simp only: st(1))
  show ?thesis
  proof (cases acked)
    case True
    then have "\<exists>s\<in>set (retransmission_queue t). seg_is_fin s" by (simp add: acked_def t1(2))
    with True show ?thesis
      unfolding eq ack_outcome_def if_P [OF True] fin_acked_outcome(1) v st(2) [symmetric]
      using fin_acked_outcome(2) [of now t8] by simp
  qed (simp add: eq ack_outcome_refl v)
qed

lemma ack_duplicate_view [views]: "rx_view (fst (ack_duplicate fp now ack bs t)) = rx_view t"
  by (simp add: ack_duplicate_def views Let_def)

lemma process_ack_outcome: "ack_outcome t (fst (process_ack fp now h payload ts_opt bs ce t))"
proof -
  obtain t1 run where r: "react_to_ece fp now (is_acceptable_ack t (ack_number h)) (get_flag h ECE) t = (t1, run)"
    by fastforce
  have v: "rx_view t1 = rx_view t" using react_to_ece_view r by (metis fst_conv)
  have q: "retransmission_queue t1 = retransmission_queue t"
    using r by (auto simp: react_to_ece_def on_congestion_event_def cubic_event_def reno_event_def Let_def
        split: if_splits congestion_control.splits)
  have "ack_outcome t (fst (ack_advances fp now a o' e bs t1))" for a o' e
    using ack_advances_outcome [of t1 fp now a o' e bs] v q by (simp add: ack_outcome_def rx_view_def)
  moreover have "rx_view (fst (ack_duplicate fp now a bs t1)) = rx_view t" for a by (simp add: views v)
  ultimately show ?thesis
    using v unfolding process_ack_def Let_def r prod.case by (auto simp: case_prod_beta intro: ack_outcome_refl)
qed

lemma advance_state [simp]:
  "state (sack_rx_advance_from_scoreboard t) = state t" "tuple (sack_rx_advance_from_scoreboard t) = tuple t"
proof (induction t rule: sack_rx_advance_from_scoreboard.induct)
  case (1 t)
  case 1
  with "1.IH" show ?case
    by (cases "next_range t") (simp_all add: sack_rx_advance_from_scoreboard.simps [of t] fold_range_def Let_def)
  case 2
  with "1.IH" show ?case
    by (cases "next_range t") (simp_all add: sack_rx_advance_from_scoreboard.simps [of t] fold_range_def Let_def)
qed

lemma out_of_order_state [simp]:
  "state (sack_receive_out_of_order t s payload) = state t" "tuple (sack_receive_out_of_order t s payload) = tuple t"
  by (simp_all add: sack_receive_out_of_order_def Let_def split: prod.split)

lemma update_rcv_wnd_simps [simp]:
  "state (update_rcv_wnd_from_buffer t) = state t" "sack (update_rcv_wnd_from_buffer t) = sack t"
  "tuple (update_rcv_wnd_from_buffer t) = tuple t"
  by (simp_all add: update_rcv_wnd_from_buffer_def)

lemma accept_payload_outcome:
  "state (fst (accept_payload s payload t)) = state t"
  "sack_wf (sack t) \<Longrightarrow> sack_wf (sack (fst (accept_payload s payload t)))"
  "tuple (fst (accept_payload s payload t)) = tuple t"
  by (auto simp: accept_payload_def accept_in_order_def Let_def sack_wf_out_of_order
      intro!: sack_wf_advance split: prod.split)

lemma handle_fin_outcome:
  "sack (handle_fin_flag now t) = sack t"
  "state (handle_fin_flag now t) = state t \<or> transition (state t) FinReceived (state (handle_fin_flag now t))"
  "tuple (handle_fin_flag now t) = tuple t"
  by (auto simp: handle_fin_flag_def transition_simps Let_def split: tcp_state.split)

lemma schedule_ack_outcome:
  "sack (fst (schedule_ack now h t)) = sack t" "state (fst (schedule_ack now h t)) = state t"
  "tuple (fst (schedule_ack now h t)) = tuple t"
  by (simp_all add: schedule_ack_def)

lemma receive_segment_outcome:
  "sack_wf (sack t) \<Longrightarrow> sack_wf (sack (fst (receive_segment now h payload t)))"
  "state (fst (receive_segment now h payload t)) = state t \<or>
   is_fin h \<and> transition (state t) FinReceived (state (fst (receive_segment now h payload t)))"
  "tuple (fst (receive_segment now h payload t)) = tuple t"
proof -
  define t2 where "t2 = (maybe_update_send_window t (sequence_number h) (ack_number h) (window_size h))
    \<lparr>last_rx_time := now, keepalive_count := 0, keepalive_deadline := None\<rparr>"
  have t2: "sack t2 = sack t" "state t2 = state t" "tuple t2 = tuple t"
    by (simp_all add: t2_def maybe_update_send_window_def)
  obtain t3 b where p: "accept_payload (sequence_number h) payload t2 = (t3, b)" by fastforce
  note a = accept_payload_outcome [where s = "sequence_number h" and payload = payload and t = t2, unfolded p fst_conv t2]
  define t4 where "t4 = (if is_fin h then (handle_fin_flag now t3)\<lparr>ack_needed := True\<rparr> else t3)"
  have t4: "sack t4 = sack t3" "state t4 = state t3 \<or> is_fin h \<and> transition (state t3) FinReceived (state t4)"
    "tuple t4 = tuple t3"
    using handle_fin_outcome [of now t3] by (simp_all add: t4_def)
  have "sack (fst (receive_segment now h payload t)) = sack t4" "state (fst (receive_segment now h payload t)) = state t4"
    "tuple (fst (receive_segment now h payload t)) = tuple t4"
    using schedule_ack_outcome [of now h t4]
    unfolding receive_segment_def Let_def t2_def [symmetric] p prod.case t4_def [symmetric]
    by (simp_all add: case_prod_beta)
  with t4 a show "sack_wf (sack t) \<Longrightarrow> sack_wf (sack (fst (receive_segment now h payload t)))"
    "state (fst (receive_segment now h payload t)) = state t \<or>
     is_fin h \<and> transition (state t) FinReceived (state (fst (receive_segment now h payload t)))"
    "tuple (fst (receive_segment now h payload t)) = tuple t"
    by simp_all
qed

lemma process_payload_outcome:
  "sack_wf (sack t) \<Longrightarrow> sack_wf (sack (fst (process_payload now h payload ok (t, acts))))"
  "state (fst (process_payload now h payload ok (t, acts))) = state t \<or>
   is_fin h \<and> transition (state t) FinReceived (state (fst (process_payload now h payload ok (t, acts))))"
  "tuple (fst (process_payload now h payload ok (t, acts))) = tuple t"
  using receive_segment_outcome [where t = t and now = now and h = h and payload = payload]
  by (auto simp: process_payload_def Let_def case_prod_beta)

section \<open>The handler\<close>

lemma and_then_sound:
  assumes "sound f" "sack_wf (sack t)"
  obtains t' ys where "and_then c f (t, xs) = Some (t', ys)" "rx_view t' = rx_view t" "sack_wf (sack t')"
proof (cases c)
  case True
  obtain t' zs where "f t = Some (t', zs)" "rx_view t' = rx_view t" "sack_wf (sack t')"
    by (rule soundE [OF assms])
  with True that show ?thesis by (simp add: and_then_def)
qed (use assms that in \<open>simp add: and_then_def\<close>)

lemma run_actions_total:
  assumes "sack_wf (sack t)"
  obtains t' xs where "run_actions now clk (t, acts) = Some (t', xs)" "rx_view t' = rx_view t"
proof -
  obtain t1 x1 where 1: "and_then (act_send_ack acts) (send_immediate_ack_unlocked now) (t, []) = Some (t1, x1)"
    "rx_view t1 = rx_view t" "sack_wf (sack t1)"
    by (rule and_then_sound [OF sound_immediate_ack assms])
  obtain t2 x2 where 2: "and_then (act_fast_retransmit acts) (fast_retransmit_front now) (t1, x1) = Some (t2, x2)"
    "rx_view t2 = rx_view t1" "sack_wf (sack t2)"
    unfolding fast_retransmit_front_def retransmit_front_unlocked_def
    by (rule and_then_sound [OF sound_retransmit 1(3)])
  obtain t3 x3 where 3: "and_then (act_partial acts \<noteq> None) (retransmit_first_partial_ack now (the (act_partial acts)))
      (t2, x2) = Some (t3, x3)" "rx_view t3 = rx_view t2" "sack_wf (sack t3)"
    unfolding retransmit_first_partial_ack_def by (rule and_then_sound [OF sound_retransmit 2(3)])
  obtain t4 x4 where 4: "and_then (act_run_send_queue acts) (process_send_queue clk 0) (t3, x3) = Some (t4, x4)"
    "rx_view t4 = rx_view t3"
    by (rule and_then_sound [OF sound_send_queue 3(3)])
  show ?thesis
    by (rule that [of t4 x4]) (use 1 2 3 4 in \<open>simp_all add: run_actions_def\<close>)
qed

lemma ack_outcome_wf: "ack_outcome t t' \<Longrightarrow> sack_wf (sack t') = sack_wf (sack t)"
  by (rule sack_wf_cong) (simp_all add: ack_outcome_def rx_view_def)

lemma process_established:
  assumes wf2: "sack_wf (sack t2)"
  shows "\<exists>t' xs es. run_actions now clk (process_payload now h payload (is_acceptable_ack t2 (ack_number h))
      (process_ack fp now h payload ts_opt bs ce t2)) = Some (t', xs) \<and>
    sack_wf (sack t') \<and> tuple t' = tuple t2 \<and> transitions (state t2) es (state t') \<and> length es \<le> 2 \<and> Reset \<notin> set es \<and>
    (FinReceived \<in> set es \<longrightarrow> is_fin h) \<and>
    (FinAcked \<in> set es \<longrightarrow> (\<exists>s\<in>set (retransmission_queue t2). seg_is_fin s))"
proof -
  obtain t3 acts where p: "process_ack fp now h payload ts_opt bs ce t2 = (t3, acts)" by fastforce
  have o3: "ack_outcome t2 t3" using process_ack_outcome p by (metis fst_conv)
  obtain t4 acts' where r: "process_payload now h payload (is_acceptable_ack t2 (ack_number h)) (t3, acts) = (t4, acts')"
    by fastforce
  note o4 = process_payload_outcome [where t = t3 and now = now and h = h and payload = payload and
      ok = "is_acceptable_ack t2 (ack_number h)" and acts = acts, unfolded r fst_conv]
  have wf4: "sack_wf (sack t4)" using o4(1) ack_outcome_wf [OF o3] wf2 by simp
  obtain t' xs where run: "run_actions now clk (t4, acts') = Some (t', xs)" "rx_view t' = rx_view t4"
    by (rule run_actions_total [OF wf4])
  have s: "state t' = state t4" using run(2) by (simp add: rx_view_def)
  have "tuple t3 = tuple t2" using o3 by (simp add: ack_outcome_def rx_view_def)
  then have tu: "tuple t' = tuple t2" using run(2) o4(3) by (simp add: rx_view_def)
  define es where "es = (if state t3 = state t2 then [] else [FinAcked]) @ (if state t4 = state t3 then [] else [FinReceived])"
  have "transitions (state t2) (if state t3 = state t2 then [] else [FinAcked]) (state t3)"
    "transitions (state t3) (if state t4 = state t3 then [] else [FinReceived]) (state t4)"
    using o3 o4(2) by (auto simp: ack_outcome_def intro: transitions.none transitions_one)
  then have "transitions (state t2) es (state t')" unfolding es_def s by (rule transitions_append)
  moreover have "FinReceived \<in> set es \<longrightarrow> is_fin h" "FinAcked \<in> set es \<longrightarrow> (\<exists>s\<in>set (retransmission_queue t2). seg_is_fin s)"
    "Reset \<notin> set es" "length es \<le> 2"
    using o3 o4(2) by (auto simp: es_def ack_outcome_def)
  ultimately show ?thesis
    using p r run wf4 sack_wf_view [OF run(2)] tu by (intro exI [of _ t'] exI [of _ xs] exI [of _ es]) simp
qed

lemma process_data_datagram_outcome:
  assumes wf: "sack_wf (sack t)"
  shows "\<exists>t' xs es. process_data_datagram fp now clk payload h options ip_ecn t = Some (t', xs) \<and>
    sack_wf (sack t') \<and> tuple t' = tuple t \<and> transitions (state t) es (state t') \<and> length es \<le> 2 \<and>
    (Reset \<in> set es \<longrightarrow> is_rst h) \<and> (FinReceived \<in> set es \<longrightarrow> is_fin h \<and> is_ack h) \<and>
    (FinAcked \<in> set es \<longrightarrow> is_ack h \<and> (\<exists>s\<in>set (retransmission_queue t). seg_is_fin s))"
proof -
  define ce where "ce = ((ip_ecn AND 3) = IP_ECN_CE)"
  define t1 where "t1 = note_cwr (get_flag h CWR) (note_ce ce t)"
  obtain t2 go where c: "check_timestamps now h (find_timestamp options) t1 = (t2, go)" by fastforce
  have "rx_view t2 = rx_view t1"
    using check_timestamps_view [of now h "find_timestamp options" t1] by (simp add: c)
  then have v2: "rx_view t2 = rx_view t" by (simp add: t1_def views)
  have "retransmission_queue t1 = retransmission_queue t" by (simp add: t1_def note_cwr_def note_ce_def)
  then have q2: "retransmission_queue t2 = retransmission_queue t"
    using check_timestamps_queue [of now h "find_timestamp options" t1] by (simp add: c)
  have wf2: "sack_wf (sack t2)" using wf sack_wf_view [OF v2] by simp
  consider (stale) "carries_nothing_new h payload t" | (rst) "\<not> carries_nothing_new h payload t" "is_rst h"
    | (drop) "\<not> carries_nothing_new h payload t" "\<not> is_rst h" "\<not> is_ack h \<or> \<not> go"
    | (go) "\<not> carries_nothing_new h payload t" "\<not> is_rst h" "is_ack h" "go" by blast
  then show ?thesis
  proof cases
    case stale
    have "sack_wf (sack (note_ce ce t))" using wf sack_wf_view [of "note_ce ce t" t] by (simp add: views)
    then obtain t' xs where "send_immediate_ack_unlocked now (note_ce ce t) = Some (t', xs)"
      "rx_view t' = rx_view (note_ce ce t)" "sack_wf (sack t')"
      by (rule soundE [OF sound_immediate_ack])
    moreover from this have "state t' = state t" "tuple t' = tuple t" by (simp_all add: views) (simp_all add: rx_view_def)
    ultimately show ?thesis
      using stale by (auto simp: process_data_datagram_def Let_def ce_def intro!: exI [of _ "[]"] transitions.none)
  next
    case rst
    then show ?thesis
      using wf by (auto simp: process_data_datagram_def Let_def intro!: exI [of _ "[Reset]"] transitions_one any_reset)
  next
    case drop
    have "state t2 = state t" "tuple t2 = tuple t" using v2 by (simp_all add: rx_view_def)
    with drop show ?thesis
      using wf wf2 c
      by (auto simp: process_data_datagram_def Let_def t1_def ce_def intro!: exI [of _ "[]"] transitions.none)
  next
    case go
    have s: "state t2 = state t" "tuple t2 = tuple t" using v2 by (simp_all add: rx_view_def)
    have "process_data_datagram fp now clk payload h options ip_ecn t =
      run_actions now clk (process_payload now h payload (is_acceptable_ack t2 (ack_number h))
        (process_ack fp now h payload (find_timestamp options) (parse_sack_blocks options) ce t2))"
      using go c by (simp add: process_data_datagram_def Let_def t1_def ce_def)
    moreover obtain t' xs es where "run_actions now clk (process_payload now h payload (is_acceptable_ack t2 (ack_number h))
        (process_ack fp now h payload (find_timestamp options) (parse_sack_blocks options) ce t2)) = Some (t', xs)"
      "sack_wf (sack t')" "tuple t' = tuple t2" "transitions (state t) es (state t')" "length es \<le> 2" "Reset \<notin> set es"
      "FinReceived \<in> set es \<longrightarrow> is_fin h" "FinAcked \<in> set es \<longrightarrow> (\<exists>s\<in>set (retransmission_queue t). seg_is_fin s)"
      using process_established [OF wf2, of now clk h payload fp "find_timestamp options" "parse_sack_blocks options" ce]
      unfolding s(1) q2 by blast
    ultimately show ?thesis using go(3) s(2) by (intro exI [of _ t'] exI [of _ xs] exI [of _ es]) simp
  qed
qed



end
