(* ===== verification/Tcp_Timer.thy ===== *)
theory Tcp_Timer
  imports Tcp_Input
begin

text \<open>
  The timer thread, \<^verbatim>\<open>driver/timer.rs\<close>: the retransmission timeout with its congestion response, keepalive,
  the persist timer, delayed acknowledgments, pacing release, TIME-WAIT expiry and tail loss probes.
  \<open>timer_tick\<close> is what the thread does with one control block in one pass.
\<close>

section \<open>Operations\<close>

definition rto_congestion :: "instant \<Rightarrow> u32 \<Rightarrow> tcp_control_block \<Rightarrow> tcp_control_block" where
  "rto_congestion now flight t =
     (let smss = max (effective_mss t) 1
      in case congestion_control t of
           Cubic cubic \<Rightarrow>
             let ss = max (beta_cut flight (cubic_beta cubic)) (2 * smss)
             in t\<lparr>ssthresh := ss, cwnd := smss, cwv := (cwv t)\<lparr>cwv_cwnd_raw := smss\<rparr>,
                  congestion_control := Cubic (cubic\<lparr>cubic_epoch_start := now, cubic_k_ns := 0, cubic_w_max := ss,
                    cubic_last_max_cwnd := ss, cubic_recover := 0\<rparr>)\<rparr>
         | Reno reno \<Rightarrow>
             t\<lparr>ssthresh := max (flight div 2) (2 * smss), cwnd := smss,
               cwv := (cwv t)\<lparr>cwv_cwnd_raw := smss\<rparr>, congestion_control := Reno (reno\<lparr>reno_recover := 0\<rparr>)\<rparr>)"

text \<open>The detector for a spurious timeout: Eifel with timestamps, F-RTO without, and neither after a
  nested timeout.\<close>

definition arm_spurious_detector :: "u32 \<Rightarrow> bool \<Rightarrow> tcp_control_block \<Rightarrow> tcp_control_block" where
  "arm_spurious_detector rto_retrans_end nested t =
     (if ts_enabled (ts t) then eifel_on_rto_before_md t
      else if \<not> nested then frto_on_rto t rto_retrans_end
      else eifel_clear_pending t)"

definition rto_backoff :: "duration \<Rightarrow> duration" where
  "rto_backoff d = min (from_nanos (saturating_mul (as_nanos d) 2)) (from_secs 60)"

definition rto_response :: "instant \<Rightarrow> unacked_segment \<Rightarrow> tcp_control_block \<Rightarrow> tcp_control_block" where
  "rto_response now seg t =
     (let flight = flight_size_bytes t;
          nested = (\<not> ts_enabled (ts t) \<and> frto_ph (frto t) \<noteq> Idle);
          t1 = (if nested then frto_declare_loss t else t);
          t2 = update_segment 0 (\<lambda>s. s\<lparr>seg_send_time := now, seg_retries := seg_retries s + 1\<rparr>) t1;
          t3 = t2\<lparr>in_fast_recovery := False, duplicate_ack_count := 0\<rparr>;
          t4 = arm_spurious_detector (end_seq seg) nested t3;
          t5 = rto_congestion now flight t4;
          t6 = t5\<lparr>abc := clear_accumulators (abc t5), rto := rto_backoff (rto t5)\<rparr>
      in case rtt_probe (rtt_m t6) of
           Some p \<Rightarrow> if probe_seq p = seg_seq seg then t6\<lparr>rtt_m := (rtt_m t6)\<lparr>rtt_probe := None\<rparr>\<rparr> else t6
         | None \<Rightarrow> t6)"

definition tick_retransmission_timer :: "instant \<Rightarrow> tcp_control_block \<Rightarrow> tcp_control_block \<times> bool" where
  "tick_retransmission_timer now t =
     (if state t = Closed then (t, False)
      else case retransmission_queue t of
        [] \<Rightarrow> (t, False)
      | seg # _ \<Rightarrow>
          if instant_diff now (seg_send_time seg) < rto t then (t, False)
          else if seg_retries seg \<ge> 5
          then (t\<lparr>state := Closed, last_error := Some Timeout, event := event t + 1\<rparr>, False)
          else (rto_response now seg t, True))"

definition KEEPALIVE_IDLE :: duration where "KEEPALIVE_IDLE = from_secs 30"
definition KEEPALIVE_INTERVAL :: duration where "KEEPALIVE_INTERVAL = from_secs 5"
definition KEEPALIVE_MAX_PROBES :: u32 where "KEEPALIVE_MAX_PROBES = 3"

definition tick_keepalive_timer :: "instant \<Rightarrow> tcp_control_block \<Rightarrow> tcp_control_block \<times> bool" where
  "tick_keepalive_timer now t =
     (if state t \<noteq> Established then (t\<lparr>keepalive_deadline := None\<rparr>, False)
      else let t1 = (if keepalive_deadline t = None \<and> instant_diff now (last_rx_time t) \<ge> KEEPALIVE_IDLE
                     then t\<lparr>keepalive_deadline := Some now\<rparr> else t)
           in case keepalive_deadline t1 of
                None \<Rightarrow> (t1, False)
              | Some deadline \<Rightarrow>
                  if now < deadline then (t1, False)
                  else if keepalive_count t1 \<ge> KEEPALIVE_MAX_PROBES
                  then (t1\<lparr>state := Closed, last_error := Some Timeout, event := event t1 + 1,
                           keepalive_deadline := None\<rparr>, False)
                  else (t1\<lparr>keepalive_count := keepalive_count t1 + 1,
                           keepalive_deadline := Some (instant_add now KEEPALIVE_INTERVAL)\<rparr>, True))"

definition send_keepalive_probe_unlocked ::
  "instant \<Rightarrow> tcp_control_block \<Rightarrow> (tcp_control_block \<times> tx_segment list) option" where
  "send_keepalive_probe_unlocked now t =
     net_send_from_tcb now t (set_sequence_number (set_flag (header_new t) ACK True) (snd_una t - 1)) []"

definition send_window_probe_unlocked ::
  "instant \<Rightarrow> tcp_control_block \<Rightarrow> (tcp_control_block \<times> tx_segment list) option" where
  "send_window_probe_unlocked now t =
     (case send_buffer t of
        [] \<Rightarrow> Some (t, [])
      | b # _ \<Rightarrow>
          net_send_from_tcb now t
            (set_sequence_number (set_acknowledgement_number (set_flag (header_new t) ACK True) (rcv_nxt t)) (snd_nxt t))
            [b])"

text \<open>The checks of one pass, on the locked control block, and what they ask for afterwards.\<close>

record timer_actions =
  do_retransmit :: bool
  do_tlp :: bool
  do_window_probe :: bool
  do_keepalive :: bool
  do_delayed_ack :: bool
  do_pacing_release :: bool

definition due :: "instant \<Rightarrow> instant option \<Rightarrow> bool" where
  "due now d = (case d of None \<Rightarrow> False | Some deadline \<Rightarrow> now \<ge> deadline)"

definition tick_persist_timer :: "instant \<Rightarrow> tcp_control_block \<Rightarrow> tcp_control_block \<times> bool" where
  "tick_persist_timer now t =
     (if due now (persist_timer t)
      then let b = rto_backoff (persist_backoff t)
           in (t\<lparr>persist_backoff := b, persist_timer := Some (instant_add now b)\<rparr>, send_buffer t \<noteq> [])
      else (t, False))"

definition timer_checks :: "instant \<Rightarrow> tcp_control_block \<Rightarrow> tcp_control_block \<times> timer_actions" where
  "timer_checks now t =
     (let (t1, retransmit) = tick_retransmission_timer now t;
          tlp = (\<not> retransmit \<and> due now (tlp_deadline (sack t1)));
          t2 = (if tlp then t1\<lparr>sack := (sack t1)\<lparr>tlp_deadline := None\<rparr>\<rparr> else t1);
          (t3, probe) = tick_persist_timer now t2;
          (t4, keepalive) = tick_keepalive_timer now t3;
          delayed = due now (ack_deadline t4);
          t5 = (if delayed then t4\<lparr>ack_deadline := None, ack_needed := False, unacked_segments := 0\<rparr> else t4);
          release = (pacing_enabled (pacing t5) \<and> send_buffer t5 \<noteq> [] \<and>
                     (case pacing_next_tx (pacing t5) of None \<Rightarrow> True | Some d \<Rightarrow> now \<ge> d));
          t6 = (if state t5 = TimeWait \<and> due now (timewait_deadline t5)
                then t5\<lparr>state := Closed, event := event t5 + 1\<rparr> else t5)
      in (t6, \<lparr>do_retransmit = retransmit, do_tlp = tlp, do_window_probe = probe, do_keepalive = keepalive,
               do_delayed_ack = delayed, do_pacing_release = release\<rparr>))"

definition timer_sends ::
  "instant \<Rightarrow> (nat \<Rightarrow> instant) \<Rightarrow> (nat \<Rightarrow> instant) \<Rightarrow> timer_actions \<Rightarrow> tcp_control_block \<Rightarrow>
   (tcp_control_block \<times> tx_segment list) option" where
  "timer_sends now clk clk' a t =
     do { r1 \<leftarrow> and_then (do_delayed_ack a) (send_immediate_ack_unlocked now) (t, []);
          r2 \<leftarrow> and_then (do_retransmit a) (retransmit_front_unlocked now Rto) r1;
          r3 \<leftarrow> and_then (do_tlp a) (tlp_send_probe_unlocked now clk) r2;
          r4 \<leftarrow> and_then (do_window_probe a) (send_window_probe_unlocked now) r3;
          r5 \<leftarrow> and_then (do_keepalive a) (send_keepalive_probe_unlocked now) r4;
          and_then (do_pacing_release a) (process_send_queue clk' 0) r5 }"

text \<open>One pass over one control block. The flag says that its table entry is to be removed.\<close>

definition timer_tick ::
  "instant \<Rightarrow> (nat \<Rightarrow> instant) \<Rightarrow> (nat \<Rightarrow> instant) \<Rightarrow> tcp_control_block \<Rightarrow>
   (tcp_control_block \<times> tx_segment list \<times> bool) option" where
  "timer_tick now clk clk' t =
     (if state t = Closed then Some (t, [], True)
      else let (t1, a) = timer_checks now t
           in map_option (\<lambda>(t2, xs). (t2, xs, state t1 = Closed)) (timer_sends now clk clk' a t1))"

section \<open>A pass returns\<close>

lemma sound_cases:
  assumes "sound f" "sound g"
  shows "sound (\<lambda>t. if c t then f t else g t)"
  using assms by (simp add: sound_def)

lemma sound_skip: "sound (\<lambda>t. Some (t, []))"
  by (simp add: sound_def)

lemma sound_comp:
  assumes "sound f" "\<And>t. rx_view (g t) = rx_view t"
  shows "sound (\<lambda>t. f (g t))"
  using assms(1) sack_wf_view [OF assms(2)] by (fastforce simp: sound_def assms(2))

lemma sound_keepalive: "sound (send_keepalive_probe_unlocked now)"
  unfolding send_keepalive_probe_unlocked_def by (rule sound_net_send)

lemma sound_window_probe: "sound (send_window_probe_unlocked now)"
proof -
  have "send_window_probe_unlocked now = (\<lambda>t. if send_buffer t = [] then Some (t, []) else
      net_send_from_tcb now t (set_sequence_number (set_acknowledgement_number (set_flag (header_new t) ACK True)
        (rcv_nxt t)) (snd_nxt t)) [hd (send_buffer t)])"
    by (rule ext) (simp add: send_window_probe_unlocked_def split: list.split)
  moreover have "sound (\<lambda>t. net_send_from_tcb now t (h t) [hd (send_buffer t)])" for h
  proof (rule soundI)
    fix t :: tcp_control_block
    assume "sack_wf (sack t)"
    then show "\<exists>t' xs. net_send_from_tcb now t (h t) [hd (send_buffer t)] = Some (t', xs) \<and> rx_view t' = rx_view t"
      using soundE [OF sound_net_send [of now h "[hd (send_buffer t)]"]] by metis
  qed
  ultimately show ?thesis by (simp add: sound_cases sound_skip)
qed

lemma note_tlp_probe_view [views]: "rx_view (note_tlp_probe b t) = rx_view t"
  by (simp add: note_tlp_probe_def rx_view_def)

lemma tlp_resend_total:
  assumes "sack_wf (sack t)" "retransmission_queue t \<noteq> []"
  shows "\<exists>t' xs. do { (t1, opts, _) \<leftarrow> established_outgoing_options now t;
      let t2 = update_segment (length (retransmission_queue t) - 1) f t1
      in resend_segment (length (retransmission_queue t) - 1) opts (note_tlp_probe True t2) } = Some (t', xs) \<and>
    rx_view t' = rx_view t"
proof -
  let ?i = "length (retransmission_queue t) - 1"
  obtain a n opts tsval where
    o: "established_outgoing_options now t = Some (t\<lparr>ts := a, sack := (sack t)\<lparr>sack_blocks_tx := n\<rparr>\<rparr>, opts, tsval)"
    (is "_ = Some (?t1, _)")
    by (rule established_options_total [OF assms(1)])
  define t3 where "t3 = note_tlp_probe True (update_segment ?i f ?t1)"
  have "rx_view ?t1 = rx_view t" by (simp add: rx_view_def)
  then have v: "rx_view t3 = rx_view t" by (simp add: t3_def views update_segment_views)
  have "?i < length (retransmission_queue t3)"
    using assms(2) update_segment_views(3) [of ?i f ?t1] by (simp add: t3_def note_tlp_probe_def)
  then obtain t' x where "resend_segment ?i opts t3 = Some (t', [x])" "rx_view t' = rx_view t3"
    by (rule resend_segment_total)
  with v show ?thesis by (simp add: o t3_def)
qed

lemma sound_tlp: "sound (tlp_send_probe_unlocked now clk)"
proof (rule soundI)
  fix t :: tcp_control_block
  assume wf: "sack_wf (sack t)"
  then have "sack_wf (sack (note_tlp_probe False t))"
    using sack_wf_view [of "note_tlp_probe False t" t] by (simp add: views)
  then obtain t' xs where "process_send_queue clk 0 (note_tlp_probe False t) = Some (t', xs)"
    "rx_view t' = rx_view (note_tlp_probe False t)"
    by (rule soundE [OF sound_send_queue])
  then show "\<exists>t' xs. tlp_send_probe_unlocked now clk t = Some (t', xs) \<and> rx_view t' = rx_view t"
    using tlp_resend_total [OF wf, of now] by (auto simp: tlp_send_probe_unlocked_def views Let_def)
qed

lemma timer_sends_total:
  assumes "sack_wf (sack t)"
  obtains t' xs where "timer_sends now clk clk' a t = Some (t', xs)" "rx_view t' = rx_view t" "sack_wf (sack t')"
proof -
  obtain t1 x1 where 1: "and_then (do_delayed_ack a) (send_immediate_ack_unlocked now) (t, []) = Some (t1, x1)"
    "rx_view t1 = rx_view t" "sack_wf (sack t1)" by (rule and_then_sound [OF sound_immediate_ack assms])
  obtain t2 x2 where 2: "and_then (do_retransmit a) (retransmit_front_unlocked now Rto) (t1, x1) = Some (t2, x2)"
    "rx_view t2 = rx_view t1" "sack_wf (sack t2)"
    unfolding retransmit_front_unlocked_def by (rule and_then_sound [OF sound_retransmit 1(3)])
  obtain t3 x3 where 3: "and_then (do_tlp a) (tlp_send_probe_unlocked now clk) (t2, x2) = Some (t3, x3)"
    "rx_view t3 = rx_view t2" "sack_wf (sack t3)" by (rule and_then_sound [OF sound_tlp 2(3)])
  obtain t4 x4 where 4: "and_then (do_window_probe a) (send_window_probe_unlocked now) (t3, x3) = Some (t4, x4)"
    "rx_view t4 = rx_view t3" "sack_wf (sack t4)" by (rule and_then_sound [OF sound_window_probe 3(3)])
  obtain t5 x5 where 5: "and_then (do_keepalive a) (send_keepalive_probe_unlocked now) (t4, x4) = Some (t5, x5)"
    "rx_view t5 = rx_view t4" "sack_wf (sack t5)" by (rule and_then_sound [OF sound_keepalive 4(3)])
  obtain t6 x6 where 6: "and_then (do_pacing_release a) (process_send_queue clk' 0) (t5, x5) = Some (t6, x6)"
    "rx_view t6 = rx_view t5" "sack_wf (sack t6)" by (rule and_then_sound [OF sound_send_queue 5(3)])
  show ?thesis
    by (rule that [of t6 x6]) (use 1 2 3 4 5 6 in \<open>simp_all add: timer_sends_def\<close>)
qed

lemma rto_congestion_views [views]:
  "rx_view (rto_congestion now fl t) = rx_view t" "tx_view (rto_congestion now fl t) = tx_view t"
  by (simp_all add: rto_congestion_def rx_view_def tx_view_def Let_def split: congestion_control.split)

lemma arm_spurious_views [views]:
  "rx_view (arm_spurious_detector e b t) = rx_view t" "tx_view (arm_spurious_detector e b t) = tx_view t"
  by (simp_all add: arm_spurious_detector_def eifel_on_rto_before_md_def frto_on_rto_def eifel_clear_pending_def
      rx_view_def tx_view_def)

lemma rto_response_views [views]:
  "rx_view (rto_response now seg t) = rx_view t" "tx_view (rto_response now seg t) = tx_view t"
proof -
  have "rx_view (frto_declare_loss u) = rx_view u" "tx_view (frto_declare_loss u) = tx_view u" for u
    by (simp_all add: frto_declare_loss_def views)
  then show "rx_view (rto_response now seg t) = rx_view t" "tx_view (rto_response now seg t) = tx_view t"
    by (simp_all add: rto_response_def Let_def views update_segment_views seg_core_def split: option.split)
qed

text \<open>What a check may do to the receive side: close the connection, nothing else.\<close>

definition may_close :: "tcp_control_block \<Rightarrow> tcp_control_block \<Rightarrow> bool" where
  "may_close t t' \<longleftrightarrow> snd (rx_view t') = snd (rx_view t) \<and> state t' \<in> {state t, Closed}"

lemma may_closeI: "rx_view t' = rx_view t \<Longrightarrow> may_close t t'"
  by (simp add: may_close_def rx_view_def)

lemma may_close_trans: "may_close t t' \<Longrightarrow> may_close t' t'' \<Longrightarrow> may_close t t''"
  by (auto simp: may_close_def)

lemma may_close_wf: "may_close t t' \<Longrightarrow> sack_wf (sack t') = sack_wf (sack t)"
  by (rule sack_wf_cong) (simp_all add: may_close_def rx_view_def)

lemma tick_retransmission_may_close: "may_close t (fst (tick_retransmission_timer now t))"
proof -
  have "may_close t (t\<lparr>state := Closed, last_error := e, event := n\<rparr>)" for e n by (simp add: may_close_def rx_view_def)
  then show ?thesis
    by (auto simp: tick_retransmission_timer_def intro: may_closeI views split: list.split)
qed

lemma tick_keepalive_may_close: "may_close t (fst (tick_keepalive_timer now t))"
  by (auto simp: tick_keepalive_timer_def may_close_def rx_view_def Let_def split: option.split)

lemma tick_persist_may_close: "may_close t (fst (tick_persist_timer now t))"
  by (auto simp: tick_persist_timer_def Let_def rx_view_def intro: may_closeI)

lemma timer_checks_may_close: "may_close t (fst (timer_checks now t))"
proof -
  obtain t1 r where 1: "tick_retransmission_timer now t = (t1, r)" by fastforce
  define t2 where "t2 = (if \<not> r \<and> due now (tlp_deadline (sack t1)) then t1\<lparr>sack := (sack t1)\<lparr>tlp_deadline := None\<rparr>\<rparr> else t1)"
  obtain t3 p where 3: "tick_persist_timer now t2 = (t3, p)" by fastforce
  obtain t4 k where 4: "tick_keepalive_timer now t3 = (t4, k)" by fastforce
  define t5 where "t5 = (if due now (ack_deadline t4)
    then t4\<lparr>ack_deadline := None, ack_needed := False, unacked_segments := 0\<rparr> else t4)"
  define t6 where "t6 = (if state t5 = TimeWait \<and> due now (timewait_deadline t5)
    then t5\<lparr>state := Closed, event := event t5 + 1\<rparr> else t5)"
  have "may_close t t1" using tick_retransmission_may_close [of t now] by (simp add: 1)
  moreover have "may_close t1 t2" by (rule may_closeI) (simp add: t2_def rx_view_def)
  moreover have "may_close t2 t3" using tick_persist_may_close [of t2 now] by (simp add: 3)
  moreover have "may_close t3 t4" using tick_keepalive_may_close [of t3 now] by (simp add: 4)
  moreover have "may_close t4 t5" by (rule may_closeI) (simp add: t5_def rx_view_def)
  moreover have "may_close t5 t6" by (simp add: t6_def may_close_def rx_view_def)
  ultimately have "may_close t t6" using may_close_trans by meson
  moreover have "fst (timer_checks now t) = t6"
    unfolding timer_checks_def 1 prod.case Let_def t2_def [symmetric] 3 4 t5_def [symmetric] t6_def [symmetric] by simp
  ultimately show ?thesis by simp
qed

lemma timer_tick_total:
  assumes "sack_wf (sack t)"
  obtains t' xs rm where "timer_tick now clk clk' t = Some (t', xs, rm)" "may_close t t'" "sack_wf (sack t')"
    "rm = (state t' = Closed)"
proof (cases "state t = Closed")
  case True
  then show ?thesis using that assms by (simp add: timer_tick_def may_close_def)
next
  case False
  obtain t1 a where c: "timer_checks now t = (t1, a)" by fastforce
  have m: "may_close t t1" using timer_checks_may_close [of t now] by (simp add: c)
  then have "sack_wf (sack t1)" using assms may_close_wf by simp
  then obtain t2 xs where s: "timer_sends now clk clk' a t1 = Some (t2, xs)" "rx_view t2 = rx_view t1" "sack_wf (sack t2)"
    by (rule timer_sends_total)
  have "may_close t t2" using may_close_trans [OF m may_closeI [OF s(2)]] .
  moreover have "state t2 = state t1" using s(2) by (simp add: rx_view_def)
  ultimately show ?thesis using that False c s by (simp add: timer_tick_def)
qed

section \<open>Retransmission gives up\<close>

text \<open>The timer run at a sequence of instants, with nothing received in between: the control block and
  the number of retransmissions asked for.\<close>

fun rto_run :: "instant list \<Rightarrow> tcp_control_block \<Rightarrow> tcp_control_block \<times> nat" where
  "rto_run [] t = (t, 0)"
| "rto_run (now # nows) t =
     (let (t1, fired) = tick_retransmission_timer now t; (t2, n) = rto_run nows t1
      in (t2, n + (if fired then 1 else 0)))"

definition head_retries :: "tcp_control_block \<Rightarrow> nat" where
  "head_retries t = (case retransmission_queue t of [] \<Rightarrow> 0 | s # _ \<Rightarrow> unat (seg_retries s))"

lemma rto_pieces:
  "retransmission_queue (rto_congestion now fl t) = retransmission_queue t" "state (rto_congestion now fl t) = state t"
  "last_error (rto_congestion now fl t) = last_error t" "rto (rto_congestion now fl t) = rto t"
  "retransmission_queue (arm_spurious_detector e b t) = retransmission_queue t" "state (arm_spurious_detector e b t) = state t"
  "last_error (arm_spurious_detector e b t) = last_error t" "rto (arm_spurious_detector e b t) = rto t"
  "retransmission_queue (frto_declare_loss t) = retransmission_queue t" "state (frto_declare_loss t) = state t"
  "last_error (frto_declare_loss t) = last_error t" "rto (frto_declare_loss t) = rto t"
  by (simp_all add: rto_congestion_def arm_spurious_detector_def eifel_on_rto_before_md_def frto_on_rto_def
      eifel_clear_pending_def frto_declare_loss_def Let_def split: congestion_control.split)

lemma rto_response_fields:
  "retransmission_queue (rto_response now seg t) =
     (case retransmission_queue t of [] \<Rightarrow> [] | s # q \<Rightarrow> s\<lparr>seg_send_time := now, seg_retries := seg_retries s + 1\<rparr> # q)"
  "state (rto_response now seg t) = state t" "last_error (rto_response now seg t) = last_error t"
  "rto (rto_response now seg t) = rto_backoff (rto t)"
  by (simp_all add: rto_response_def rto_pieces update_segment_def Let_def split: option.split list.split)

text \<open>The three outcomes of a tick.\<close>

lemma tick_cases:
  obtains (idle) "tick_retransmission_timer now t = (t, False)"
      "state t = Closed \<or> retransmission_queue t = [] \<or>
       instant_diff now (seg_send_time (hd (retransmission_queue t))) < rto t"
  | (close) "tick_retransmission_timer now t = (t\<lparr>state := Closed, last_error := Some Timeout, event := event t + 1\<rparr>, False)"
      "retransmission_queue t \<noteq> []" "head_retries t \<ge> 5"
  | (fire) "tick_retransmission_timer now t = (rto_response now (hd (retransmission_queue t)) t, True)"
      "retransmission_queue t \<noteq> []" "head_retries t < 5" "state t \<noteq> Closed"
proof (cases "state t = Closed \<or> retransmission_queue t = []")
  case True
  then show ?thesis using idle by (auto simp: tick_retransmission_timer_def)
next
  case False
  then obtain seg q where q: "retransmission_queue t = seg # q" by (auto simp: neq_Nil_conv)
  have r: "5 \<le> seg_retries seg \<longleftrightarrow> 5 \<le> head_retries t" by (simp add: head_retries_def q word_le_nat_alt)
  show ?thesis
  proof (cases "instant_diff now (seg_send_time seg) < rto t")
    case True
    then show ?thesis using idle q by (simp add: tick_retransmission_timer_def)
  next
    case late: False
    then show ?thesis
      using close fire False q r by (cases "5 \<le> seg_retries seg") (simp_all add: tick_retransmission_timer_def)
  qed
qed

lemma fire_retries:
  assumes "retransmission_queue t \<noteq> []" "head_retries t < 5"
  shows "head_retries (rto_response now seg t) = head_retries t + 1" "retransmission_queue (rto_response now seg t) \<noteq> []"
  using assms by (auto simp: head_retries_def rto_response_fields unat_add_wrap neq_Nil_conv)



end
