(* ===== verification/Tcp_Socket_Table.thy ===== *)
theory Tcp_Socket_Table
  imports Tcp_Control_Block
begin

text \<open>
  The socket table of \<^verbatim>\<open>tcp_socket.rs\<close>: handles, roles and the two port maps. An \<open>Arc\<close> to a control block is
  its index in the driver's store of control blocks. A \<open>BTreeMap\<close> is a partial function, since nothing
  here iterates over one. The gate of a listener is the flag \<^verbatim>\<open>OneshotGate\<close> holds.
\<close>

section \<open>Types\<close>

type_synonym arc = nat
type_synonym ipv4_addr = "u8 list"
type_synonym nic_id = nat
type_synonym tcp_socket_handle = u32

datatype tcp_socket_error =
  InvalidHandle | NotBound | AddrInUse | NotListening | SockNotConnected | BacklogFull | SockClosed
  | AlreadyConnected | Io tcp_error

datatype shutdown = Read | Write | Both

record listener =
  lst_ip :: ipv4_addr
  lst_port :: u16
  lst_nic :: nic_id
  lst_backlog :: nat
  lst_pending :: "arc list"
  lst_gate :: bool

datatype tcp_socket_role =
  Unbound
| Bound (bound_ip: ipv4_addr) (bound_port: u16) (bound_nic: nic_id)
| Listener listener
| Connected arc
| RoleClosed

record tcp_socket_state =
  role :: tcp_socket_role
  opts :: tcp_session_settings

record tcp_socket_table =
  sockets :: "u32 \<rightharpoonup> tcp_socket_state"
  listeners :: "u16 \<rightharpoonup> tcp_socket_handle"
  bound_ports :: "u16 \<rightharpoonup> tcp_socket_handle"
  next_handle :: u32

section \<open>Operations\<close>

definition table_new :: tcp_socket_table where
  "table_new = \<lparr>sockets = Map.empty, listeners = Map.empty, bound_ports = Map.empty, next_handle = 1\<rparr>"

definition alloc_handle :: "tcp_socket_table \<Rightarrow> tcp_socket_table \<times> tcp_socket_handle" where
  "alloc_handle tb = (tb\<lparr>next_handle := max (next_handle tb + 1) 1\<rparr>, next_handle tb)"

definition table_insert :: "tcp_socket_table \<Rightarrow> tcp_socket_state \<Rightarrow> tcp_socket_table \<times> tcp_socket_handle" where
  "table_insert tb s = (case alloc_handle tb of (tb1, h) \<Rightarrow> (tb1\<lparr>sockets := (sockets tb1)(h \<mapsto> s)\<rparr>, h))"

definition table_get :: "tcp_socket_table \<Rightarrow> tcp_socket_handle \<Rightarrow> tcp_socket_error + tcp_socket_state" where
  "table_get tb h = (case sockets tb h of None \<Rightarrow> Inl InvalidHandle | Some s \<Rightarrow> Inr s)"

definition table_remove :: "tcp_socket_table \<Rightarrow> tcp_socket_handle \<Rightarrow> tcp_socket_error + (tcp_socket_table \<times> tcp_socket_state)" where
  "table_remove tb h =
     (case sockets tb h of None \<Rightarrow> Inl InvalidHandle | Some s \<Rightarrow> Inr (tb\<lparr>sockets := (sockets tb)(h := None)\<rparr>, s))"

definition listener_for_port :: "tcp_socket_table \<Rightarrow> u16 \<Rightarrow> tcp_socket_handle option" where
  "listener_for_port tb p = listeners tb p"

definition port_in_use :: "tcp_socket_table \<Rightarrow> u16 \<Rightarrow> bool" where
  "port_in_use tb p \<longleftrightarrow> listeners tb p \<noteq> None \<or> bound_ports tb p \<noteq> None"

definition ephemeral_ports :: "u16 list" where
  "ephemeral_ports = map of_nat [49152..<65536]"

definition alloc_ephemeral_port :: "tcp_socket_table \<Rightarrow> tcp_socket_error + u16" where
  "alloc_ephemeral_port tb =
     (case find (\<lambda>p. \<not> port_in_use tb p) ephemeral_ports of None \<Rightarrow> Inl AddrInUse | Some p \<Rightarrow> Inr p)"

definition listener_opts_for_port :: "tcp_socket_table \<Rightarrow> u16 \<Rightarrow> tcp_session_settings option" where
  "listener_opts_for_port tb p =
     (case listener_for_port tb p of
        None \<Rightarrow> None
      | Some h \<Rightarrow> (case table_get tb h of Inl _ \<Rightarrow> None | Inr s \<Rightarrow> Some (opts s)))"

text \<open>Writing a role back through the handle's lock.\<close>

definition set_role :: "tcp_socket_handle \<Rightarrow> tcp_socket_role \<Rightarrow> tcp_socket_table \<Rightarrow> tcp_socket_table" where
  "set_role h r tb =
     (case sockets tb h of None \<Rightarrow> tb | Some s \<Rightarrow> tb\<lparr>sockets := (sockets tb)(h \<mapsto> s\<lparr>role := r\<rparr>)\<rparr>)"

definition enqueue_accepted_connection :: "u16 \<Rightarrow> arc \<Rightarrow> tcp_socket_table \<Rightarrow> tcp_socket_table" where
  "enqueue_accepted_connection port tcb tb =
     (case listener_for_port tb port of
        None \<Rightarrow> tb
      | Some h \<Rightarrow>
          (case sockets tb h of
             None \<Rightarrow> tb
           | Some s \<Rightarrow>
               (case role s of
                  Listener l \<Rightarrow>
                    if length (lst_pending l) \<ge> lst_backlog l then tb
                    else set_role h (Listener (l\<lparr>lst_pending := lst_pending l @ [tcb], lst_gate := True\<rparr>)) tb
                | _ \<Rightarrow> tb)))"

section \<open>Laws\<close>

lemma set_ephemeral_ports: "set ephemeral_ports = {p. 49152 \<le> unat p}"
proof -
  have "set ephemeral_ports = of_nat ` {49152..<65536}" unfolding ephemeral_ports_def set_map set_upt ..
  also have "\<dots> = {p. 49152 \<le> unat (p :: u16)}"
  proof (intro subset_antisym subsetI)
    fix p :: u16
    assume "p \<in> {p. 49152 \<le> unat p}"
    then show "p \<in> of_nat ` {49152..<65536}"
      using unsigned_less [of p, where ?'a = nat] by (intro image_eqI [of _ _ "unat p"]) simp_all
  qed (auto simp: unat_of_nat take_bit_eq_mod)
  finally show ?thesis .
qed

lemma alloc_ephemeral_port_free:
  assumes "alloc_ephemeral_port tb = Inr p"
  shows "\<not> port_in_use tb p" "49152 \<le> unat p"
proof -
  have "find (\<lambda>p. \<not> port_in_use tb p) ephemeral_ports = Some p"
    using assms by (simp add: alloc_ephemeral_port_def split: option.splits)
  then have "\<not> port_in_use tb p \<and> p \<in> set ephemeral_ports" by (auto simp: find_Some_iff)
  then show "\<not> port_in_use tb p" "49152 \<le> unat p" by (simp_all add: set_ephemeral_ports)
qed

lemma alloc_ephemeral_port_fails:
  assumes "alloc_ephemeral_port tb = Inl e"
  shows "e = AddrInUse" "49152 \<le> unat p \<Longrightarrow> port_in_use tb p"
  using assms set_ephemeral_ports by (auto simp: alloc_ephemeral_port_def find_None_iff split: option.splits)

lemma set_role_get:
  "sockets (set_role h r tb) h' =
     (if h' = h then map_option (\<lambda>s. s\<lparr>role := r\<rparr>) (sockets tb h) else sockets tb h')"
  by (simp add: set_role_def split: option.split)

lemma set_role_ports [simp]:
  "listeners (set_role h r tb) = listeners tb" "bound_ports (set_role h r tb) = bound_ports tb"
  "next_handle (set_role h r tb) = next_handle tb"
  by (simp_all add: set_role_def split: option.split)

end
