(* ===== verification/Tcp_Driver.thy ===== *)
theory Tcp_Driver
  imports Tcp_Timer Tcp_Socket_Table Net_Packet_Buffer "HOL-Library.AList"
begin

text \<open>
  The driver, \<^verbatim>\<open>driver/mod.rs\<close>, and the operations that look at its tables: the dispatch of an incoming
  segment, the passive and the active open, abort, shutdown and the timer thread's pass. The control
  blocks live in a store (\<open>tcbs\<close>) in which an \<open>Arc\<close> is an index; the connection table is an association
  list, whose order stands for the unspecified order in which a \<^verbatim>\<open>HashMap\<close> is iterated. What RdRand
  returns is an argument, as is the presence of the receiving interface and of a route.
\<close>

record tcp_driver =
  tcbs :: "tcp_control_block list"
  connections :: "(connection_tuple \<times> arc) list"
  socket_table :: tcp_socket_table

definition driver_new :: tcp_driver where
  "driver_new = \<lparr>tcbs = [], connections = [], socket_table = table_new\<rparr>"

section \<open>Operations\<close>

text \<open>A handler that works on one locked control block, run through its \<open>Arc\<close>.\<close>

definition with_tcb ::
  "arc \<Rightarrow> (tcp_control_block \<Rightarrow> (tcp_control_block \<times> tx_segment list) option) \<Rightarrow> tcp_driver \<Rightarrow>
   (tcp_driver \<times> tx_segment list) option" where
  "with_tcb i f d = map_option (\<lambda>(t, xs). (d\<lparr>tcbs := (tcbs d)[i := t]\<rparr>, xs)) (f (tcbs d ! i))"

definition abort_tcb :: "tcp_error \<Rightarrow> tcp_control_block \<Rightarrow> tcp_control_block" where
  "abort_tcb e t =
     (let t1 = eifel_clear_pending (t\<lparr>state := Closed, last_error := Some e, retransmission_queue := [],
                 rtt_m := (rtt_m t)\<lparr>rtt_probe := None\<rparr>, persist_timer := None\<rparr>)
      in t1\<lparr>frto := frto_clear (frto t1), event := event t1 + 1\<rparr>)"

definition abort_connection :: "connection_tuple \<Rightarrow> tcp_error \<Rightarrow> tcp_driver \<Rightarrow> tcp_driver" where
  "abort_connection tu e d =
     (case map_of (connections d) tu of
        None \<Rightarrow> d
      | Some i \<Rightarrow> if state (tcbs d ! i) = Closed then d else d\<lparr>tcbs := (tcbs d)[i := abort_tcb e (tcbs d ! i)]\<rparr>)"

text \<open>The options of a SYN or SYN-ACK.\<close>

definition handshake_options :: "tcp_session_settings \<Rightarrow> (u32 \<times> u32) option \<Rightarrow> u8 list option" where
  "handshake_options s tsopt =
     do { w1 \<leftarrow> push_mss options_writer_new DEFAULT_MSS;
          w2 \<leftarrow> (if set_wnd_scale_enabled s then push_window_scale w1 (set_rcv_wscale s) else Some w1);
          w3 \<leftarrow> (if set_sack_enabled s then push_sack_permitted w2 else Some w2);
          w4 \<leftarrow> (case tsopt of None \<Rightarrow> Some w3 | Some (tsval, tsecr) \<Rightarrow> push_timestamp w3 tsval tsecr);
          writer_finish w4 }"

text \<open>The control block of a passive open, as the SYN leaves it.\<close>

definition passive_tcb ::
  "instant \<Rightarrow> u32 option \<Rightarrow> u32 \<Rightarrow> connection_tuple \<Rightarrow> tcp_session_settings \<Rightarrow> tcp_datagram_header \<Rightarrow> u8 list \<Rightarrow>
   tcp_control_block" where
  "passive_tcb now rnd isn tu s h options =
     (let t0 = apply_receive_path s (tcb_new now rnd isn tu s);
          t1 = t0\<lparr>state := SynReceived, irs := sequence_number h, rcv_nxt := sequence_number h + 1\<rparr>;
          t2 = apply_peer_tcp_options now t1 options (sequence_number h);
          t3 = t2\<lparr>ecn := (ecn t2)\<lparr>ecn_enabled := set_ecn_enabled s \<and> get_flag h ECE \<and> get_flag h CWR\<rparr>\<rparr>
      in t3\<lparr>snd_wnd := scale_peer_window t3 (window_size h), snd_wl1 := sequence_number h,
            snd_wl2 := ack_number h, snd_nxt := isn + 1\<rparr>)"

definition syn_ack_header :: "tcp_control_block \<Rightarrow> tcp_datagram_header" where
  "syn_ack_header t =
     (let h = set_flag (set_flag (set_acknowledgement_number (set_sequence_number (header_new t) (iss t)) (rcv_nxt t))
                SYN True) ACK True
      in if ecn_enabled (ecn t) then set_flag h ECE True else h)"

definition process_passive_syn ::
  "instant \<Rightarrow> u32 option \<Rightarrow> u32 option \<Rightarrow> connection_tuple \<Rightarrow> tcp_datagram_header \<Rightarrow> u8 list \<Rightarrow> tcp_driver \<Rightarrow>
   (tcp_driver \<times> tx_segment list) option" where
  "process_passive_syn now rnd rdrand tu h options d =
     (case listener_opts_for_port (socket_table d) (local_port tu) of
        None \<Rightarrow> Some (d, [send_standalone_rst tu h])
      | Some s \<Rightarrow>
          do { isn \<leftarrow> rdrand;
               let t = passive_tcb now rnd isn tu s h options;
                   hdr = syn_ack_header t;
                   tsopt = (if set_timestamps_enabled s \<and> ts_enabled (ts t)
                            then Some (tcp_ts_now now (ts_offset (ts t)), ts_recent (ts t)) else None);
                   t1 = (case tsopt of None \<Rightarrow> t | Some (v, _) \<Rightarrow> t\<lparr>ts := (ts t)\<lparr>ts_last_tx_tsval := v\<rparr>\<rparr>);
                   t2 = t1\<lparr>retransmission_queue := retransmission_queue t1 @ [new_unacked now isn [] (flags hdr)]\<rparr>
               in do { ov \<leftarrow> handshake_options s tsopt;
                       Some (d\<lparr>tcbs := tcbs d @ [t2], connections := AList.update tu (length (tcbs d)) (connections d)\<rparr>,
                             [\<lparr>tx_tuple = tu, tx_header = hdr, tx_options = ov, tx_payload = [], tx_tos = 0\<rparr>]) } })"

text \<open>\<open>process_syn_received_ack\<close> with the hand-over to the listener.\<close>

definition finish_passive_open ::
  "f64_env \<Rightarrow> instant \<Rightarrow> (nat \<Rightarrow> instant) \<Rightarrow> tcp_datagram_header \<Rightarrow> u8 list \<Rightarrow> u8 list \<Rightarrow> u8 \<Rightarrow> arc \<Rightarrow> tcp_driver \<Rightarrow>
   (tcp_driver \<times> tx_segment list) option" where
  "finish_passive_open fp now clk h payload options ip_ecn i d =
     map_option (\<lambda>(t, xs, port).
         (d\<lparr>tcbs := (tcbs d)[i := t],
            socket_table := (case port of None \<Rightarrow> socket_table d
              | Some p \<Rightarrow> enqueue_accepted_connection p i (socket_table d))\<rparr>, xs))
       (process_syn_received_ack fp now clk h payload options ip_ecn (tcbs d ! i))"

definition with_tcb_outcome ::
  "arc \<Rightarrow> (tcp_control_block \<Rightarrow> (tcp_control_block \<times> tx_segment list) outcome option) \<Rightarrow> tcp_driver \<Rightarrow>
   (tcp_driver \<times> tx_segment list) outcome option" where
  "with_tcb_outcome i f d =
     map_option (map_outcome (\<lambda>(t, xs). (d\<lparr>tcbs := (tcbs d)[i := t]\<rparr>, xs))) (f (tcbs d ! i))"

definition time_wait_fin :: "instant \<Rightarrow> tcp_control_block \<Rightarrow> (tcp_control_block \<times> tx_segment list) option" where
  "time_wait_fin now t = send_immediate_ack_unlocked now (t\<lparr>timewait_deadline := Some (instant_add now (from_secs 120))\<rparr>)"

text \<open>The state dispatch of \<open>process_data\<close>, for a connection in the table.\<close>

definition dispatch_state ::
  "f64_env \<Rightarrow> instant \<Rightarrow> (nat \<Rightarrow> instant) \<Rightarrow> connection_tuple \<Rightarrow> tcp_datagram_header \<Rightarrow> u8 list \<Rightarrow> u8 list \<Rightarrow> u8 \<Rightarrow> arc \<Rightarrow>
   tcp_driver \<Rightarrow> (tcp_driver \<times> tx_segment list) outcome option" where
  "dispatch_state fp now clk tu h payload options ip_ecn i d =
     (let handle_data = map_option Finished (with_tcb i (process_data_datagram fp now clk payload h options ip_ecn) d);
          syn_ack = with_tcb_outcome i (\<lambda>t. process_syn_ack now t h options) d
      in case state (tcbs d ! i) of
           SynSent \<Rightarrow>
             if is_rst h then Some (Finished (abort_connection tu ConnectionReset d, []))
             else if is_syn h \<and> is_ack h then syn_ack
             else Some (Finished (d, []))
         | SynReceived \<Rightarrow> map_option Finished (finish_passive_open fp now clk h payload options ip_ecn i d)
         | Established \<Rightarrow> if is_syn h \<and> is_ack h then syn_ack else handle_data
         | FinWait1 \<Rightarrow> handle_data
         | FinWait2 \<Rightarrow> handle_data
         | CloseWait \<Rightarrow> handle_data
         | Closing \<Rightarrow> handle_data
         | LastAck \<Rightarrow> handle_data
         | TimeWait \<Rightarrow> if is_fin h then map_option Finished (with_tcb i (time_wait_fin now) d) else Some (Finished (d, []))
         | _ \<Rightarrow> Some (Finished (d, [])))"

definition dispatch_segment ::
  "f64_env \<Rightarrow> instant \<Rightarrow> (nat \<Rightarrow> instant) \<Rightarrow> u32 option \<Rightarrow> u32 option \<Rightarrow> connection_tuple \<Rightarrow> tcp_datagram_header \<Rightarrow>
   u8 list \<Rightarrow> u8 list \<Rightarrow> u8 \<Rightarrow> tcp_driver \<Rightarrow> (tcp_driver \<times> tx_segment list) outcome option" where
  "dispatch_segment fp now clk rnd rdrand tu h payload options ip_ecn d =
     (case map_of (connections d) tu of
        Some i \<Rightarrow> dispatch_state fp now clk tu h payload options ip_ecn i d
      | None \<Rightarrow>
          if is_rst h then Some (Finished (d, []))
          else if is_syn h \<and> \<not> is_ack h then map_option Finished (process_passive_syn now rnd rdrand tu h options d)
          else Some (Finished (d, [send_standalone_rst tu h])))"

text \<open>The checks of \<open>process_data\<close> on a frame. The checksum is computed with the checksum field cleared, and
  slicing the options panics when the data offset is below five words.\<close>

datatype parsed =
  Malformed
| BadChecksum
| ParsePanic
| Parsed tcp_datagram_header "u8 list" "u8 list"

definition parse_segment :: "ipv4_addr \<Rightarrow> ipv4_addr \<Rightarrow> u8 list \<Rightarrow> parsed" where
  "parse_segment sender_ip target_ip frame =
     (if length frame < 20 then Malformed
      else case header_read_from_prefix frame of
        None \<Rightarrow> Malformed
      | Some h \<Rightarrow>
          let hdr_len = header_len_bytes h;
              zeroed = frame[16 := 0, 17 := 0]
          in if length frame < hdr_len then Malformed
             else if calculate_tcp_checksum sender_ip target_ip (take hdr_len zeroed) (drop hdr_len zeroed) \<noteq> checksum h
             then BadChecksum
             else if hdr_len < 20 then ParsePanic
             else Parsed h (slice frame 20 hdr_len) (drop hdr_len frame))"

text \<open>\<open>process_data\<close>: \<open>Inl ()\<close> is its \<open>Err(())\<close>.\<close>

definition process_data ::
  "f64_env \<Rightarrow> instant \<Rightarrow> (nat \<Rightarrow> instant) \<Rightarrow> u32 option \<Rightarrow> u32 option \<Rightarrow> bool \<Rightarrow> ipv4_addr \<Rightarrow> ipv4_addr \<Rightarrow> packet_buffer \<Rightarrow>
   u8 \<Rightarrow> tcp_driver \<Rightarrow> (unit + (packet_buffer \<times> tcp_driver \<times> tx_segment list)) outcome option" where
  "process_data fp now clk rnd rdrand iface sender_ip target_ip buffer ip_ecn d =
     (if \<not> iface then Some (Finished (Inl ()))
      else case parse_segment sender_ip target_ip (pb_payload buffer) of
        Malformed \<Rightarrow> Some (Finished (Inl ()))
      | BadChecksum \<Rightarrow> Some (Finished (Inr (buffer, d, [])))
      | ParsePanic \<Rightarrow> None
      | Parsed h options payload \<Rightarrow>
          let tu = \<lparr>local_ip = target_ip, local_port = dest_port h, remote_ip = sender_ip, remote_port = source_port h\<rparr>
          in if map_of (connections d) tu = None \<and> is_rst h
             then Some (Finished (Inr (buffer, d, [])))
             else do { r \<leftarrow> dispatch_segment fp now clk rnd rdrand tu h payload options ip_ecn d;
                       case r of
                         Spinning (d', xs) \<Rightarrow> Some (Spinning (Inr (buffer, d', xs)))
                       | Finished (d', xs) \<Rightarrow>
                           do { b' \<leftarrow> consume_bytes buffer (length (pb_payload buffer));
                                Some (Finished (Inr (b', d', xs))) } })"

section \<open>Active open\<close>

definition driver_ephemeral_port :: "u16 option \<Rightarrow> u16" where
  "driver_ephemeral_port random_val =
     49152 + (case random_val of None \<Rightarrow> 0 | Some r \<Rightarrow> r) mod (65535 - 49152 + 1)"

definition syn_header :: "tcp_session_settings \<Rightarrow> tcp_control_block \<Rightarrow> tcp_datagram_header" where
  "syn_header s t =
     (let h = set_flag (set_acknowledgement_number (set_sequence_number (header_new t) (iss t)) 0) SYN True
      in if set_ecn_enabled s then set_flag (set_flag h ECE True) CWR True else h)"

definition active_tcb :: "instant \<Rightarrow> u32 option \<Rightarrow> u32 \<Rightarrow> connection_tuple \<Rightarrow> tcp_session_settings \<Rightarrow> tcp_control_block" where
  "active_tcb now rnd isn tu s =
     (apply_receive_path s (tcb_new now rnd isn tu s))\<lparr>state := SynSent, snd_nxt := isn + 1\<rparr>"

text \<open>\<open>connect\<close> up to its waiting loop. \<open>sent\<close> is what the send of the SYN returned.\<close>

definition connect_start ::
  "instant \<Rightarrow> u32 option \<Rightarrow> u32 option \<Rightarrow> u16 option \<Rightarrow> bool \<Rightarrow> ipv4_addr \<Rightarrow> u16 \<Rightarrow> ipv4_addr \<Rightarrow> u16 \<Rightarrow>
   tcp_session_settings \<Rightarrow> tcp_driver \<Rightarrow> (tcp_driver \<times> tx_segment list \<times> (tcp_error + connection_tuple \<times> arc)) option" where
  "connect_start now rnd rdrand random_val sent ip port rip rport settings d =
     do { isn \<leftarrow> rdrand;
          let lport = (if port = 0 then driver_ephemeral_port random_val else port);
              tu = \<lparr>local_ip = ip, local_port = lport, remote_ip = rip, remote_port = rport\<rparr>;
              s = settings\<lparr>set_receive_buffer_size := clamp_tcp_receive_buffer_bytes (set_receive_buffer_size settings)\<rparr>;
              t = active_tcb now rnd isn tu s;
              hdr = syn_header s t;
              syn_ts = tcp_ts_now now (ts_offset (ts t));
              i = length (tcbs d);
              t1 = t\<lparr>retransmission_queue := retransmission_queue t @ [new_unacked now isn [] (flags hdr)],
                     rtt_m := (rtt_m t)\<lparr>rtt_probe := Some \<lparr>probe_seq = isn, probe_end = isn + 1, probe_sent_at = now\<rparr>\<rparr>,
                     ts := (ts t)\<lparr>ts_last_tx_tsval := syn_ts\<rparr>\<rparr>;
              d1 = d\<lparr>tcbs := tcbs d @ [t1], connections := AList.update tu i (connections d)\<rparr>
          in do { ov \<leftarrow> handshake_options s (if set_timestamps_enabled s then Some (syn_ts, 0) else None);
                  Some (if sent
                        then (d1, [\<lparr>tx_tuple = tu, tx_header = hdr, tx_options = ov, tx_payload = [], tx_tos = 0\<rparr>],
                              Inr (tu, i))
                        else (d1\<lparr>connections := AList.delete tu (connections d1)\<rparr>, [], Inl NoRoute)) } }"

text \<open>One turn of the waiting loop: \<open>None\<close> when it goes on.\<close>

definition connect_poll ::
  "instant \<Rightarrow> instant \<Rightarrow> connection_tuple \<Rightarrow> arc \<Rightarrow> tcp_driver \<Rightarrow> tcp_driver \<times> (tcp_error + arc) option" where
  "connect_poll now deadline tu i d =
     (let t = tcbs d ! i; d1 = d\<lparr>connections := AList.delete tu (connections d)\<rparr>
      in if state t = Established then (d, Some (Inr i))
         else if state t = Closed
         then (d1, Some (Inl (case last_error t of None \<Rightarrow> ConnectionRefused | Some e \<Rightarrow> e)))
         else if now \<ge> deadline then (d1, Some (Inl Timeout))
         else (d, None))"

section \<open>Passes over all connections\<close>

definition terminate_tcb :: "tcp_control_block \<Rightarrow> tcp_control_block \<times> tx_segment list" where
  "terminate_tcb t =
     (if state t = Closed then (t, [])
      else (t\<lparr>state := Closed, event := event t + 1\<rparr>,
            [net_send_tcp_datagram (tuple t) (set_flag (set_flag (header_new t) RST True) ACK True) []]))"

fun terminate_arcs :: "arc list \<Rightarrow> tcp_driver \<Rightarrow> tcp_driver \<times> tx_segment list" where
  "terminate_arcs [] d = (d, [])"
| "terminate_arcs (i # is) d =
     (let (t, xs) = terminate_tcb (tcbs d ! i); (d', ys) = terminate_arcs is (d\<lparr>tcbs := (tcbs d)[i := t]\<rparr>)
      in (d', xs @ ys))"

definition terminate_all_connections :: "tcp_driver \<Rightarrow> tcp_driver \<times> tx_segment list" where
  "terminate_all_connections d = terminate_arcs (map snd (connections d)) d"

text \<open>One round of the timer thread. \<open>busy i\<close> says that another thread holds control block \<open>i\<close>, \<open>free\<close> that
  the connection table can be locked for the removals.\<close>

fun timer_arcs ::
  "(arc \<Rightarrow> bool) \<Rightarrow> instant \<Rightarrow> (arc \<Rightarrow> nat \<Rightarrow> instant) \<Rightarrow> arc list \<Rightarrow> tcp_driver \<Rightarrow>
   (tcp_driver \<times> tx_segment list \<times> connection_tuple list) option" where
  "timer_arcs busy now clk [] d = Some (d, [], [])"
| "timer_arcs busy now clk (i # is) d =
     (if busy i then timer_arcs busy now clk is d
      else do { (t, xs, rm) \<leftarrow> timer_tick now (clk i) (clk i) (tcbs d ! i);
                (d', ys, rms) \<leftarrow> timer_arcs busy now clk is (d\<lparr>tcbs := (tcbs d)[i := t]\<rparr>);
                Some (d', xs @ ys, (if rm then tuple t # rms else rms)) })"

definition timer_pass ::
  "(arc \<Rightarrow> bool) \<Rightarrow> bool \<Rightarrow> instant \<Rightarrow> (arc \<Rightarrow> nat \<Rightarrow> instant) \<Rightarrow> tcp_driver \<Rightarrow> (tcp_driver \<times> tx_segment list) option" where
  "timer_pass busy free now clk d =
     do { (d', xs, rms) \<leftarrow> timer_arcs busy now clk (map snd (connections d)) d;
          Some (if free then d'\<lparr>connections := fold AList.delete rms (connections d')\<rparr> else d', xs) }"

end
