(* ===== verification/Tcp_Stream.thy ===== *)
theory Tcp_Stream
  imports Tcp_Input Tcp_Reassembly
begin

text \<open>
  The receive path delivers the peer's byte stream. The ring and scoreboard steps of
  \<open>Tcp_Reassembly\<close> are put together along \<open>process_data_datagram\<close> and the application's reads: whatever
  the order in which the segments of a peer that keeps to the window arrive, the bytes read are a
  prefix of its stream.
\<close>

section \<open>The window promises only room that exists\<close>

definition wnd_ok :: "tcp_control_block \<Rightarrow> bool" where
  "wnd_ok t \<longleftrightarrow> unat (rcv_wnd t) \<le> rb_capacity (receive_buffer t) - rb_occupied (receive_buffer t)"

lemma unat_of_nat_le: "unat (of_nat n :: u32) \<le> n"
  by (simp add: unat_of_nat take_bit_eq_mod)

lemma update_rcv_wnd_ok:
  assumes "rb_inv (receive_buffer t)"
  shows "wnd_ok (update_rcv_wnd_from_buffer t)"
proof -
  have "unat (ucast w :: u16) \<le> unat w" for w :: u32
    by (simp add: unsigned_ucast_eq take_bit_eq_mod)
  from this [of "min (effective_rcv_wnd t) 0xFFFF"]
  have "unat (rcv_wnd (update_rcv_wnd_from_buffer t)) \<le> unat (min (effective_rcv_wnd t) 0xFFFF)"
    unfolding update_rcv_wnd_from_buffer_def by simp
  also have "\<dots> \<le> unat (effective_rcv_wnd t)" unfolding unat_min_word_eq by simp
  also have "\<dots> \<le> rb_free_space (receive_buffer t)"
    using unat_of_nat_le [of "min (rb_free_space (receive_buffer t)) (unat (max_rcv_wnd t))"]
    by (simp add: effective_rcv_wnd_def)
  finally show ?thesis using assms by (simp add: wnd_ok_def rb_free_space_inv update_rcv_wnd_from_buffer_def)
qed

section \<open>One segment\<close>

text \<open>A peer that keeps to the window: the payload is the stream's bytes at its place, it ends within
  the advertised window, and data in sequence does not run into a range received earlier. Segments
  before \<open>RCV.NXT\<close> may carry anything.\<close>

definition honest :: "(nat \<Rightarrow> u8) \<Rightarrow> nat \<Rightarrow> tcp_control_block \<Rightarrow> tcp_datagram_header \<Rightarrow> u8 list \<Rightarrow> bool" where
  "honest S p t h payload \<longleftrightarrow> \<not> is_fin h \<and>
     (payload \<noteq> [] \<and> seq_diff (sequence_number h) (rcv_nxt t) \<ge> 0 \<longrightarrow>
        (let off = unat (sequence_number h - rcv_nxt t)
         in payload = map S [p + off..<p + off + length payload] \<and>
            off + length payload \<le> unat (rcv_wnd t) \<and>
            (off = 0 \<longrightarrow> (\<forall>b\<in>set (rx_live (sack t)). length payload \<le> lo (rcv_nxt t) b))))"

lemma rx_stream_view:
  assumes "receive_buffer t' = receive_buffer t" "rcv_nxt t' = rcv_nxt t" "sack_rx_ranges (sack t') = sack_rx_ranges (sack t)"
    "sack_rx_range_len (sack t') = sack_rx_range_len (sack t)" "sack_rx_recent (sack t') = sack_rx_recent (sack t)"
  shows "rx_stream S p t' = rx_stream S p t"
  using assms by (simp add: rx_stream_def rx_ok_def rx_set_def rx_live_def)

lemma rx_stream_update_wnd [simp]:
  "rx_stream S p (update_rcv_wnd_from_buffer t) = rx_stream S p t"
  "rcv_nxt (update_rcv_wnd_from_buffer t) = rcv_nxt t"
  "receive_buffer (update_rcv_wnd_from_buffer t) = receive_buffer t"
  by (rule rx_stream_view) (simp_all add: update_rcv_wnd_from_buffer_def)

lemma rb_write_in_window:
  assumes "rb_inv b" "buf \<noteq> []" "length buf \<le> rb_capacity b - rb_occupied b"
  shows "rb_write b buf = rb_write_at b r r buf"
proof -
  have "length buf = min (length buf) (rb_capacity b - rb_occupied b)" "length buf \<noteq> 0"
    "rb_size b + length buf \<le> rb_capacity b"
    using assms by (auto simp: rb_inv_def)
  then show ?thesis
    using rb_write_eq [OF assms(1), of "length buf" buf] rb_write_at_inorder_eq [OF assms(1,2)] by simp
qed

text \<open>The effect of a segment on the stream: \<open>p\<close> bytes were received before it and \<open>p'\<close>, at least \<open>m\<close>
  more, after it.\<close>

definition receives :: "nat \<Rightarrow> (nat \<Rightarrow> u8) \<Rightarrow> nat \<Rightarrow> tcp_control_block \<Rightarrow> tcp_control_block \<Rightarrow> bool" where
  "receives m S p t t' \<longleftrightarrow> wnd_ok t' \<and>
     (\<exists>p'. p + m \<le> p' \<and> rx_stream S p' t' \<and> rcv_nxt t' = rcv_nxt t + of_nat (p' - p) \<and>
       rb_size (receive_buffer t') = rb_size (receive_buffer t) + (p' - p))"

lemma receives_same:
  assumes "rx_stream S p t" "wnd_ok t" "snd (rx_view t') = snd (rx_view t)"
  shows "receives 0 S p t t'"
proof -
  have "rx_stream S p t' = rx_stream S p t" using assms(3) by (intro rx_stream_view) (simp_all add: rx_view_def)
  then show ?thesis
    using assms unfolding receives_def by (intro conjI exI [of _ p]) (simp_all add: rx_view_def wnd_ok_def)
qed

lemma receives_mono: "receives m S p t t' \<Longrightarrow> m' \<le> m \<Longrightarrow> receives m' S p t t'"
  unfolding receives_def by (meson add_le_cancel_left order_trans)

lemma receives_then_same:
  assumes "receives m S p t t'" "snd (rx_view t'') = snd (rx_view t')"
  shows "receives m S p t t''"
proof -
  have "rx_stream S q t'' = rx_stream S q t'" for q
    using assms(2) by (intro rx_stream_view) (simp_all add: rx_view_def)
  then show ?thesis using assms by (auto simp: receives_def rx_view_def wnd_ok_def)
qed

lemma receives_from_same:
  assumes "snd (rx_view t') = snd (rx_view t)" "receives m S p t' t''"
  shows "receives m S p t t''"
  using assms by (simp add: receives_def rx_view_def)

lemma rx_stream_inv: "rx_stream S p t \<Longrightarrow> rb_inv (receive_buffer t)"
  by (simp add: rx_stream_def)

lemma accept_in_order_receives:
  assumes st: "rx_stream S p t" "wnd_ok t" and data: "payload \<noteq> []" "payload = map S [p..<p + length payload]"
    and wnd: "length payload \<le> unat (rcv_wnd t)"
    and gap: "\<forall>b\<in>set (rx_live (sack t)). length payload \<le> lo (rcv_nxt t) b"
  shows "receives (length payload) S p t (fst (accept_in_order (rcv_nxt t) payload t))"
proof -
  let ?n = "length payload" and ?rb = "receive_buffer t"
  have inv: "rb_inv ?rb" using st(1) by (rule rx_stream_inv)
  have free: "?n \<le> rb_capacity ?rb - rb_occupied ?rb" using st(2) wnd by (simp add: wnd_ok_def)
  then have room: "rb_size ?rb + ?n \<le> rb_capacity ?rb" using inv data(1) by (auto simp: rb_inv_def)
  define rb where "rb = fst (rb_write_at ?rb (rcv_nxt t) (rcv_nxt t) payload)"
  have wr: "(if sack_enabled (sack t) then rb_write_at ?rb (rcv_nxt t) (rcv_nxt t) payload
      else rb_write ?rb payload) = (rb, ?n)"
    using rb_write_in_window [OF inv data(1) free] rb_write_at_inorder_eq [OF inv data(1) room] by (simp add: rb_def)
  define t2 where "t2 = t\<lparr>receive_buffer := rb, rcv_nxt := rcv_nxt t + of_nat ?n\<rparr>"
  have st2: "rx_stream S (p + ?n) t2"
    using rx_stream_in_order [OF st(1) data room gap] by (simp add: t2_def rb_def)
  have size2: "rb_size (receive_buffer t2) = rb_size ?rb + ?n"
    using rb_write_at_inorder(4) [OF inv data(1) room] by (simp add: t2_def rb_def)
  define t3 where "t3 = (if sack_enabled (sack t2) then sack_rx_advance_from_scoreboard t2 else t2)"
  obtain p' where p': "p + ?n \<le> p'" "rx_stream S p' t3" "rcv_nxt t3 = rcv_nxt t2 + of_nat (p' - (p + ?n))"
    "rb_size (receive_buffer t3) = rb_size (receive_buffer t2) + (p' - (p + ?n))"
  proof (cases "sack_enabled (sack t2)")
    case True
    then show ?thesis using rx_stream_advance [OF st2] that unfolding t3_def by auto
  qed (use that [of "p + ?n"] st2 in \<open>simp add: t3_def\<close>)
  have eq: "fst (accept_in_order (rcv_nxt t) payload t) =
      (update_rcv_wnd_from_buffer t3)\<lparr>ack_needed := True, unacked_segments := unacked_segments t3 + 1\<rparr>"
    using data(1) unfolding accept_in_order_def wr Let_def prod.case t3_def t2_def
    by (simp add: update_rcv_wnd_from_buffer_def)
  have "wnd_ok (fst (accept_in_order (rcv_nxt t) payload t))"
    using update_rcv_wnd_ok [OF rx_stream_inv [OF p'(2)]] by (simp add: eq wnd_ok_def)
  moreover have "rx_stream S p' (fst (accept_in_order (rcv_nxt t) payload t))"
    using p'(2) by (subst rx_stream_view [of _ t3]) (simp_all add: eq update_rcv_wnd_from_buffer_def)
  moreover have "rcv_nxt t3 = rcv_nxt t + of_nat (p' - p)"
    using p'(1,3) by (simp add: t2_def of_nat_diff)
  ultimately show ?thesis
    using p'(1,4) size2 unfolding receives_def
    by (intro conjI exI [of _ p']) (simp_all add: eq update_rcv_wnd_from_buffer_def)
qed

lemma seq_ahead:
  assumes "seq_diff s r \<ge> 0"
  shows "unat (s - r) < 2 ^ 31" "s \<noteq> r \<Longrightarrow> 0 < unat (s - r)"
proof -
  show "unat (s - r) < 2 ^ 31" using assms seq_diff_neg_iff [of s r] by auto
  show "s \<noteq> r \<Longrightarrow> 0 < unat (s - r)" by (simp add: unat_gt_0)
qed

text \<open>Data in sequence is taken in full, anything else may come to nothing.\<close>

definition in_sequence :: "u32 \<Rightarrow> u8 list \<Rightarrow> tcp_control_block \<Rightarrow> nat" where
  "in_sequence s payload t = (if s = rcv_nxt t then length payload else 0)"

lemma accept_payload_receives:
  assumes st: "rx_stream S p t" "wnd_ok t" and peer: "honest S p t h payload"
  shows "receives (in_sequence (sequence_number h) payload t) S p t (fst (accept_payload (sequence_number h) payload t))"
proof -
  let ?s = "sequence_number h" and ?rb = "receive_buffer t"
  let ?off = "unat (?s - rcv_nxt t)" and ?n = "length payload"
  have inv: "rb_inv ?rb" using st(1) by (rule rx_stream_inv)
  have same: "receives 0 S p t t'" if "snd (rx_view t') = snd (rx_view t)" for t'
    using receives_same [OF st that] .
  consider (empty) "payload = []" | (inorder) "payload \<noteq> []" "?s = rcv_nxt t"
    | (off) "payload \<noteq> []" "?s \<noteq> rcv_nxt t" "\<not> sack_enabled (sack t)"
    | (before) "payload \<noteq> []" "?s \<noteq> rcv_nxt t" "sack_enabled (sack t)" "seq_diff ?s (rcv_nxt t) < 0"
    | (ahead) "payload \<noteq> []" "?s \<noteq> rcv_nxt t" "sack_enabled (sack t)" "seq_diff ?s (rcv_nxt t) \<ge> 0" by linarith
  then show ?thesis
  proof cases
    case inorder
    then show ?thesis
      using accept_in_order_receives [OF st inorder(1)] peer seq_diff_self
      by (simp add: accept_payload_def honest_def Let_def in_sequence_def)
  next
    case before
    then have "sack_receive_out_of_order t ?s payload = t"
      by (simp add: sack_receive_out_of_order_def rb_write_at_def)
    then have eq: "fst (accept_payload ?s payload t) = update_rcv_wnd_from_buffer t"
      using before by (simp add: accept_payload_def)
    show ?thesis
      unfolding receives_def eq using st update_rcv_wnd_ok [OF inv]
      using before by (intro conjI exI [of _ p]) (simp_all add: in_sequence_def)
  next
    case ahead
    have data: "payload = map S [p + ?off..<p + ?off + ?n]" "?off + ?n \<le> unat (rcv_wnd t)"
      using peer ahead by (auto simp: honest_def Let_def)
    have room: "rb_size ?rb + ?off + ?n \<le> rb_capacity ?rb"
      using data(2) st(2) inv ahead(1) by (cases payload) (auto simp: wnd_ok_def rb_inv_def)
    have "unat (rcv_wnd t) < 65536" using unsigned_less [of "rcv_wnd t", where ?'a = nat] by simp
    then have small: "?off + ?n < 2 ^ 31" using data(2) by simp
    define t1 where "t1 = sack_receive_out_of_order t ?s payload"
    have st1: "rx_stream S p t1"
      unfolding t1_def by (rule rx_stream_out_of_order [OF st(1) refl seq_ahead(2) [OF ahead(4,2)] small ahead(1) data(1) room])
    have r1: "rcv_nxt t1 = rcv_nxt t" by (simp add: t1_def sack_receive_out_of_order_def Let_def split: prod.split)
    have "rb_size (receive_buffer t1) = rb_size ?rb"
      unfolding t1_def sack_receive_out_of_order_def
      using ahead(2) by (simp add: rb_write_at_def Let_def)
    moreover have eq: "fst (accept_payload ?s payload t) = update_rcv_wnd_from_buffer t1"
      using ahead by (simp add: accept_payload_def t1_def)
    ultimately show ?thesis
      unfolding receives_def eq using st1 r1 update_rcv_wnd_ok [OF rx_stream_inv [OF st1]] ahead
      by (intro conjI exI [of _ p]) (simp_all add: in_sequence_def)
  qed (auto intro!: same simp: accept_payload_def rx_view_def in_sequence_def)
qed

lemma stream_same:
  assumes "snd (rx_view t') = snd (rx_view t)"
  shows "rx_stream S p t' = rx_stream S p t" "wnd_ok t' = wnd_ok t"
  using assms by (intro rx_stream_view, simp_all add: rx_view_def wnd_ok_def)

lemma honest_view: "snd (rx_view t') = snd (rx_view t) \<Longrightarrow> honest S p t' h payload = honest S p t h payload"
  by (simp add: honest_def rx_view_def rx_live_def)

lemma receive_segment_receives:
  assumes st: "rx_stream S p t" "wnd_ok t" and peer: "honest S p t h payload"
  shows "receives (in_sequence (sequence_number h) payload t) S p t (fst (receive_segment now h payload t))"
proof -
  define t2 where "t2 = (maybe_update_send_window t (sequence_number h) (ack_number h) (window_size h))
    \<lparr>last_rx_time := now, keepalive_count := 0, keepalive_deadline := None\<rparr>"
  have v: "snd (rx_view t2) = snd (rx_view t)" by (simp add: t2_def rx_view_def maybe_update_send_window_def)
  have st2: "rx_stream S p t2" "wnd_ok t2" using st by (simp_all add: stream_same [OF v])
  obtain t3 b where p: "accept_payload (sequence_number h) payload t2 = (t3, b)" by fastforce
  have "honest S p t2 h payload" using peer honest_view [OF v] by simp
  moreover have "in_sequence (sequence_number h) payload t2 = in_sequence (sequence_number h) payload t"
    using v by (simp add: in_sequence_def rx_view_def)
  ultimately have r3: "receives (in_sequence (sequence_number h) payload t) S p t2 t3"
    using accept_payload_receives [OF st2, of h payload] by (simp add: p)
  have nofin: "\<not> is_fin h" using peer by (simp add: honest_def)
  have "snd (rx_view (fst (receive_segment now h payload t))) = snd (rx_view t3)"
    unfolding receive_segment_def Let_def t2_def [symmetric] p prod.case if_not_P [OF nofin]
    by (simp add: schedule_ack_def rx_view_def)
  from receives_then_same [OF r3 this] show ?thesis by (rule receives_from_same [OF v])
qed

lemma in_order_acceptable:
  assumes "honest S p t h payload" "payload \<noteq> []" "sequence_number h = rcv_nxt t"
  shows "is_segment_acceptable t (rcv_nxt t) (of_nat (length payload))"
proof -
  have le: "length payload \<le> unat (rcv_wnd t)" using assms seq_diff_self by (simp add: honest_def Let_def)
  moreover have "unat (rcv_wnd t) < 65536" using unsigned_less [of "rcv_wnd t", where ?'a = nat] by simp
  ultimately have n: "unat (of_nat (length payload) :: u32) = length payload" by (intro unat_of_nat_len) simp
  then have "of_nat (length payload) \<noteq> (0 :: u32)" using assms(2) by auto
  moreover have "is_in_receive_window t (rcv_nxt t)"
    using le assms(2) by (cases payload) (simp_all add: is_in_receive_window_iff)
  ultimately show ?thesis by (simp add: is_segment_acceptable_def Let_def)
qed

lemma process_payload_receives:
  assumes "rx_stream S p t" "wnd_ok t" "honest S p t h payload"
  shows "receives 0 S p t (fst (process_payload now h payload ok (t, acts)))"
    "payload \<noteq> [] \<Longrightarrow> ok \<Longrightarrow> sequence_number h = rcv_nxt t \<Longrightarrow>
     receives (length payload) S p t (fst (process_payload now h payload ok (t, acts)))"
proof -
  note seg = receive_segment_receives [OF assms, of now]
  show "receives 0 S p t (fst (process_payload now h payload ok (t, acts)))"
    using receives_mono [OF seg] receives_same [OF assms(1,2), of t]
    by (auto simp: process_payload_def Let_def case_prod_beta)
  assume data: "payload \<noteq> []" "ok" "sequence_number h = rcv_nxt t"
  then have "is_segment_acceptable t (sequence_number h) (of_nat (length payload))"
    using in_order_acceptable assms(3) by simp
  then show "receives (length payload) S p t (fst (process_payload now h payload ok (t, acts)))"
    using seg data by (simp add: process_payload_def Let_def case_prod_beta in_sequence_def)
qed

lemma process_data_datagram_receives:
  assumes st: "rx_stream S p t" "wnd_ok t" "sack_wf (sack t)" and peer: "honest S p t h payload"
    and run: "process_data_datagram fp now clk payload h options ip_ecn t = Some (t', xs)"
  shows "receives 0 S p t t'"
proof -
  define ce where "ce = ((ip_ecn AND 3) = IP_ECN_CE)"
  define t1 where "t1 = note_cwr (get_flag h CWR) (note_ce ce t)"
  obtain t2 go where c: "check_timestamps now h (find_timestamp options) t1 = (t2, go)" by fastforce
  have "rx_view t2 = rx_view t1"
    using check_timestamps_view [of now h "find_timestamp options" t1] by (simp add: c)
  then have v2: "rx_view t2 = rx_view t" by (simp add: t1_def views)
  obtain t3 acts where p: "process_ack fp now h payload (find_timestamp options) (parse_sack_blocks options) ce t2 = (t3, acts)"
    by fastforce
  have o3: "ack_outcome t2 t3" using process_ack_outcome p by (metis fst_conv)
  then have v3: "snd (rx_view t3) = snd (rx_view t)" using v2 by (simp add: ack_outcome_def)
  define t4 acts' where "t4 = fst (process_payload now h payload (is_acceptable_ack t2 (ack_number h)) (t3, acts))"
    and "acts' = snd (process_payload now h payload (is_acceptable_ack t2 (ack_number h)) (t3, acts))"
  have st3: "rx_stream S p t3" "wnd_ok t3" "honest S p t3 h payload"
    using st peer by (simp_all add: stream_same [OF v3] honest_view [OF v3])
  have wf4: "sack_wf (sack t4)"
    using process_payload_outcome(1) st(3) ack_outcome_wf [OF o3] sack_wf_view [OF v2] by (simp add: t4_def)
  have r4: "receives 0 S p t t4"
    unfolding t4_def by (rule receives_from_same [OF v3 process_payload_receives(1) [OF st3]])
  have "snd (rx_view t') = snd (rx_view t) \<or> rx_view t' = rx_view t4"
  proof (cases "\<not> carries_nothing_new h payload t \<and> \<not> is_rst h \<and> is_ack h \<and> go")
    case True
    then have "run_actions now clk (t4, acts') = Some (t', xs)"
      using run c p by (simp add: process_data_datagram_def Let_def t1_def ce_def t4_def acts'_def)
    with run_actions_total [OF wf4, of now clk acts'] show ?thesis by auto
  next
    case False
    have "rx_view u = rx_view t" if "send_immediate_ack_unlocked now (note_ce ce t) = Some (u, ys)" for u ys
      using soundE [OF sound_immediate_ack, of "note_ce ce t" now] that st(3) sack_wf_view [of "note_ce ce t" t]
      by (auto simp: views)
    moreover have "(\<exists>ys. send_immediate_ack_unlocked now (note_ce ce t) = Some (t', ys)) \<or> t' = t \<or> t' = t2 \<or>
        t' = t\<lparr>state := Closed, last_error := Some ConnectionReset, event := event t + 1\<rparr>"
      using False run c unfolding process_data_datagram_def Let_def ce_def [symmetric] t1_def [symmetric]
      by (auto split: if_splits)
    ultimately show ?thesis using v2 by (elim disjE exE) (simp_all, simp add: rx_view_def)
  qed
  then show ?thesis using receives_then_same [OF r4] receives_same [OF st(1,2)] by auto
qed

text \<open>A segment in sequence that passes the checks of the handler: no reset, an acknowledgment that is
  acceptable, and timestamps the connection agrees with.\<close>

definition admissible :: "instant \<Rightarrow> tcp_datagram_header \<Rightarrow> u8 list \<Rightarrow> tcp_control_block \<Rightarrow> bool" where
  "admissible now h options t \<longleftrightarrow> \<not> is_rst h \<and> is_ack h \<and> is_acceptable_ack t (ack_number h) \<and>
     (case find_timestamp options of
        None \<Rightarrow> \<not> ts_enabled (ts t)
      | Some (tsval, _) \<Rightarrow> snd (on_rx_timestamp now t (sequence_number h) tsval (is_syn h) False))"

lemma on_rx_timestamp_ok:
  "ts t' = ts t \<Longrightarrow> snd (on_rx_timestamp now t' s tsval syn rst) = snd (on_rx_timestamp now t s tsval syn rst)"
  by (simp add: on_rx_timestamp_def Let_def)

lemma check_timestamps_go:
  "snd (check_timestamps now h ov t) =
     (case ov of None \<Rightarrow> \<not> ts_enabled (ts t)
      | Some (tsval, _) \<Rightarrow> snd (on_rx_timestamp now t (sequence_number h) tsval (is_syn h) False))"
  by (simp add: check_timestamps_def split: option.split prod.split bool.split)

lemma check_timestamps_tx_view: "tx_view (fst (check_timestamps now h ov t)) = tx_view t"
  by (auto simp: check_timestamps_def on_rx_timestamp_def sample_timestamp_def Let_def views tx_view_upd
      split: option.split prod.split bool.split)

lemma process_data_datagram_progress:
  assumes st: "rx_stream S p t" "wnd_ok t" "sack_wf (sack t)" and peer: "honest S p t h payload"
    and data: "payload \<noteq> []" "sequence_number h = rcv_nxt t" and adm: "admissible now h options t"
  obtains t' xs where "process_data_datagram fp now clk payload h options ip_ecn t = Some (t', xs)"
    "receives (length payload) S p t t'" "sack_wf (sack t')"
proof -
  have le: "length payload \<le> unat (rcv_wnd t)"
    using peer data seq_diff_self by (simp add: honest_def Let_def)
  then have new: "\<not> carries_nothing_new h payload t"
  proof -
    let ?n = "length payload"
    have "unat (rcv_wnd t) < 65536" using unsigned_less [of "rcv_wnd t", where ?'a = nat] by simp
    then have n: "unat (of_nat ?n :: u32) = ?n" "?n < 65536" using le by (auto intro: unat_of_nat_len)
    have "seq_diff (rcv_nxt t + of_nat ?n) (rcv_nxt t) = int ?n" using n seq_diff_eq_nat [of "rcv_nxt t + of_nat ?n" "rcv_nxt t"] by simp
    then show ?thesis using data by (simp add: carries_nothing_new_def)
  qed
  define ce where "ce = ((ip_ecn AND 3) = IP_ECN_CE)"
  define t1 where "t1 = note_cwr (get_flag h CWR) (note_ce ce t)"
  have ts1: "ts t1 = ts t" by (simp add: t1_def note_cwr_def note_ce_def)
  obtain t2 go where c: "check_timestamps now h (find_timestamp options) t1 = (t2, go)" by fastforce
  have go using check_timestamps_go [of now h "find_timestamp options" t1] adm c ts1
    by (simp add: admissible_def on_rx_timestamp_ok [OF ts1] split: option.splits prod.splits)
  have "rx_view t2 = rx_view t1" "tx_view t2 = tx_view t1"
    using check_timestamps_view [of now h "find_timestamp options" t1]
      check_timestamps_tx_view [of now h "find_timestamp options" t1] by (simp_all add: c)
  then have v2: "rx_view t2 = rx_view t" "tx_view t2 = tx_view t"
    by (simp_all add: t1_def views) (simp add: note_cwr_def note_ce_def tx_view_def)
  then have ok: "is_acceptable_ack t2 (ack_number h)"
    using adm by (simp add: admissible_def is_acceptable_ack_def tx_view_def)
  obtain t3 acts where p: "process_ack fp now h payload (find_timestamp options) (parse_sack_blocks options) ce t2 = (t3, acts)"
    by fastforce
  have o3: "ack_outcome t2 t3" using process_ack_outcome p by (metis fst_conv)
  then have v3: "snd (rx_view t3) = snd (rx_view t)" using v2 by (simp add: ack_outcome_def)
  define r where "r = process_payload now h payload True (t3, acts)"
  have st3: "rx_stream S p t3" "wnd_ok t3" "honest S p t3 h payload"
    using st peer by (simp_all add: stream_same [OF v3] honest_view [OF v3])
  have "sequence_number h = rcv_nxt t3" using v3 data(2) by (simp add: rx_view_def)
  then have r4: "receives (length payload) S p t (fst r)"
    unfolding r_def using process_payload_receives(2) [OF st3 data(1)] by (intro receives_from_same [OF v3]) simp
  have wf4: "sack_wf (sack (fst r))"
    using process_payload_outcome(1) st(3) ack_outcome_wf [OF o3] sack_wf_view [OF v2(1)] by (simp add: r_def)
  obtain t' xs where run: "run_actions now clk (fst r, snd r) = Some (t', xs)" "rx_view t' = rx_view (fst r)"
    by (rule run_actions_total [OF wf4])
  have "process_data_datagram fp now clk payload h options ip_ecn t = Some (t', xs)"
    using new adm c p ok run(1) \<open>go\<close>
    by (simp add: process_data_datagram_def Let_def t1_def ce_def r_def admissible_def)
  then show ?thesis
    using that receives_then_same [OF r4] run(2) sack_wf_view [OF run(2)] wf4 by auto
qed

end
