(* ===== verification/Tcp_Delivery.thy ===== *)
theory Tcp_Delivery
  imports Tcp_Driver Tcp_Stream
begin

text \<open>
  End-to-end delivery on one connection. \<open>receive_sync\<close> of \<^verbatim>\<open>driver/connect.rs\<close> is the application's read;
  \<open>delivers\<close> is every history of a connection from its passive open on, in which segments arrive, the
  application reads, writes and closes, and the timers run, in any order.
\<close>

section \<open>The blocking read\<close>

text \<open>One turn of the loop of \<open>receive_sync\<close>: \<open>None\<close> when it goes to sleep on the connection's event.\<close>

definition receive_sync_step :: "nat \<Rightarrow> tcp_control_block \<Rightarrow> tcp_control_block \<times> (tcp_error + u8 list) option" where
  "receive_sync_step n t =
     (case last_error t of
        Some e \<Rightarrow> (t, Some (Inl e))
      | None \<Rightarrow>
          let (rb, out) = rb_read (receive_buffer t) n; t1 = t\<lparr>receive_buffer := rb\<rparr>
          in if out \<noteq> [] then (update_rcv_wnd_from_buffer t1, Some (Inr out))
             else (t1, if state t \<in> {CloseWait, Closed, LastAck, TimeWait} then Some (Inr []) else None))"

section \<open>A new connection\<close>

definition fresh :: "tcp_control_block \<Rightarrow> bool" where
  "fresh t \<longleftrightarrow> rb_inv (receive_buffer t) \<and> rb_size (receive_buffer t) = 0 \<and> rx_ok (rcv_nxt t) (sack t) \<and>
     rx_live (sack t) = [] \<and> wnd_ok t"

lemma fresh_stream: "fresh t \<Longrightarrow> rx_stream S 0 t" "fresh t \<Longrightarrow> sack_wf (sack t)"
proof -
  assume f: "fresh t"
  then have "rb_contents (receive_buffer t) = []" by (simp add: fresh_def rb_contents_def)
  then show "rx_stream S 0 t" using f by (simp add: rx_stream_def fresh_def rx_set_def ranges_set_def)
  show "sack_wf (sack t)" using f unfolding fresh_def sack_wf_def rx_ok_def by blast
qed

lemma apply_option_keeps:
  "receive_buffer (apply_option now s t ov) = receive_buffer t" "rcv_nxt (apply_option now s t ov) = rcv_nxt t"
  "rcv_wnd (apply_option now s t ov) = rcv_wnd t"
  "sack_rx_ranges (sack (apply_option now s t ov)) = sack_rx_ranges (sack t)"
  "sack_rx_range_len (sack (apply_option now s t ov)) = sack_rx_range_len (sack t)"
  "sack_rx_recent (sack (apply_option now s t ov)) = sack_rx_recent (sack t)"
  by (cases ov; simp)+

lemma fresh_cong:
  assumes "receive_buffer t' = receive_buffer t" "rcv_wnd t' = rcv_wnd t"
    "sack_rx_ranges (sack t') = sack_rx_ranges (sack t)" "sack_rx_range_len (sack t') = sack_rx_range_len (sack t)"
    "sack_rx_recent (sack t') = sack_rx_recent (sack t)"
  shows "fresh t' = fresh t"
  using assms by (auto simp: fresh_def wnd_ok_def rx_ok_def rx_live_def ranges_ok_def)

lemma fresh_options: "fresh (apply_peer_tcp_options now t options s) = fresh t"
proof -
  have "fresh (foldl (apply_option now s) t os) = fresh t" for os
  proof (induction os arbitrary: t)
    case (Cons ov os)
    have "fresh (apply_option now s t ov) = fresh t" by (rule fresh_cong) (simp_all add: apply_option_keeps)
    then show ?case using Cons by simp
  qed simp
  moreover have "fresh (recompute_effective_mss u) = fresh u" for u
    by (rule fresh_cong) (simp_all add: recompute_effective_mss_def Let_def)
  ultimately show ?thesis by (simp add: apply_peer_tcp_options_def)
qed

lemma fresh_receive_path: "fresh (apply_receive_path s (tcb_new now rnd isn tu s))"
proof -
  let ?c = "max (set_recv_buf_size s) 1"
  let ?t = "(tcb_new now rnd isn tu s)\<lparr>receive_buffer := rb_new ?c, max_rcv_wnd := of_nat ?c,
    rcv_wscale := set_rcv_wscale s, wnd_scale_enabled := set_wnd_scale_enabled s\<rparr>"
  have f: "rb_inv (receive_buffer ?t)" "rb_size (receive_buffer ?t) = 0" "rx_live (sack ?t) = []" "rx_ok (rcv_nxt ?t) (sack ?t)"
    using sack_new_ok(1) by (simp_all add: rb_new_inv tcb_new_def rx_live_def sack_new_def)
  have "apply_receive_path s (tcb_new now rnd isn tu s) = update_rcv_wnd_from_buffer ?t"
    by (simp add: apply_receive_path_def Let_def)
  moreover have "fresh (update_rcv_wnd_from_buffer ?t)"
    unfolding fresh_def using f update_rcv_wnd_ok [OF f(1)] by simp
  ultimately show ?thesis by simp
qed

lemma fresh_passive: "fresh (passive_tcb now rnd isn tu s h options)"
proof -
  define t1 where "t1 = (apply_receive_path s (tcb_new now rnd isn tu s))
    \<lparr>state := SynReceived, irs := sequence_number h, rcv_nxt := sequence_number h + 1\<rparr>"
  define t2 where "t2 = apply_peer_tcp_options now t1 options (sequence_number h)"
  have "fresh t1 = fresh (apply_receive_path s (tcb_new now rnd isn tu s))"
    by (rule fresh_cong) (simp_all add: t1_def)
  then have "fresh t2" by (simp add: t2_def fresh_options fresh_receive_path)
  moreover have "fresh (passive_tcb now rnd isn tu s h options) = fresh t2"
    unfolding passive_tcb_def Let_def t1_def [symmetric] t2_def [symmetric] by (rule fresh_cong) simp_all
  ultimately show ?thesis by simp
qed

section \<open>Histories of a connection\<close>

fun bytes_of :: "(tcp_error + u8 list) option \<Rightarrow> u8 list" where
  "bytes_of (Some (Inr bytes)) = bytes"
| "bytes_of _ = []"

text \<open>\<open>delivers fp S t0 out t\<close>: from the new control block \<open>t0\<close> a history leads to \<open>t\<close>, in which the
  application has read \<open>out\<close>. The peer's stream is \<open>S\<close>; every arriving segment is honest about it.\<close>

inductive delivers :: "f64_env \<Rightarrow> (nat \<Rightarrow> u8) \<Rightarrow> tcp_control_block \<Rightarrow> u8 list \<Rightarrow> tcp_control_block \<Rightarrow> bool"
  for fp S t0 where
  start: "fresh t0 \<Longrightarrow> delivers fp S t0 [] t0"
| handshake: "delivers fp S t0 out t \<Longrightarrow> honest S (length out + rb_size (receive_buffer t)) t h payload \<Longrightarrow>
    process_syn_received_ack fp now clk h payload options ip_ecn t = Some (t', xs, port) \<Longrightarrow> delivers fp S t0 out t'"
| segment: "delivers fp S t0 out t \<Longrightarrow> honest S (length out + rb_size (receive_buffer t)) t h payload \<Longrightarrow>
    process_data_datagram fp now clk payload h options ip_ecn t = Some (t', xs) \<Longrightarrow> delivers fp S t0 out t'"
| read: "delivers fp S t0 out t \<Longrightarrow> receive_sync_step n t = (t', r) \<Longrightarrow> delivers fp S t0 (out @ bytes_of r) t'"
| send: "delivers fp S t0 out t \<Longrightarrow> send_data clk t bytes = Some (Inr (t', xs)) \<Longrightarrow> delivers fp S t0 out t'"
| close: "delivers fp S t0 out t \<Longrightarrow> close_connection now t = Some (t', xs) \<Longrightarrow> delivers fp S t0 out t'"
| timer: "delivers fp S t0 out t \<Longrightarrow> timer_tick now clk clk' t = Some (t', xs, rm) \<Longrightarrow> delivers fp S t0 out t'"

definition delivered :: "(nat \<Rightarrow> u8) \<Rightarrow> tcp_control_block \<Rightarrow> u8 list \<Rightarrow> tcp_control_block \<Rightarrow> bool" where
  "delivered S t0 out t \<longleftrightarrow> map S [0..<length out] = out \<and> sack_wf (sack t) \<and> wnd_ok t \<and>
     rx_stream S (length out + rb_size (receive_buffer t)) t \<and>
     rcv_nxt t = rcv_nxt t0 + of_nat (length out + rb_size (receive_buffer t))"

lemma delivered_receives:
  assumes d: "delivered S t0 out t" and r: "receives 0 S (length out + rb_size (receive_buffer t)) t t'"
    and wf: "sack_wf (sack t')"
  shows "delivered S t0 out t'"
proof -
  let ?p = "length out + rb_size (receive_buffer t)"
  obtain p' where p: "?p \<le> p'" "rx_stream S p' t'" "rcv_nxt t' = rcv_nxt t + of_nat (p' - ?p)"
    "rb_size (receive_buffer t') = rb_size (receive_buffer t) + (p' - ?p)" "wnd_ok t'"
    using r unfolding receives_def add_0_right by blast
  have p': "length out + rb_size (receive_buffer t') = p'" using p(1,4) by simp
  have "rcv_nxt t' = rcv_nxt t0 + of_nat ?p + of_nat (p' - ?p)" using d p(3) by (simp add: delivered_def)
  also have "\<dots> = rcv_nxt t0 + of_nat p'" using p(1) by (simp only: add.assoc of_nat_add [symmetric]) simp
  finally show ?thesis using d p(2,5) wf p' unfolding delivered_def p' by blast
qed

lemma delivered_same:
  assumes "delivered S t0 out t" "snd (rx_view t') = snd (rx_view t)"
  shows "delivered S t0 out t'"
proof (rule delivered_receives [OF assms(1)])
  show "receives 0 S (length out + rb_size (receive_buffer t)) t t'"
    using assms(1) by (intro receives_same [OF _ _ assms(2)]) (simp_all add: delivered_def)
  have "sack_wf (sack t') = sack_wf (sack t)" using assms(2) by (intro sack_wf_cong) (simp_all add: rx_view_def)
  then show "sack_wf (sack t')" using assms(1) by (simp add: delivered_def)
qed

lemma delivered_segment:
  assumes d: "delivered S t0 out t" and h: "honest S (length out + rb_size (receive_buffer t)) t h payload"
    and run: "process_data_datagram fp now clk payload h options ip_ecn t = Some (t', xs)"
  shows "delivered S t0 out t'"
proof (rule delivered_receives [OF d])
  have wf: "sack_wf (sack t)" using d by (simp add: delivered_def)
  show "receives 0 S (length out + rb_size (receive_buffer t)) t t'"
    by (rule process_data_datagram_receives [OF _ _ wf h run]) (use d in \<open>simp_all add: delivered_def\<close>)
  show "sack_wf (sack t')"
    using process_data_datagram_outcome [OF wf, of fp now clk payload h options ip_ecn] run by auto
qed

lemma delivered_read:
  assumes d: "delivered S t0 out t" and run: "receive_sync_step n t = (t', r)"
  shows "delivered S t0 (out @ bytes_of r) t'"
proof (cases "last_error t")
  case (Some e)
  then show ?thesis using d run by (auto simp: receive_sync_step_def)
next
  case None
  let ?rb = "receive_buffer t"
  define t1 where "t1 = t\<lparr>receive_buffer := fst (rb_read ?rb n)\<rparr>"
  have st: "rx_stream S (length out + rb_size ?rb) t" and inv: "rb_inv ?rb"
    using d rx_stream_inv unfolding delivered_def by blast+
  note rd = rx_stream_read [OF st, of n]
  have out: "snd (rb_read ?rb n) = map S [length out..<length out + min n (rb_size ?rb)]"
    unfolding rd(2) by (simp add: min_def)
  have size: "rb_size (receive_buffer t1) = rb_size ?rb - min n (rb_size ?rb)"
    using rb_read_state [OF inv refl] by (simp add: t1_def)
  have r: "bytes_of r = snd (rb_read ?rb n)" "t' = (if snd (rb_read ?rb n) \<noteq> [] then update_rcv_wnd_from_buffer t1 else t1)"
    using run None by (auto simp: receive_sync_step_def t1_def Let_def case_prod_beta split: if_splits)
  have st1: "rx_stream S (length out + rb_size ?rb) t1" using rd(1) by (simp add: t1_def)
  have same: "t1 = t" if "snd (rb_read ?rb n) = []"
  proof -
    have "min n (rb_size ?rb) = 0" using arg_cong [OF that, of length] unfolding out by simp
    then have "fst (rb_read ?rb n) = ?rb" by (simp add: rb_read_def)
    then show ?thesis by (simp add: t1_def)
  qed
  have dd: "map S [0..<length out] = out" "sack_wf (sack t)" "wnd_ok t"
    "rcv_nxt t = rcv_nxt t0 + of_nat (length out + rb_size ?rb)"
    using d unfolding delivered_def by blast+
  have "wnd_ok t'"
  proof (cases "snd (rb_read ?rb n) = []")
    case True
    then show ?thesis using same dd(3) r(2) by simp
  next
    case False
    then show ?thesis using update_rcv_wnd_ok [OF rx_stream_inv [OF st1]] r(2) by simp
  qed
  moreover have "map S [0..<length (out @ bytes_of r)] = out @ bytes_of r"
    unfolding r(1) out length_append length_map length_upt using dd(1)
    by (simp add: upt_add_eq_append [of 0 "length out"])
  moreover have len: "length (out @ bytes_of r) + rb_size (receive_buffer t') = length out + rb_size ?rb"
    unfolding r out by (simp add: size)
  moreover have "rx_stream S (length out + rb_size ?rb) t'" using st1 by (simp add: r(2))
  moreover have "rcv_nxt t' = rcv_nxt t" "sack t' = sack t" by (simp_all add: r(2) t1_def)
  ultimately show ?thesis using dd(2,4) unfolding delivered_def len by simp
qed

lemma delivered_handshake:
  assumes d: "delivered S t0 out t" and h: "honest S (length out + rb_size (receive_buffer t)) t h payload"
    and run: "process_syn_received_ack fp now clk h payload options ip_ecn t = Some (t', xs, port)"
  shows "delivered S t0 out t'"
proof -
  define t1 where "t1 = drain_retransmission_queue (ack_number h) (t\<lparr>snd_una := ack_number h\<rparr>)"
  define t2 where "t2 = t1\<lparr>state := Established, event := event t1 + 1\<rparr>"
  have v: "snd (rx_view t2) = snd (rx_view t)"
    by (simp add: t2_def t1_def rx_view_def drain_retransmission_queue_def)
  have "receive_buffer t2 = receive_buffer t" using v by (simp add: rx_view_def)
  then have h2: "honest S (length out + rb_size (receive_buffer t2)) t2 h payload" using h honest_view [OF v] by simp
  note d2 = delivered_same [OF d v]
  consider "t' = t\<lparr>state := Closed, last_error := Some ConnectionReset, event := event t + 1\<rparr>" | "t' = t" | "t' = t2"
    | "process_data_datagram fp now clk payload h options ip_ecn t2 = Some (t', xs)"
    using run unfolding process_syn_received_ack_def Let_def t1_def [symmetric] t2_def [symmetric]
    by (auto split: if_splits)
  then show ?thesis
  proof cases
    case 1
    show ?thesis by (rule delivered_same [OF d]) (simp add: 1 rx_view_def)
  next
    case 4
    show ?thesis by (rule delivered_segment [OF d2 h2 4])
  qed (use d d2 in simp_all)
qed

lemma close_connection_rx:
  assumes "close_connection now t = Some (t', xs)"
  shows "snd (rx_view t') = snd (rx_view t)"
proof -
  consider "t' = t" | t1 x tsval h q n st where "stamp_segment now t h [] = Some (t1, x, tsval)"
      "t' = t1\<lparr>retransmission_queue := q, snd_nxt := n, state := st\<rparr>"
    using assms by (auto simp: close_connection_def Let_def split: option.splits bind_splits tcp_state.splits)
  then show ?thesis
  proof cases
    case 2
    then show ?thesis using stamp_segment_views(1) [OF 2(1)] by (simp add: rx_view_def)
  qed simp
qed

lemma delivers_delivered: "delivers fp S t0 out t \<Longrightarrow> delivered S t0 out t"
proof (induction rule: delivers.induct)
  case start
  then show ?case using fresh_stream(1) [of t0 S] fresh_stream(2) [of t0] by (simp add: delivered_def fresh_def)
next
  case (send out t clk bytes t' xs)
  then have "process_send_queue clk 0 (t\<lparr>send_buffer := send_buffer t @ bytes\<rparr>) = Some (t', xs)"
    by (auto simp: send_data_def split: if_splits)
  then have "rx_view t' = rx_view (t\<lparr>send_buffer := send_buffer t @ bytes\<rparr>)" by (rule process_send_queue_rx_view)
  then show ?case using send.IH by (intro delivered_same [OF send.IH]) (simp add: rx_view_def)
next
  case (timer out t now clk clk' t' xs rm)
  then have "sack_wf (sack t)" by (simp add: delivered_def)
  then have "may_close t t'" using timer by (metis timer_tick_total option.inject prod.inject)
  then show ?case using timer.IH by (intro delivered_same [OF timer.IH]) (simp add: may_close_def)
qed (auto intro: delivered_handshake delivered_segment delivered_read delivered_same close_connection_rx)

text \<open>A connection opened by a SYN numbered 999, and the first data segment on it.\<close>

definition example_syn :: tcp_datagram_header where
  "example_syn = \<lparr>source_port = 5000, dest_port = 80, sequence_number = 999, ack_number = 0, offset_res = 80,
     flags = SYN, window_size = 512, checksum = 0, urgent_pointer = 0\<rparr>"

definition example_open :: tcp_control_block where
  "example_open = passive_tcb 0 None 7 example_tuple (settings_default\<lparr>set_recv_buf_size := 16\<rparr>) example_syn []"

definition example_data :: tcp_datagram_header where
  "example_data = example_syn\<lparr>sequence_number := 1000, ack_number := 8, flags := ACK\<rparr>"

lemma example_open_simps [simp]:
  "fresh example_open" "rcv_nxt example_open = 1000" "rcv_wnd example_open = 16" "snd_una example_open = 7"
  "snd_nxt example_open = 8" "ts_enabled (ts example_open) = False" "rb_size (receive_buffer example_open) = 0"
  "rx_live (sack example_open) = []" "last_error example_open = None"
proof -
  show f: "fresh example_open" by (simp add: example_open_def fresh_passive)
  then show "rb_size (receive_buffer example_open) = 0" "rx_live (sack example_open) = []" by (simp_all add: fresh_def)
  show "rcv_nxt example_open = 1000" "rcv_wnd example_open = 16" "snd_una example_open = 7"
    "snd_nxt example_open = 8" "ts_enabled (ts example_open) = False" "last_error example_open = None"
    by (simp_all add: example_open_def passive_tcb_def example_syn_def apply_peer_tcp_options_def
        recompute_effective_mss_def apply_receive_path_def update_rcv_wnd_from_buffer_def effective_rcv_wnd_def
        rb_free_space_def usize_sub_def tcb_new_def ts_new_def settings_default_def Let_def min_def)
qed

lemma example_data_simps [simp]:
  "sequence_number example_data = 1000" "ack_number example_data = 8" "\<not> is_fin example_data" "\<not> is_rst example_data"
  "is_ack example_data"
  by (simp_all add: example_data_def example_syn_def is_fin_def is_rst_def is_ack_def get_flag_def FIN_def RST_def ACK_def)

lemma example_honest: "honest S 0 example_open example_data [S 0, S 1]"
  by (simp add: honest_def Let_def)

lemma example_admissible: "admissible 5 example_data [] example_open"
  by (simp add: admissible_def is_acceptable_ack_def find_timestamp_def seq_diff_def)

lemma delivers_progress:
  assumes d: "delivers fp S t0 out t" and peer: "honest S (length out + rb_size (receive_buffer t)) t h payload"
    and data: "payload \<noteq> []" "sequence_number h = rcv_nxt t" "admissible now h options t"
  obtains t' xs rest where "process_data_datagram fp now clk payload h options ip_ecn t = Some (t', xs)"
    "delivers fp S t0 out t'" "rb_contents (receive_buffer t') = rb_contents (receive_buffer t) @ payload @ rest"
proof -
  let ?p = "length out + rb_size (receive_buffer t)" and ?n = "length payload"
  have dd: "rx_stream S ?p t" "wnd_ok t" "sack_wf (sack t)" using delivers_delivered [OF d] by (simp_all add: delivered_def)
  obtain t' xs where run: "process_data_datagram fp now clk payload h options ip_ecn t = Some (t', xs)"
    "receives ?n S ?p t t'" by (rule process_data_datagram_progress [OF dd peer data])
  obtain p' where p': "?p + ?n \<le> p'" "rx_stream S p' t'"
    "rb_size (receive_buffer t') = rb_size (receive_buffer t) + (p' - ?p)"
    using run(2) unfolding receives_def by blast
  have "payload = map S [?p..<?p + ?n]"
    using peer data(1,2) by (simp add: honest_def Let_def)
  moreover have "rb_contents (receive_buffer t') = map S [p' - rb_size (receive_buffer t')..<p']"
    "rb_contents (receive_buffer t) = map S [?p - rb_size (receive_buffer t)..<?p]"
    using dd(1) p'(2) by (simp_all add: rx_stream_def)
  moreover have "p' - rb_size (receive_buffer t') = length out" using p'(1,3) by simp
  moreover have "[length out..<p'] = [length out..<?p] @ [?p..<?p + ?n] @ [?p + ?n..<p']"
    using p'(1) upt_add_eq_append [of "length out" ?p "p' - ?p"] upt_add_eq_append [of ?p "?p + ?n" "p' - (?p + ?n)"] by simp
  ultimately have "rb_contents (receive_buffer t') = rb_contents (receive_buffer t) @ payload @ map S [?p + ?n..<p']"
    by (simp only: map_append diff_add_inverse2 diff_add_inverse)
  then show ?thesis using that run(1) delivers.segment [OF d peer run(1)] by blast
qed





end
