(* ===== verification/Tcp_Socket.thy ===== *)
theory Tcp_Socket
  imports Tcp_Delivery
begin

text \<open>
  The socket calls of \<^verbatim>\<open>tcp_socket.rs\<close>. A call that only touches the socket table is a function on the
  table; one that also touches a connection works on the driver. \<open>iface_ip\<close> is the address of an
  interface, if it has one. \<open>socket_accept\<close> and \<open>socket_recv\<close> are one turn of their loops: \<open>None\<close> when the
  caller goes to sleep.
\<close>

section \<open>Calls on the table\<close>

definition socket_create :: "tcp_socket_table \<Rightarrow> tcp_socket_table \<times> tcp_socket_handle" where
  "socket_create tb = table_insert tb \<lparr>role = Unbound, opts = settings_default\<rparr>"

definition socket_set_opts ::
  "tcp_socket_handle \<Rightarrow> tcp_session_settings \<Rightarrow> tcp_socket_table \<Rightarrow> tcp_socket_table \<times> (tcp_socket_error + unit)" where
  "socket_set_opts h s tb =
     (case table_get tb h of
        Inl e \<Rightarrow> (tb, Inl e)
      | Inr sock \<Rightarrow> (tb\<lparr>sockets := (sockets tb)(h \<mapsto> sock\<lparr>opts := s\<rparr>)\<rparr>, Inr ()))"

text \<open>Whether a role may be bound, and the port it holds.\<close>

fun old_port :: "tcp_socket_role \<Rightarrow> tcp_socket_error + u16 option" where
  "old_port Unbound = Inr None"
| "old_port (Bound ip p nic) = Inr (Some p)"
| "old_port (Connected i) = Inl AlreadyConnected"
| "old_port (Listener l) = Inl AlreadyConnected"
| "old_port RoleClosed = Inl SockClosed"

definition assign_port ::
  "tcp_socket_handle \<Rightarrow> u16 \<Rightarrow> u16 option \<Rightarrow> tcp_socket_table \<Rightarrow> tcp_socket_table \<times> (tcp_socket_error + u16)" where
  "assign_port h port old tb =
     (let tb1 = (case old of None \<Rightarrow> tb | Some p \<Rightarrow> tb\<lparr>bound_ports := (bound_ports tb)(p := None)\<rparr>)
      in if port = 0
         then case alloc_ephemeral_port tb1 of
                Inl e \<Rightarrow> (tb1, Inl e)
              | Inr p \<Rightarrow> (tb1\<lparr>bound_ports := (bound_ports tb1)(p \<mapsto> h)\<rparr>, Inr p)
         else if port_in_use tb1 port
         then (case old of None \<Rightarrow> tb1 | Some p \<Rightarrow> tb1\<lparr>bound_ports := (bound_ports tb1)(p \<mapsto> h)\<rparr>, Inl AddrInUse)
         else (tb1\<lparr>bound_ports := (bound_ports tb1)(port \<mapsto> h)\<rparr>, Inr port))"

definition socket_bind ::
  "(nic_id \<Rightarrow> ipv4_addr option) \<Rightarrow> tcp_socket_handle \<Rightarrow> u16 \<Rightarrow> nic_id \<Rightarrow> tcp_socket_table \<Rightarrow>
   tcp_socket_table \<times> (tcp_socket_error + unit)" where
  "socket_bind iface_ip h port nic tb =
     (case table_get tb h of
        Inl e \<Rightarrow> (tb, Inl e)
      | Inr sock \<Rightarrow>
          (case old_port (role sock) of
             Inl e \<Rightarrow> (tb, Inl e)
           | Inr old \<Rightarrow>
               (case iface_ip nic of
                  None \<Rightarrow> (tb, Inl NotBound)
                | Some ip \<Rightarrow>
                    (case assign_port h port old tb of
                       (tb1, Inl e) \<Rightarrow> (tb1, Inl e)
                     | (tb1, Inr p) \<Rightarrow> (set_role h (Bound ip p nic) tb1, Inr ())))))"

definition socket_listen ::
  "tcp_socket_handle \<Rightarrow> nat \<Rightarrow> tcp_socket_table \<Rightarrow> tcp_socket_table \<times> (tcp_socket_error + unit)" where
  "socket_listen h backlog tb =
     (case table_get tb h of
        Inl e \<Rightarrow> (tb, Inl e)
      | Inr sock \<Rightarrow>
          (case role sock of
             Bound ip p nic \<Rightarrow>
               if listeners tb p \<noteq> None then (tb, Inl AddrInUse)
               else (set_role h
                       (Listener \<lparr>lst_ip = ip, lst_port = p, lst_nic = nic, lst_backlog = max backlog 1,
                          lst_pending = [], lst_gate = False\<rparr>)
                       (tb\<lparr>bound_ports := (bound_ports tb)(p := None), listeners := (listeners tb)(p \<mapsto> h)\<rparr>),
                     Inr ())
           | Listener l \<Rightarrow> (tb, Inr ())
           | _ \<Rightarrow> (tb, Inl NotBound)))"

definition socket_accept ::
  "tcp_socket_handle \<Rightarrow> tcp_socket_table \<Rightarrow> tcp_socket_table \<times> (tcp_socket_error + tcp_socket_handle) option" where
  "socket_accept h tb =
     (case table_get tb h of
        Inl e \<Rightarrow> (tb, Some (Inl e))
      | Inr sock \<Rightarrow>
          (case role sock of
             Listener l \<Rightarrow>
               (case lst_pending l of
                  [] \<Rightarrow> (tb, None)
                | tcb # rest \<Rightarrow>
                    let tb1 = set_role h (Listener (l\<lparr>lst_pending := rest,
                                lst_gate := (if rest = [] then False else lst_gate l)\<rparr>)) tb;
                        (tb2, nh) = table_insert tb1 \<lparr>role = Connected tcb, opts = opts sock\<rparr>
                    in (tb2, Some (Inr nh)))
           | RoleClosed \<Rightarrow> (tb, Some (Inl SockClosed))
           | _ \<Rightarrow> (tb, Some (Inl NotListening))))"

definition socket_adopt_connected ::
  "tcp_socket_handle \<Rightarrow> arc \<Rightarrow> tcp_socket_table \<Rightarrow> tcp_socket_table \<times> (tcp_socket_error + unit)" where
  "socket_adopt_connected h tcb tb =
     (case table_get tb h of
        Inl e \<Rightarrow> (tb, Inl e)
      | Inr sock \<Rightarrow>
          (case role sock of
             Connected _ \<Rightarrow> (tb, Inl AlreadyConnected)
           | Listener _ \<Rightarrow> (tb, Inl NotBound)
           | RoleClosed \<Rightarrow> (tb, Inl SockClosed)
           | _ \<Rightarrow> (set_role h (Connected tcb) tb, Inr ())))"

definition connected_tcb :: "tcp_socket_handle \<Rightarrow> tcp_socket_table \<Rightarrow> tcp_socket_error + arc" where
  "connected_tcb h tb =
     (case table_get tb h of
        Inl e \<Rightarrow> Inl e
      | Inr sock \<Rightarrow> (case role sock of Connected i \<Rightarrow> Inr i | RoleClosed \<Rightarrow> Inl SockClosed | _ \<Rightarrow> Inl SockNotConnected))"

section \<open>Calls on the driver\<close>

text \<open>The part of \<open>socket_connect\<close> before the driver's \<open>connect\<close>: the local address, port and interface.\<close>

definition connect_source ::
  "(nic_id \<Rightarrow> ipv4_addr option) \<Rightarrow> tcp_socket_handle \<Rightarrow> tcp_socket_table \<Rightarrow>
   tcp_socket_error + (ipv4_addr \<times> u16 \<times> nic_id \<times> tcp_session_settings)" where
  "connect_source iface_ip h tb =
     (case table_get tb h of
        Inl e \<Rightarrow> Inl e
      | Inr sock \<Rightarrow>
          (case role sock of
             Connected _ \<Rightarrow> Inl AlreadyConnected
           | Listener _ \<Rightarrow> Inl NotBound
           | RoleClosed \<Rightarrow> Inl SockClosed
           | Bound ip p nic \<Rightarrow> Inr (ip, p, nic, opts sock)
           | Unbound \<Rightarrow> (case iface_ip 0 of None \<Rightarrow> Inl NotBound | Some ip \<Rightarrow> Inr (ip, 0, 0, opts sock))))"

text \<open>The call up to the waiting loop of \<open>connect\<close>, and its last step once the loop has returned \<open>r\<close>.\<close>

definition socket_connect_start ::
  "(nic_id \<Rightarrow> ipv4_addr option) \<Rightarrow> instant \<Rightarrow> u32 option \<Rightarrow> u32 option \<Rightarrow> u16 option \<Rightarrow> bool \<Rightarrow> tcp_socket_handle \<Rightarrow>
   ipv4_addr \<Rightarrow> u16 \<Rightarrow> tcp_driver \<Rightarrow>
   (tcp_driver \<times> tx_segment list \<times> (tcp_socket_error + connection_tuple \<times> arc)) option" where
  "socket_connect_start iface_ip now rnd rdrand random_val sent h rip rport d =
     (case connect_source iface_ip h (socket_table d) of
        Inl e \<Rightarrow> Some (d, [], Inl e)
      | Inr (ip, p, nic, s) \<Rightarrow>
          map_option (\<lambda>(d', xs, r). (d', xs, map_sum Io id r))
            (connect_start now rnd rdrand random_val sent ip p rip rport s d))"

definition socket_connect_finish ::
  "tcp_socket_handle \<Rightarrow> tcp_error + arc \<Rightarrow> tcp_socket_table \<Rightarrow> tcp_socket_table \<times> (tcp_socket_error + unit)" where
  "socket_connect_finish h r tb =
     (case r of Inl e \<Rightarrow> (tb, Inl (Io e)) | Inr i \<Rightarrow> (set_role h (Connected i) tb, Inr ()))"

definition socket_send ::
  "(nat \<Rightarrow> instant) \<Rightarrow> tcp_socket_handle \<Rightarrow> u8 list \<Rightarrow> tcp_driver \<Rightarrow>
   (tcp_driver \<times> tx_segment list \<times> (tcp_socket_error + nat)) option" where
  "socket_send clk h bytes d =
     (case connected_tcb h (socket_table d) of
        Inl e \<Rightarrow> Some (d, [], Inl e)
      | Inr i \<Rightarrow>
          map_option (\<lambda>r. case r of
                Inl e \<Rightarrow> (d, [], Inl (Io e))
              | Inr (t, xs) \<Rightarrow> (d\<lparr>tcbs := (tcbs d)[i := t]\<rparr>, xs, Inr (length bytes)))
            (send_data clk (tcbs d ! i) bytes))"

definition socket_recv ::
  "tcp_socket_handle \<Rightarrow> nat \<Rightarrow> tcp_driver \<Rightarrow> tcp_driver \<times> (tcp_socket_error + u8 list) option" where
  "socket_recv h n d =
     (case connected_tcb h (socket_table d) of
        Inl e \<Rightarrow> (d, Some (Inl e))
      | Inr i \<Rightarrow>
          (case receive_sync_step n (tcbs d ! i) of
             (t, r) \<Rightarrow> (d\<lparr>tcbs := (tcbs d)[i := t]\<rparr>, map_option (map_sum Io id) r)))"

definition socket_shutdown ::
  "instant \<Rightarrow> tcp_socket_handle \<Rightarrow> shutdown \<Rightarrow> tcp_driver \<Rightarrow> (tcp_driver \<times> tx_segment list \<times> (tcp_socket_error + unit)) option" where
  "socket_shutdown now h how d =
     (if how = Read then Some (d, [], Inr ())
      else case connected_tcb h (socket_table d) of
             Inl e \<Rightarrow> Some (d, [], Inl e)
           | Inr i \<Rightarrow> map_option (\<lambda>(d', xs). (d', xs, Inr ())) (with_tcb i (close_connection now) d))"

fun close_arcs :: "instant \<Rightarrow> arc list \<Rightarrow> tcp_driver \<Rightarrow> (tcp_driver \<times> tx_segment list) option" where
  "close_arcs now [] d = Some (d, [])"
| "close_arcs now (i # is) d =
     do { (d1, xs) \<leftarrow> with_tcb i (close_connection now) d;
          (d2, ys) \<leftarrow> close_arcs now is d1;
          Some (d2, xs @ ys) }"

text \<open>What closing releases in the table.\<close>

definition release_ports :: "tcp_socket_role \<Rightarrow> tcp_socket_table \<Rightarrow> tcp_socket_table" where
  "release_ports r tb =
     (case r of
        Listener l \<Rightarrow> tb\<lparr>listeners := (listeners tb)(lst_port l := None)\<rparr>
      | Bound ip p nic \<Rightarrow> tb\<lparr>bound_ports := (bound_ports tb)(p := None)\<rparr>
      | _ \<Rightarrow> tb)"

definition role_arcs :: "tcp_socket_role \<Rightarrow> arc list" where
  "role_arcs r = (case r of Listener l \<Rightarrow> lst_pending l | Connected i \<Rightarrow> [i] | _ \<Rightarrow> [])"

definition socket_close ::
  "instant \<Rightarrow> tcp_socket_handle \<Rightarrow> tcp_driver \<Rightarrow> (tcp_driver \<times> tx_segment list \<times> (tcp_socket_error + unit)) option" where
  "socket_close now h d =
     (case table_remove (socket_table d) h of
        Inl e \<Rightarrow> Some (d, [], Inl e)
      | Inr (tb, sock) \<Rightarrow>
          map_option (\<lambda>(d', xs). (d', xs, Inr ()))
            (close_arcs now (role_arcs (role sock)) (d\<lparr>socket_table := release_ports (role sock) tb\<rparr>)))"

section \<open>Ports have one owner\<close>

definition holds_bound :: "tcp_socket_table \<Rightarrow> tcp_socket_handle \<Rightarrow> u16 \<Rightarrow> bool" where
  "holds_bound tb h p \<longleftrightarrow> (\<exists>s ip nic. sockets tb h = Some s \<and> role s = Bound ip p nic)"

definition holds_listener :: "tcp_socket_table \<Rightarrow> tcp_socket_handle \<Rightarrow> u16 \<Rightarrow> bool" where
  "holds_listener tb h p \<longleftrightarrow> (\<exists>s l. sockets tb h = Some s \<and> role s = Listener l \<and> lst_port l = p)"

text \<open>The two port maps list exactly the sockets that hold a port, and no port is in both.\<close>

definition ports_ok :: "tcp_socket_table \<Rightarrow> bool" where
  "ports_ok tb \<longleftrightarrow> (\<forall>p h. bound_ports tb p = Some h \<longleftrightarrow> holds_bound tb h p) \<and>
     (\<forall>p h. listeners tb p = Some h \<longleftrightarrow> holds_listener tb h p) \<and>
     (\<forall>p. bound_ports tb p = None \<or> listeners tb p = None)"

lemma holds_set_role:
  "holds_bound (set_role h r tb) h' p = (if h' = h then sockets tb h \<noteq> None \<and> (\<exists>ip nic. r = Bound ip p nic) else holds_bound tb h' p)"
  "holds_listener (set_role h r tb) h' p =
     (if h' = h then sockets tb h \<noteq> None \<and> (\<exists>l. r = Listener l \<and> lst_port l = p) else holds_listener tb h' p)"
  by (auto simp: holds_bound_def holds_listener_def set_role_get)

lemma holds_cong:
  "sockets tb' = sockets tb \<Longrightarrow> holds_bound tb' = holds_bound tb" "sockets tb' = sockets tb \<Longrightarrow> holds_listener tb' = holds_listener tb"
  by (auto simp: holds_bound_def holds_listener_def fun_eq_iff)

lemma holds_insert:
  assumes "sockets tb (next_handle tb) = None" "table_insert tb s = (tb', h)" "role s = Unbound \<or> role s = Connected i"
  shows "holds_bound tb' = holds_bound tb" "holds_listener tb' = holds_listener tb"
    "bound_ports tb' = bound_ports tb" "listeners tb' = listeners tb"
  using assms by (auto simp: table_insert_def alloc_handle_def holds_bound_def holds_listener_def fun_eq_iff split: if_splits)

lemma ports_ok_cong:
  "holds_bound tb' = holds_bound tb \<Longrightarrow> holds_listener tb' = holds_listener tb \<Longrightarrow> bound_ports tb' = bound_ports tb \<Longrightarrow>
   listeners tb' = listeners tb \<Longrightarrow> ports_ok tb' = ports_ok tb"
  by (simp add: ports_ok_def)

lemma ports_ok_insert:
  assumes "ports_ok tb" "sockets tb (next_handle tb) = None" "table_insert tb s = (tb', h)"
    "role s = Unbound \<or> role s = Connected i"
  shows "ports_ok tb'"
  using assms(1) ports_ok_cong [OF holds_insert [OF assms(2-4)]] by simp

lemma ports_ok_new: "ports_ok table_new"
  by (simp add: ports_ok_def holds_bound_def holds_listener_def table_new_def)

lemma ports_ok_create:
  "ports_ok tb \<Longrightarrow> sockets tb (next_handle tb) = None \<Longrightarrow> socket_create tb = (tb', h) \<Longrightarrow> ports_ok tb'"
  unfolding socket_create_def by (rule ports_ok_insert) auto

lemma ports_ok_set_opts: "ports_ok tb \<Longrightarrow> ports_ok (fst (socket_set_opts h s tb))"
  by (cases "sockets tb h")
    (auto simp: socket_set_opts_def table_get_def ports_ok_def holds_bound_def holds_listener_def)

lemma ports_ok_enqueue: "ports_ok tb \<Longrightarrow> ports_ok (enqueue_accepted_connection p i tb)"
proof -
  assume ok: "ports_ok tb"
  have "ports_ok (set_role h (Listener (l\<lparr>lst_pending := q, lst_gate := g\<rparr>)) tb)"
    if "sockets tb h = Some s" "role s = Listener l" for h s l q g
    using ok that by (auto simp: ports_ok_def holds_set_role) (auto simp: holds_bound_def holds_listener_def)
  then show ?thesis
    using ok by (auto simp: enqueue_accepted_connection_def split: option.split tcp_socket_role.split)
qed

text \<open>Giving a port of a table that is fine apart from the socket's own role.\<close>

lemma ports_ok_rebind:
  assumes ok: "ports_ok tb" and sock: "sockets tb h = Some s" "old_port (role s) = Inr old"
    and asg: "assign_port h port old tb = (tb1, Inr p)"
  shows "ports_ok (set_role h (Bound ip p nic) tb1)"
proof -
  define tb0 where "tb0 = (case old of None \<Rightarrow> tb | Some q \<Rightarrow> tb\<lparr>bound_ports := (bound_ports tb)(q := None)\<rparr>)"
  have free: "\<not> port_in_use tb0 p" and tb1: "tb1 = tb0\<lparr>bound_ports := (bound_ports tb0)(p \<mapsto> h)\<rparr>"
    using asg alloc_ephemeral_port_free [of tb0]
    by (auto simp: assign_port_def tb0_def [symmetric] Let_def split: if_splits sum.splits)
  have s0: "sockets tb0 = sockets tb" "listeners tb0 = listeners tb" by (simp_all add: tb0_def split: option.split)
  have b0: "bound_ports tb0 q = Some h' \<longleftrightarrow> h' \<noteq> h \<and> holds_bound tb h' q" for q h'
  proof (cases "role s")
    case (Bound ip' q' nic')
    then have old: "old = Some q'" using sock(2) by simp
    have hq: "holds_bound tb h q'" using Bound sock(1) by (simp add: holds_bound_def)
    have b: "bound_ports tb q = Some h' \<longleftrightarrow> holds_bound tb h' q" for q h' using ok by (simp add: ports_ok_def)
    show ?thesis
    proof (cases "q = q'")
      case True
      have "bound_ports tb q' = Some h" using b hq by blast
      then have "holds_bound tb h' q' \<longleftrightarrow> h' = h" using b [of q' h'] by auto
      then show ?thesis using True by (simp add: tb0_def old)
    next
      case False
      then have "\<not> holds_bound tb h q" using Bound sock(1) by (simp add: holds_bound_def)
      then show ?thesis using False b [of q h'] by (auto simp: tb0_def old)
    qed
  next
    case Unbound
    then have "old = None" "\<not> holds_bound tb h q" using sock by (auto simp: holds_bound_def)
    then show ?thesis using ok unfolding ports_ok_def tb0_def by auto
  qed (use sock(2) in simp_all)
  have l0: "listeners tb q = Some h' \<Longrightarrow> h' \<noteq> h" for q h'
    using ok sock by (cases "role s") (auto simp: ports_ok_def holds_listener_def)
  have none: "bound_ports tb0 p = None" "listeners tb p = None" using free s0 by (simp_all add: port_in_use_def)
  have bo: "bound_ports tb0 q = None \<or> listeners tb q = None" for q
    using ok unfolding ports_ok_def tb0_def by (simp split: option.split)
  have hs: "holds_bound tb1 = holds_bound tb" "holds_listener tb1 = holds_listener tb" "sockets tb1 = sockets tb"
    using tb1 s0 by (simp_all add: holds_bound_def holds_listener_def fun_eq_iff)
  have bp: "bound_ports tb1 = (bound_ports tb0)(p \<mapsto> h)" "listeners tb1 = listeners tb" using tb1 s0 by simp_all
  show ?thesis
    unfolding ports_ok_def
  proof (intro conjI allI)
    fix q h'
    show "bound_ports (set_role h (Bound ip p nic) tb1) q = Some h' \<longleftrightarrow> holds_bound (set_role h (Bound ip p nic) tb1) h' q"
      using b0 [of q h'] none sock(1) by (auto simp: holds_set_role hs bp)
    show "listeners (set_role h (Bound ip p nic) tb1) q = Some h' \<longleftrightarrow> holds_listener (set_role h (Bound ip p nic) tb1) h' q"
      using ok l0 by (auto simp: holds_set_role hs bp ports_ok_def)
    show "bound_ports (set_role h (Bound ip p nic) tb1) q = None \<or> listeners (set_role h (Bound ip p nic) tb1) q = None"
      using bo [of q] none by (auto simp: bp)
  qed
qed

lemma ports_ok_bind:
  assumes ok: "ports_ok tb" and run: "socket_bind iface_ip h port nic tb = (tb', r)"
    and room: "port = 0 \<Longrightarrow> r \<noteq> Inl AddrInUse"
  shows "ports_ok tb'"
proof -
  consider "tb' = tb"
    | s old tb1 e where "sockets tb h = Some s" "old_port (role s) = Inr old" "assign_port h port old tb = (tb1, Inl e)"
        "tb' = tb1" "r = Inl e"
    | s old tb1 p ip where "sockets tb h = Some s" "old_port (role s) = Inr old" "assign_port h port old tb = (tb1, Inr p)"
        "tb' = set_role h (Bound ip p nic) tb1"
    using run by (auto simp: socket_bind_def table_get_def split: option.splits sum.splits prod.splits)
  then show ?thesis
  proof cases
    case 2
    then have "port \<noteq> 0" using room alloc_ephemeral_port_fails(1)
      by (auto simp: assign_port_def Let_def split: sum.splits option.splits)
    then have eq: "tb1 = (case old of None \<Rightarrow> tb | Some p \<Rightarrow>
        tb\<lparr>bound_ports := (bound_ports tb)(p := None, p \<mapsto> h)\<rparr>)"
      using 2(3) by (auto simp: assign_port_def Let_def split: if_splits option.splits)
    show ?thesis
    proof (cases "role s")
      case (Bound ip p nic)
      then have "bound_ports tb p = Some h" using ok 2(1) by (simp add: ports_ok_def holds_bound_def)
      then have "(bound_ports tb)(p := None, p \<mapsto> h) = bound_ports tb" by auto
      moreover have "old = Some p" using 2(2) Bound by simp
      ultimately show ?thesis using ok 2(4) by (simp add: eq)
    qed (use ok 2 eq in simp_all)
  next
    case 3
    show ?thesis unfolding 3(4) by (rule ports_ok_rebind [OF ok 3(1-3)])
  qed (use ok in simp)
qed

lemma ports_ok_listen: "ports_ok tb \<Longrightarrow> ports_ok (fst (socket_listen h backlog tb))"
proof -
  assume ok: "ports_ok tb"
  have "ports_ok (set_role h (Listener l) (tb\<lparr>bound_ports := (bound_ports tb)(p := None), listeners := (listeners tb)(p \<mapsto> h)\<rparr>))"
    (is "ports_ok (set_role h _ ?tb)")
    if s: "sockets tb h = Some s" "role s = Bound ip p nic" and free: "listeners tb p = None" and l: "lst_port l = p"
    for s ip p nic l
  proof -
    have b: "bound_ports tb q = Some h' \<longleftrightarrow> holds_bound tb h' q" "listeners tb q = Some h' \<longleftrightarrow> holds_listener tb h' q"
      "bound_ports tb q = None \<or> listeners tb q = None" for q h' using ok by (simp_all add: ports_ok_def)
    have h: "holds_bound tb h q \<longleftrightarrow> q = p" "\<not> holds_listener tb h q" for q
      using s by (auto simp: holds_bound_def holds_listener_def)
    have own: "bound_ports tb p = Some h" using b(1) h by blast
    have hs: "holds_bound ?tb = holds_bound tb" "holds_listener ?tb = holds_listener tb" by (rule holds_cong, simp)+
    have others: "h' \<noteq> h \<Longrightarrow> \<not> holds_bound tb h' p" "h' \<noteq> h \<Longrightarrow> \<not> holds_listener tb h' p" for h'
      using b(1,2) [of p h'] own free by simp_all
    show ?thesis
      unfolding ports_ok_def
    proof (intro conjI allI)
      fix q h'
      show "bound_ports (set_role h (Listener l) ?tb) q = Some h' \<longleftrightarrow> holds_bound (set_role h (Listener l) ?tb) h' q"
        using b(1) [of q h'] h(1) [of q] others by (cases "h' = h") (auto simp: holds_set_role hs)
      show "listeners (set_role h (Listener l) ?tb) q = Some h' \<longleftrightarrow> holds_listener (set_role h (Listener l) ?tb) h' q"
        using b(2) [of q h'] h(2) [of q] others s l by (cases "h' = h") (auto simp: holds_set_role hs)
      show "bound_ports (set_role h (Listener l) ?tb) q = None \<or> listeners (set_role h (Listener l) ?tb) q = None"
        using b(3) [of q] by auto
    qed
  qed
  then show ?thesis using ok by (auto simp: socket_listen_def table_get_def split: option.split tcp_socket_role.split)
qed

lemma ports_ok_accept:
  assumes ok: "ports_ok tb" and fresh: "sockets tb (next_handle tb) = None" and run: "socket_accept h tb = (tb', r)"
  shows "ports_ok tb'"
proof -
  consider "tb' = tb"
    | s l l' nh i where "sockets tb h = Some s" "role s = Listener l" "lst_port l' = lst_port l"
        "table_insert (set_role h (Listener l') tb) \<lparr>role = Connected i, opts = opts s\<rparr> = (tb', nh)"
  proof (cases "\<exists>s l i rest. sockets tb h = Some s \<and> role s = Listener l \<and> lst_pending l = i # rest")
    case True
    then obtain s l i rest where a: "sockets tb h = Some s" "role s = Listener l" "lst_pending l = i # rest" by blast
    let ?l = "l\<lparr>lst_pending := rest, lst_gate := (if rest = [] then False else lst_gate l)\<rparr>"
    obtain tb2 nh where ins: "table_insert (set_role h (Listener ?l) tb) \<lparr>role = Connected i, opts = opts s\<rparr> = (tb2, nh)"
      by fastforce
    then have "tb' = tb2" using run a by (simp add: socket_accept_def table_get_def Let_def)
    then show ?thesis using a(1,2) ins by (intro that(2) [of s l ?l i nh]) simp_all
  next
    case False
    then show ?thesis using run
      by (intro that(1)) (auto simp: socket_accept_def table_get_def
          split: option.splits tcp_socket_role.splits list.splits)
  qed
  then show ?thesis
  proof cases
    case 2
    have "ports_ok (set_role h (Listener l') tb)"
      using ok 2(1-3) by (auto simp: ports_ok_def holds_set_role) (auto simp: holds_bound_def holds_listener_def)
    moreover have "sockets (set_role h (Listener l') tb) (next_handle (set_role h (Listener l') tb)) = None"
      using fresh 2(1) by (auto simp: set_role_get)
    ultimately show ?thesis using 2(4) by (rule ports_ok_insert) simp
  qed (use ok in simp)
qed

lemma ports_ok_close:
  assumes ok: "ports_ok tb" and rm: "table_remove tb h = Inr (tb', s)"
  shows "ports_ok (release_ports (role s) tb')"
proof -
  have s: "sockets tb h = Some s" and tb': "tb' = tb\<lparr>sockets := (sockets tb)(h := None)\<rparr>"
    using rm by (simp_all add: table_remove_def split: option.splits)
  have b: "bound_ports tb q = Some h' \<longleftrightarrow> holds_bound tb h' q" "listeners tb q = Some h' \<longleftrightarrow> holds_listener tb h' q"
    "bound_ports tb q = None \<or> listeners tb q = None" for q h' using ok by (simp_all add: ports_ok_def)
  have so: "sockets (release_ports (role s) tb') = (sockets tb)(h := None)"
    by (simp add: release_ports_def tb' split: tcp_socket_role.split)
  then have hs: "holds_bound (release_ports (role s) tb') h' q \<longleftrightarrow> h' \<noteq> h \<and> holds_bound tb h' q"
    "holds_listener (release_ports (role s) tb') h' q \<longleftrightarrow> h' \<noteq> h \<and> holds_listener tb h' q" for h' q
    by (auto simp: holds_bound_def holds_listener_def)
  have own: "bound_ports (release_ports (role s) tb') q = (if bound_ports tb q = Some h then None else bound_ports tb q)"
    "listeners (release_ports (role s) tb') q = (if listeners tb q = Some h then None else listeners tb q)" for q
    using s b(1,2) [of q h] by (auto simp: release_ports_def tb' holds_bound_def holds_listener_def split: tcp_socket_role.split)
  show ?thesis unfolding ports_ok_def hs own b(1,2) [symmetric] using b(3) by auto
qed

text \<open>The tables the socket calls can reach, as long as handles do not wrap onto a live socket, an
  ephemeral bind finds a port, and only unbound sockets are connected.\<close>

inductive table_run :: "tcp_socket_table \<Rightarrow> bool" where
  new: "table_run table_new"
| create: "table_run tb \<Longrightarrow> sockets tb (next_handle tb) = None \<Longrightarrow> socket_create tb = (tb', h) \<Longrightarrow> table_run tb'"
| set_opts: "table_run tb \<Longrightarrow> table_run (fst (socket_set_opts h s tb))"
| bind: "table_run tb \<Longrightarrow> socket_bind iface_ip h port nic tb = (tb', r) \<Longrightarrow> (port = 0 \<Longrightarrow> r \<noteq> Inl AddrInUse) \<Longrightarrow> table_run tb'"
| listen: "table_run tb \<Longrightarrow> table_run (fst (socket_listen h backlog tb))"
| enqueue: "table_run tb \<Longrightarrow> table_run (enqueue_accepted_connection port i tb)"
| accept: "table_run tb \<Longrightarrow> sockets tb (next_handle tb) = None \<Longrightarrow> socket_accept h tb = (tb', r) \<Longrightarrow> table_run tb'"
| connect: "table_run tb \<Longrightarrow> sockets tb h = Some s \<Longrightarrow> role s = Unbound \<Longrightarrow> table_run (fst (socket_connect_finish h c tb))"
| close: "table_run tb \<Longrightarrow> table_remove tb h = Inr (tb', s) \<Longrightarrow> table_run (release_ports (role s) tb')"

lemma ports_ok_connect:
  assumes "ports_ok tb" "sockets tb h = Some s" "role s = Unbound"
  shows "ports_ok (fst (socket_connect_finish h c tb))"
proof (cases c)
  case (Inr i)
  have "holds_bound (set_role h (Connected i) tb) = holds_bound tb" "holds_listener (set_role h (Connected i) tb) = holds_listener tb"
    using assms(2,3) by (auto simp: fun_eq_iff holds_set_role) (auto simp: holds_bound_def holds_listener_def)
  then show ?thesis using assms(1) ports_ok_cong [of "set_role h (Connected i) tb" tb]
    by (simp add: socket_connect_finish_def Inr)
qed (use assms in \<open>simp add: socket_connect_finish_def\<close>)

lemma table_run_ports_ok: "table_run tb \<Longrightarrow> ports_ok tb"
  by (induction rule: table_run.induct)
    (auto intro: ports_ok_new ports_ok_create ports_ok_set_opts ports_ok_bind ports_ok_listen ports_ok_enqueue
      ports_ok_accept ports_ok_connect ports_ok_close)


text \<open>A socket created, bound to port 80 and set to listen.\<close>

definition example_table :: tcp_socket_table where
  "example_table = fst (socket_listen 1 4 (fst (socket_bind (\<lambda>_. Some [10, 0, 0, 1]) 1 80 0 (fst (socket_create table_new)))))"

lemma example_created:
  "socket_create table_new = (\<lparr>sockets = [1 \<mapsto> \<lparr>role = Unbound, opts = settings_default\<rparr>], listeners = Map.empty,
     bound_ports = Map.empty, next_handle = 2\<rparr>, 1)"
  by (simp add: socket_create_def table_insert_def alloc_handle_def table_new_def max_def word_le_nat_alt)

lemma example_bound:
  "socket_bind (\<lambda>_. Some [10, 0, 0, 1]) 1 80 0 (fst (socket_create table_new)) =
     (\<lparr>sockets = [1 \<mapsto> \<lparr>role = Bound [10, 0, 0, 1] 80 0, opts = settings_default\<rparr>], listeners = Map.empty,
       bound_ports = [80 \<mapsto> 1], next_handle = 2\<rparr>, Inr ())"
  by (simp add: example_created socket_bind_def table_get_def assign_port_def port_in_use_def set_role_def)

lemma example_table_run: "table_run example_table" "holds_listener example_table 1 80"
proof -
  have "table_run (fst (socket_create table_new))"
    by (rule table_run.create [OF table_run.new]) (simp_all add: example_created, simp add: table_new_def)
  then have "table_run (fst (socket_bind (\<lambda>_. Some [10, 0, 0, 1]) 1 80 0 (fst (socket_create table_new))))"
    using table_run.bind [OF _ example_bound] by (simp add: example_bound)
  then show "table_run example_table" unfolding example_table_def by (rule table_run.listen)
  show "holds_listener example_table 1 80"
    by (simp add: example_table_def example_bound socket_listen_def table_get_def set_role_def holds_listener_def)
qed


section \<open>A port that is never released\<close>

lemma close_connection_returns:
  assumes "sack_wf (sack t)"
  obtains t' xs where "close_connection now t = Some (t', xs)"
proof (cases "state t \<in> {Established, SynReceived, CloseWait}")
  case True
  then show ?thesis using close_connection_total [OF assms] that by metis
next
  case False
  then have "close_connection now t = Some (t, [])" by (cases "state t") (simp_all add: close_connection_def)
  then show ?thesis by (rule that)
qed

text \<open>C37: a bound socket that is connected keeps its entry in \<open>bound_ports\<close>, and closing it releases only the
  ports of bound and listening sockets. The handle is gone, the port stays in use for good.\<close>

theorem connect_leaks_port:
  assumes "sockets (socket_table d) h = Some s" "role s = Bound ip p nic" "bound_ports (socket_table d) p = Some h"
    "sack_wf (sack (tcbs d ! i))"
  shows "\<exists>d' xs. socket_close now h (d\<lparr>socket_table := fst (socket_connect_finish h (Inr i) (socket_table d))\<rparr>) =
      Some (d', xs, Inr ()) \<and>
    sockets (socket_table d') h = None \<and> port_in_use (socket_table d') p"
proof -
  obtain t' xs where "close_connection now (tcbs d ! i) = Some (t', xs)"
    by (rule close_connection_returns [OF assms(4)])
  then show ?thesis
    using assms(1-3)
    by (simp add: socket_close_def socket_connect_finish_def table_remove_def set_role_def role_arcs_def
        release_ports_def with_tcb_def port_in_use_def)
qed

theorem connect_leaks_port_witness:
  "\<exists>d' xs. socket_close 0 1 (driver_new\<lparr>tcbs := [example_tcb], socket_table := fst (socket_connect_finish 1 (Inr 0)
      (fst (socket_bind (\<lambda>_. Some [10, 0, 0, 1]) 1 80 0 (fst (socket_create table_new)))))\<rparr>) = Some (d', xs, Inr ()) \<and>
     port_in_use (socket_table d') 80"
  using connect_leaks_port [of "driver_new\<lparr>tcbs := [example_tcb], socket_table :=
      fst (socket_bind (\<lambda>_. Some [10, 0, 0, 1]) 1 80 0 (fst (socket_create table_new)))\<rparr>" 1
      "\<lparr>role = Bound [10, 0, 0, 1] 80 0, opts = settings_default\<rparr>" "[10, 0, 0, 1]" 80 0 0 0]
  by (auto simp: example_bound sack_wf_new)

end
