(* ===== verification/Tcp_Wire.thy ===== *)
theory Tcp_Wire
  imports Tcp_Driver
begin

text \<open>
  The two ends of the wire fit: what \<open>net_send_tcp_datagram_with_options\<close> serialises is what the checks of
  \<open>process_data\<close> take apart again.
\<close>

section \<open>Serialisation\<close>

lemma net_send_bytes:
  assumes "length (tx_options x) \<le> 40" "length (tx_payload x) \<le> SLOT_SIZE"
    "set_offset (tx_header x) (of_nat ((20 + length (tx_options x)) div 4)) = Some h1"
  shows "net_send_tcp_datagram_with_options x = Some (header_as_bytes (h1\<lparr>checksum :=
      calculate_tcp_checksum (local_ip (tx_tuple x)) (remote_ip (tx_tuple x)) (header_as_bytes h1 @ tx_options x) (tx_payload x)\<rparr>)
    @ tx_options x @ tx_payload x)" (is "_ = Some (header_as_bytes ?h2 @ _)")
proof -
  obtain b0 where b0: "for_transmit (replicate (DEFAULT_HEADER_RESERVE + SLOT_SIZE) 0) DEFAULT_HEADER_RESERVE = Some b0"
    "pb_inv b0" "pb_payload b0 = []" "pb_payload_start b0 = DEFAULT_HEADER_RESERVE" "pb_buffer_start b0 = 0"
    "pb_payload_end b0 = DEFAULT_HEADER_RESERVE" "pb_buffer_end b0 = DEFAULT_HEADER_RESERVE + SLOT_SIZE"
    using for_transmit_spec [of DEFAULT_HEADER_RESERVE "replicate (DEFAULT_HEADER_RESERVE + SLOT_SIZE) (0 :: u8)"] by auto
  obtain b1 where b1: "append_data b0 (tx_payload x) = Some b1" "pb_inv b1" "pb_payload b1 = tx_payload x"
    "pb_payload_start b1 = DEFAULT_HEADER_RESERVE" "pb_buffer_start b1 = 0"
    using append_data_spec [OF b0(2), of "tx_payload x"] b0 assms(2) by auto
  obtain b2 where b2: "(if tx_options x \<noteq> [] then prepend_bytes b1 (tx_options x) else Some b1) = Some b2" "pb_inv b2"
    "pb_payload b2 = tx_options x @ tx_payload x" "pb_payload_start b2 = DEFAULT_HEADER_RESERVE - length (tx_options x)"
    "pb_buffer_start b2 = 0"
  proof (cases "tx_options x = []")
    case True
    then show ?thesis using that b1 by simp
  next
    case False
    then show ?thesis using that prepend_bytes_spec [OF b1(2), of "tx_options x"] b1 assms(1)
      by (auto simp: DEFAULT_HEADER_RESERVE_def)
  qed
  have "pb_buffer_start b2 + length (header_as_bytes ?h2) \<le> pb_payload_start b2"
    using b2(4,5) assms(1) by (simp add: DEFAULT_HEADER_RESERVE_def)
  from prepend_bytes_spec [OF b2(2) this]
  obtain b3 where b3: "prepend_bytes b2 (header_as_bytes ?h2) = Some b3" "pb_payload b3 = header_as_bytes ?h2 @ pb_payload b2"
    by metis
  show ?thesis
    using b0(1) b1(1) b2(1,3) b3 assms(1,3)
    by (simp add: net_send_tcp_datagram_with_options_def Let_def)
qed

lemma offset_word:
  assumes "n < 16"
  shows "unat (drop_bit 4 ((w AND 0x0F) OR push_bit 4 (of_nat n)) AND 0x0F :: u8) = n"
proof -
  have m: "(0x0F :: u8) = mask 4" by (simp add: mask_eq_exp_minus_1)
  have "(of_nat n :: u8) = take_bit 4 (of_nat n)" using assms by (simp add: take_bit_of_nat take_bit_nat_eq_self)
  then have b: "bit (of_nat n :: u8) i \<Longrightarrow> i < 4" for i by (metis bit_take_bit_iff)
  have "drop_bit 4 ((w AND 0x0F) OR push_bit 4 (of_nat n)) AND 0x0F = (of_nat n :: u8)"
    unfolding m by (rule bit_word_eqI) (use b in \<open>auto simp: bit_simps\<close>)
  then show ?thesis using assms by (simp add: unat_of_nat take_bit_eq_mod)
qed

lemma header_len_after_offset:
  assumes "length ov \<le> 40" "length ov mod 4 = 0"
  obtains h1 where "set_offset h (of_nat ((20 + length ov) div 4)) = Some h1" "header_len_bytes h1 = 20 + length ov"
    "h1\<lparr>offset_res := 0\<rparr> = h\<lparr>offset_res := 0\<rparr>"
proof -
  let ?n = "(20 + length ov) div 4"
  have n: "5 \<le> ?n" "?n \<le> 15" "?n * 4 = 20 + length ov" using assms by auto
  then have "5 \<le> (of_nat ?n :: u8)" "(of_nat ?n :: u8) \<le> 15"
    by (simp_all add: word_le_nat_alt unat_of_nat take_bit_eq_mod)
  then have "set_offset h (of_nat ?n) = Some (h\<lparr>offset_res := (offset_res h AND 0x0F) OR push_bit 4 (of_nat ?n)\<rparr>)"
    by (simp add: set_offset_def)
  moreover have "header_len_bytes (h\<lparr>offset_res := (offset_res h AND 0x0F) OR push_bit 4 (of_nat ?n)\<rparr>) = 20 + length ov"
    using offset_word [of ?n "offset_res h"] n by (simp add: header_len_bytes_def get_offset_def)
  ultimately show ?thesis by (rule that) simp
qed

section \<open>The checksum test\<close>

lemma clear_checksum:
  "(header_as_bytes (h\<lparr>checksum := c\<rparr>) @ rest)[16 := 0, 17 := 0] = header_as_bytes (h\<lparr>checksum := 0\<rparr>) @ rest"
  by (simp add: header_as_bytes_def u16_to_be_def u32_to_be_def list_update_append)

lemma parse_serialised:
  assumes "header_len_bytes h = 20 + length ov" "checksum h = 0"
    "c = calculate_tcp_checksum src dst (header_as_bytes h @ ov) payload"
  shows "parse_segment src dst (header_as_bytes (h\<lparr>checksum := c\<rparr>) @ ov @ payload) = Parsed (h\<lparr>checksum := c\<rparr>) ov payload"
proof -
  have h: "h\<lparr>checksum := 0\<rparr> = h" using assms(2) by simp
  have "header_len_bytes (h\<lparr>checksum := c\<rparr>) = 20 + length ov"
    using assms(1) by (simp add: header_len_bytes_def get_offset_def)
  then show ?thesis
    using assms(3) by (simp add: parse_segment_def header_roundtrip clear_checksum h slice_def Let_def)
qed

text \<open>C9: a segment survives the wire. Whatever header, option block and payload the stack sends, the bytes
  it puts into the packet pass the receiver's length and checksum tests, and the receiver's parser
  gives back the same options, the same payload and the same header, up to the data offset and the
  checksum the sender filled in.\<close>

theorem segment_survives_wire:
  assumes "length (tx_options x) \<le> 40" "length (tx_options x) mod 4 = 0" "length (tx_payload x) \<le> SLOT_SIZE"
    "checksum (tx_header x) = 0"
  shows "\<exists>bytes h. net_send_tcp_datagram_with_options x = Some bytes \<and>
    parse_segment (local_ip (tx_tuple x)) (remote_ip (tx_tuple x)) bytes = Parsed h (tx_options x) (tx_payload x) \<and>
    h\<lparr>offset_res := 0, checksum := 0\<rparr> = (tx_header x)\<lparr>offset_res := 0\<rparr>"
proof -
  obtain h1 where h1: "set_offset (tx_header x) (of_nat ((20 + length (tx_options x)) div 4)) = Some h1"
    "header_len_bytes h1 = 20 + length (tx_options x)" "h1\<lparr>offset_res := 0\<rparr> = (tx_header x)\<lparr>offset_res := 0\<rparr>"
    by (rule header_len_after_offset [OF assms(1,2)])
  have "checksum h1 = checksum (h1\<lparr>offset_res := 0\<rparr>)" by simp
  also have "\<dots> = 0" unfolding h1(3) using assms(4) by simp
  finally have c: "checksum h1 = 0" .
  let ?c = "calculate_tcp_checksum (local_ip (tx_tuple x)) (remote_ip (tx_tuple x)) (header_as_bytes h1 @ tx_options x) (tx_payload x)"
  have "(h1\<lparr>checksum := ?c\<rparr>)\<lparr>offset_res := 0, checksum := 0\<rparr> = h1\<lparr>offset_res := 0\<rparr>" using c by simp
  then show ?thesis
    using net_send_bytes [OF assms(1,3) h1(1)] parse_serialised [OF h1(2) c refl] h1(3) by auto
qed

theorem segment_survives_wire_witness:
  "\<exists>bytes h. net_send_tcp_datagram_with_options \<lparr>tx_tuple = example_tuple, tx_header = header_new example_tcb,
      tx_options = [1, 1, 1, 1], tx_payload = [104, 105], tx_tos = 0\<rparr> = Some bytes \<and>
    parse_segment [10, 0, 0, 1] [10, 0, 0, 2] bytes = Parsed h [1, 1, 1, 1] [104, 105]"
proof -
  have "checksum (header_new example_tcb) = 0" by (simp add: header_new_def set_offset_def Let_def)
  with segment_survives_wire [of "\<lparr>tx_tuple = example_tuple, tx_header = header_new example_tcb,
      tx_options = [1, 1, 1, 1], tx_payload = [104, 105], tx_tos = 0\<rparr>"]
  show ?thesis by (auto simp: SLOT_SIZE_def example_tuple_def)
qed

end
