(* ===== verification/Tcp_Connections.thy ===== *)
theory Tcp_Connections
  imports Tcp_Wire
begin

text \<open>
  The driver as a map from connection tuples to control blocks. The invariant of its store and table is
  kept by every operation, and a segment touches no connection but the one it is addressed to.
\<close>

section \<open>Invariant and abstraction\<close>

definition driver_ok :: "tcp_driver \<Rightarrow> bool" where
  "driver_ok d \<longleftrightarrow> distinct (map fst (connections d)) \<and>
     (\<forall>(tu, i)\<in>set (connections d). i < length (tcbs d) \<and> tuple (tcbs d ! i) = tu) \<and>
     (\<forall>t\<in>set (tcbs d). sack_wf (sack t))"

definition lookup :: "tcp_driver \<Rightarrow> connection_tuple \<Rightarrow> tcp_control_block option" where
  "lookup d tu = map_option (\<lambda>i. tcbs d ! i) (map_of (connections d) tu)"

lemma driver_ok_new: "driver_ok driver_new"
  by (simp add: driver_ok_def driver_new_def)

lemma driver_okD:
  assumes "driver_ok d" "map_of (connections d) tu = Some i"
  shows "i < length (tcbs d)" "tuple (tcbs d ! i) = tu" "sack_wf (sack (tcbs d ! i))"
  using assms map_of_SomeD [OF assms(2)] by (auto simp: driver_ok_def)

lemma driver_ok_table: "driver_ok (d\<lparr>socket_table := tb\<rparr>) = driver_ok d" "lookup (d\<lparr>socket_table := tb\<rparr>) = lookup d"
  by (simp_all add: driver_ok_def lookup_def fun_eq_iff)

lemma driver_update:
  assumes ok: "driver_ok d" and i: "map_of (connections d) tu = Some i" and t: "tuple t = tu" "sack_wf (sack t)"
  shows "driver_ok (d\<lparr>tcbs := (tcbs d)[i := t]\<rparr>)" "lookup (d\<lparr>tcbs := (tcbs d)[i := t]\<rparr>) = (lookup d)(tu \<mapsto> t)"
proof -
  have il: "i < length (tcbs d)" "tuple (tcbs d ! i) = tu" using driver_okD [OF ok i] by simp_all
  have "j < length (tcbs d)" "tuple ((tcbs d)[i := t] ! j) = tu'" if "(tu', j) \<in> set (connections d)" for tu' j
    using ok that il t(1) by (auto simp: driver_ok_def nth_list_update)
  then show "driver_ok (d\<lparr>tcbs := (tcbs d)[i := t]\<rparr>)"
    using ok t(2) set_update_subset_insert [of "tcbs d" i t] by (fastforce simp: driver_ok_def)
  show "lookup (d\<lparr>tcbs := (tcbs d)[i := t]\<rparr>) = (lookup d)(tu \<mapsto> t)"
  proof (rule ext)
    fix tu'
    show "lookup (d\<lparr>tcbs := (tcbs d)[i := t]\<rparr>) tu' = ((lookup d)(tu \<mapsto> t)) tu'"
    proof (cases "map_of (connections d) tu'")
      case (Some j)
      then have "tuple (tcbs d ! j) = tu'" using driver_okD [OF ok] by simp
      then have "j = i \<Longrightarrow> tu' = tu" using il by simp
      then show ?thesis using Some i il by (auto simp: lookup_def nth_list_update)
    qed (use i in \<open>auto simp: lookup_def\<close>)
  qed
qed

lemma alist_update_new: "map_of ps k = None \<Longrightarrow> AList.update k v ps = ps @ [(k, v)]"
  by (induction ps) (auto split: if_splits)

lemma driver_insert:
  assumes ok: "driver_ok d" and new: "map_of (connections d) tu = None" and t: "tuple t = tu" "sack_wf (sack t)"
  defines "d' \<equiv> d\<lparr>tcbs := tcbs d @ [t], connections := AList.update tu (length (tcbs d)) (connections d)\<rparr>"
  shows "driver_ok d'" "lookup d' = (lookup d)(tu \<mapsto> t)"
proof -
  show "driver_ok d'"
    unfolding d'_def alist_update_new [OF new] using ok new t by (auto simp: driver_ok_def nth_append map_of_eq_None_iff)
  show "lookup d' = (lookup d)(tu \<mapsto> t)"
  proof (rule ext)
    fix tu'
    show "lookup d' tu' = ((lookup d)(tu \<mapsto> t)) tu'"
      using driver_okD(1) [OF ok, of tu'] by (cases "map_of (connections d) tu'") (auto simp: d'_def lookup_def update_conv nth_append)
  qed
qed

lemma driver_delete:
  assumes ok: "driver_ok d"
  shows "driver_ok (d\<lparr>connections := AList.delete tu (connections d)\<rparr>)"
    "lookup (d\<lparr>connections := AList.delete tu (connections d)\<rparr>) = (lookup d)(tu := None)"
proof -
  show "driver_ok (d\<lparr>connections := AList.delete tu (connections d)\<rparr>)"
    using ok by (auto simp: driver_ok_def AList.delete_eq distinct_map_filter)
  show "lookup (d\<lparr>connections := AList.delete tu (connections d)\<rparr>) = (lookup d)(tu := None)"
    by (auto simp: lookup_def fun_eq_iff delete_conv)
qed

section \<open>Handlers on one control block\<close>

definition keeps :: "tcp_control_block \<Rightarrow> tcp_control_block \<Rightarrow> bool" where
  "keeps t t' \<longleftrightarrow> tuple t' = tuple t \<and> (sack_wf (sack t) \<longrightarrow> sack_wf (sack t'))"

lemma keeps_refl [simp]: "keeps t t"
  by (simp add: keeps_def)

lemma keeps_trans [trans]: "keeps t t' \<Longrightarrow> keeps t' t'' \<Longrightarrow> keeps t t''"
  by (simp add: keeps_def)

lemma keeps_view: "rx_view t' = rx_view t \<Longrightarrow> keeps t t'"
  using sack_wf_view [of t' t] by (simp add: keeps_def rx_view_def)

lemma keeps_sack: "tuple t' = tuple t \<Longrightarrow> sack t' = sack t \<Longrightarrow> keeps t t'"
  by (simp add: keeps_def)

lemma keeps_sound:
  assumes "sound f" "sack_wf (sack t)"
  obtains t' xs where "f t = Some (t', xs)" "keeps t t'"
  using soundE [OF assms] keeps_view that by metis

lemma keeps_options: "keeps t (apply_peer_tcp_options now t options s)"
proof -
  have o: "keeps u (apply_option now s u ov)" for u ov by (cases ov) (simp_all add: keeps_def sack_wf_def rx_live_def)
  have "keeps u (foldl (apply_option now s) u os)" for u os
    by (induction os arbitrary: u) (auto intro: keeps_trans o)
  also have "keeps u (recompute_effective_mss u)" for u by (rule keeps_sack) (simp_all add: recompute_effective_mss_def Let_def)
  finally show ?thesis by (simp add: apply_peer_tcp_options_def)
qed

lemma establish_active_keeps: "keeps t (establish_active now h options t)"
proof -
  define t1 where "t1 = apply_peer_tcp_options now t options (sequence_number h)"
  define t3 where "t3 = complete_syn_probe now (ack_number h) (syn_ack_timestamps now (sequence_number h) options t1)"
  have "rx_view (recompute_effective_mss u) = rx_view u" for u by (simp add: recompute_effective_mss_def rx_view_def Let_def)
  then have "rx_view t3 = rx_view t1"
    by (simp add: t3_def complete_syn_probe_def syn_ack_timestamps_def views Let_def split: option.split)
  then have "keeps t t3" using keeps_trans [OF keeps_options keeps_view] by (simp add: t1_def)
  also have "keeps t3 (establish_active now h options t)"
    by (rule keeps_sack) (simp_all add: establish_active_def t1_def t3_def drain_retransmission_queue_def Let_def)
  finally show ?thesis .
qed

lemma syn_ack_handler:
  assumes "sack_wf (sack t)"
  obtains r t' xs where "process_syn_ack now t h options = Some r" "r \<in> {Finished (t', xs), Spinning (t', xs)}" "keeps t t'"
proof -
  define t1 where "t1 = establish_active now h options t"
  have k1: "keeps t t1" by (simp add: t1_def establish_active_keeps)
  then have wf1: "sack_wf (sack t1)" using assms by (simp add: keeps_def)
  obtain t2 xs where 2: "net_send_from_tcb now t1 (set_flag (header_new t1) ACK True) [] = Some (t2, xs)" "keeps t1 t2"
    by (rule keeps_sound [OF sound_net_send wf1])
  obtain t3 ys where 3: "net_send_from_tcb now t (set_flag (header_new t) ACK True) [] = Some (t3, ys)" "keeps t t3"
    by (rule keeps_sound [OF sound_net_send assms])
  define t4 where "t4 = t\<lparr>state := Closed, last_error := Some ConnectionReset, retransmission_queue := [],
    rtt_m := (rtt_m t)\<lparr>rtt_probe := None\<rparr>, event := event t + 1, handshake_gate := True\<rparr>"
  have k4: "keeps t t4" by (simp add: t4_def keeps_def)
  have eq: "process_syn_ack now t h options =
     Some (if is_rst h then Finished (t4, []) else if state t = Established then Finished (t3, ys)
       else if state t \<noteq> SynSent then Finished (t, [])
       else if \<not> is_acceptable_ack t (ack_number h) then Finished (t, [send_standalone_rst (tuple t) h])
       else Spinning (t2, xs))"
    unfolding process_syn_ack_def t4_def [symmetric] t1_def [symmetric] Let_def 2 3 by simp
  show ?thesis
  proof (rule that [OF eq])
    let ?t = "if is_rst h then t4 else if state t = Established then t3 else if state t \<noteq> SynSent then t
      else if \<not> is_acceptable_ack t (ack_number h) then t else t2"
    show "keeps t ?t" using k4 3(2) keeps_trans [OF k1 2(2)] by simp
    let ?xs = "if is_rst h then [] else if state t = Established then ys else if state t \<noteq> SynSent then []
      else if \<not> is_acceptable_ack t (ack_number h) then [send_standalone_rst (tuple t) h] else xs"
    show "(if is_rst h then Finished (t4, []) else if state t = Established then Finished (t3, ys)
       else if state t \<noteq> SynSent then Finished (t, [])
       else if \<not> is_acceptable_ack t (ack_number h) then Finished (t, [send_standalone_rst (tuple t) h])
       else Spinning (t2, xs)) \<in> {Finished (?t, ?xs), Spinning (?t, ?xs)}" by simp
  qed
qed

lemma syn_received_handler:
  assumes "sack_wf (sack t)"
  obtains t' xs port where "process_syn_received_ack fp now clk h payload options ip_ecn t = Some (t', xs, port)" "keeps t t'"
proof -
  define t1 where "t1 = drain_retransmission_queue (ack_number h) (t\<lparr>snd_una := ack_number h\<rparr>)"
  define t2 where "t2 = t1\<lparr>state := Established, event := event t1 + 1\<rparr>"
  have k2: "keeps t t2" by (simp add: t2_def t1_def drain_retransmission_queue_def keeps_def)
  then have "sack_wf (sack t2)" using assms by (simp add: keeps_def)
  from process_data_datagram_outcome [OF this, of fp now clk payload h options ip_ecn]
  obtain t3 xs where 3: "process_data_datagram fp now clk payload h options ip_ecn t2 = Some (t3, xs)" "keeps t2 t3"
    by (auto simp: keeps_def)
  define t4 where "t4 = t\<lparr>state := Closed, last_error := Some ConnectionReset, event := event t + 1\<rparr>"
  have k: "keeps t t4" "keeps t t3" using keeps_trans [OF k2 3(2)] by (simp_all add: t4_def keeps_def)
  define r where "r = (if is_rst h then (t4, [], None)
    else if state t \<noteq> SynReceived \<or> \<not> is_ack h \<or> \<not> is_acceptable_ack t (ack_number h) then (t, [], None)
    else if payload \<noteq> [] \<or> options \<noteq> [] then (t3, xs, Some (local_port (tuple t2))) else (t2, [], Some (local_port (tuple t2))))"
  have "process_syn_received_ack fp now clk h payload options ip_ecn t = Some (fst r, fst (snd r), snd (snd r))"
    unfolding process_syn_received_ack_def t4_def [symmetric] t1_def [symmetric] Let_def t2_def [symmetric] 3 r_def by simp
  then show ?thesis by (rule that) (use k k2 in \<open>simp add: r_def\<close>)
qed

section \<open>Options of the handshake\<close>

text \<open>What the options of a SYN or SYN-ACK parse to.\<close>

definition handshake_contents :: "tcp_session_settings \<Rightarrow> (u32 \<times> u32) option \<Rightarrow> tcp_option list" where
  "handshake_contents s tsopt = Mss DEFAULT_MSS #
     (if set_wnd_scale_enabled s then [WindowScale (set_rcv_wscale s)] else []) @
     (if set_sack_enabled s then [SackPermitted] else []) @
     (case tsopt of None \<Rightarrow> [] | Some (a, b) \<Rightarrow> [Timestamp a b])"

text \<open>\<open>wrote w w' n os\<close>: \<open>w'\<close> is \<open>w\<close> followed by at most \<open>n\<close> bytes that parse to \<open>os\<close> and padding.\<close>

definition wrote :: "tcp_options_writer \<Rightarrow> tcp_options_writer \<Rightarrow> nat \<Rightarrow> tcp_option list \<Rightarrow> bool" where
  "wrote w w' n os \<longleftrightarrow> ow_inv w' \<and> ow_len w' \<le> ow_len w + n \<and>
     (\<exists>bytes ps. ow_bytes w' = ow_bytes w @ bytes \<and> parses bytes ps \<and> filter (\<lambda>p. p \<noteq> NoOp) ps = os)"

lemma wrote_put:
  assumes "ow_inv w" "ow_len w + length bytes \<le> 40" "parses bytes ps"
  obtains w' where "ow_put w bytes = Some w'" "wrote w w' (length bytes) (filter (\<lambda>p. p \<noteq> NoOp) ps)"
proof -
  obtain w' where "ow_put w bytes = Some w'" "ow_inv w'" "ow_bytes w' = ow_bytes w @ bytes" "ow_len w' = ow_len w + length bytes"
    by (rule ow_put_Some [OF assms(1,2)])
  then show ?thesis using that assms(3) unfolding wrote_def by (metis le_refl)
qed

lemma wrote_refl: "ow_inv w \<Longrightarrow> wrote w w 0 []"
  unfolding wrote_def using parses_Nil by fastforce

lemma wrote_trans:
  assumes "wrote w w' n os" "wrote w' w'' m ps"
  shows "wrote w w'' (n + m) (os @ ps)"
proof -
  obtain b qs where 1: "ow_bytes w' = ow_bytes w @ b" "parses b qs" "filter (\<lambda>p. p \<noteq> NoOp) qs = os" using assms(1) by (auto simp: wrote_def)
  obtain c rs where 2: "ow_bytes w'' = ow_bytes w' @ c" "parses c rs" "filter (\<lambda>p. p \<noteq> NoOp) rs = ps" using assms(2) by (auto simp: wrote_def)
  have "ow_bytes w'' = ow_bytes w @ b @ c" "parses (b @ c) (qs @ rs)" "filter (\<lambda>p. p \<noteq> NoOp) (qs @ rs) = os @ ps"
    using 1 2 by (simp_all add: parses_append)
  then show ?thesis using assms unfolding wrote_def by (intro conjI exI [of _ "b @ c"] exI [of _ "qs @ rs"]) auto
qed

lemma wrote_pushes:
  assumes "ow_inv w" "ow_len w + 12 \<le> 40"
  shows "\<exists>w'. push_mss w m = Some w' \<and> wrote w w' 4 [Mss m]"
    "\<exists>w'. push_window_scale w v = Some w' \<and> wrote w w' 3 [WindowScale v]"
    "\<exists>w'. push_sack_permitted w = Some w' \<and> wrote w w' 4 [SackPermitted]"
    "\<exists>w'. push_timestamp w a b = Some w' \<and> wrote w w' 12 [Timestamp a b]"
proof -
  have nops: "parses ([TCP_OPT_NOP, TCP_OPT_NOP] @ b) ([NoOp, NoOp] @ ps)" if "parses b ps" for b ps
    by (rule parses_append [OF parses_two_NOPs that])
  have put: "\<exists>w'. ow_put w bytes = Some w' \<and> wrote w w' n (filter (\<lambda>p. p \<noteq> NoOp) ps)"
    if "length bytes = n" "n \<le> 12" "parses bytes ps" for bytes n ps
    using wrote_put [OF assms(1) _ that(3)] assms(2) that(1,2) by (metis add_le_mono le_refl le_trans)
  show "\<exists>w'. push_mss w m = Some w' \<and> wrote w w' 4 [Mss m]"
    using put [OF _ _ parses_mss [of m], of 4] by (simp add: push_mss_def)
  show "\<exists>w'. push_window_scale w v = Some w' \<and> wrote w w' 3 [WindowScale v]"
    using put [OF _ _ parses_window_scale [of v], of 3] by (simp add: push_window_scale_def)
  show "\<exists>w'. push_sack_permitted w = Some w' \<and> wrote w w' 4 [SackPermitted]"
    using put [OF _ _ nops [OF parses_sack_permitted], of 4] assms by (simp add: push_sack_permitted_def ow_inv_def)
  show "\<exists>w'. push_timestamp w a b = Some w' \<and> wrote w w' 12 [Timestamp a b]"
    using put [OF _ _ nops [OF parses_timestamp [of a b]], of 12] by (simp add: push_timestamp_def)
qed

lemma handshake_options_read:
  obtains bytes where "handshake_options s tsopt = Some bytes" "length bytes \<le> 40" "length bytes mod 4 = 0"
    "filter (\<lambda>p. p \<noteq> NoOp) (parse_options bytes) = handshake_contents s tsopt"
proof -
  have len: "wrote w w' n os \<Longrightarrow> ow_len w' \<le> ow_len w + n" "wrote w w' n os \<Longrightarrow> ow_inv w'" for w w' n os by (simp_all add: wrote_def)
  have none: "ow_inv w \<Longrightarrow> wrote w w n []" for w n using wrote_refl [of w] by (auto simp: wrote_def)
  obtain w1 where 1: "push_mss options_writer_new DEFAULT_MSS = Some w1" "wrote options_writer_new w1 4 [Mss DEFAULT_MSS]"
    using wrote_pushes(1) [of options_writer_new] by auto
  obtain w2 where 2: "(if set_wnd_scale_enabled s then push_window_scale w1 (set_rcv_wscale s) else Some w1) = Some w2"
    "wrote w1 w2 3 (if set_wnd_scale_enabled s then [WindowScale (set_rcv_wscale s)] else [])"
    using wrote_pushes(2) [of w1 "set_rcv_wscale s"] none [of w1 3] len [OF 1(2)] by (cases "set_wnd_scale_enabled s") auto
  obtain w3 where 3: "(if set_sack_enabled s then push_sack_permitted w2 else Some w2) = Some w3"
    "wrote w2 w3 4 (if set_sack_enabled s then [SackPermitted] else [])"
    using wrote_pushes(3) [of w2] none [of w2 4] len [OF 1(2)] len [OF 2(2)] by (cases "set_sack_enabled s") auto
  obtain w4 where 4: "(case tsopt of None \<Rightarrow> Some w3 | Some (a, b) \<Rightarrow> push_timestamp w3 a b) = Some w4"
    "wrote w3 w4 12 (case tsopt of None \<Rightarrow> [] | Some (a, b) \<Rightarrow> [Timestamp a b])"
    using wrote_pushes(4) [of w3] none [of w3 12] len [OF 1(2)] len [OF 2(2)] len [OF 3(2)] by (cases tsopt) auto
  have w: "wrote options_writer_new w4 (4 + (3 + (4 + 12))) (handshake_contents s tsopt)"
    using wrote_trans [OF 1(2) wrote_trans [OF 2(2) wrote_trans [OF 3(2) 4(2)]]] by (simp add: handshake_contents_def)
  obtain k where k: "writer_finish w4 = Some (ow_bytes w4 @ replicate k TCP_OPT_NOP)" "(ow_len w4 + k) mod 4 = 0" "ow_len w4 + k \<le> 40"
    by (rule writer_finish_Some [OF len(2) [OF w]])
  obtain ps where ps: "parses (ow_bytes w4) ps" "filter (\<lambda>p. p \<noteq> NoOp) ps = handshake_contents s tsopt"
    using w by (auto simp: wrote_def)
  have "parse_options (ow_bytes w4 @ replicate k TCP_OPT_NOP) = ps @ replicate k NoOp"
    by (rule parses_whole [OF parses_append [OF ps(1) parses_NOPs]])
  moreover have "handshake_options s tsopt = Some (ow_bytes w4 @ replicate k TCP_OPT_NOP)"
    unfolding handshake_options_def using 1(1) 2(1) 3(1) 4(1) k(1) by simp
  ultimately show ?thesis
    using that k(2,3) ps(2) length_ow_bytes [OF len(2) [OF w]] by (simp add: filter_False)
qed

lemma foldl_skip_noop: "foldl (apply_option now q) t ps = foldl (apply_option now q) t (filter (\<lambda>p. p \<noteq> NoOp) ps)"
  by (induction ps arbitrary: t) auto

text \<open>C11: the options of a handshake arrive. The option block \<open>connect\<close> and \<open>process_passive_syn\<close> write fits in
  the header, and the peer that runs \<open>apply_peer_tcp_options\<close> on it learns exactly what was offered: the
  segment size, the window scale (at most 14), selective acknowledgment and timestamps.\<close>

theorem handshake_negotiates:
  "\<exists>bytes. handshake_options s tsopt = Some bytes \<and> length bytes \<le> 40 \<and> length bytes mod 4 = 0 \<and>
    (let t' = apply_peer_tcp_options now t bytes q in
       peer_mss t' = DEFAULT_MSS \<and>
       (wnd_scale_enabled t', snd_wscale t') =
         (if set_wnd_scale_enabled s then (True, min (set_rcv_wscale s) 14) else (wnd_scale_enabled t, snd_wscale t)) \<and>
       sack_enabled (sack t') = (set_sack_enabled s \<or> sack_enabled (sack t)) \<and>
       (ts_enabled (ts t'), ts_recent (ts t')) =
         (case tsopt of None \<Rightarrow> (ts_enabled (ts t), ts_recent (ts t)) | Some (v, e) \<Rightarrow> (True, v)))"
proof -
  obtain bytes where b: "handshake_options s tsopt = Some bytes" "length bytes \<le> 40" "length bytes mod 4 = 0"
    "filter (\<lambda>p. p \<noteq> NoOp) (parse_options bytes) = handshake_contents s tsopt"
    by (rule handshake_options_read)
  have "apply_peer_tcp_options now t bytes q = recompute_effective_mss (foldl (apply_option now q) t (handshake_contents s tsopt))"
    unfolding apply_peer_tcp_options_def by (subst foldl_skip_noop) (simp add: b(4))
  moreover have r: "peer_mss (recompute_effective_mss u) = peer_mss u" "wnd_scale_enabled (recompute_effective_mss u) = wnd_scale_enabled u"
    "snd_wscale (recompute_effective_mss u) = snd_wscale u" "sack (recompute_effective_mss u) = sack u"
    "ts (recompute_effective_mss u) = ts u" for u by (simp_all add: recompute_effective_mss_def Let_def)
  ultimately show ?thesis
    unfolding Let_def b(1) using b(2,3)
    by (intro exI [of _ bytes]) (cases "set_wnd_scale_enabled s"; cases "set_sack_enabled s"; cases tsopt; force simp: handshake_contents_def r)
qed

section \<open>Segments stay on their connection\<close>

lemma passive_tcb_keeps: "tuple (passive_tcb now rnd isn tu s h options) = tu" "sack_wf (sack (passive_tcb now rnd isn tu s h options))"
proof -
  define t1 where "t1 = (apply_receive_path s (tcb_new now rnd isn tu s))
    \<lparr>state := SynReceived, irs := sequence_number h, rcv_nxt := sequence_number h + 1\<rparr>"
  have t1: "tuple t1 = tu" "sack_wf (sack t1)"
    by (simp_all add: t1_def apply_receive_path_def update_rcv_wnd_from_buffer_def tcb_new_def sack_wf_new Let_def)
  have "keeps t1 (apply_peer_tcp_options now t1 options (sequence_number h))" by (rule keeps_options)
  with t1 show "tuple (passive_tcb now rnd isn tu s h options) = tu" "sack_wf (sack (passive_tcb now rnd isn tu s h options))"
    by (simp_all add: passive_tcb_def t1_def [symmetric] keeps_def Let_def)
qed

text \<open>The value an outcome carries.\<close>

primrec outcome_value :: "'a outcome \<Rightarrow> 'a" where
  "outcome_value (Finished a) = a"
| "outcome_value (Spinning a) = a"

definition confined :: "connection_tuple \<Rightarrow> tcp_driver \<Rightarrow> tcp_driver \<Rightarrow> bool" where
  "confined tu d d' \<longleftrightarrow> driver_ok d' \<and> (\<forall>tu'. tu' \<noteq> tu \<longrightarrow> lookup d' tu' = lookup d tu')"

lemma confined_refl: "driver_ok d \<Longrightarrow> confined tu d d"
  by (simp add: confined_def)

lemma confined_update:
  assumes "driver_ok d" "map_of (connections d) tu = Some i" "keeps (tcbs d ! i) t"
  shows "confined tu d (d\<lparr>tcbs := (tcbs d)[i := t]\<rparr>)"
  using driver_update [OF assms(1,2), of t] driver_okD [OF assms(1,2)] assms(3) by (simp add: confined_def keeps_def)

lemma confined_table: "confined tu d d' \<Longrightarrow> confined tu d (d'\<lparr>socket_table := tb\<rparr>)"
  by (simp add: confined_def driver_ok_table)

lemma confined_with_tcb:
  assumes "driver_ok d" "map_of (connections d) tu = Some i" "f (tcbs d ! i) = Some (t, xs)" "keeps (tcbs d ! i) t"
  shows "\<exists>d' ys. with_tcb i f d = Some (d', ys) \<and> confined tu d d'"
  using assms confined_update [OF assms(1,2,4)] by (simp add: with_tcb_def)

lemma passive_syn_confined:
  assumes ok: "driver_ok d" and new: "map_of (connections d) tu = None" and rd: "rdrand \<noteq> None"
  shows "\<exists>d' xs. process_passive_syn now rnd rdrand tu h options d = Some (d', xs) \<and> confined tu d d'"
proof (cases "listener_opts_for_port (socket_table d) (local_port tu)")
  case None
  then show ?thesis using confined_refl [OF ok] by (simp add: process_passive_syn_def)
next
  case (Some s)
  obtain isn where isn: "rdrand = Some isn" using rd by auto
  define t where "t = passive_tcb now rnd isn tu s h options"
  define tsopt where "tsopt = (if set_timestamps_enabled s \<and> ts_enabled (ts t)
    then Some (tcp_ts_now now (ts_offset (ts t)), ts_recent (ts t)) else None)"
  define t1 where "t1 = (case tsopt of None \<Rightarrow> t | Some (v, _) \<Rightarrow> t\<lparr>ts := (ts t)\<lparr>ts_last_tx_tsval := v\<rparr>\<rparr>)"
  define t2 where "t2 = t1\<lparr>retransmission_queue := retransmission_queue t1 @ [new_unacked now isn [] (flags (syn_ack_header t))]\<rparr>"
  have "tuple t2 = tuple t" "sack t2 = sack t" by (simp_all add: t2_def t1_def split: option.split)
  then have t2: "tuple t2 = tu" "sack_wf (sack t2)" using passive_tcb_keeps by (simp_all add: t_def)
  obtain bytes where b: "handshake_options s tsopt = Some bytes" by (rule handshake_options_read)
  have "confined tu d (d\<lparr>tcbs := tcbs d @ [t2], connections := AList.update tu (length (tcbs d)) (connections d)\<rparr>)"
    using driver_insert [OF ok new t2] by (simp add: confined_def)
  then show ?thesis
    unfolding process_passive_syn_def Some option.case isn Let_def bind.bind_lunit
      t_def [symmetric] tsopt_def [symmetric] t1_def [symmetric] t2_def [symmetric] b by simp
qed

lemma abort_confined:
  assumes ok: "driver_ok d" and i: "map_of (connections d) tu = Some i"
  shows "confined tu d (abort_connection tu e d)"
proof -
  have "keeps (tcbs d ! i) (abort_tcb e (tcbs d ! i))" by (simp add: keeps_def abort_tcb_def eifel_clear_pending_def Let_def)
  then show ?thesis
    using confined_update [OF ok i] confined_refl [OF ok] i by (simp add: abort_connection_def)
qed

lemma syn_ack_confined:
  assumes ok: "driver_ok d" and i: "map_of (connections d) tu = Some i"
  shows "\<exists>r d' xs. with_tcb_outcome i (\<lambda>t. process_syn_ack now t h options) d = Some r \<and> outcome_value r = (d', xs) \<and> confined tu d d'"
proof -
  obtain r t' xs where r: "process_syn_ack now (tcbs d ! i) h options = Some r" "r \<in> {Finished (t', xs), Spinning (t', xs)}"
    "keeps (tcbs d ! i) t'" by (rule syn_ack_handler [OF driver_okD(3) [OF ok i]])
  then show ?thesis using confined_update [OF ok i r(3)] by (auto simp: with_tcb_outcome_def)
qed

lemma finish_passive_confined:
  assumes ok: "driver_ok d" and i: "map_of (connections d) tu = Some i"
  shows "\<exists>d' xs. finish_passive_open fp now clk h payload options ip_ecn i d = Some (d', xs) \<and> confined tu d d'"
proof -
  obtain t' xs port where r: "process_syn_received_ack fp now clk h payload options ip_ecn (tcbs d ! i) = Some (t', xs, port)"
    "keeps (tcbs d ! i) t'" by (rule syn_received_handler [OF driver_okD(3) [OF ok i]])
  have "confined tu d ((d\<lparr>tcbs := (tcbs d)[i := t']\<rparr>)\<lparr>socket_table := tb\<rparr>)" for tb
    by (rule confined_table [OF confined_update [OF ok i r(2)]])
  then show ?thesis using r(1) by (simp add: finish_passive_open_def)
qed

lemma data_confined:
  assumes ok: "driver_ok d" and i: "map_of (connections d) tu = Some i"
  shows "\<exists>d' xs. with_tcb i (process_data_datagram fp now clk payload h options ip_ecn) d = Some (d', xs) \<and> confined tu d d'"
    "\<exists>d' xs. with_tcb i (time_wait_fin now) d = Some (d', xs) \<and> confined tu d d'"
proof -
  note wf = driver_okD(3) [OF ok i]
  obtain t' xs where "process_data_datagram fp now clk payload h options ip_ecn (tcbs d ! i) = Some (t', xs)" "keeps (tcbs d ! i) t'"
    using process_data_datagram_outcome [OF wf, of fp now clk payload h options ip_ecn] by (auto simp: keeps_def)
  then show "\<exists>d' xs. with_tcb i (process_data_datagram fp now clk payload h options ip_ecn) d = Some (d', xs) \<and> confined tu d d'"
    by (rule confined_with_tcb [OF ok i])
  let ?t = "(tcbs d ! i)\<lparr>timewait_deadline := Some (instant_add now (from_secs 120))\<rparr>"
  obtain t'' ys where "send_immediate_ack_unlocked now ?t = Some (t'', ys)" "keeps ?t t''"
    by (rule keeps_sound [OF sound_immediate_ack, of ?t]) (use wf in auto)
  then show "\<exists>d' xs. with_tcb i (time_wait_fin now) d = Some (d', xs) \<and> confined tu d d'"
    by (intro confined_with_tcb [OF ok i]) (simp_all add: time_wait_fin_def keeps_def)
qed

definition confined_result :: "connection_tuple \<Rightarrow> tcp_driver \<Rightarrow> (tcp_driver \<times> tx_segment list) outcome option \<Rightarrow> bool" where
  "confined_result tu d res \<longleftrightarrow> (\<exists>r d' xs. res = Some r \<and> outcome_value r = (d', xs) \<and> confined tu d d')"

lemma dispatch_confined:
  assumes ok: "driver_ok d" and rd: "rdrand \<noteq> None"
  shows "confined_result tu d (dispatch_segment fp now clk rnd rdrand tu h payload options ip_ecn d)"
proof (cases "map_of (connections d) tu")
  case None
  then show ?thesis
    using passive_syn_confined [OF ok None rd, of now rnd h options] confined_refl [OF ok]
    by (auto simp: dispatch_segment_def confined_result_def)
next
  case (Some i)
  have fin: "confined_result tu d (map_option Finished f)" if "\<exists>d' xs. f = Some (d', xs) \<and> confined tu d d'" for f
    using that by (auto simp: confined_result_def)
  have skip: "confined_result tu d (Some (Finished (d, [])))" "confined_result tu d (Some (Finished (abort_connection tu e d, [])))" for e
    using confined_refl [OF ok] abort_confined [OF ok Some] by (simp_all add: confined_result_def)
  have syn: "confined_result tu d (with_tcb_outcome i (\<lambda>t. process_syn_ack now t h options) d)"
    using syn_ack_confined [OF ok Some] by (simp add: confined_result_def)
  note rules = fin [OF data_confined(1) [OF ok Some]] fin [OF data_confined(2) [OF ok Some]]
    fin [OF finish_passive_confined [OF ok Some]] syn skip
  show ?thesis
    unfolding dispatch_segment_def Some option.case dispatch_state_def Let_def
    by (cases "state (tcbs d ! i)") (simp_all add: rules)
qed


definition example_driver :: tcp_driver where
  "example_driver = \<lparr>tcbs = [example_tcb], connections = [(example_tuple, 0)], socket_table = table_new\<rparr>"

definition example_frame :: "u8 list" where
  "example_frame = header_as_bytes ((header_new example_tcb)\<lparr>checksum :=
     calculate_tcp_checksum [9, 9, 9, 9] [10, 0, 0, 1] (header_as_bytes (header_new example_tcb) @ []) [7]\<rparr>) @ [] @ [7]"


section \<open>The active open\<close>

lemma establish_active_gate: "handshake_gate (establish_active now h options t) = handshake_gate t"
proof -
  have "handshake_gate (apply_option now s u ov) = handshake_gate u" for s u ov by (cases ov) simp_all
  then have f: "handshake_gate (foldl (apply_option now s) u os) = handshake_gate u" for s u os
    by (induction os arbitrary: u) simp_all
  have r: "handshake_gate (update_rtt_estimators u v) = handshake_gate u" "handshake_gate (recompute_effective_mss u) = handshake_gate u"
    "handshake_gate (fst (on_rx_timestamp now u q e b c)) = handshake_gate u" for u v q e b c
    by (simp_all add: update_rtt_estimators_def rack_feed_rtt_def recompute_effective_mss_def on_rx_timestamp_def Let_def split: prod.split)
  show ?thesis
    by (simp add: establish_active_def complete_syn_probe_def syn_ack_timestamps_def sample_timestamp_def
        apply_peer_tcp_options_def drain_retransmission_queue_def f r Let_def split: option.split)
qed



end
