(* ===== verification/Fs_Result.thy ===== *)
theory Fs_Result
  imports Rust_Prelude
begin

text \<open>
  Results of the file-system crate (\<^verbatim>\<open>src/fs\<close>): the error type of \<^verbatim>\<open>lib.rs\<close> and the four ways a
  call can end. \<open>Ok\<close> and \<open>Err\<close> are the constructors of \<open>Result\<close>, \<open>Panic\<close> is an unwinding
  (a failed \<open>assert!\<close>, an \<open>unwrap\<close> of \<open>None\<close>, an index out of range), and \<open>Diverges\<close> is a call that never
  returns.
\<close>

datatype file_system_error =
  NotFound
| NotAFile
| NotADirectory
| NotEnoughSpace
| AlreadyExists
| NameTooLong
| InvalidArgument
| ReadOutOfBounds
| BadData

datatype 'a io =
  Ok 'a
| Err file_system_error
| Panic
| Diverges

fun bind_io :: "'a io \<Rightarrow> ('a \<Rightarrow> 'b io) \<Rightarrow> 'b io" where
  "bind_io (Ok x) f = f x"
| "bind_io (Err e) f = Err e"
| "bind_io Panic f = Panic"
| "bind_io Diverges f = Diverges"

text \<open>\<open>.unwrap()\<close> on a \<open>Result\<close>, on an \<open>Option\<close>, and \<open>assert!\<close>.\<close>

fun unwrap_io :: "'a io \<Rightarrow> 'a io" where
  "unwrap_io (Err e) = Panic"
| "unwrap_io r = r"

definition unwrap :: "'a option \<Rightarrow> 'a io" where
  "unwrap x = (case x of None \<Rightarrow> Panic | Some y \<Rightarrow> Ok y)"

definition assert_io :: "bool \<Rightarrow> 'a io \<Rightarrow> 'a io" where
  "assert_io b r = (if b then r else Panic)"

text \<open>A \<open>for\<close> loop whose body may leave early with an error.\<close>

fun for_io :: "('a \<Rightarrow> 's \<Rightarrow> 's io) \<Rightarrow> 'a list \<Rightarrow> 's \<Rightarrow> 's io" where
  "for_io f [] s = Ok s"
| "for_io f (x # xs) s = bind_io (f x s) (for_io f xs)"

lemma bind_io_eq_Ok: "bind_io m f = Ok y \<longleftrightarrow> (\<exists>x. m = Ok x \<and> f x = Ok y)"
  by (cases m) auto

lemma bind_io_assoc: "bind_io (bind_io m f) g = bind_io m (\<lambda>x. bind_io (f x) g)"
  by (cases m) auto

lemma bind_io_Ok [simp]: "bind_io m Ok = m"
  by (cases m) auto

lemma unwrap_simps [simp]: "unwrap None = Panic" "unwrap (Some x) = Ok x"
  by (simp_all add: unwrap_def)

lemma assert_io_True [simp]: "assert_io True r = r"
  by (simp add: assert_io_def)

lemma for_io_Nil [simp]: "for_io f [] = Ok"
  by (simp add: fun_eq_iff)

lemma for_io_append: "for_io f (xs @ ys) s = bind_io (for_io f xs s) (for_io f ys)"
proof (induction xs arbitrary: s)
  case (Cons x xs)
  then show ?case by (cases "f x s") simp_all
qed simp

text \<open>The loop rule: an invariant that every turn re-establishes holds at the end, and the loop gets there.\<close>

lemma for_io_invariant:
  assumes "I [] s"
    and "\<And>done x rest s. xs = done @ x # rest \<Longrightarrow> I done s \<Longrightarrow> \<exists>s'. f x s = Ok s' \<and> I (done @ [x]) s'"
  shows "\<exists>s'. for_io f xs s = Ok s' \<and> I xs s'"
  using assms
proof (induction xs arbitrary: s rule: rev_induct)
  case Nil
  then show ?case by simp
next
  case (snoc x xs)
  have "\<exists>s'. for_io f xs s = Ok s' \<and> I xs s'"
  proof (rule snoc.IH)
    show "I [] s" by (rule snoc.prems)
    show "\<exists>s'. f y s = Ok s' \<and> I (done @ [y]) s'" if "xs = done @ y # rest" "I done s" for "done" y rest s
      using snoc.prems(2) [of "done" y "rest @ [x]"] that by simp
  qed
  then obtain s1 where s1: "for_io f xs s = Ok s1" "I xs s1" by blast
  then obtain s2 where "f x s1 = Ok s2" "I (xs @ [x]) s2" using snoc.prems(2) [of xs x "[]"] by auto
  with s1 show ?case by (simp add: for_io_append)
qed

end
