(* ===== verification/Fat_Table.thy ===== *)
theory Fat_Table
  imports Fs_Result
begin

text \<open>
  The file allocation table of \<^verbatim>\<open>src/fs/src/fat32/fat.rs\<close> as the code keeps it in memory: a vector of 32-bit
  entries, the walk along a cluster chain, the search for free clusters, their allocation as a chain and the
  release of a chain. The walk is a loop without a bound, so it is a \<open>partial_function\<close> whose \<open>None\<close> is not
  returning; \<open>is_chain\<close> says what it collects when it does return.
\<close>

section \<open>Operations\<close>

definition FAT_FREE_SECTOR :: u32 where "FAT_FREE_SECTOR = 0x00"
definition FAT_END_OF_FILE_MARK :: u32 where "FAT_END_OF_FILE_MARK = 0xFFFFFFFF"

text \<open>The \<open>loop\<close> of \<open>get_clusters_for_file\<close>: the inner option is the index panic.\<close>

partial_function (option) follow_clusters :: "u32 list \<Rightarrow> u32 \<Rightarrow> u32 list \<Rightarrow> u32 list option option" where
  "follow_clusters table cluster clusters =
     (if unat cluster < length table
      then let next_cluster = table ! unat cluster
           in if 0x0FFFFFF8 \<le> next_cluster then Some (Some clusters)
              else follow_clusters table next_cluster (clusters @ [next_cluster])
      else Some None)"

definition get_clusters_for_file :: "u32 list \<Rightarrow> u32 \<Rightarrow> u32 list io" where
  "get_clusters_for_file table cluster =
     (case follow_clusters table cluster [cluster] of
        None \<Rightarrow> Diverges
      | Some None \<Rightarrow> Panic
      | Some (Some clusters) \<Rightarrow> Ok clusters)"

definition find_free_clusters :: "u32 list \<Rightarrow> nat \<Rightarrow> (nat \<times> u32) list" where
  "find_free_clusters table count = take (count + 1) (filter (\<lambda>entry. snd entry = FAT_FREE_SECTOR) (enumerate 0 table))"

text \<open>The peeking loop of \<open>allocate_and_link_clusters\<close>.\<close>

fun link_clusters :: "u32 list \<Rightarrow> nat list \<Rightarrow> u32 list" where
  "link_clusters table [] = table"
| "link_clusters table [i] = table[i := 0xFFFFFFFF]"
| "link_clusters table (i # j # is) = link_clusters (table[i := of_nat j]) (j # is)"

definition allocate_and_link_clusters :: "u32 list \<Rightarrow> nat \<Rightarrow> (u32 list \<times> (nat \<times> u32) list) io" where
  "allocate_and_link_clusters table count =
     (let free_clusters = find_free_clusters table count
      in if length free_clusters < count then Err NotEnoughSpace
         else Ok (link_clusters table (map fst free_clusters), free_clusters))"

definition mark_clusters_as_free :: "u32 list \<Rightarrow> u32 \<Rightarrow> u32 list io" where
  "mark_clusters_as_free table starting_cluster =
     bind_io (get_clusters_for_file table starting_cluster)
       (\<lambda>clusters. Ok (foldl (\<lambda>t c. t[unat c := 0x00]) table clusters))"

section \<open>Chains\<close>

text \<open>One step of the walk, and the walk of a given number of steps.\<close>

definition next_in_chain :: "u32 list \<Rightarrow> u32 \<Rightarrow> u32 option" where
  "next_in_chain t c = (if unat c < length t \<and> t ! unat c < 0x0FFFFFF8 then Some (t ! unat c) else None)"

fun walk :: "u32 list \<Rightarrow> nat \<Rightarrow> u32 \<Rightarrow> u32 option" where
  "walk t 0 c = Some c"
| "walk t (Suc n) c = Option.bind (next_in_chain t c) (walk t n)"

text \<open>A complete chain: each entry names the next cluster and the last one holds an end mark.\<close>

fun is_chain :: "u32 list \<Rightarrow> u32 list \<Rightarrow> bool" where
  "is_chain t [] \<longleftrightarrow> False"
| "is_chain t [c] \<longleftrightarrow> unat c < length t \<and> 0x0FFFFFF8 \<le> t ! unat c"
| "is_chain t (c # d # cs) \<longleftrightarrow> next_in_chain t c = Some d \<and> is_chain t (d # cs)"

lemma follow_chain: "is_chain t (c # cs) \<Longrightarrow> follow_clusters t c acc = Some (Some (acc @ cs))"
proof (induction cs arbitrary: c acc)
  case Nil
  then show ?case by (simp add: follow_clusters.simps)
next
  case (Cons d cs)
  then show ?case
    by (subst follow_clusters.simps) (auto simp: next_in_chain_def Let_def not_le split: if_splits)
qed

lemma get_clusters_chain: "is_chain t (c # cs) \<Longrightarrow> get_clusters_for_file t c = Ok (c # cs)"
  by (simp add: get_clusters_for_file_def follow_chain)

lemma walk_add: "walk t (m + n) c = Option.bind (walk t m c) (walk t n)"
proof (induction m arbitrary: c)
  case (Suc m)
  then show ?case by (cases "next_in_chain t c") simp_all
qed simp

lemma walk_None_mono: "walk t m c = None \<Longrightarrow> m \<le> n \<Longrightarrow> walk t n c = None"
  using walk_add [of t m "n - m" c] by simp

lemma walk_last: "walk t (Suc n) c = Option.bind (walk t n c) (next_in_chain t)"
proof (induction n arbitrary: c)
  case (Suc n)
  then show ?case by (cases "next_in_chain t c") simp_all
next
  case 0
  show ?case by (cases "next_in_chain t c") simp_all
qed

lemma follow_returns: "walk t n c = None \<Longrightarrow> follow_clusters t c acc \<noteq> None"
proof (induction n arbitrary: c acc)
  case (Suc n)
  then show ?case
    by (subst follow_clusters.simps) (auto simp: next_in_chain_def Let_def not_le split: if_splits)
qed simp

lemma follow_result:
  assumes "follow_clusters t c acc = Some r"
  shows "(\<exists>n. walk t n c = None) \<and> (\<forall>cs. r = Some cs \<longrightarrow> (\<exists>ds. cs = acc @ ds \<and> is_chain t (c # ds))) \<and>
    (r = None \<longrightarrow> (\<exists>n d. walk t n c = Some d \<and> length t \<le> unat d))"
  using assms
proof (induction rule: follow_clusters.raw_induct [rotated, consumes 1])
  case (1 follow t c acc r)
  show ?case
  proof (cases "next_in_chain t c")
    case None
    then have "\<exists>n. walk t n c = None" by (intro exI [of _ 1]) simp
    moreover have "\<exists>n d. walk t n c = Some d \<and> length t \<le> unat d" if "length t \<le> unat c"
      using that by (rule_tac x = 0 in exI) simp
    ultimately show ?thesis using None 1(2) by (auto simp add: next_in_chain_def Let_def not_less split: if_splits)
  next
    case (Some d)
    then have "follow t d (acc @ [d]) = Some r"
      using 1(2) by (auto simp: next_in_chain_def Let_def not_le split: if_splits)
    then obtain n where n: "walk t n d = None"
      and ds: "\<forall>cs. r = Some cs \<longrightarrow> (\<exists>ds. cs = (acc @ [d]) @ ds \<and> is_chain t (d # ds))"
      and off: "r = None \<longrightarrow> (\<exists>n e. walk t n d = Some e \<and> length t \<le> unat e)"
      using 1(1) [of t d "acc @ [d]" r] by auto
    have "walk t (Suc n) c = None" using Some n by simp
    moreover have "\<exists>es. cs = acc @ es \<and> is_chain t (c # es)" if "r = Some cs" for cs
      using ds that Some by (metis append.assoc append_Cons append_Nil is_chain.simps(3))
    moreover have "\<exists>n e. walk t n c = Some e \<and> length t \<le> unat e" if "r = None"
      using off that Some by (metis bind.bind_lunit walk.simps(2))
    ultimately show ?thesis by blast
  qed
qed

lemma returns_iff_walk_ends: "get_clusters_for_file t c \<noteq> Diverges \<longleftrightarrow> (\<exists>n. walk t n c = None)"
proof (cases "follow_clusters t c [c]")
  case None
  then show ?thesis using follow_returns [of t _ c "[c]"] by (auto simp: get_clusters_for_file_def)
next
  case (Some r)
  then show ?thesis using follow_result [of t c "[c]" r] by (auto simp: get_clusters_for_file_def split: option.split)
qed

lemma get_clusters_Ok_iff: "get_clusters_for_file t c = Ok cs \<longleftrightarrow> is_chain t cs \<and> hd cs = c"
proof
  assume "get_clusters_for_file t c = Ok cs"
  then have "follow_clusters t c [c] = Some (Some cs)"
    by (auto simp: get_clusters_for_file_def split: option.splits)
  then show "is_chain t cs \<and> hd cs = c" using follow_result [of t c "[c]" "Some cs"] by auto
next
  assume "is_chain t cs \<and> hd cs = c"
  then show "get_clusters_for_file t c = Ok cs"
    using get_clusters_chain by (cases cs) auto
qed

lemma walk_repeats_forever:
  assumes "i < j" "walk t i c = Some d" "walk t j c = Some d"
  shows "walk t n c \<noteq> None"
proof (induction n rule: less_induct)
  case (less n)
  show ?case
  proof (cases "n \<le> j")
    case True
    then show ?thesis using walk_None_mono [of t n c j] assms(3) by auto
  next
    case False
    have "walk t n c = walk t (n - j) d" using walk_add [of t j "n - j" c] assms(3) False by simp
    also have "\<dots> = walk t (i + (n - j)) c" using walk_add [of t i "n - j" c] assms(2) by simp
    also have "\<dots> \<noteq> None" using less [of "i + (n - j)"] assms(1) False by simp
    finally show ?thesis .
  qed
qed

lemma walk_repeats:
  assumes "\<And>n. walk t n c \<noteq> None"
  obtains i j d where "i < j" "walk t i c = Some d" "walk t j c = Some d"
proof -
  define f where "f n = unat (the (walk t n c))" for n
  have "f n < length t" for n
    using assms [of n] assms [of "Suc n"] walk_last [of t n c] by (auto simp: f_def next_in_chain_def split: if_splits)
  then have "f ` {..length t} \<subseteq> {..<length t}" by auto
  from card_mono [OF _ this] have "card (f ` {..length t}) < card {..length t}" by simp
  then have "\<not> inj_on f {..length t}" by (rule pigeonhole)
  then obtain i j where ij: "i \<noteq> j" "f i = f j" by (auto simp: inj_on_def)
  have "walk t i c = walk t j c" using ij(2) assms [of i] assms [of j] by (auto simp: f_def word_unat_eq_iff)
  then show thesis
    using ij(1) assms [of i] that [of i j] that [of j i] by (cases i j rule: linorder_cases) auto
qed

lemma chain_walk:
  assumes "is_chain t (c # cs)" "i \<le> length cs"
  shows "walk t i c = Some ((c # cs) ! i)"
  using assms
proof (induction cs arbitrary: c i)
  case (Cons d cs)
  then show ?case by (cases i) auto
qed simp

lemma chain_ends: "is_chain t (c # cs) \<Longrightarrow> walk t (Suc (length cs)) c = None"
  by (induction cs arbitrary: c) (auto simp: next_in_chain_def)

lemma chain_in_range: "is_chain t cs \<Longrightarrow> c \<in> set cs \<Longrightarrow> unat c < length t"
  by (induction t cs rule: is_chain.induct) (auto simp: next_in_chain_def split: if_splits)

lemma chain_distinct: "is_chain t cs \<Longrightarrow> distinct cs"
proof (cases cs)
  case (Cons c ds)
  assume ch: "is_chain t cs"
  have "cs ! i \<noteq> cs ! j" if "i < j" "j < length cs" for i j
    using walk_repeats_forever [of i j t c "cs ! i" "Suc (length ds)"] chain_walk [of t c ds i]
      chain_walk [of t c ds j] chain_ends [of t c ds] ch that Cons by auto
  then show ?thesis by (metis distinct_conv_nth linorder_neqE_nat)
qed simp

lemma chain_length: "is_chain t cs \<Longrightarrow> length cs \<le> length t"
proof -
  assume ch: "is_chain t cs"
  have "card (unat ` set cs) \<le> card {..<length t}" using chain_in_range [OF ch] by (intro card_mono) auto
  moreover have "inj_on unat (set cs)" by (simp add: inj_on_def word_unat_eq_iff)
  ultimately show ?thesis by (simp add: card_image distinct_card [OF chain_distinct [OF ch]])
qed

text \<open>C19: following a cluster chain runs forever exactly when the chain comes back to a cluster it has already passed; on
  every other table the walk ends, and when it ends without running off the table it has collected a complete
  chain: it starts at the given cluster, names no cluster twice, stays inside the table and so is no longer than it.\<close>

theorem cluster_walk_terminates:
  "(get_clusters_for_file t c = Diverges \<longleftrightarrow> (\<exists>i j d. i < j \<and> walk t i c = Some d \<and> walk t j c = Some d)) \<and>
   (case get_clusters_for_file t c of
      Ok cs \<Rightarrow> hd cs = c \<and> is_chain t cs \<and> distinct cs \<and> length cs \<le> length t \<and> unat ` set cs \<subseteq> {..<length t}
    | Err e \<Rightarrow> False
    | Panic \<Rightarrow> (\<exists>n d. walk t n c = Some d \<and> length t \<le> unat d)
    | Diverges \<Rightarrow> True)"
proof
  show "get_clusters_for_file t c = Diverges \<longleftrightarrow> (\<exists>i j d. i < j \<and> walk t i c = Some d \<and> walk t j c = Some d)"
    using returns_iff_walk_ends [of t c] walk_repeats_forever [of _ _ t c] walk_repeats [of t c] by metis
  show "case get_clusters_for_file t c of
      Ok cs \<Rightarrow> hd cs = c \<and> is_chain t cs \<and> distinct cs \<and> length cs \<le> length t \<and> unat ` set cs \<subseteq> {..<length t}
    | Err e \<Rightarrow> False
    | Panic \<Rightarrow> (\<exists>n d. walk t n c = Some d \<and> length t \<le> unat d)
    | Diverges \<Rightarrow> True"
  proof (cases "get_clusters_for_file t c")
    case (Ok cs)
    then have "is_chain t cs \<and> hd cs = c" by (simp add: get_clusters_Ok_iff)
    with Ok show ?thesis using chain_distinct [of t cs] chain_length [of t cs] chain_in_range [of t cs] by auto
  next
    case (Err e)
    then show ?thesis by (simp add: get_clusters_for_file_def split: option.splits)
  next
    case Panic
    then have "follow_clusters t c [c] = Some None" by (simp add: get_clusters_for_file_def split: option.splits)
    with Panic show ?thesis using follow_result by fastforce
  qed simp
qed

section \<open>Allocation\<close>

lemma enumerate_0_eq: "enumerate 0 t = map (\<lambda>i. (i, t ! i)) [0..<length t]"
  by (rule nth_equalityI) (simp_all add: nth_enumerate_eq)

lemma find_free_clusters_eq:
  "map fst (find_free_clusters t n) = take (n + 1) (filter (\<lambda>i. t ! i = FAT_FREE_SECTOR) [0..<length t])"
  by (simp add: find_free_clusters_def enumerate_0_eq filter_map take_map comp_def)

lemma free_clusters_facts:
  assumes "is = map fst (find_free_clusters t n)"
  shows "distinct is" "\<And>i. i \<in> set is \<Longrightarrow> i < length t \<and> t ! i = FAT_FREE_SECTOR" "length is \<le> n + 1"
  using assms by (auto simp: find_free_clusters_eq dest!: in_set_takeD)

lemma link_clusters_length [simp]: "length (link_clusters t is) = length t"
  by (induction t "is" rule: link_clusters.induct) simp_all

lemma link_clusters_other: "i \<notin> set is \<Longrightarrow> link_clusters t is ! i = t ! i"
  by (induction t "is" rule: link_clusters.induct) auto

lemma link_clusters_chain:
  assumes "distinct is" "is \<noteq> []" "\<And>i. i \<in> set is \<Longrightarrow> i < length t" "length t \<le> 0x0FFFFFF8"
  shows "is_chain (link_clusters t is) (map of_nat is)"
  using assms
proof (induction t "is" rule: link_clusters.induct)
  case (2 t i)
  then show ?case by (simp add: unat_of_nat)
next
  case (3 t i j js)
  have u: "unat (of_nat k :: u32) = k" if "k \<le> 0x0FFFFFF8" for k using that by (simp add: unat_of_nat)
  have b: "i < length t" "j < length t" "i \<noteq> j" using 3(2) 3(4) [of i] 3(4) [of j] by auto
  have "link_clusters (t[i := of_nat j]) (j # js) ! i = of_nat j"
    using 3(2) b by (subst link_clusters_other) auto
  moreover have "(of_nat j :: u32) < 0x0FFFFFF8" using b 3(5) by (simp add: word_less_nat_alt u)
  ultimately have "next_in_chain (link_clusters (t[i := of_nat j]) (j # js)) (of_nat i) = Some (of_nat j)"
    using b 3(5) u [of i] by (simp add: next_in_chain_def)
  then show ?case using 3 by simp
qed simp

lemma chain_cong:
  assumes "is_chain t cs" "length t' = length t" "\<And>c. c \<in> set cs \<Longrightarrow> t' ! unat c = t ! unat c"
  shows "is_chain t' cs"
  using assms by (induction t cs rule: is_chain.induct) (simp_all add: next_in_chain_def split: if_splits)

text \<open>A chain whose links avoid cluster 0 has no free entry: the entry of each of its clusters is the next cluster or an
  end mark.\<close>

lemma chain_not_free:
  assumes "is_chain t cs" "0 \<notin> set (tl cs)" "c \<in> set cs"
  shows "t ! unat c \<noteq> FAT_FREE_SECTOR"
  using assms
  by (induction t cs rule: is_chain.induct) (auto simp: next_in_chain_def FAT_FREE_SECTOR_def split: if_splits)

lemma free_all_nth:
  "i < length t \<Longrightarrow> foldl (\<lambda>t c. t[unat c := 0]) t cs ! i = (if i \<in> unat ` set cs then 0 else t ! i)"
  for cs :: "u32 list"
  by (induction cs arbitrary: t) (auto simp: nth_list_update)

lemma free_all_length [simp]: "length (foldl (\<lambda>t c. t[unat c := 0]) t cs) = length t" for cs :: "u32 list"
  by (induction cs arbitrary: t) simp_all

text \<open>C18: allocating clusters and releasing them again. When \<open>allocate_and_link_clusters\<close> succeeds it returns at
  least the clusters asked for, all of which were free; walking the table from the first of them gives exactly these
  clusters in order, the entries of all other clusters and every existing chain are as before, and
  \<open>mark_clusters_as_free\<close> on the first cluster restores the table.\<close>

theorem allocation_is_chain:
  assumes "allocate_and_link_clusters t n = Ok (t', free)" "free \<noteq> []" "length t \<le> 0x0FFFFFF8" "cs = map (of_nat \<circ> fst) free"
  shows "n \<le> length cs \<and> get_clusters_for_file t' (hd cs) = Ok cs \<and> (\<forall>c \<in> set cs. t ! unat c = FAT_FREE_SECTOR) \<and>
    (\<forall>c. c \<notin> set cs \<longrightarrow> t' ! unat c = t ! unat c) \<and>
    (\<forall>d ds. get_clusters_for_file t d = Ok ds \<and> 0 \<notin> set (tl ds) \<longrightarrow> get_clusters_for_file t' d = Ok ds) \<and>
    mark_clusters_as_free t' (hd cs) = Ok t"
proof -
  define js where "js = map fst free"
  have t': "t' = link_clusters t js" "free = find_free_clusters t n" "n \<le> length free"
    using assms(1) by (auto simp: allocate_and_link_clusters_def Let_def js_def split: if_splits)
  have js: "distinct js" "js \<noteq> []" "\<And>i. i \<in> set js \<Longrightarrow> i < length t \<and> t ! i = FAT_FREE_SECTOR"
    using free_clusters_facts [of js t n] assms(2) t'(2) by (auto simp: js_def)
  have u: "unat (of_nat i :: u32) = i" if "i \<in> set js" for i
    using js(3) [OF that] assms(3) by (simp add: unat_of_nat)
  have cs: "cs = map of_nat js" "hd cs = of_nat (hd js)" "hd cs = hd (map of_nat js)" using js(2) by (simp_all add: assms(4) js_def hd_map)
  have set_cs: "unat ` set cs = set js" using u by (force simp: cs(1))
  have ch: "is_chain t' cs" unfolding t'(1) cs(1) using js assms(3) by (intro link_clusters_chain) auto
  have walk: "get_clusters_for_file t' (hd cs) = Ok cs" using ch by (simp add: get_clusters_Ok_iff)
  have free: "t ! unat c = FAT_FREE_SECTOR" if "c \<in> set cs" for c using js(3) set_cs that by auto
  have other: "t' ! i = t ! i" if "i \<notin> set js" for i using that by (simp add: t'(1) link_clusters_other)
  have frame: "t' ! unat c = t ! unat c" if "c \<notin> set cs" for c
    using that by (intro other) (metis imageE set_cs word_unat_eq_iff)
  have keep: "get_clusters_for_file t' d = Ok ds" if "get_clusters_for_file t d = Ok ds" "0 \<notin> set (tl ds)" for d ds
  proof -
    have "is_chain t ds" "hd ds = d" using that(1) by (auto simp: get_clusters_Ok_iff)
    moreover have "t' ! unat c = t ! unat c" if "c \<in> set ds" for c
      using chain_not_free [OF \<open>is_chain t ds\<close> \<open>0 \<notin> set (tl ds)\<close> that] free frame by blast
    ultimately show ?thesis using chain_cong [of t ds t'] by (simp add: get_clusters_Ok_iff t'(1))
  qed
  have "foldl (\<lambda>t c. t[unat c := 0]) t' cs = t"
    using js(3) other by (intro nth_equalityI) (auto simp: free_all_nth t'(1) set_cs FAT_FREE_SECTOR_def)
  then have "mark_clusters_as_free t' (hd cs) = Ok t" by (simp add: mark_clusters_as_free_def walk)
  with t'(3) walk free frame keep show ?thesis by (simp add: assms(4))
qed

theorem allocation_is_chain_witness:
  "get_clusters_for_file [0x0FFFFFF8, 0xFFFFFFFF, 3, 0xFFFFFFFF, 5, 0xFFFFFFFF] 4 = Ok [4, 5] \<and>
   mark_clusters_as_free [0x0FFFFFF8, 0xFFFFFFFF, 3, 0xFFFFFFFF, 5, 0xFFFFFFFF] 4 = Ok [0x0FFFFFF8, 0xFFFFFFFF, 3, 0xFFFFFFFF, 0, 0]"
  using allocation_is_chain [of "[0x0FFFFFF8, 0xFFFFFFFF, 3, 0xFFFFFFFF, 0, 0]" 1
      "[0x0FFFFFF8, 0xFFFFFFFF, 3, 0xFFFFFFFF, 5, 0xFFFFFFFF]" "[(4, 0), (5, 0)]" "[4, 5]"]
  by (simp add: allocate_and_link_clusters_def find_free_clusters_def FAT_FREE_SECTOR_def)

end
