(* ===== verification/Fat_Disk.thy ===== *)
theory Fat_Disk
  imports Fat_Table
begin

text \<open>
  The disk side of \<^verbatim>\<open>src/fs/src/fat32/fat.rs\<close>: the boot parameter block, the geometry computed from it, reading and
  writing sectors and clusters, and loading and saving the allocation table. The storage medium is whatever implements
  the trait \<open>FatDataSource\<close> of \<^verbatim>\<open>mod.rs\<close>: here a record of its two required methods, with the laws the code relies on as
  the locale \<open>sector_store\<close>. The in-memory source of the repository is modelled too and interprets the locale.
  Integer widths are those of the code: the size of a cluster is a \<open>u16\<close> product, sector numbers are \<open>u32\<close>.
\<close>

section \<open>Data sources\<close>

type_synonym sector = "u8 list"

definition FAT_SECTOR_SIZE :: nat where "FAT_SECTOR_SIZE = 512"

text \<open>\<open>read_sectors_to\<close> fills a buffer of the given number of sectors and leaves the source as it is.\<close>

record 'd data_source =
  read_sectors_to :: "'d \<Rightarrow> u32 \<Rightarrow> nat \<Rightarrow> sector list io"
  write_sector :: "'d \<Rightarrow> u32 \<Rightarrow> u8 list \<Rightarrow> 'd io"

text \<open>The provided method of the trait.\<close>

definition source_read_sectors :: "'d data_source \<Rightarrow> 'd \<Rightarrow> u32 \<Rightarrow> u32 \<Rightarrow> sector list io" where
  "source_read_sectors ds d starting_sector n = read_sectors_to ds d starting_sector (unat n)"

text \<open>\<open>as_flattened\<close> and its inverse.\<close>

fun chunks :: "nat \<Rightarrow> nat \<Rightarrow> 'a list \<Rightarrow> 'a list list" where
  "chunks 0 k xs = []"
| "chunks (Suc n) k xs = take k xs # chunks n k (drop k xs)"

section \<open>Boot parameter block\<close>

record bios_parameter_block =
  jmp_boot :: "u8 list"
  oem_name :: "u8 list"
  bytes_per_sector :: u16
  sectors_per_cluster :: u8
  reserved_sector_count :: u16
  number_of_fats :: u8
  root_entries_count :: u16
  total_count_of_sectors :: u16
  media_type :: u8
  sectors_per_fat :: u16
  sectors_per_track :: u16
  number_of_heads :: u16
  hidden_sectors_count :: u32
  total_count_of_sectors_32 :: u32
  sectors_per_fat_32 :: u32
  ext_flags :: u16
  filesystem_version :: u16
  root_directory_first_cluster :: u32
  fs_info_sector :: u16
  boot_sector_copy_sector_number :: u16
  drive_number :: u8
  boot_signature :: u8
  volume_id :: u32
  volume_label :: "u8 list"
  filesystem_type :: "u8 list"
  signature :: "u8 list"

definition le16 :: "u8 list \<Rightarrow> nat \<Rightarrow> u16" where
  "le16 bs i = u16_from_be (bs ! (i + 1)) (bs ! i)"

definition le32 :: "u8 list \<Rightarrow> nat \<Rightarrow> u32" where
  "le32 bs i = u32_from_be (bs ! (i + 3)) (bs ! (i + 2)) (bs ! (i + 1)) (bs ! i)"

text \<open>The derived reader, with the field assertions; a slice of another length than the structure is refused.\<close>

definition bpb_try_from :: "u8 list \<Rightarrow> bios_parameter_block io" where
  "bpb_try_from bs =
     (if length bs \<noteq> 512 then Err BadData
      else let b = \<lparr>jmp_boot = slice bs 0 3, oem_name = slice bs 3 11, bytes_per_sector = le16 bs 11,
                    sectors_per_cluster = bs ! 13, reserved_sector_count = le16 bs 14, number_of_fats = bs ! 16,
                    root_entries_count = le16 bs 17, total_count_of_sectors = le16 bs 19, media_type = bs ! 21,
                    sectors_per_fat = le16 bs 22, sectors_per_track = le16 bs 24, number_of_heads = le16 bs 26,
                    hidden_sectors_count = le32 bs 28, total_count_of_sectors_32 = le32 bs 32,
                    sectors_per_fat_32 = le32 bs 36, ext_flags = le16 bs 40, filesystem_version = le16 bs 42,
                    root_directory_first_cluster = le32 bs 44, fs_info_sector = le16 bs 48,
                    boot_sector_copy_sector_number = le16 bs 50, drive_number = bs ! 64, boot_signature = bs ! 66,
                    volume_id = le32 bs 67, volume_label = slice bs 71 82, filesystem_type = slice bs 82 90,
                    signature = slice bs 510 512\<rparr>
           in if root_entries_count b = 0 \<and> total_count_of_sectors b = 0 \<and>
                 media_type b \<in> {0xF0, 0xF8, 0xF9, 0xFA, 0xFB, 0xFC, 0xFD, 0xFE, 0xFF} \<and>
                 sectors_per_fat b = 0 \<and> boot_signature b = 0x29 \<and> signature b = [0x55, 0xAA]
              then Ok b else Err BadData)"

section \<open>The file system and its geometry\<close>

record 'd fat =
  source :: 'd
  partition_first_sector_lba :: u32
  bpb :: bios_parameter_block
  file_allocation_table :: "u32 list"

text \<open>The length of the root directory in sectors, in \<open>u16\<close>; a zero sector size divides by zero.\<close>

definition root_dir_sectors :: "'d fat \<Rightarrow> u32 io" where
  "root_dir_sectors f =
     (let b = bpb f in
      if bytes_per_sector b = 0 then Panic
      else Ok (ucast ((root_entries_count b * 32 + (bytes_per_sector b - 1)) div bytes_per_sector b)))"

definition first_data_sector :: "'d fat \<Rightarrow> u32 io" where
  "first_data_sector f =
     bind_io (root_dir_sectors f)
       (\<lambda>r. Ok (ucast (reserved_sector_count (bpb f)) + ucast (number_of_fats (bpb f)) * sectors_per_fat_32 (bpb f) + r))"

definition convert_cluster_number_to_sector_number :: "'d fat \<Rightarrow> u32 \<Rightarrow> u32 io" where
  "convert_cluster_number_to_sector_number f cluster_number =
     bind_io (first_data_sector f) (\<lambda>s. Ok ((cluster_number - 2) * ucast (sectors_per_cluster (bpb f)) + s))"

text \<open>The size of a cluster in bytes, a product in \<open>u16\<close>.\<close>

definition cluster_size :: "'d fat \<Rightarrow> u16" where
  "cluster_size f = bytes_per_sector (bpb f) * ucast (sectors_per_cluster (bpb f))"

section \<open>Sectors and clusters\<close>

text \<open>One turn of the sector loop of \<open>read_sectors\<close> and \<open>read_cluster_to\<close>: the buffer is a list of sectors.\<close>

definition read_into :: "'d data_source \<Rightarrow> 'd \<Rightarrow> u32 \<Rightarrow> nat \<Rightarrow> sector list \<Rightarrow> sector list io" where
  "read_into ds d lba i sectors =
     (if i < length sectors
      then bind_io (read_sectors_to ds d (lba + of_nat i) 1) (\<lambda>r. Ok (sectors[i := r ! 0]))
      else Panic)"

definition read_sectors :: "'d data_source \<Rightarrow> 'd fat \<Rightarrow> u32 \<Rightarrow> u32 \<Rightarrow> sector list io" where
  "read_sectors ds f first_sector_lba n =
     (if 0xFFFE \<le> n * 512
      then for_io (read_into ds (source f) (partition_first_sector_lba f + first_sector_lba)) [0..<unat (n - 2)]
             (replicate (unat n) (replicate 512 0))
      else source_read_sectors ds (source f) (partition_first_sector_lba f + first_sector_lba) n)"

definition read_cluster :: "'d data_source \<Rightarrow> 'd fat \<Rightarrow> u32 \<Rightarrow> sector list io" where
  "read_cluster ds f cluster =
     bind_io (convert_cluster_number_to_sector_number f cluster)
       (\<lambda>s. read_sectors ds f s (ucast (sectors_per_cluster (bpb f))))"

definition read_cluster_to :: "'d data_source \<Rightarrow> 'd fat \<Rightarrow> u32 \<Rightarrow> u8 list \<Rightarrow> u8 list io" where
  "read_cluster_to ds f cluster buffer =
     assert_io (cluster_size f = of_nat (length buffer))
       (if length buffer mod 512 \<noteq> 0 then Panic
        else bind_io (convert_cluster_number_to_sector_number f cluster)
          (\<lambda>s. bind_io (for_io (read_into ds (source f) (partition_first_sector_lba f + s))
                          [0..<unat (sectors_per_cluster (bpb f))] (chunks (length buffer div 512) 512 buffer))
            (\<lambda>sectors. Ok (concat sectors))))"

definition write_part :: "'d data_source \<Rightarrow> u32 \<Rightarrow> u16 \<Rightarrow> u8 list \<Rightarrow> nat \<Rightarrow> 'd \<Rightarrow> 'd io" where
  "write_part ds lba bps buffer i d =
     (let sector_start = unat (of_nat i * bps);
          sector_end = unat ((of_nat i + 1) * bps)
      in if sector_start \<le> sector_end \<and> sector_end \<le> length buffer
         then write_sector ds d (lba + of_nat i) (slice buffer sector_start sector_end)
         else Panic)"

definition write_cluster :: "'d data_source \<Rightarrow> 'd fat \<Rightarrow> u32 \<Rightarrow> u8 list \<Rightarrow> 'd fat io" where
  "write_cluster ds f cluster buffer =
     assert_io (cluster_size f = of_nat (length buffer))
       (bind_io (convert_cluster_number_to_sector_number f cluster)
          (\<lambda>s. bind_io (for_io (write_part ds (partition_first_sector_lba f + s) (bytes_per_sector (bpb f)) buffer)
                          [0..<unat (sectors_per_cluster (bpb f))] (source f))
            (\<lambda>d. Ok (f\<lparr>source := d\<rparr>))))"

section \<open>Loading and saving the table\<close>

definition read_bpb :: "'d data_source \<Rightarrow> 'd \<Rightarrow> u32 \<Rightarrow> bios_parameter_block io" where
  "read_bpb ds d lba = bind_io (source_read_sectors ds d lba 1) (\<lambda>s. bpb_try_from (s ! 0))"

definition fat_init :: "'d data_source \<Rightarrow> 'd fat \<Rightarrow> 'd fat io" where
  "fat_init ds f =
     bind_io (read_sectors ds f (ucast (reserved_sector_count (bpb f))) (sectors_per_fat_32 (bpb f)))
       (\<lambda>sectors. let bytes = concat sectors
                  in Ok (f\<lparr>file_allocation_table := map (\<lambda>b. le32 b 0) (chunks (length bytes div 4) 4 bytes)\<rparr>))"

definition fat_new :: "'d data_source \<Rightarrow> 'd \<Rightarrow> u32 \<Rightarrow> 'd fat io" where
  "fat_new ds d lba =
     bind_io (unwrap_io (read_bpb ds d lba))
       (\<lambda>b. unwrap_io (fat_init ds \<lparr>source = d, partition_first_sector_lba = lba, bpb = b, file_allocation_table = []\<rparr>))"

definition table_bytes :: "u32 list \<Rightarrow> u8 list" where
  "table_bytes table = concat (map (\<lambda>w. rev (u32_to_be w)) table)"

definition save_fat :: "'d data_source \<Rightarrow> 'd fat \<Rightarrow> 'd fat io" where
  "save_fat ds f =
     (let fat_size = unat (sectors_per_fat_32 (bpb f));
          fat_start = unat (reserved_sector_count (bpb f));
          fat_slice = table_bytes (file_allocation_table f)
      in assert_io (length fat_slice = fat_size * FAT_SECTOR_SIZE)
           (bind_io (for_io (\<lambda>i d. write_sector ds d (of_nat (fat_start + i))
                               (slice fat_slice (i * FAT_SECTOR_SIZE) ((i + 1) * FAT_SECTOR_SIZE)))
                       [0..<fat_size] (source f))
              (\<lambda>d. Ok (f\<lparr>source := d\<rparr>))))"

section \<open>What a data source promises\<close>

text \<open>The contract of \<open>FatDataSource\<close>: inside its capacity, a read returns the sectors and a write of one full sector
  replaces that sector and nothing else.\<close>

locale sector_store =
  fixes ds :: "'d data_source" and sound_source :: "'d \<Rightarrow> bool" and capacity :: "'d \<Rightarrow> nat" and sector :: "'d \<Rightarrow> nat \<Rightarrow> sector"
  assumes capacity_bound: "sound_source d \<Longrightarrow> capacity d \<le> 2 ^ 32"
    and sector_length: "sound_source d \<Longrightarrow> i < capacity d \<Longrightarrow> length (sector d i) = 512"
    and read_ok: "sound_source d \<Longrightarrow> unat s + n \<le> capacity d \<Longrightarrow> read_sectors_to ds d s n = Ok (map (sector d) [unat s..<unat s + n])"
    and write_ok: "sound_source d \<Longrightarrow> unat s < capacity d \<Longrightarrow> length b = 512 \<Longrightarrow>
      \<exists>d'. write_sector ds d s b = Ok d' \<and> sound_source d' \<and> capacity d' = capacity d \<and> sector d' = (sector d)(unat s := b)"

text \<open>Where a cluster lies on the medium, and its contents.\<close>

definition cluster_lba :: "'d fat \<Rightarrow> u32 \<Rightarrow> nat" where
  "cluster_lba f c = unat (partition_first_sector_lba f) +
     (unat (reserved_sector_count (bpb f)) + unat (number_of_fats (bpb f)) * unat (sectors_per_fat_32 (bpb f))) +
     (unat c - 2) * unat (sectors_per_cluster (bpb f))"

definition cluster_data :: "('d \<Rightarrow> nat \<Rightarrow> sector) \<Rightarrow> 'd fat \<Rightarrow> u32 \<Rightarrow> u8 list" where
  "cluster_data sector f c =
     concat (map (sector (source f)) [cluster_lba f c..<cluster_lba f c + unat (sectors_per_cluster (bpb f))])"

definition geometry_ok :: "'d fat \<Rightarrow> bool" where
  "geometry_ok f \<longleftrightarrow> bytes_per_sector (bpb f) = 512 \<and> 0 < unat (sectors_per_cluster (bpb f)) \<and>
     unat (sectors_per_cluster (bpb f)) < 128 \<and> root_entries_count (bpb f) = 0"

definition cluster_ok :: "nat \<Rightarrow> 'd fat \<Rightarrow> u32 \<Rightarrow> bool" where
  "cluster_ok cap f c \<longleftrightarrow> 2 \<le> unat c \<and> cluster_lba f c + unat (sectors_per_cluster (bpb f)) \<le> cap"

lemma convert_cluster:
  assumes "geometry_ok f" "2 \<le> unat c"
  shows "\<exists>s. convert_cluster_number_to_sector_number f c = Ok s \<and> partition_first_sector_lba f + s = of_nat (cluster_lba f c)"
proof -
  have "c - 2 = of_nat (unat c - 2)" using assms(2) by (simp add: of_nat_diff)
  then show ?thesis
    using assms(1)
    by (simp add: convert_cluster_number_to_sector_number_def first_data_sector_def root_dir_sectors_def geometry_ok_def
        cluster_lba_def)
qed

lemma unat_ucast_u8: "unat (ucast (w :: u8) :: u16) = unat w" "unat (ucast w :: u32) = unat w"
  using unsigned_less [of w, where ?'a = nat] by (simp_all add: unsigned_ucast_eq take_bit_nat_eq_self_iff)

lemma cluster_size_eq: "geometry_ok f \<Longrightarrow> unat (cluster_size f) = 512 * unat (sectors_per_cluster (bpb f))"
  by (simp add: geometry_ok_def cluster_size_def unat_ucast_u8 unat_mult_lem [THEN iffD1])

lemma for_io_upt_Suc: "for_io f [0..<Suc n] s = bind_io (for_io f [0..<n] s) (f n)"
  by (cases "for_io f [0..<n] s") (simp_all add: for_io_append)

context sector_store
begin

lemma read_loop:
  assumes "sound_source d" "lba + n \<le> capacity d" "n \<le> length sectors"
  shows "for_io (read_into ds d (of_nat lba)) [0..<n] sectors = Ok (map (sector d) [lba..<lba + n] @ drop n sectors)"
  using assms(2,3)
proof (induction n)
  case (Suc n)
  have u: "unat (of_nat lba + of_nat n :: u32) = lba + n"
    using Suc.prems capacity_bound [OF assms(1)] unat_of_nat_len [of "lba + n", where ?'a = 32] by simp
  have "read_sectors_to ds d (of_nat lba + of_nat n) 1 = Ok [sector d (lba + n)]"
    using read_ok [OF assms(1), of "of_nat lba + of_nat n" 1] Suc.prems u by simp
  moreover have "(xs @ drop n sectors)[n := v] = xs @ v # drop (Suc n) sectors" if "length xs = n" for xs and v :: sector
    using that Suc.prems by (simp add: list_update_append Cons_nth_drop_Suc [symmetric])
  ultimately have "read_into ds d (of_nat lba) n (map (sector d) [lba..<lba + n] @ drop n sectors) =
      Ok (map (sector d) [lba..<lba + n] @ sector d (lba + n) # drop (Suc n) sectors)"
    using Suc.prems by (simp add: read_into_def)
  then show ?case using Suc unfolding for_io_upt_Suc by simp
qed simp

lemma read_cluster_to_data:
  assumes "sound_source (source f)" "geometry_ok f" "cluster_ok (capacity (source f)) f c"
    "length buffer = unat (cluster_size f)"
  shows "read_cluster_to ds f c buffer = Ok (cluster_data sector f c)"
proof -
  obtain s where s: "convert_cluster_number_to_sector_number f c = Ok s" "partition_first_sector_lba f + s = of_nat (cluster_lba f c)"
    using convert_cluster [of f c] assms(2,3) by (auto simp: cluster_ok_def)
  have len: "length buffer = 512 * unat (sectors_per_cluster (bpb f))" using assms(2,4) by (simp add: cluster_size_eq)
  have div: "length buffer div 512 = unat (sectors_per_cluster (bpb f))" "length buffer mod 512 = 0" by (simp_all add: len)
  have sz: "cluster_size f = of_nat (length buffer)" using assms(4) by simp
  have cl: "length (chunks m k xs) = m" for m k and xs :: "u8 list" by (induction m arbitrary: xs) simp_all
  show ?thesis
    using read_loop [OF assms(1), of "cluster_lba f c" "unat (sectors_per_cluster (bpb f))" "chunks (length buffer div 512) 512 buffer"]
      assms(3) s by (simp add: read_cluster_to_def cluster_ok_def cluster_data_def cl div sz)
qed

lemma read_cluster_data:
  assumes "sound_source (source f)" "geometry_ok f" "cluster_ok (capacity (source f)) f c"
  shows "\<exists>sectors. read_cluster ds f c = Ok sectors \<and> concat sectors = cluster_data sector f c"
proof -
  obtain s where s: "convert_cluster_number_to_sector_number f c = Ok s" "partition_first_sector_lba f + s = of_nat (cluster_lba f c)"
    using convert_cluster [of f c] assms(2,3) by (auto simp: cluster_ok_def)
  define spc where "spc = sectors_per_cluster (bpb f)"
  have spc: "unat spc < 128" using assms(2) by (simp add: geometry_ok_def spc_def)
  then have "unat (ucast spc * 512 :: u32) = unat spc * 512" by (simp add: unat_ucast_u8 unat_mult_lem [THEN iffD1])
  then have small: "\<not> 0xFFFE \<le> (ucast spc * 512 :: u32)" using spc by (simp add: word_le_nat_alt)
  have "cluster_lba f c < 2 ^ 32"
    using capacity_bound [OF assms(1)] assms(2,3) by (simp add: cluster_ok_def geometry_ok_def)
  then have "unat (of_nat (cluster_lba f c) :: u32) = cluster_lba f c" by (intro unat_of_nat_len) simp
  then show ?thesis
    using s small read_ok [OF assms(1), of "of_nat (cluster_lba f c)" "unat spc"] assms(3)
    by (simp add: read_cluster_def read_sectors_def source_read_sectors_def cluster_data_def cluster_ok_def spc_def unat_ucast_u8)
qed

text \<open>A loop that writes consecutive sectors.\<close>

lemma write_each:
  assumes "sound_source d" "lba + n \<le> capacity d"
    and step: "\<And>i d. i < n \<Longrightarrow> step i d = write_sector ds d (of_nat (lba + i)) (g i) \<and> length (g i) = 512"
  shows "\<exists>d'. for_io step [0..<n] d = Ok d' \<and> sound_source d' \<and> capacity d' = capacity d \<and>
    sector d' = (\<lambda>j. if lba \<le> j \<and> j < lba + n then g (j - lba) else sector d j)"
  using assms(2) step
proof (induction n)
  case 0
  then show ?case using assms(1) by (auto simp: fun_eq_iff)
next
  case (Suc n)
  then obtain d1 where d1: "for_io step [0..<n] d = Ok d1" "sound_source d1" "capacity d1 = capacity d"
    "sector d1 = (\<lambda>j. if lba \<le> j \<and> j < lba + n then g (j - lba) else sector d j)" by auto
  have u: "unat (of_nat (lba + n) :: u32) = lba + n"
    using Suc.prems(1) capacity_bound [OF assms(1)] by (intro unat_of_nat_len) simp
  then obtain d2 where d2: "write_sector ds d1 (of_nat (lba + n)) (g n) = Ok d2" "sound_source d2" "capacity d2 = capacity d1"
    "sector d2 = (sector d1)(lba + n := g n)"
    using write_ok [OF d1(2), of "of_nat (lba + n)" "g n"] Suc.prems(1) Suc.prems(2) [of n] d1(3) by auto
  have "step n d1 = Ok d2" using d2(1) Suc.prems(2) [of n] by simp
  then show ?case unfolding for_io_upt_Suc using d1 d2 by (auto simp: fun_eq_iff less_Suc_eq)
qed

lemma write_loop:
  assumes "sound_source d" "lba + n \<le> capacity d" "512 * n \<le> length buffer" "n < 128"
  shows "\<exists>d'. for_io (write_part ds (of_nat lba) 512 buffer) [0..<n] d = Ok d' \<and> sound_source d' \<and> capacity d' = capacity d \<and>
    sector d' = (\<lambda>j. if lba \<le> j \<and> j < lba + n then slice buffer (512 * (j - lba)) (512 * (j - lba) + 512) else sector d j)"
proof (rule write_each [OF assms(1,2)])
  fix i d
  assume i: "i < n"
  have w: "of_nat i * 512 = (of_nat (512 * i) :: u16)" "(of_nat i + 1) * 512 = (of_nat (512 * i + 512) :: u16)"
    by (simp_all add: distrib_right mult.commute)
  have "unat (of_nat i * 512 :: u16) = 512 * i" "unat ((of_nat i + 1) * 512 :: u16) = 512 * i + 512"
    unfolding w using i assms(4) by (intro unat_of_nat_len, simp)+
  then show "write_part ds (of_nat lba) 512 buffer i d = write_sector ds d (of_nat (lba + i)) (slice buffer (512 * i) (512 * i + 512)) \<and>
      length (slice buffer (512 * i) (512 * i + 512)) = 512"
    using i assms(3) by (simp add: write_part_def Let_def)
qed

lemma concat_slices: "m + 512 * n \<le> length b \<Longrightarrow> concat (map (\<lambda>j. slice b (512 * (j - l) + m) (512 * (j - l) + m + 512)) [l..<l + n]) = slice b m (m + 512 * n)"
  for b :: "u8 list"
proof (induction n)
  case (Suc n)
  have "slice b m (m + 512 * Suc n) = slice b m (m + 512 * n) @ slice b (m + 512 * n) (m + 512 * n + 512)"
    using take_add [of "512 * n" 512 "drop m b"] by (simp add: slice_def add.commute)
  then show ?case using Suc by (simp add: add.commute)
qed (simp add: slice_def)

text \<open>Writing a cluster replaces its contents and leaves every other cluster alone.\<close>

lemma write_cluster_data:
  assumes "sound_source (source f)" "geometry_ok f" "cluster_ok (capacity (source f)) f c" "length buffer = unat (cluster_size f)"
  shows "\<exists>d. write_cluster ds f c buffer = Ok (f\<lparr>source := d\<rparr>) \<and> sound_source d \<and> capacity d = capacity (source f) \<and>
    (\<forall>c'. cluster_ok (capacity (source f)) f c' \<longrightarrow>
       cluster_data sector (f\<lparr>source := d\<rparr>) c' = (if c' = c then buffer else cluster_data sector f c'))"
proof -
  obtain s where s: "convert_cluster_number_to_sector_number f c = Ok s" "partition_first_sector_lba f + s = of_nat (cluster_lba f c)"
    using convert_cluster [of f c] assms(2,3) by (auto simp: cluster_ok_def)
  define n where "n = unat (sectors_per_cluster (bpb f))"
  have n: "n < 128" "length buffer = 512 * n" using assms(2,4) by (simp_all add: n_def geometry_ok_def cluster_size_eq)
  obtain d where d: "for_io (write_part ds (of_nat (cluster_lba f c)) 512 buffer) [0..<n] (source f) = Ok d" "sound_source d"
    "capacity d = capacity (source f)" "sector d = (\<lambda>j. if cluster_lba f c \<le> j \<and> j < cluster_lba f c + n
       then slice buffer (512 * (j - cluster_lba f c)) (512 * (j - cluster_lba f c) + 512) else sector (source f) j)"
    using write_loop [OF assms(1), of "cluster_lba f c" n buffer] assms(3) n by (auto simp: cluster_ok_def n_def)
  have lba: "cluster_lba (f\<lparr>source := d\<rparr>) c' = cluster_lba f c'" for c' by (simp add: cluster_lba_def)
  have "cluster_data sector (f\<lparr>source := d\<rparr>) c = buffer"
  proof -
    have "concat (map (sector d) [cluster_lba f c..<cluster_lba f c + n]) =
        concat (map (\<lambda>j. slice buffer (512 * (j - cluster_lba f c) + 0) (512 * (j - cluster_lba f c) + 0 + 512))
          [cluster_lba f c..<cluster_lba f c + n])"
      by (intro arg_cong [where f = concat] map_cong) (auto simp: d(4))
    also have "\<dots> = buffer" using concat_slices [of 0 n buffer "cluster_lba f c"] n(2) by (simp add: slice_def)
    finally show ?thesis by (simp add: cluster_data_def lba n_def [symmetric])
  qed
  moreover have "cluster_data sector (f\<lparr>source := d\<rparr>) c' = cluster_data sector f c'"
    if "cluster_ok (capacity (source f)) f c'" "c' \<noteq> c" for c'
  proof -
    have far: "cluster_lba f x + n \<le> cluster_lba f y" if "unat x < unat y" "2 \<le> unat x" for x y
    proof -
      have "Suc (unat x - 2) \<le> unat y - 2" using that by arith
      then have "Suc (unat x - 2) * n \<le> (unat y - 2) * n" by (rule mult_le_mono1)
      then show ?thesis by (simp add: cluster_lba_def n_def)
    qed
    have "unat c < unat c' \<or> unat c' < unat c" using that(2) by (metis linorder_neqE_nat word_unat_eq_iff)
    then have "cluster_lba f c' + n \<le> cluster_lba f c \<or> cluster_lba f c + n \<le> cluster_lba f c'"
      using far that(1) assms(3) by (auto simp: cluster_ok_def)
    then show ?thesis by (auto simp: cluster_data_def lba d(4) n_def [symmetric] intro!: arg_cong [where f = concat])
  qed
  ultimately show ?thesis
    using d(1-3) s assms(2,4) by (auto simp: write_cluster_def n_def [symmetric] geometry_ok_def)
qed

end

section \<open>The in-memory source\<close>

definition memory_read_sectors_to :: "u8 list \<Rightarrow> u32 \<Rightarrow> nat \<Rightarrow> sector list io" where
  "memory_read_sectors_to data starting_sector k =
     (let starting_offset = unat (starting_sector * 512);
          n = k * FAT_SECTOR_SIZE
      in if starting_offset + n \<le> length data
         then Ok (chunks k 512 (slice data starting_offset (starting_offset + n)))
         else Panic)"

definition memory_write_sector :: "u8 list \<Rightarrow> u32 \<Rightarrow> u8 list \<Rightarrow> u8 list io" where
  "memory_write_sector data sector buffer =
     assert_io (length buffer = 512)
       (let starting_offset = unat (sector * 512)
        in if starting_offset + length buffer \<le> length data then Ok (copy_into data starting_offset buffer) else Panic)"

definition memory_source :: "u8 list data_source" where
  "memory_source = \<lparr>read_sectors_to = memory_read_sectors_to, write_sector = memory_write_sector\<rparr>"

definition memory_sector :: "u8 list \<Rightarrow> nat \<Rightarrow> sector" where
  "memory_sector data i = slice data (512 * i) (512 * i + 512)"

lemma chunks_slice: "m + n * k \<le> length xs \<Longrightarrow> chunks n k (slice xs m (m + n * k)) = map (\<lambda>i. slice xs (m + i * k) (m + i * k + k)) [0..<n]"
proof (induction n arbitrary: m)
  case (Suc n)
  have "drop k (slice xs m (m + Suc n * k)) = slice xs (m + k) (m + k + n * k)"
    by (simp add: slice_def drop_take add.commute)
  moreover have "map (\<lambda>i. slice xs (m + k + i * k) (m + k + i * k + k)) [0..<n] = map (\<lambda>i. slice xs (m + i * k) (m + i * k + k)) [1..<Suc n]"
    unfolding map_Suc_upt [symmetric] One_nat_def by (simp add: comp_def algebra_simps)
  ultimately show ?case using Suc.IH [of "m + k"] Suc.prems by (simp add: upt_conv_Cons slice_def algebra_simps del: upt_Suc)
qed simp

lemma unat_times_512:
  assumes "unat s < c" "c * 512 \<le> 2 ^ 32"
  shows "unat (s * 512 :: u32) = unat s * 512"
proof -
  have "unat s * 512 < 2 ^ 32" using assms by simp
  then show ?thesis by (simp add: unat_mult_lem [THEN iffD1])
qed

lemma memory_sector_nth: "k < length (memory_sector data i) \<Longrightarrow> memory_sector data i ! k = data ! (512 * i + k)"
  by (cases "512 * i \<le> length data") (simp_all add: memory_sector_def slice_def)

lemma memory_sector_length: "length (memory_sector data i) = min 512 (length data - 512 * i)"
  by (simp add: memory_sector_def slice_def min.commute)

lemma memory_sector_update:
  assumes "length data = 512 * n" "i < n" "length b = 512"
  shows "memory_sector (copy_into data (i * 512) b) = (memory_sector data)(i := b)"
proof
  fix j
  have fit: "i * 512 + length b \<le> length data" using assms by simp
  have len: "length (memory_sector (copy_into data (i * 512) b) j) = length (((memory_sector data)(i := b)) j)"
    using assms fit by (simp add: memory_sector_length)
  have "memory_sector (copy_into data (i * 512) b) j ! k = ((memory_sector data)(i := b)) j ! k"
    if k: "k < length (memory_sector (copy_into data (i * 512) b) j)" for k
  proof (cases "j = i")
    case True
    have "k < 512" using k by (simp add: memory_sector_length)
    then have "copy_into data (i * 512) b ! (512 * i + k) = b ! k"
      using fit assms(3) by (subst nth_copy_into) (simp_all add: mult.commute)
    with True k show ?thesis by (simp add: memory_sector_nth)
  next
    case False
    have "k < 512" "512 * j + k < length data" using k fit by (auto simp: memory_sector_length)
    moreover from this False have "512 * j + k < i * 512 \<or> i * 512 + 512 \<le> 512 * j + k" by (cases "j < i") auto
    ultimately have "copy_into data (i * 512) b ! (512 * j + k) = data ! (512 * j + k)"
      using fit assms(3) by (subst nth_copy_into) auto
    with False k len show ?thesis by (simp add: memory_sector_nth)
  qed
  then show "memory_sector (copy_into data (i * 512) b) j = ((memory_sector data)(i := b)) j"
    using len by (intro nth_equalityI)
qed

interpretation memory: sector_store memory_source "\<lambda>data. 512 dvd length data \<and> length data \<le> 2 ^ 32"
  "\<lambda>data. length data div 512" memory_sector
proof
  fix d :: "u8 list" and i n :: nat and s :: u32 and b :: "u8 list"
  assume d: "512 dvd length d \<and> length d \<le> 2 ^ 32"
  then obtain c where c: "length d = 512 * c" "512 * c \<le> 2 ^ 32" by auto
  show "length d div 512 \<le> 2 ^ 32" using c by simp
  show "length (memory_sector d i) = 512" if "i < length d div 512"
    using that c by (simp add: memory_sector_length min_def)
  show "read_sectors_to memory_source d s n = Ok (map (memory_sector d) [unat s..<unat s + n])"
    if "unat s + n \<le> length d div 512"
  proof (cases "n = 0")
    case True
    have "unat (s * 512) \<le> unat s * 512" by (simp add: unat_word_ariths(2))
    then have "unat (s * 512) \<le> length d" using that c by simp
    with True show ?thesis by (simp add: memory_source_def memory_read_sectors_to_def Let_def)
  next
    case False
    then have o: "unat (s * 512) = unat s * 512" using that c by (intro unat_times_512 [of s c]) auto
    have "chunks n 512 (slice d (unat s * 512) (unat s * 512 + n * 512)) = map (\<lambda>i. memory_sector d (unat s + i)) [0..<n]"
      using that c by (subst chunks_slice) (auto simp: memory_sector_def algebra_simps)
    also have "\<dots> = map (memory_sector d) [unat s..<unat s + n]"
      by (simp add: list_eq_iff_nth_eq)
    finally show ?thesis
      using o that c by (simp add: memory_source_def memory_read_sectors_to_def Let_def FAT_SECTOR_SIZE_def algebra_simps)
  qed
  show "\<exists>d'. write_sector memory_source d s b = Ok d' \<and> (512 dvd length d' \<and> length d' \<le> 2 ^ 32) \<and>
      length d' div 512 = length d div 512 \<and> memory_sector d' = (memory_sector d)(unat s := b)"
    if "unat s < length d div 512" "length b = 512"
    using that c unat_times_512 [of s c] memory_sector_update [of d c "unat s" b]
    by (simp add: memory_source_def memory_write_sector_def Let_def)
qed

section \<open>Loading and saving\<close>

definition table_of_bytes :: "u8 list \<Rightarrow> u32 list" where
  "table_of_bytes bytes = map (\<lambda>b. le32 b 0) (chunks (length bytes div 4) 4 bytes)"

lemma table_of_table_bytes: "table_of_bytes (table_bytes t) = t" "length (table_bytes t) = 4 * length t"
proof (induction t)
  case (Cons w t)
  case 1
  have "le32 (rev (u32_to_be w)) 0 = w" by (simp add: le32_def u32_to_be_def u32_be_roundtrip)
  moreover have "(4 + length (table_bytes t)) div 4 = Suc (length (table_bytes t) div 4)" by simp
  ultimately show ?case using Cons(1) by (simp add: table_of_bytes_def table_bytes_def)
  case 2
  show ?case using Cons(2) by (simp add: table_bytes_def)
qed (simp_all add: table_of_bytes_def table_bytes_def)

lemma chunks_append: "length a = m * k \<Longrightarrow> chunks (m + n) k (a @ b) = chunks m k a @ chunks n k b"
  by (induction m arbitrary: a) simp_all

lemma chunks_length [simp]: "length (chunks n k xs) = n"
  by (induction n arbitrary: xs) simp_all

lemma chunks_replicate: "chunks n k (replicate (n * k) x) = replicate n (replicate k x)"
  by (induction n) (simp_all add: replicate_add)

lemma table_of_bytes_append: "length a = 4 * m \<Longrightarrow> table_of_bytes (a @ b) = table_of_bytes a @ table_of_bytes b"
  using chunks_append [of a m 4 "length b div 4" b] by (simp add: table_of_bytes_def)

lemma table_of_bytes_length: "length (table_of_bytes b) = length b div 4"
  by (simp add: table_of_bytes_def)

lemma table_of_zeros: "table_of_bytes (replicate 1024 0) = replicate 256 0"
  using chunks_replicate [of 256 4 "0 :: u8"] by (simp add: table_of_bytes_def le32_def u32_from_be_def nth_replicate)

context sector_store
begin

lemma init_table:
  assumes "sound_source (source f)" "start + n \<le> capacity (source f)" "n = unat (sectors_per_fat_32 (bpb f))" "0 < n" "n < 2 ^ 23"
    "start = unat (partition_first_sector_lba f) + unat (reserved_sector_count (bpb f))"
  shows "fat_init ds f = Ok (f\<lparr>file_allocation_table := table_of_bytes (concat
    (if n < 128 then map (sector (source f)) [start..<start + n]
     else map (sector (source f)) [start..<start + (n - 2)] @ replicate 2 (replicate 512 0)))\<rparr>)"
proof -
  define w where "w = sectors_per_fat_32 (bpb f)"
  have w: "unat (w * 512) = n * 512" "unat w = n" using assms(3,5) by (simp_all add: w_def unat_mult_lem [THEN iffD1])
  have start: "partition_first_sector_lba f + ucast (reserved_sector_count (bpb f)) = of_nat start" by (simp add: assms(6))
  have u: "unat (of_nat start :: u32) = start"
    using assms(2,4) capacity_bound [OF assms(1)] by (intro unat_of_nat_len) simp
  have "read_sectors ds f (ucast (reserved_sector_count (bpb f))) w =
      Ok (if n < 128 then map (sector (source f)) [start..<start + n]
          else map (sector (source f)) [start..<start + (n - 2)] @ replicate 2 (replicate 512 0))"
  proof (cases "n < 128")
    case True
    then have "\<not> 0xFFFE \<le> w * 512" by (simp add: word_le_nat_alt w)
    with True show ?thesis
      using read_ok [OF assms(1), of "of_nat start" n] assms(2) u by (simp add: read_sectors_def source_read_sectors_def start w)
  next
    case False
    then have "0xFFFE \<le> w * 512" "unat (w - 2) = n - 2" by (simp_all add: word_le_nat_alt w unat_sub)
    with False show ?thesis
      using read_loop [OF assms(1), of start "n - 2" "replicate n (replicate 512 0)"] assms(2)
      by (simp add: read_sectors_def start w(2))
  qed
  then show ?thesis by (simp add: fat_init_def w_def [symmetric] table_of_bytes_def Let_def)
qed

lemma save_table:
  assumes "sound_source (source f)" "start + n \<le> capacity (source f)" "n = unat (sectors_per_fat_32 (bpb f))"
    "start = unat (reserved_sector_count (bpb f))" "length (file_allocation_table f) = 128 * n"
  shows "\<exists>d. save_fat ds f = Ok (f\<lparr>source := d\<rparr>) \<and> sound_source d \<and> capacity d = capacity (source f) \<and>
    concat (map (sector d) [start..<start + n]) = table_bytes (file_allocation_table f)"
proof -
  define b where "b = table_bytes (file_allocation_table f)"
  have b: "length b = 512 * n" using assms(5) by (simp add: b_def table_of_table_bytes)
  define g where "g i = slice b (i * 512) ((i + 1) * 512)" for i
  have g: "length (g i) = 512" if "i < n" for i using that b by (simp add: g_def)
  obtain d where d: "for_io (\<lambda>i d. write_sector ds d (of_nat (start + i)) (g i)) [0..<n] (source f) = Ok d" "sound_source d"
    "capacity d = capacity (source f)" "sector d = (\<lambda>j. if start \<le> j \<and> j < start + n then g (j - start) else sector (source f) j)"
    using write_each [OF assms(1,2), of "\<lambda>i d. write_sector ds d (of_nat (start + i)) (g i)" g] g by auto
  have "concat (map (sector d) [start..<start + n]) = concat (map (\<lambda>j. slice b (512 * (j - start) + 0) (512 * (j - start) + 0 + 512)) [start..<start + n])"
    by (intro arg_cong [where f = concat] map_cong) (auto simp: d(4) g_def algebra_simps)
  also have "\<dots> = b" using concat_slices [of 0 n b start] b by (simp add: slice_def)
  finally show ?thesis
    using d(1-3) b by (auto simp: save_fat_def b_def [symmetric] assms(3,4) [symmetric] FAT_SECTOR_SIZE_def g_def Let_def)
qed

end

text \<open>the allocation table survives a save and a reload. On a volume that starts at sector 0 and whose table has fewer
  than 128 sectors, \<open>save_fat\<close> succeeds and \<open>init\<close> on the medium it leaves behind reads back exactly the table that was
  saved.\<close>

lemma saved_table_reloads:
  assumes "sector_store ds sound capacity sector" "sound (source f)" "partition_first_sector_lba f = 0"
    "n = unat (sectors_per_fat_32 (bpb f))" "0 < n" "n < 128" "unat (reserved_sector_count (bpb f)) + n \<le> capacity (source f)"
    "length (file_allocation_table f) = 128 * n"
  shows "\<exists>f'. save_fat ds f = Ok f' \<and> fat_init ds (f'\<lparr>file_allocation_table := []\<rparr>) = Ok f'"
proof -
  obtain d where d: "save_fat ds f = Ok (f\<lparr>source := d\<rparr>)" "sound d" "capacity d = capacity (source f)"
    "concat (map (sector d) [unat (reserved_sector_count (bpb f))..<unat (reserved_sector_count (bpb f)) + n]) = table_bytes (file_allocation_table f)"
    using sector_store.save_table [OF assms(1,2,7,4) refl assms(8)] by blast
  define g where "g = f\<lparr>source := d, file_allocation_table := []\<rparr>"
  have "fat_init ds g = Ok (g\<lparr>file_allocation_table := table_of_bytes (table_bytes (file_allocation_table f))\<rparr>)"
  proof -
    have "sound (source g)" "unat (reserved_sector_count (bpb f)) + n \<le> capacity (source g)" "n = unat (sectors_per_fat_32 (bpb g))"
      "n < 2 ^ 23" "unat (reserved_sector_count (bpb f)) = unat (partition_first_sector_lba g) + unat (reserved_sector_count (bpb g))"
      using assms(3,4,6,7) d(2,3) by (simp_all add: g_def)
    note sector_store.init_table [OF assms(1) this(1-3) assms(5) this(4,5)]
    moreover have "source g = d" by (simp add: g_def)
    ultimately show ?thesis using assms(6) by (simp only: d(4) if_True)
  qed
  with d(1) show ?thesis by (simp add: g_def table_of_table_bytes)
qed

definition example_bpb :: "u32 \<Rightarrow> bios_parameter_block" where
  "example_bpb n = \<lparr>jmp_boot = [0, 0, 0], oem_name = replicate 8 0x20, bytes_per_sector = 512, sectors_per_cluster = 1,
     reserved_sector_count = 1, number_of_fats = 1, root_entries_count = 0, total_count_of_sectors = 0, media_type = 0xF8,
     sectors_per_fat = 0, sectors_per_track = 0, number_of_heads = 0, hidden_sectors_count = 0,
     total_count_of_sectors_32 = n + 3, sectors_per_fat_32 = n, ext_flags = 0, filesystem_version = 0,
     root_directory_first_cluster = 2, fs_info_sector = 0, boot_sector_copy_sector_number = 0, drive_number = 0,
     boot_signature = 0x29, volume_id = 0, volume_label = replicate 11 0x20, filesystem_type = replicate 8 0x20,
     signature = [0x55, 0xAA]\<rparr>"

definition example_fat :: "u32 \<Rightarrow> u32 list \<Rightarrow> u8 list fat" where
  "example_fat n table = \<lparr>source = replicate ((unat n + 4) * 512) 0xFF, partition_first_sector_lba = 0, bpb = example_bpb n,
     file_allocation_table = table\<rparr>"

lemma example_fat_simps [simp]:
  "length (source (example_fat n t)) = (unat n + 4) * 512" "partition_first_sector_lba (example_fat n t) = 0"
  "reserved_sector_count (bpb (example_fat n t)) = 1" "sectors_per_fat_32 (bpb (example_fat n t)) = n"
  "file_allocation_table (example_fat n t) = t"
  by (simp_all add: example_fat_def example_bpb_def)

lemma saved_table_reloads_witness:
  "\<exists>f'. save_fat memory_source (example_fat 1 (replicate 128 7)) = Ok f' \<and>
     fat_init memory_source (f'\<lparr>file_allocation_table := []\<rparr>) = Ok f'"
  using saved_table_reloads [OF memory.sector_store_axioms, of "example_fat 1 (replicate 128 7)" 1]
  by simp

text \<open>a large allocation table loses its end. Reading 128 or more sectors goes one sector at a time and stops two short, so
  the last 256 entries of the loaded table are zero, that is free, whatever the medium holds there.\<close>

theorem large_table_truncated:
  assumes "sector_store ds sound capacity sector" "sound (source f)" "n = unat (sectors_per_fat_32 (bpb f))" "128 \<le> n" "n < 2 ^ 23"
    "unat (partition_first_sector_lba f) + unat (reserved_sector_count (bpb f)) + n \<le> capacity (source f)"
  shows "\<exists>f'. fat_init ds f = Ok f' \<and> length (file_allocation_table f') = 128 * n \<and>
    drop (128 * (n - 2)) (file_allocation_table f') = replicate 256 FAT_FREE_SECTOR"
proof -
  define start where "start = unat (partition_first_sector_lba f) + unat (reserved_sector_count (bpb f))"
  define held where "held = concat (map (sector (source f)) [start..<start + (n - 2)])"
  have "length held = 512 * (n - 2)"
  proof -
    have "map (length \<circ> sector (source f)) [start..<start + (n - 2)] = replicate (n - 2) 512"
      using sector_store.sector_length [OF assms(1,2)] assms(6) by (simp add: list_eq_iff_nth_eq start_def)
    then show ?thesis by (simp add: held_def length_concat sum_list_replicate)
  qed
  moreover have "fat_init ds f = Ok (f\<lparr>file_allocation_table := table_of_bytes (held @ replicate 1024 0)\<rparr>)"
    using sector_store.init_table [OF assms(1,2), of start n] assms(3-6)
    by (simp add: start_def held_def numeral_2_eq_2 replicate_add [symmetric])
  ultimately show ?thesis
    using assms(4) by (simp add: table_of_bytes_append table_of_bytes_length table_of_zeros FAT_FREE_SECTOR_def)
qed

end
