(* ===== verification/Fat_Entry.thy ===== *)
theory Fat_Entry
  imports Fat_Disk
begin

text \<open>
  Directory entries of \<^verbatim>\<open>src/fs/src/fat32/mod.rs\<close> and short names of \<^verbatim>\<open>lfn.rs\<close>: the 32-byte entry and its byte form, long-name
  entries, attributes, date and time fields, the checksum of long names, the conversion of a long name to a short one,
  and the setters of a file entry. A \<open>String\<close> is its list of UTF-8 bytes; cutting it inside a character panics as
  \<open>str::split_at\<close> does. The crates \<open>chrono\<close> (calendar) and \<open>ucs2\<close> (16-bit text) are not part of the sources: they are the
  record arguments \<open>chrono\<close> and \<open>ucs2\<close>.
\<close>

section \<open>Raw entries\<close>

record raw_fat_file_entry =
  raw_name :: "u8 list"
  raw_attr :: u8
  nt_res :: u8
  creation_time_milliseconds :: u8
  raw_creation_time :: u16
  raw_creation_date :: u16
  raw_last_access_date :: u16
  first_cluster_high :: u16
  raw_last_write_time :: u16
  raw_last_write_date :: u16
  first_cluster_low :: u16
  raw_file_size :: u32

definition raw_default :: raw_fat_file_entry where
  "raw_default = \<lparr>raw_name = replicate 11 0, raw_attr = 0, nt_res = 0, creation_time_milliseconds = 0, raw_creation_time = 0,
     raw_creation_date = 0, raw_last_access_date = 0, first_cluster_high = 0, raw_last_write_time = 0,
     raw_last_write_date = 0, first_cluster_low = 0, raw_file_size = 0\<rparr>"

text \<open>The derived reader of 32 bytes, and the writer.\<close>

definition raw_read :: "u8 list \<Rightarrow> raw_fat_file_entry" where
  "raw_read bs = \<lparr>raw_name = slice bs 0 11, raw_attr = bs ! 11, nt_res = bs ! 12, creation_time_milliseconds = bs ! 13,
     raw_creation_time = le16 bs 14, raw_creation_date = le16 bs 16, raw_last_access_date = le16 bs 18,
     first_cluster_high = le16 bs 20, raw_last_write_time = le16 bs 22, raw_last_write_date = le16 bs 24,
     first_cluster_low = le16 bs 26, raw_file_size = le32 bs 28\<rparr>"

definition le16_bytes :: "u16 \<Rightarrow> u8 list" where "le16_bytes w = rev (u16_to_be w)"
definition le32_bytes :: "u32 \<Rightarrow> u8 list" where "le32_bytes w = rev (u32_to_be w)"

definition raw_write :: "raw_fat_file_entry \<Rightarrow> u8 list" where
  "raw_write e = raw_name e @ [raw_attr e, nt_res e, creation_time_milliseconds e] @ le16_bytes (raw_creation_time e) @
     le16_bytes (raw_creation_date e) @ le16_bytes (raw_last_access_date e) @ le16_bytes (first_cluster_high e) @
     le16_bytes (raw_last_write_time e) @ le16_bytes (raw_last_write_date e) @ le16_bytes (first_cluster_low e) @
     le32_bytes (raw_file_size e)"

text \<open>\<open>RawFileListing\<close>: read until the slice is empty, a shorter rest is an error; write at most 16 entries.\<close>

definition read_files_raw :: "u8 list \<Rightarrow> raw_fat_file_entry list option" where
  "read_files_raw bs =
     (if bs = [] \<or> length bs mod 32 \<noteq> 0 then None else Some (map raw_read (chunks (length bs div 32) 32 bs)))"

definition write_files_raw :: "raw_fat_file_entry list \<Rightarrow> u8 list io" where
  "write_files_raw files = assert_io (length files \<le> 16) (Ok (concat (map raw_write files)))"

section \<open>Attributes\<close>

definition READ_ONLY :: u8 where "READ_ONLY = 1"
definition HIDDEN :: u8 where "HIDDEN = 2"
definition SYSTEM :: u8 where "SYSTEM = 4"
definition VOLUME_ID :: u8 where "VOLUME_ID = 8"
definition DIRECTORY :: u8 where "DIRECTORY = 16"
definition ARCHIVE :: u8 where "ARCHIVE = 32"

text \<open>\<open>contains\<close> and \<open>from_bits\<close> of \<open>bitflags\<close>: the latter refuses bits that no flag names.\<close>

definition attr_contains :: "u8 \<Rightarrow> u8 \<Rightarrow> bool" where
  "attr_contains a flag \<longleftrightarrow> a AND flag = flag"

definition attr_from_bits :: "u8 \<Rightarrow> u8 option" where
  "attr_from_bits b = (if b AND 0x3F = b then Some b else None)"

definition is_long_name_entry :: "u8 \<Rightarrow> bool" where
  "is_long_name_entry a \<longleftrightarrow> attr_contains a READ_ONLY \<and> attr_contains a HIDDEN \<and> attr_contains a SYSTEM \<and> attr_contains a VOLUME_ID"

definition is_directory :: "u8 \<Rightarrow> bool" where
  "is_directory a \<longleftrightarrow> attr_contains a DIRECTORY"

text \<open>The portable attributes of \<^verbatim>\<open>lib.rs\<close>.\<close>

definition ATTR_ARCHIVE :: u8 where "ATTR_ARCHIVE = 1"
definition ATTR_HIDDEN :: u8 where "ATTR_HIDDEN = 2"
definition ATTR_READ_ONLY :: u8 where "ATTR_READ_ONLY = 4"
definition ATTR_SYSTEM_FILE :: u8 where "ATTR_SYSTEM_FILE = 8"
definition ATTR_DIRECTORY :: u8 where "ATTR_DIRECTORY = 16"

definition fat_attributes_from :: "u8 \<Rightarrow> u8" where
  "fat_attributes_from value =
     (if attr_contains value ATTR_ARCHIVE then ARCHIVE else 0) OR
     (if attr_contains value ATTR_HIDDEN then HIDDEN else 0) OR
     (if attr_contains value ATTR_READ_ONLY then READ_ONLY else 0) OR
     (if attr_contains value ATTR_SYSTEM_FILE then SYSTEM else 0) OR
     (if attr_contains value ATTR_DIRECTORY then DIRECTORY else 0)"

definition attributes_from :: "u8 \<Rightarrow> u8" where
  "attributes_from value =
     (if attr_contains value ARCHIVE then ATTR_ARCHIVE else 0) OR
     (if attr_contains value HIDDEN then ATTR_HIDDEN else 0) OR
     (if attr_contains value READ_ONLY then ATTR_READ_ONLY else 0) OR
     (if attr_contains value SYSTEM then ATTR_SYSTEM_FILE else 0) OR
     (if attr_contains value DIRECTORY then ATTR_DIRECTORY else 0)"

section \<open>Dates and times\<close>

record 'dt chrono =
  dt_default :: 'dt
  with_year :: "'dt \<Rightarrow> int \<Rightarrow> 'dt option"
  with_month :: "'dt \<Rightarrow> nat \<Rightarrow> 'dt option"
  with_day :: "'dt \<Rightarrow> nat \<Rightarrow> 'dt option"
  with_hour :: "'dt \<Rightarrow> nat \<Rightarrow> 'dt option"
  with_minute :: "'dt \<Rightarrow> nat \<Rightarrow> 'dt option"
  with_second :: "'dt \<Rightarrow> nat \<Rightarrow> 'dt option"
  dt_year :: "'dt \<Rightarrow> int"
  dt_month :: "'dt \<Rightarrow> nat"
  dt_day :: "'dt \<Rightarrow> nat"
  dt_hour :: "'dt \<Rightarrow> nat"
  dt_minute :: "'dt \<Rightarrow> nat"
  dt_second :: "'dt \<Rightarrow> nat"

text \<open>The bit fields: five bits of day, four of month, seven of year; five bits of seconds, six of minutes, five of hours.
  A setter keeps the low bits of its value (a build with debug assertions panics when bits are lost).\<close>

definition date_field :: "u16 \<Rightarrow> nat \<times> nat \<times> nat" where
  "date_field w = (unat (take_bit 5 w), unat (take_bit 4 (drop_bit 5 w)), unat (take_bit 7 (drop_bit 9 w)))"

definition time_field :: "u16 \<Rightarrow> nat \<times> nat \<times> nat" where
  "time_field w = (unat (take_bit 5 w), unat (take_bit 6 (drop_bit 5 w)), unat (take_bit 5 (drop_bit 11 w)))"

definition pack_fields :: "nat \<Rightarrow> nat \<Rightarrow> nat \<Rightarrow> nat \<Rightarrow> nat \<Rightarrow> nat \<Rightarrow> u16" where
  "pack_fields a ka b kb c kc =
     take_bit ka (of_nat a) OR push_bit ka (take_bit kb (of_nat b)) OR push_bit (ka + kb) (take_bit kc (of_nat c))"

definition create_date_time_from_fields :: "'dt chrono \<Rightarrow> u16 \<Rightarrow> u16 \<Rightarrow> 'dt io" where
  "create_date_time_from_fields ch date time =
     (case (date_field date, time_field time) of ((day, month, year), (seconds, minutes, hours)) \<Rightarrow>
        bind_io (unwrap (with_year ch (dt_default ch) (1980 + int year))) (\<lambda>t.
        bind_io (unwrap (with_month ch t month)) (\<lambda>t.
        bind_io (unwrap (with_day ch t day)) (\<lambda>t.
        bind_io (unwrap (with_hour ch t hours)) (\<lambda>t.
        bind_io (unwrap (with_minute ch t minutes)) (\<lambda>t.
        unwrap (with_second ch t seconds)))))))"

text \<open>\<open>as u8\<close> truncates before the field is set.\<close>

definition create_fields_from_date_time :: "'dt chrono \<Rightarrow> 'dt \<Rightarrow> u16 \<times> u16" where
  "create_fields_from_date_time ch dt =
     (pack_fields (dt_day ch dt mod 256) 5 (dt_month ch dt mod 256) 4 (nat ((dt_year ch dt - 1980) mod 256)) 7,
      pack_fields (dt_second ch dt div 2 mod 256) 5 (dt_minute ch dt mod 256) 6 (dt_hour ch dt mod 256) 5)"

section \<open>Short names\<close>

text \<open>Cutting a string at a byte offset: \<open>None\<close> is the panic when the offset is outside the string or inside a character.\<close>

definition is_char_boundary :: "u8 list \<Rightarrow> nat \<Rightarrow> bool" where
  "is_char_boundary s i \<longleftrightarrow> i = 0 \<or> i = length s \<or> i < length s \<and> \<not> (0x80 \<le> s ! i \<and> s ! i < 0xC0)"

definition split_at :: "u8 list \<Rightarrow> nat \<Rightarrow> (u8 list \<times> u8 list) option" where
  "split_at s i = (if is_char_boundary s i then Some (take i s, drop i s) else None)"

definition to_ascii_uppercase :: "u8 list \<Rightarrow> u8 list" where
  "to_ascii_uppercase = map (\<lambda>c. if 0x61 \<le> c \<and> c \<le> 0x7A then c - 0x20 else c)"

definition DOT :: u8 where "DOT = 0x2E"
definition SPACE :: u8 where "SPACE = 0x20"
definition TILDE_ONE :: "u8 list" where "TILDE_ONE = [0x7E, 0x31]"

text \<open>\<open>rfind(".")\<close>: the last dot.\<close>

definition rfind_dot :: "u8 list \<Rightarrow> nat option" where
  "rfind_dot s = (if DOT \<in> set s then Some (length s - 1 - length (takeWhile (\<lambda>c. c \<noteq> DOT) (rev s))) else None)"

definition split_extension :: "u8 list \<Rightarrow> (u8 list \<times> u8 list) option" where
  "split_extension lfn =
     (case rfind_dot lfn of
        None \<Rightarrow> Some (lfn, [])
      | Some dot_index \<Rightarrow>
          let filename = take dot_index lfn;
              extension = drop (Suc dot_index) lfn
          in if length extension > 3 then map_option (\<lambda>(e, _). (filename, e)) (split_at extension 3)
             else Some (filename, extension))"

text \<open>The suffix of a name that does not stand for itself.\<close>

definition mark_lossy :: "u8 list \<Rightarrow> u8 list option" where
  "mark_lossy filename =
     (if length filename > 8
      then (if is_char_boundary filename 6 \<and> is_char_boundary filename 8
            then Some (take 6 filename @ TILDE_ONE @ drop 8 filename) else None)
      else if length filename = 7
      then (if is_char_boundary filename 6 then Some (take 6 filename @ TILDE_ONE) else None)
      else Some (filename @ TILDE_ONE))"

definition convert_to_sfn :: "u8 list \<Rightarrow> u8 list option" where
  "convert_to_sfn name =
     (let lfn = to_ascii_uppercase name in
      Option.bind (split_extension lfn) (\<lambda>(filename0, extension0).
      let leading_dot = filename0 = [] \<and> extension0 \<noteq> [];
          filename1 = (if leading_dot then drop 1 lfn else filename0);
          extension = (if leading_dot then [] else extension0);
          long = length filename1 > 8
      in Option.bind (if long then map_option fst (split_at filename1 7) else Some filename1) (\<lambda>filename2.
      let dotted = DOT \<in> set filename2;
          filename3 = filter (\<lambda>c. c \<noteq> DOT) filename2
      in Option.bind (if leading_dot \<or> long \<or> dotted then mark_lossy filename3 else Some filename3) (\<lambda>filename.
      Some (if extension = [] then filename else filename @ DOT # extension)))))"

definition padded_sfn :: "u8 list \<Rightarrow> u8 list option" where
  "padded_sfn lfn = map_option (\<lambda>sfn. if length sfn \<noteq> 11 then sfn @ replicate (12 - length sfn) SPACE else sfn) (convert_to_sfn lfn)"

section \<open>File entries\<close>

record 'dt fat_file_entry =
  entry_name :: "u8 list"
  attr :: u8
  creation_date_time :: 'dt
  last_access_date_time :: 'dt
  last_write_date_time :: 'dt
  entry_file_size :: u32
  raw :: "raw_fat_file_entry list"

definition compute_lfn_checksum :: "u8 list \<Rightarrow> u8" where
  "compute_lfn_checksum name =
     foldl (\<lambda>lfn_checksum i. (if lfn_checksum AND 1 = 1 then 0x80 else 0) + (drop_bit 1 lfn_checksum + name ! (10 - i)))
       0 (rev [0..<11])"

text \<open>A long-name entry is the bytes of its fields read as a raw entry.\<close>

record long_file_name_entry =
  sequence_number_lfn :: u8
  name1 :: "u16 list"
  attr_lfn :: u8
  reserved_lfn :: u8
  checksum_lfn :: u8
  name2 :: "u16 list"
  first_cluster_low_lfn :: u16
  name3 :: "u16 list"

definition lfn_bytes :: "long_file_name_entry \<Rightarrow> u8 list" where
  "lfn_bytes l = sequence_number_lfn l # concat (map le16_bytes (name1 l)) @ [attr_lfn l, reserved_lfn l, checksum_lfn l] @
     concat (map le16_bytes (name2 l)) @ le16_bytes (first_cluster_low_lfn l) @ concat (map le16_bytes (name3 l))"

definition lfn_read :: "u8 list \<Rightarrow> long_file_name_entry" where
  "lfn_read bs = \<lparr>sequence_number_lfn = bs ! 0, name1 = map (\<lambda>i. le16 bs (1 + 2 * i)) [0..<5], attr_lfn = bs ! 11,
     reserved_lfn = bs ! 12, checksum_lfn = bs ! 13, name2 = map (\<lambda>i. le16 bs (14 + 2 * i)) [0..<6],
     first_cluster_low_lfn = le16 bs 26, name3 = map (\<lambda>i. le16 bs (28 + 2 * i)) [0..<2]\<rparr>"

record ucs2 =
  str_num_ucs2_chars :: "u8 list \<Rightarrow> nat option"
  ucs2_encode :: "u8 list \<Rightarrow> nat \<Rightarrow> u16 list option"
  ucs2_decode :: "u16 list \<Rightarrow> u8 list option"

text \<open>One long-name entry of \<open>set_name\<close>: \<open>ucs2_encode\<close> fills a zeroed buffer of the given length.\<close>

definition lfn_entry :: "u8 \<Rightarrow> nat \<Rightarrow> u16 list \<Rightarrow> raw_fat_file_entry" where
  "lfn_entry lfn_checksum index ucs2_part =
     raw_read (lfn_bytes \<lparr>sequence_number_lfn = of_nat (index + 1), name1 = slice ucs2_part 0 5,
       attr_lfn = READ_ONLY OR HIDDEN OR SYSTEM OR VOLUME_ID, reserved_lfn = 0, checksum_lfn = lfn_checksum,
       name2 = slice ucs2_part 5 11, first_cluster_low_lfn = 0, name3 = slice ucs2_part 11 13\<rparr>)"

definition set_name :: "ucs2 \<Rightarrow> u8 list \<Rightarrow> 'dt fat_file_entry \<Rightarrow> 'dt fat_file_entry io" where
  "set_name u name e =
     (let sfn = (case raw e of [] \<Rightarrow> raw_default | r # _ \<Rightarrow> r) in
      if length name \<le> 11
      then Ok (e\<lparr>entry_name := name, raw := [sfn\<lparr>raw_name := name @ replicate (11 - length name) SPACE\<rparr>]\<rparr>)
      else bind_io (unwrap (padded_sfn name)) (\<lambda>bytes.
        let sfn1 = sfn\<lparr>raw_name := take 11 bytes\<rparr>;
            lfn_checksum = compute_lfn_checksum (raw_name sfn1)
        in bind_io (unwrap (str_num_ucs2_chars u name)) (\<lambda>lfn_name_length.
           bind_io (unwrap (ucs2_encode u name (lfn_name_length div 13 * 13 + 13))) (\<lambda>lfn_buffer.
           Ok (e\<lparr>entry_name := name,
                 raw := sfn1 # map (\<lambda>(index, part). lfn_entry lfn_checksum index part)
                   (enumerate 0 (rev (chunks (length lfn_buffer div 13) 13 lfn_buffer)))\<rparr>)))))"

text \<open>The other setters write the first raw entry.\<close>

definition with_sfn :: "(raw_fat_file_entry \<Rightarrow> raw_fat_file_entry) \<Rightarrow> 'dt fat_file_entry \<Rightarrow> 'dt fat_file_entry io" where
  "with_sfn g e = (case raw e of [] \<Rightarrow> Panic | r # rs \<Rightarrow> Ok (e\<lparr>raw := g r # rs\<rparr>))"

definition set_attr :: "u8 \<Rightarrow> 'dt fat_file_entry \<Rightarrow> 'dt fat_file_entry io" where
  "set_attr a e = with_sfn (\<lambda>r. r\<lparr>raw_attr := a\<rparr>) (e\<lparr>attr := a\<rparr>)"

definition set_creation_date_time :: "'dt chrono \<Rightarrow> 'dt \<Rightarrow> 'dt fat_file_entry \<Rightarrow> 'dt fat_file_entry io" where
  "set_creation_date_time ch dt e =
     (case create_fields_from_date_time ch dt of (date, time) \<Rightarrow>
        with_sfn (\<lambda>r. r\<lparr>raw_creation_date := date, raw_creation_time := time\<rparr>) (e\<lparr>creation_date_time := dt\<rparr>))"

definition set_last_access_date_time :: "'dt chrono \<Rightarrow> 'dt \<Rightarrow> 'dt fat_file_entry \<Rightarrow> 'dt fat_file_entry io" where
  "set_last_access_date_time ch dt e =
     (case create_fields_from_date_time ch dt of (date, _) \<Rightarrow>
        with_sfn (\<lambda>r. r\<lparr>raw_last_access_date := date\<rparr>) (e\<lparr>last_access_date_time := dt\<rparr>))"

definition set_last_write_date_time :: "'dt chrono \<Rightarrow> 'dt \<Rightarrow> 'dt fat_file_entry \<Rightarrow> 'dt fat_file_entry io" where
  "set_last_write_date_time ch dt e =
     (case create_fields_from_date_time ch dt of (date, time) \<Rightarrow>
        with_sfn (\<lambda>r. r\<lparr>raw_last_write_date := date, raw_last_write_time := time\<rparr>) (e\<lparr>last_write_date_time := dt\<rparr>))"

definition set_file_size :: "u32 \<Rightarrow> 'dt fat_file_entry \<Rightarrow> 'dt fat_file_entry io" where
  "set_file_size n e = with_sfn (\<lambda>r. r\<lparr>raw_file_size := n\<rparr>) (e\<lparr>entry_file_size := n\<rparr>)"

section \<open>Entries and bytes\<close>

definition raw_wf :: "raw_fat_file_entry \<Rightarrow> bool" where
  "raw_wf e \<longleftrightarrow> length (raw_name e) = 11"

lemma le16_bytes_eq: "le16_bytes w = [ucast w, ucast (drop_bit 8 w)]"
  by (simp add: le16_bytes_def u16_to_be_def)

lemma le32_bytes_eq: "le32_bytes w = [ucast w, ucast (drop_bit 8 w), ucast (drop_bit 16 w), ucast (drop_bit 24 w)]"
  by (simp add: le32_bytes_def u32_to_be_def)

lemma raw_write_length [simp]: "raw_wf e \<Longrightarrow> length (raw_write e) = 32"
  by (simp add: raw_wf_def raw_write_def le16_bytes_eq le32_bytes_eq)

lemma raw_read_wf: "length bs = 32 \<Longrightarrow> raw_wf (raw_read bs)"
  by (simp add: raw_wf_def raw_read_def)

lemma raw_read_write: "raw_wf e \<Longrightarrow> raw_read (raw_write e) = e"
  by (simp add: raw_wf_def raw_read_def raw_write_def le16_bytes_eq le32_bytes_eq le16_def le32_def nth_append slice_def
      u16_be_roundtrip u32_be_roundtrip)

lemma chunks_concat: "(\<And>x. x \<in> set xs \<Longrightarrow> length x = k) \<Longrightarrow> chunks (length xs) k (concat xs) = xs"
  by (induction xs) simp_all

lemma listing_roundtrip:
  assumes "\<forall>e \<in> set es. raw_wf e" "es \<noteq> []"
  shows "read_files_raw (concat (map raw_write es)) = Some es"
proof -
  have len: "length (concat (map raw_write es)) = 32 * length es"
    using assms(1) by (induction es) simp_all
  moreover have "chunks (length es) 32 (concat (map raw_write es)) = map raw_write es"
  proof -
    have "length x = 32" if "x \<in> set (map raw_write es)" for x using that assms(1) by auto
    from chunks_concat [of "map raw_write es", OF this] show ?thesis by simp
  qed
  moreover have "map (raw_read \<circ> raw_write) es = es" using assms(1) by (intro map_idI) (simp add: raw_read_write)
  moreover have "concat (map raw_write es) \<noteq> []" using len assms(2) by (metis length_0_conv mult_eq_0_iff zero_neq_numeral)
  ultimately show ?thesis by (simp add: read_files_raw_def del: concat_eq_Nil_conv)
qed

lemma read_files_raw_wf:
  assumes "read_files_raw bs = Some es"
  shows "\<forall>e \<in> set es. raw_wf e" "length es = length bs div 32"
proof -
  have l: "length bs = 32 * (length bs div 32)" "es = map raw_read (chunks (length bs div 32) 32 bs)"
    using assms by (auto simp: read_files_raw_def split: if_splits)
  have "length x = k" if "x \<in> set (chunks n k xs)" "length xs = k * n" for x k n and xs :: "u8 list"
    using that by (induction n arbitrary: xs) auto
  then show "\<forall>e \<in> set es. raw_wf e" using l raw_read_wf by fastforce
  show "length es = length bs div 32" using l(2) by simp
qed

text \<open>The checksum of a short name is the one the FAT specification prescribes: rotate right by one, then add the next byte.\<close>

lemma lfn_checksum_rotates:
  assumes "length name = 11"
  shows "compute_lfn_checksum name = foldl (\<lambda>s b. push_bit 7 s + (drop_bit 1 s + b)) 0 name"
proof -
  have b: "bit (0x80 :: u8) n \<longleftrightarrow> n = 7" if "n < 8" for n
    using bit_exp_iff [of 7 n, where ?'a = u8] that by (auto simp: possible_bit_def)
  have step: "(if s AND 1 = 1 then 0x80 else 0) = push_bit 7 s" for s :: u8
  proof (rule bit_word_eqI)
    fix n assume "n < LENGTH(8)"
    then have n: "n < 8" "7 \<le> n \<longleftrightarrow> n = 7" by auto
    have odd: "s AND 1 = 1 \<longleftrightarrow> odd s" by (simp add: and_one_eq odd_iff_mod_2_eq_one)
    show "bit (if s AND 1 = 1 then 0x80 else 0 :: u8) n = bit (push_bit 7 s) n"
      unfolding odd using n b [OF n(1)] by (auto simp: bit_push_bit_iff possible_bit_def bit_0)
  qed
  have "map (\<lambda>i. name ! (10 - i)) (rev [0..<11]) = name"
    using assms by (intro nth_equalityI) (auto simp: rev_nth)
  then show ?thesis unfolding compute_lfn_checksum_def step by (subst foldl_map [symmetric]) (simp add: add.assoc)
qed

end
