(* ===== verification/Fat_Directory.thy ===== *)
theory Fat_Directory
  imports Fat_Entry
begin

text \<open>
  Directories of \<^verbatim>\<open>src/fs/src/fat32/fat.rs\<close> as sequences of raw entries on the clusters of a chain: listing a cluster, looking
  for a run of free entries, extending a directory, writing the entries of a file, removing them, and the two
  compositions \<open>serialize_file_entry\<close> and \<open>move_file\<close>. A loop of the code with an early exit is a recursive function over
  what is left to visit; the mutable locals of the loop are its arguments.
\<close>

definition FAT_FREE_ENTRY :: u8 where "FAT_FREE_ENTRY = 0xE5"

section \<open>Listings\<close>

definition get_raw_file_listing_from_cluster :: "'d data_source \<Rightarrow> 'd fat \<Rightarrow> u32 \<Rightarrow> raw_fat_file_entry list io" where
  "get_raw_file_listing_from_cluster ds f cluster =
     bind_io (read_cluster ds f cluster) (\<lambda>sectors. unwrap (read_files_raw (concat sectors)))"

definition save_listing_to_the_disk :: "'d data_source \<Rightarrow> 'd fat \<Rightarrow> u32 \<Rightarrow> raw_fat_file_entry list \<Rightarrow> 'd fat io" where
  "save_listing_to_the_disk ds f cluster file_listing =
     bind_io (write_files_raw file_listing) (write_cluster ds f cluster)"

section \<open>Free entries\<close>

datatype scan =
  Found "nat option"
| Continue nat "nat option"

text \<open>The inner loop of \<open>find_contiguous_file_entries_in_directory\<close>: \<open>Found None\<close> is the early \<open>return None\<close>.\<close>

fun scan_entries :: "nat \<Rightarrow> raw_fat_file_entry list \<Rightarrow> nat \<Rightarrow> nat \<Rightarrow> nat option \<Rightarrow> scan" where
  "scan_entries n [] idx count start = Continue count start"
| "scan_entries n (entry # rest) idx count start =
     (let first_byte = raw_name entry ! 0
      in if first_byte = 0x00 then Found None
         else if first_byte = FAT_FREE_ENTRY
         then let start' = (case start of None \<Rightarrow> Some idx | Some i \<Rightarrow> Some i)
              in if count + 1 = n then Found start' else scan_entries n rest (idx + 1) (count + 1) start'
         else scan_entries n rest (idx + 1) 0 None)"

fun scan_clusters :: "'d data_source \<Rightarrow> 'd fat \<Rightarrow> nat \<Rightarrow> u32 list \<Rightarrow> nat \<Rightarrow> nat option \<Rightarrow> (u32 \<times> nat) option io" where
  "scan_clusters ds f n [] count start = Ok None"
| "scan_clusters ds f n (cluster # rest) count start =
     bind_io (unwrap_io (get_raw_file_listing_from_cluster ds f cluster)) (\<lambda>listing.
       case scan_entries n listing 0 count start of
         Found i \<Rightarrow> Ok (map_option (\<lambda>i. (cluster, i)) i)
       | Continue count' start' \<Rightarrow> scan_clusters ds f n rest count' start')"

definition find_contiguous_file_entries_in_directory :: "'d data_source \<Rightarrow> 'd fat \<Rightarrow> u32 \<Rightarrow> nat \<Rightarrow> (u32 \<times> nat) option io" where
  "find_contiguous_file_entries_in_directory ds f directory_cluster n =
     assert_io (n < 20)
       (bind_io (get_clusters_for_file (file_allocation_table f) directory_cluster)
          (\<lambda>clusters. scan_clusters ds f n clusters 0 None))"

text \<open>The run of free or unused entries that \<open>allocate_file_entries_in_directory\<close> keeps: found, size, cluster, index.\<close>

record free_run =
  chain_found :: bool
  chain_size :: nat
  starting_cluster_run :: u32
  starting_index :: nat

definition no_run :: free_run where
  "no_run = \<lparr>chain_found = False, chain_size = 0, starting_cluster_run = 0, starting_index = 0\<rparr>"

fun extend_run :: "nat \<Rightarrow> u32 \<Rightarrow> raw_fat_file_entry list \<Rightarrow> nat \<Rightarrow> free_run \<Rightarrow> free_run \<times> bool" where
  "extend_run n cluster [] idx r = (r, False)"
| "extend_run n cluster (entry # rest) idx r =
     (let first_byte = raw_name entry ! 0
      in if first_byte = 0x00 \<or> first_byte = FAT_FREE_ENTRY
         then let r1 = (if chain_found r then r else r\<lparr>chain_found := True, starting_cluster_run := cluster, starting_index := idx\<rparr>);
                  r2 = r1\<lparr>chain_size := chain_size r1 + 1\<rparr>
              in if chain_size r2 = n then (r2, True) else extend_run n cluster rest (idx + 1) r2
         else extend_run n cluster rest (idx + 1) (if chain_found r then no_run else r))"

fun run_in_clusters :: "'d data_source \<Rightarrow> 'd fat \<Rightarrow> nat \<Rightarrow> u32 list \<Rightarrow> free_run \<Rightarrow> (free_run \<times> bool) io" where
  "run_in_clusters ds f n [] r = Ok (r, False)"
| "run_in_clusters ds f n (cluster # rest) r =
     bind_io (get_raw_file_listing_from_cluster ds f cluster) (\<lambda>listing.
       case extend_run n cluster listing 0 r of
         (r', done) \<Rightarrow> if done then Ok (r', True) else run_in_clusters ds f n rest r')"

definition allocate_file_entries_in_directory :: "'d data_source \<Rightarrow> 'd fat \<Rightarrow> u32 \<Rightarrow> nat \<Rightarrow> ('d fat \<times> u32 \<times> nat) io" where
  "allocate_file_entries_in_directory ds f directory_cluster n =
     bind_io (get_clusters_for_file (file_allocation_table f) directory_cluster) (\<lambda>clusters.
     bind_io (run_in_clusters ds f n clusters no_run) (\<lambda>(r, done).
       if done \<or> chain_size r = n then Ok (f, starting_cluster_run r, starting_index r)
       else bind_io (allocate_and_link_clusters (file_allocation_table f) 1) (\<lambda>(table, new).
         case new of
           [] \<Rightarrow> Panic
         | (first_new_cluster, _) # _ \<Rightarrow>
             let f' = f\<lparr>file_allocation_table := table[unat (last clusters) := of_nat first_new_cluster]\<rparr>
             in Ok (if chain_found r then (f', starting_cluster_run r, starting_index r) else (f', of_nat first_new_cluster, 0)))))"

section \<open>Writing and removing entries\<close>

text \<open>The inner loop of \<open>write_file_entry\<close> over the slots behind the writing index: the long-name entries first, then the
  short one; the flag says that the short entry was written.\<close>

fun fill_slots :: "raw_fat_file_entry \<Rightarrow> raw_fat_file_entry list \<Rightarrow> raw_fat_file_entry list \<Rightarrow>
    raw_fat_file_entry list \<times> raw_fat_file_entry list \<times> bool" where
  "fill_slots sfn [] entries = ([], entries, False)"
| "fill_slots sfn (slot # slots) (e # entries) = (case fill_slots sfn slots entries of (out, rest, done) \<Rightarrow> (e # out, rest, done))"
| "fill_slots sfn (slot # slots) [] = (sfn # slots, [], True)"

fun write_in_clusters :: "'d data_source \<Rightarrow> 'd fat \<Rightarrow> raw_fat_file_entry \<Rightarrow> u32 list \<Rightarrow> nat \<Rightarrow> raw_fat_file_entry list \<Rightarrow>
    ('d fat \<times> raw_fat_file_entry list) io" where
  "write_in_clusters ds f sfn [] writing_index entries = Ok (f, entries)"
| "write_in_clusters ds f sfn (cluster # rest) writing_index entries =
     bind_io (get_raw_file_listing_from_cluster ds f cluster) (\<lambda>listing.
       case fill_slots sfn (drop writing_index listing) entries of
         (out, entries', done) \<Rightarrow>
           bind_io (save_listing_to_the_disk ds f cluster (take writing_index listing @ out))
             (\<lambda>f'. write_in_clusters ds f' sfn rest (if done then writing_index + 1 else writing_index) entries'))"

definition write_file_entry :: "'d data_source \<Rightarrow> 'd fat \<Rightarrow> 'dt fat_file_entry \<Rightarrow> u32 \<Rightarrow> nat \<Rightarrow> 'd fat io" where
  "write_file_entry ds f file_entry starting_directory_cluster index =
     bind_io (get_clusters_for_file (file_allocation_table f) starting_directory_cluster) (\<lambda>clusters.
       case raw file_entry of
         [] \<Rightarrow> Panic
       | sfn # entries \<Rightarrow>
           bind_io (write_in_clusters ds f sfn clusters index entries)
             (\<lambda>(f', rest). assert_io (rest = []) (Ok f')))"

definition free_entry :: raw_fat_file_entry where
  "free_entry = raw_default\<lparr>raw_name := FAT_FREE_ENTRY # replicate 10 0\<rparr>"

text \<open>The inner loop of \<open>remove_file_entry\<close> over the positions of a cluster from the last to the first; the current listing
  and the flag \<open>lfn_handling\<close> are carried along.\<close>

fun remove_in_listing :: "'d data_source \<Rightarrow> u32 \<Rightarrow> u8 list \<Rightarrow> bool \<Rightarrow> (nat \<times> raw_fat_file_entry) list \<Rightarrow>
    'd fat \<Rightarrow> raw_fat_file_entry list \<Rightarrow> bool \<Rightarrow> ('d fat \<times> bool) io" where
  "remove_in_listing ds cluster name is_lfn [] f listing lfn_handling = Ok (f, lfn_handling)"
| "remove_in_listing ds cluster name is_lfn ((i, entry) # rest) f listing lfn_handling =
     (if raw_name entry = name
      then let listing' = listing[i := free_entry]
           in bind_io (save_listing_to_the_disk ds f cluster listing') (\<lambda>f'.
                if \<not> is_lfn then Ok (f', lfn_handling)
                else remove_in_listing ds cluster name is_lfn rest f' listing' True)
      else if lfn_handling
      then bind_io (unwrap (attr_from_bits (raw_attr entry))) (\<lambda>a.
             if is_long_name_entry a
             then let listing' = listing[i := free_entry]
                  in bind_io (save_listing_to_the_disk ds f cluster listing')
                       (\<lambda>f'. remove_in_listing ds cluster name is_lfn rest f' listing' lfn_handling)
             else Ok (f, lfn_handling))
      else remove_in_listing ds cluster name is_lfn rest f listing lfn_handling)"

fun remove_in_clusters :: "'d data_source \<Rightarrow> u8 list \<Rightarrow> bool \<Rightarrow> u32 list \<Rightarrow> 'd fat \<Rightarrow> bool \<Rightarrow> 'd fat io" where
  "remove_in_clusters ds name is_lfn [] f lfn_handling = Ok f"
| "remove_in_clusters ds name is_lfn (cluster # rest) f lfn_handling =
     bind_io (get_raw_file_listing_from_cluster ds f cluster) (\<lambda>listing.
     bind_io (remove_in_listing ds cluster name is_lfn (rev (enumerate 0 listing)) f listing lfn_handling)
       (\<lambda>(f', h). remove_in_clusters ds name is_lfn rest f' h))"

definition remove_file_entry :: "'d data_source \<Rightarrow> 'd fat \<Rightarrow> 'dt fat_file_entry \<Rightarrow> u32 \<Rightarrow> 'd fat io" where
  "remove_file_entry ds f file_entry directory_cluster =
     bind_io (get_clusters_for_file (file_allocation_table f) directory_cluster) (\<lambda>clusters.
       case raw file_entry of
         [] \<Rightarrow> Panic
       | sfn # entries \<Rightarrow> remove_in_clusters ds (raw_name sfn) (entries \<noteq> []) (rev clusters) f False)"

definition serialize_file_entry ::
  "'d data_source \<Rightarrow> 'd fat \<Rightarrow> 'dt fat_file_entry option \<Rightarrow> 'dt fat_file_entry \<Rightarrow> u32 \<Rightarrow> ('d fat \<times> u32) io" where
  "serialize_file_entry ds f old_file_entry new_file_entry directory_cluster =
     bind_io (case old_file_entry of None \<Rightarrow> Ok f | Some entry \<Rightarrow> unwrap_io (remove_file_entry ds f entry directory_cluster)) (\<lambda>f1.
     let occupied_entries = length (raw new_file_entry) in
     assert_io (occupied_entries < 20)
       (bind_io (find_contiguous_file_entries_in_directory ds f1 directory_cluster occupied_entries) (\<lambda>found.
        bind_io (case found of
                   Some (cluster, i) \<Rightarrow> Ok (f1, cluster, i)
                 | None \<Rightarrow> unwrap_io (allocate_file_entries_in_directory ds f1 directory_cluster occupied_entries)) (\<lambda>(f2, cluster, i).
        bind_io (unwrap_io (write_file_entry ds f2 new_file_entry cluster i)) (\<lambda>f3. Ok (f3, cluster))))))"

definition move_file :: "'d data_source \<Rightarrow> 'd fat \<Rightarrow> 'dt fat_file_entry \<Rightarrow> u32 \<Rightarrow> u32 \<Rightarrow> 'd fat io" where
  "move_file ds f file_entry content_cluster current_entry_cluster =
     bind_io (remove_file_entry ds f file_entry current_entry_cluster) (\<lambda>f1.
     bind_io (serialize_file_entry ds f1 None file_entry content_cluster) (\<lambda>(f2, _). Ok f2))"

end
