(* ===== verification/Fat_File.thy ===== *)
theory Fat_File
  imports Fat_Directory
begin

text \<open>
  Files of \<^verbatim>\<open>src/fs/src/fat32/file.rs\<close>: reading, writing in place and with growth, deletion, renaming, moving, shrinking and
  the metadata setters. The file system that every handle shares is passed along; a handle is the record \<open>fat_file\<close>.
  The loops run over the clusters that are left, with the mutable locals as arguments. Inside the
  file, reading is slicing the concatenated clusters and writing replaces exactly the written range.
\<close>

section \<open>Handles\<close>

record 'dt fat_file =
  starting_cluster :: u32
  file_size :: u32
  file_entry :: "'dt fat_file_entry"
  file_entry_cluster :: u32

text \<open>\<open>x as f32\<close> for an integer: 24 significant bits, ties to even. The value is again an integer, so \<open>floorf\<close> and the
  conversion back change nothing.\<close>

fun excess_bits :: "nat \<Rightarrow> nat" where
  "excess_bits n = (if n < 2 ^ 24 then 0 else Suc (excess_bits (n div 2)))"

definition f32_of_usize :: "nat \<Rightarrow> nat" where
  "f32_of_usize n =
     (let k = excess_bits n; q = n div 2 ^ k; r = n mod 2 ^ k
      in if 2 ^ k < 2 * r \<or> 2 ^ k = 2 * r \<and> odd q then (q + 1) * 2 ^ k else q * 2 ^ k)"

definition clusters_to_skip :: "nat \<Rightarrow> nat \<Rightarrow> nat" where
  "clusters_to_skip offset csz = f32_of_usize (offset div csz)"

section \<open>Reading\<close>

text \<open>The loop of \<open>read\<close>; it returns the filled buffer and the bytes still to read.\<close>

fun read_clusters :: "'d data_source \<Rightarrow> 'd fat \<Rightarrow> nat \<Rightarrow> u32 list \<Rightarrow> nat \<Rightarrow> nat \<Rightarrow> nat \<Rightarrow> u8 list \<Rightarrow> u8 list \<Rightarrow> (u8 list \<times> nat) io" where
  "read_clusters ds f csz [] offset_within_cluster to_read reading_offset temp buffer = Ok (buffer, to_read)"
| "read_clusters ds f csz (cluster # rest) offset_within_cluster to_read reading_offset temp buffer =
     (if to_read = 0 then Ok (buffer, to_read)
      else let copy_size = min to_read (csz - offset_within_cluster) in
        if offset_within_cluster = 0 then
          if copy_size < csz then
            bind_io (read_cluster_to ds f cluster temp) (\<lambda>temp'.
              read_clusters ds f csz rest 0 (to_read - copy_size) (reading_offset + copy_size) temp'
                (copy_into buffer reading_offset (slice temp' 0 copy_size)))
          else
            bind_io (read_cluster_to ds f cluster (slice buffer reading_offset (reading_offset + csz))) (\<lambda>part.
              read_clusters ds f csz rest offset_within_cluster (to_read - csz) (reading_offset + csz) temp
                (copy_into buffer reading_offset part))
        else
          bind_io (read_cluster_to ds f cluster temp) (\<lambda>temp'.
            read_clusters ds f csz rest 0 (to_read - copy_size) (reading_offset + copy_size) temp'
              (copy_into buffer reading_offset (slice temp' offset_within_cluster (offset_within_cluster + copy_size)))))"

definition file_read :: "'d data_source \<Rightarrow> 'd fat \<Rightarrow> 'dt fat_file \<Rightarrow> nat \<Rightarrow> u8 list \<Rightarrow> u8 list io" where
  "file_read ds f file offset buffer =
     assert_io (buffer \<noteq> [])
       (if unat (file_size file) < offset + length buffer then Err ReadOutOfBounds
        else let csz = unat (cluster_size f) in
          if csz = 0 then Panic
          else bind_io (get_clusters_for_file (file_allocation_table f) (starting_cluster file)) (\<lambda>clusters.
               bind_io (read_clusters ds f csz (drop (clusters_to_skip offset csz) clusters) (offset mod csz)
                          (length buffer) 0 (replicate csz 0) buffer)
                 (\<lambda>(buffer', to_read). assert_io (to_read = 0) (Ok buffer'))))"

section \<open>Writing\<close>

text \<open>The loop over the clusters the file already has; it returns the file system and the bytes still to write.\<close>

fun write_clusters :: "'d data_source \<Rightarrow> 'd fat \<Rightarrow> nat \<Rightarrow> u32 list \<Rightarrow> nat \<Rightarrow> nat \<Rightarrow> nat \<Rightarrow> u8 list \<Rightarrow> u8 list \<Rightarrow>
    ('d fat \<times> nat \<times> nat) io" where
  "write_clusters ds f csz [] offset_within_cluster to_write writing_offset temp buffer = Ok (f, to_write, writing_offset)"
| "write_clusters ds f csz (cluster # rest) offset_within_cluster to_write writing_offset temp buffer =
     (if to_write = 0 then Ok (f, to_write, writing_offset)
      else let copy_size = min to_write (csz - offset_within_cluster) in
        if offset_within_cluster = 0 then
          if copy_size < csz then
            bind_io (read_cluster_to ds f cluster temp) (\<lambda>temp1.
            let temp2 = copy_into temp1 0 (slice buffer writing_offset (writing_offset + copy_size)) in
            bind_io (write_cluster ds f cluster temp2) (\<lambda>f'.
              write_clusters ds f' csz rest 0 (to_write - copy_size) (writing_offset + copy_size) temp2 buffer))
          else
            bind_io (write_cluster ds f cluster (slice buffer writing_offset (writing_offset + csz))) (\<lambda>f'.
              write_clusters ds f' csz rest offset_within_cluster (to_write - csz) (writing_offset + csz) temp buffer)
        else
          bind_io (read_cluster_to ds f cluster temp) (\<lambda>temp1.
          let temp2 = copy_into temp1 offset_within_cluster (slice buffer writing_offset (writing_offset + copy_size)) in
          bind_io (write_cluster ds f cluster temp2) (\<lambda>f'.
            write_clusters ds f' csz rest 0 (to_write - copy_size) (writing_offset + copy_size) temp2 buffer)))"

text \<open>The loop over freshly allocated clusters. \<open>min(to_write, cluster_size) - 1\<close> underflows at 0 and then slices out of range.\<close>

fun write_new_clusters :: "'d data_source \<Rightarrow> 'd fat \<Rightarrow> nat \<Rightarrow> u32 list \<Rightarrow> nat \<Rightarrow> nat \<Rightarrow> u8 list \<Rightarrow> u8 list \<Rightarrow> ('d fat \<times> nat) io" where
  "write_new_clusters ds f csz [] to_write writing_offset temp buffer = Ok (f, to_write)"
| "write_new_clusters ds f csz (new_cluster # rest) to_write writing_offset temp buffer =
     (if min to_write csz = 0 then Panic
      else let copy_size = min to_write csz - 1;
               temp' = copy_into temp 0 (slice buffer writing_offset (writing_offset + copy_size))
           in bind_io (write_cluster ds f new_cluster temp') (\<lambda>f'.
                write_new_clusters ds f' csz rest (to_write - copy_size) (writing_offset + copy_size) temp' buffer))"

text \<open>the size in the directory: the copied entry gets the new size, its raw form does not.\<close>

definition grow_entry :: "'d data_source \<Rightarrow> 'd fat \<Rightarrow> 'dt fat_file \<Rightarrow> nat \<Rightarrow> ('d fat \<times> 'dt fat_file) io" where
  "grow_entry ds f file end_offset =
     (if file_size file < of_nat end_offset
      then let difference = of_nat (end_offset - unat (file_size file));
               new_file_entry = (file_entry file)\<lparr>entry_file_size := entry_file_size (file_entry file) + difference\<rparr>
           in bind_io (serialize_file_entry ds f (Some (file_entry file)) new_file_entry (file_entry_cluster file)) (\<lambda>(f', _).
                Ok (f', file\<lparr>file_size := file_size file + difference, file_entry := new_file_entry\<rparr>))
      else Ok (f, file))"

definition file_write :: "'d data_source \<Rightarrow> 'd fat \<Rightarrow> 'dt fat_file \<Rightarrow> nat \<Rightarrow> u8 list \<Rightarrow> ('d fat \<times> 'dt fat_file) io" where
  "file_write ds f file offset buffer =
     assert_io (offset \<le> unat (file_size file))
       (let csz = unat (cluster_size f) in
        if csz = 0 then Panic
        else bind_io (get_clusters_for_file (file_allocation_table f) (starting_cluster file)) (\<lambda>all.
          let clusters = drop (clusters_to_skip offset csz) all in
          if clusters = [] then Panic
          else bind_io (write_clusters ds f csz clusters (offset mod csz) (length buffer) 0 (replicate csz 0) buffer)
            (\<lambda>(f1, to_write, writing_offset).
          bind_io (grow_entry ds f1 file (offset + length buffer)) (\<lambda>(f2, file').
          if to_write = 0 then Ok (f2, file')
          else bind_io (allocate_and_link_clusters (file_allocation_table f2) (to_write div csz)) (\<lambda>(table, allocated).
            case allocated of
              [] \<Rightarrow> Panic
            | (first, _) # _ \<Rightarrow>
                let f3 = f2\<lparr>file_allocation_table := table[unat (last clusters) := of_nat first]\<rparr>
                in bind_io (write_new_clusters ds f3 csz (map (of_nat \<circ> fst) allocated) to_write writing_offset
                              (replicate csz 0) buffer)
                     (\<lambda>(f4, _). Ok (f4, file')))))))"

section \<open>The other operations\<close>

definition file_delete :: "'d data_source \<Rightarrow> 'd fat \<Rightarrow> 'dt fat_file \<Rightarrow> 'd fat io" where
  "file_delete ds f file =
     bind_io (remove_file_entry ds f (file_entry file) (file_entry_cluster file)) (\<lambda>f1.
     bind_io (mark_clusters_as_free (file_allocation_table f1) (starting_cluster file)) (\<lambda>table.
     Ok (f1\<lparr>file_allocation_table := table\<rparr>)))"

definition rename_entry :: "'d data_source \<Rightarrow> ucs2 \<Rightarrow> 'd fat \<Rightarrow> u8 list \<Rightarrow> 'dt fat_file_entry \<Rightarrow> u32 \<Rightarrow> ('d fat \<times> 'dt fat_file_entry) io" where
  "rename_entry ds u f name entry entry_cluster =
     bind_io (set_name u name entry) (\<lambda>new.
     bind_io (serialize_file_entry ds f (Some entry) new entry_cluster) (\<lambda>(f', _). Ok (f', new)))"

definition file_rename :: "'d data_source \<Rightarrow> ucs2 \<Rightarrow> 'd fat \<Rightarrow> 'dt fat_file \<Rightarrow> u8 list \<Rightarrow> ('d fat \<times> 'dt fat_file) io" where
  "file_rename ds u f file name =
     bind_io (rename_entry ds u f name (file_entry file) (file_entry_cluster file)) (\<lambda>(f', e). Ok (f', file\<lparr>file_entry := e\<rparr>))"

definition file_move_to :: "'d data_source \<Rightarrow> 'd fat \<Rightarrow> 'dt fat_file \<Rightarrow> u32 \<Rightarrow> 'd fat io" where
  "file_move_to ds f file content_cluster = move_file ds f (file_entry file) content_cluster (file_entry_cluster file)"

definition file_shrink :: "'d data_source \<Rightarrow> 'd fat \<Rightarrow> 'dt fat_file \<Rightarrow> nat \<Rightarrow> ('d fat \<times> 'dt fat_file) io" where
  "file_shrink ds f file new_size =
     (if unat (file_size file) \<le> new_size then Err InvalidArgument
      else let old_file_entry = file_entry file;
               csz = unat (cluster_size f) in
        if csz = 0 then Panic
        else let current_last_cluster = unat (file_size file) div csz;
                 new_last_cluster = new_size div csz in
          bind_io (set_file_size (of_nat new_size) (file_entry file)) (\<lambda>new_entry.
          let file' = file\<lparr>file_size := of_nat new_size, file_entry := new_entry\<rparr>;
              finish = (\<lambda>f'. bind_io (serialize_file_entry ds f' (Some old_file_entry) new_entry (file_entry_cluster file))
                              (\<lambda>(f'', _). Ok (f'', file')))
          in if current_last_cluster = new_last_cluster then finish f
             else bind_io (get_clusters_for_file (file_allocation_table f) (starting_cluster file)) (\<lambda>file_clusters.
               if length file_clusters \<le> new_last_cluster then Panic
               else let freed = foldl (\<lambda>t c. t[unat c := FAT_FREE_SECTOR]) (file_allocation_table f)
                                  (drop (new_last_cluster + 1) file_clusters)
                    in if length freed \<le> new_last_cluster then Panic
                       else finish (f\<lparr>file_allocation_table := freed[new_last_cluster := 0xFFFFFFFF]\<rparr>))))"

text \<open>The metadata setters write the changed entry over itself: the removal already looks for the new form.\<close>

definition update_entry :: "'d data_source \<Rightarrow> 'd fat \<Rightarrow> u32 \<Rightarrow> 'dt fat_file_entry io \<Rightarrow> ('d fat \<times> 'dt fat_file_entry) io" where
  "update_entry ds f entry_cluster changed =
     bind_io changed (\<lambda>e. bind_io (serialize_file_entry ds f (Some e) e entry_cluster) (\<lambda>(f', _). Ok (f', e)))"

definition file_set_creation_date_time where
  "file_set_creation_date_time ds ch f file dt =
     bind_io (update_entry ds f (file_entry_cluster file) (set_creation_date_time ch dt (file_entry file)))
       (\<lambda>(f', e). Ok (f', file\<lparr>file_entry := e\<rparr>))"

definition file_set_modification_date_time where
  "file_set_modification_date_time ds ch f file dt =
     bind_io (update_entry ds f (file_entry_cluster file) (set_last_write_date_time ch dt (file_entry file)))
       (\<lambda>(f', e). Ok (f', file\<lparr>file_entry := e\<rparr>))"

definition file_set_attributes where
  "file_set_attributes ds f file attributes =
     bind_io (update_entry ds f (file_entry_cluster file) (set_attr (fat_attributes_from attributes) (file_entry file)))
       (\<lambda>(f', e). Ok (f', file\<lparr>file_entry := e\<rparr>))"

section \<open>Reading is slicing\<close>

declare excess_bits.simps [simp del]

lemma f32_exact: "n < 2 ^ 24 \<Longrightarrow> f32_of_usize n = n"
  by (simp add: f32_of_usize_def excess_bits.simps Let_def)

lemma copy_into_append: "n + length a \<le> length b \<Longrightarrow> copy_into (copy_into b n a) (n + length a) c = copy_into b n (a @ c)"
  by (simp add: copy_into_def ac_simps)

lemma copy_into_shift: "copy_into (a @ b) (length a + r) c = a @ copy_into b r c"
  by (simp add: copy_into_def add.assoc)

lemma copy_into_all: "length a = length b \<Longrightarrow> copy_into b 0 a = a"
  by (simp add: copy_into_def)

text \<open>The bytes a list of clusters holds.\<close>

definition contents :: "('d \<Rightarrow> nat \<Rightarrow> sector) \<Rightarrow> 'd fat \<Rightarrow> u32 list \<Rightarrow> u8 list" where
  "contents sector f cs = concat (map (cluster_data sector f) cs)"

lemma contents_Cons [simp]: "contents sector f (c # cs) = cluster_data sector f c @ contents sector f cs"
  by (simp add: contents_def)

lemma contents_Nil [simp]: "contents sector f [] = []"
  by (simp add: contents_def)

text \<open>What one cluster contributes to a read that starts inside it.\<close>

lemma take_drop_cluster:
  assumes "length x = csz" "off \<le> csz"
  shows "take n (drop off (x @ y)) = slice x off (off + min n (csz - off)) @ take (n - min n (csz - off)) y"
  using assms by (cases "n \<le> csz - off") (simp_all add: slice_def min_def)

context sector_store
begin

lemma cluster_data_length:
  assumes "sound_source (source f)" "geometry_ok f" "cluster_ok (capacity (source f)) f c"
  shows "length (cluster_data sector f c) = unat (cluster_size f)"
proof -
  have "map (length \<circ> sector (source f)) [cluster_lba f c..<cluster_lba f c + unat (sectors_per_cluster (bpb f))] =
      replicate (unat (sectors_per_cluster (bpb f))) 512"
    using sector_length [OF assms(1)] assms(3) by (simp add: list_eq_iff_nth_eq cluster_ok_def)
  then show ?thesis using assms(2) by (simp add: cluster_data_def length_concat sum_list_replicate cluster_size_eq)
qed

lemma read_clusters_contents:
  assumes "sound_source (source f)" "geometry_ok f" "csz = unat (cluster_size f)"
    and "\<forall>c \<in> set cs. cluster_ok (capacity (source f)) f c" "off < csz" "off + n \<le> length cs * csz \<or> n = 0"
    "ro + n \<le> length buffer" "length temp = csz"
  shows "read_clusters ds f csz cs off n ro temp buffer = Ok (copy_into buffer ro (take n (drop off (contents sector f cs))), 0)"
  using assms(4-)
proof (induction cs arbitrary: off n ro temp buffer)
  case Nil
  then show ?case by auto
next
  case (Cons c cs)
  show ?case
  proof (cases "n = 0")
    case True
    then show ?thesis by simp
  next
    case False
    define x where "x = cluster_data sector f c"
    define k where "k = min n (csz - off)"
    have x: "length x = csz" "\<And>b. length b = csz \<Longrightarrow> read_cluster_to ds f c b = Ok x"
      using cluster_data_length [OF assms(1,2)] read_cluster_to_data [OF assms(1,2)] Cons.prems(1) assms(3) by (simp_all add: x_def)
    have k: "0 < k" "k \<le> n" "off + k \<le> csz" "length (slice x off (off + k)) = k"
      using False Cons.prems(2) x(1) by (auto simp: k_def)
    have rest: "0 + (n - k) \<le> length cs * csz \<or> n - k = 0"
      using Cons.prems(3) False by (cases "n \<le> csz - off") (auto simp: k_def min_def)
    have step: "read_clusters ds f csz cs 0 (n - k) (ro + k) temp' (copy_into buffer ro (slice x off (off + k))) =
        Ok (copy_into buffer ro (take n (drop off (contents sector f (c # cs)))), 0)" if "length temp' = csz" for temp'
    proof -
      have "read_clusters ds f csz cs 0 (n - k) (ro + k) temp' (copy_into buffer ro (slice x off (off + k))) =
          Ok (copy_into (copy_into buffer ro (slice x off (off + k))) (ro + k) (take (n - k) (drop 0 (contents sector f cs))), 0)"
        using Cons.prems k rest that by (intro Cons.IH) auto
      also have "\<dots> = Ok (copy_into buffer ro (slice x off (off + k) @ take (n - k) (contents sector f cs)), 0)"
        using copy_into_append [of ro "slice x off (off + k)" buffer] k(2,4) Cons.prems(4) by simp
      also have "slice x off (off + k) @ take (n - k) (contents sector f cs) = take n (drop off (contents sector f (c # cs)))"
        using take_drop_cluster [OF x(1), of off n "contents sector f cs"] Cons.prems(2) by (simp add: x_def k_def)
      finally show ?thesis .
    qed
    show ?thesis
    proof (cases "off = 0 \<and> csz \<le> n")
      case True
      then have "k = csz" "slice x off (off + k) = x" using x(1) by (simp_all add: k_def slice_def)
      then show ?thesis
        using True False step [of temp] Cons.prems(4,5) x(2) [of "slice buffer ro (ro + csz)"] by simp
    next
      case False
      then show ?thesis
        using \<open>n \<noteq> 0\<close> step [of x] x Cons.prems(2,5) unfolding k_def by (auto simp: Let_def min_def)
    qed
  qed
qed

lemma contents_length:
  assumes "sound_source (source f)" "geometry_ok f" "\<forall>c \<in> set cs. cluster_ok (capacity (source f)) f c"
  shows "length (contents sector f cs) = length cs * unat (cluster_size f)"
  using assms(3) by (induction cs) (simp_all add: cluster_data_length [OF assms(1,2)])

lemma contents_drop:
  assumes "sound_source (source f)" "geometry_ok f" "\<forall>c \<in> set cs. cluster_ok (capacity (source f)) f c" "k \<le> length cs"
  shows "contents sector f (drop k cs) = drop (k * unat (cluster_size f)) (contents sector f cs)"
proof -
  have "contents sector f cs = contents sector f (take k cs) @ contents sector f (drop k cs)"
    unfolding contents_def by (metis append_take_drop_id concat_append map_append)
  moreover have "length (contents sector f (take k cs)) = k * unat (cluster_size f)"
    using contents_length [OF assms(1,2), of "take k cs"] assms(3,4) by (auto dest: in_set_takeD)
  ultimately show ?thesis by simp
qed

lemma cluster_size_large: "geometry_ok f \<Longrightarrow> 512 \<le> unat (cluster_size f)"
  by (simp add: cluster_size_eq) (simp add: geometry_ok_def)

lemma skip_exact:
  assumes "geometry_ok f" "offset < 2 ^ 32"
  shows "clusters_to_skip offset (unat (cluster_size f)) = offset div unat (cluster_size f)"
proof -
  have "offset div unat (cluster_size f) \<le> offset div 512"
    using cluster_size_large [OF assms(1)] by (intro div_le_mono2) simp_all
  then show ?thesis using assms(2) by (simp add: clusters_to_skip_def f32_exact)
qed

lemma file_read_contents:
  assumes "sound_source (source f)" "geometry_ok f" "get_clusters_for_file (file_allocation_table f) (starting_cluster file) = Ok cs"
    "\<forall>c \<in> set cs. cluster_ok (capacity (source f)) f c" "unat (file_size file) \<le> length cs * unat (cluster_size f)"
    "buffer \<noteq> []" "offset + length buffer \<le> unat (file_size file)"
  shows "file_read ds f file offset buffer = Ok (take (length buffer) (drop offset (contents sector f cs)))"
proof -
  define csz where "csz = unat (cluster_size f)"
  define k where "k = offset div csz"
  have csz: "512 \<le> csz" using cluster_size_large [OF assms(2)] by (simp add: csz_def)
  have off: "offset = k * csz + offset mod csz" "offset mod csz < csz" using csz by (simp_all add: k_def)
  have "length cs * csz - k * csz = (length cs - k) * csz" by (simp add: diff_mult_distrib)
  moreover have "k * csz + (offset mod csz + length buffer) \<le> length cs * csz"
    using assms(5,7) off(1) unfolding csz_def [symmetric] by linarith
  ultimately have room: "offset mod csz + length buffer \<le> length (drop k cs) * csz" "k * csz \<le> length cs * csz"
    unfolding length_drop by linarith+
  then have k: "k \<le> length cs" using csz by simp
  have "read_clusters ds f csz (drop k cs) (offset mod csz) (length buffer) 0 (replicate csz 0) buffer =
      Ok (copy_into buffer 0 (take (length buffer) (drop (offset mod csz) (contents sector f (drop k cs)))), 0)"
    using assms(4) off room by (intro read_clusters_contents [OF assms(1,2) csz_def]) (auto dest: in_set_dropD)
  moreover have "drop (offset mod csz) (contents sector f (drop k cs)) = drop offset (contents sector f cs)"
    using contents_drop [OF assms(1,2,4) k] off(1) by (simp add: csz_def [symmetric] add.commute)
  moreover have "length (take (length buffer) (drop offset (contents sector f cs))) = length buffer"
    using contents_length [OF assms(1,2,4)] assms(5,7) by simp
  moreover have "clusters_to_skip offset csz = k"
    using skip_exact [OF assms(2), of offset] u32_less [of "file_size file"] assms(7) by (simp add: csz_def k_def)
  ultimately show ?thesis
    using csz assms(3,6,7) by (simp add: file_read_def csz_def [symmetric] Let_def copy_into_all)
qed

end

text \<open>C5: reading a file is slicing its contents. When the clusters of the file lie on the medium and hold at least its
  recorded size, \<open>read\<close> returns exactly the requested bytes of the concatenated clusters, whatever the alignment of the
  range; a range that ends behind the file is refused, and an empty buffer panics.\<close>

theorem file_read_is_slice:
  assumes "sector_store ds sound capacity sector" "sound (source f)" "geometry_ok f"
    "get_clusters_for_file (file_allocation_table f) (starting_cluster file) = Ok cs"
    "\<forall>c \<in> set cs. cluster_ok (capacity (source f)) f c" "unat (file_size file) \<le> length cs * unat (cluster_size f)"
  shows "file_read ds f file offset buffer =
    (if buffer = [] then Panic
     else if unat (file_size file) < offset + length buffer then Err ReadOutOfBounds
     else Ok (take (length buffer) (drop offset (contents sector f cs))))"
proof (cases "buffer \<noteq> [] \<and> offset + length buffer \<le> unat (file_size file)")
  case True
  then show ?thesis using sector_store.file_read_contents [OF assms, of buffer offset] by simp
next
  case False
  then show ?thesis by (auto simp: file_read_def assert_io_def)
qed

definition example_file :: "u32 \<Rightarrow> unit fat_file" where
  "example_file n = \<lparr>starting_cluster = 2, file_size = n, file_entry = \<lparr>entry_name = [], attr = 0, creation_date_time = (),
     last_access_date_time = (), last_write_date_time = (), entry_file_size = n, raw = [raw_default]\<rparr>, file_entry_cluster = 2\<rparr>"

definition example_volume :: "u8 list fat" where
  "example_volume = example_fat 1 [0x0FFFFFF8, 0xFFFFFFFF, 3, 0xFFFFFFFF]"

lemma example_file_size [simp]: "file_size (example_file n) = n"
  by (simp add: example_file_def)

lemma example_volume_facts:
  "geometry_ok example_volume" "unat (cluster_size example_volume) = 512" "length (source example_volume) = 2560"
  "get_clusters_for_file (file_allocation_table example_volume) (starting_cluster (example_file n)) = Ok [2, 3]"
  "\<forall>c \<in> set [2, 3]. cluster_ok (length (source example_volume) div 512) example_volume c"
proof -
  show g: "geometry_ok example_volume" by (simp add: example_volume_def geometry_ok_def example_fat_def example_bpb_def)
  show "unat (cluster_size example_volume) = 512"
    using cluster_size_eq [OF g] by (simp add: example_volume_def example_fat_def example_bpb_def)
  show len: "length (source example_volume) = 2560" by (simp add: example_volume_def)
  show "get_clusters_for_file (file_allocation_table example_volume) (starting_cluster (example_file n)) = Ok [2, 3]"
    by (simp add: get_clusters_Ok_iff example_volume_def example_file_def next_in_chain_def)
  show "\<forall>c \<in> set [2, 3]. cluster_ok (length (source example_volume) div 512) example_volume c"
    unfolding len by (simp add: cluster_ok_def cluster_lba_def) (simp add: example_volume_def example_fat_def example_bpb_def)
qed

theorem file_read_is_slice_witness:
  "file_read memory_source example_volume (example_file 600) 510 (replicate 4 0) =
     Ok (take 4 (drop 510 (contents memory_sector example_volume [2, 3])))"
  using file_read_is_slice [OF memory.sector_store_axioms, of example_volume "example_file 600" "[2, 3]" 510 "replicate 4 0"]
    example_volume_facts by (simp del: contents_Cons)

section \<open>Writing in place\<close>

lemma source_update_simps [simp]:
  "geometry_ok (f\<lparr>source := d\<rparr>) = geometry_ok f" "cluster_size (f\<lparr>source := d\<rparr>) = cluster_size f"
  "cluster_ok n (f\<lparr>source := d\<rparr>) c = cluster_ok n f c"
  by (simp_all add: geometry_ok_def cluster_size_def cluster_ok_def cluster_lba_def)

lemma slice_split: "m \<le> n \<Longrightarrow> slice b i (i + n) = slice b i (i + m) @ slice b (i + m) (i + n)"
  using take_add [of m "n - m" "drop i b"] by (simp add: slice_def add.commute)

lemma copy_into_split:
  assumes "length x = csz" "off \<le> csz" "k = min n (csz - off)" "wo + n \<le> length b"
  shows "copy_into (x @ y) off (slice b wo (wo + n)) = copy_into x off (slice b wo (wo + k)) @ copy_into y 0 (slice b (wo + k) (wo + n))"
proof (cases "n \<le> csz - off")
  case True
  then have "k = n" using assms(3) by simp
  then show ?thesis using assms True by (simp add: copy_into_def slice_def)
next
  case False
  then have k: "k = csz - off" "k \<le> n" using assms(3) by auto
  then show ?thesis
    using assms slice_split [OF k(2), of b wo] by (simp add: copy_into_def add.commute)
qed

lemma contents_cong: "(\<And>c. c \<in> set cs \<Longrightarrow> cluster_data sector f c = cluster_data sector g c) \<Longrightarrow> contents sector f cs = contents sector g cs"
  unfolding contents_def by (intro arg_cong [where f = concat] map_cong) auto

context sector_store
begin

text \<open>One turn of the loop: the next cluster gets its part of the buffer.\<close>

lemma write_clusters_step:
  assumes wf: "sound_source (source f)" "geometry_ok f" and csz: "csz = unat (cluster_size f)" and "cluster_ok (capacity (source f)) f c"
    "off < csz" "0 < n" "wo + n \<le> length buffer" "length temp = csz" "k = min n (csz - off)"
  shows "\<exists>d temp'. write_clusters ds f csz (c # cs) off n wo temp buffer =
      write_clusters ds (f\<lparr>source := d\<rparr>) csz cs 0 (n - k) (wo + k) temp' buffer \<and> length temp' = csz \<and> sound_source d \<and>
    capacity d = capacity (source f) \<and> (\<forall>c'. cluster_ok (capacity (source f)) f c' \<longrightarrow> cluster_data sector (f\<lparr>source := d\<rparr>) c' =
      (if c' = c then copy_into (cluster_data sector f c) off (slice buffer wo (wo + k)) else cluster_data sector f c'))"
proof -
  define x where "x = cluster_data sector f c"
  define y where "y = copy_into x off (slice buffer wo (wo + k))"
  have x: "length x = csz" "\<And>b. length b = csz \<Longrightarrow> read_cluster_to ds f c b = Ok x"
    using cluster_data_length [OF wf] read_cluster_to_data [OF wf] csz assms(4) by (simp_all add: x_def)
  have k: "k \<le> n" "off + k \<le> csz" using assms(5,6,9) by auto
  have y: "length y = csz" using x(1) k assms(7) by (simp add: y_def)
  obtain d where d: "write_cluster ds f c y = Ok (f\<lparr>source := d\<rparr>)" "sound_source d" "capacity d = capacity (source f)"
    "\<forall>c'. cluster_ok (capacity (source f)) f c' \<longrightarrow> cluster_data sector (f\<lparr>source := d\<rparr>) c' = (if c' = c then y else cluster_data sector f c')"
    using write_cluster_data [OF wf assms(4), of y] y csz by auto
  have "write_clusters ds f csz (c # cs) off n wo temp buffer =
      write_clusters ds (f\<lparr>source := d\<rparr>) csz cs 0 (n - k) (wo + k) (if off = 0 \<and> csz \<le> n then temp else y) buffer"
  proof (cases "off = 0 \<and> csz \<le> n")
    case True
    then have "k = csz" "y = slice buffer wo (wo + csz)" using x(1) assms(7,9) by (simp_all add: y_def copy_into_def)
    then show ?thesis using True assms(6) d(1) by simp
  next
    case False
    then show ?thesis using assms(6,9) d(1) x(2) [OF assms(8)] unfolding y_def by (auto simp: Let_def min_def)
  qed
  moreover have "length (if off = 0 \<and> csz \<le> n then temp else y) = csz" using y assms(8) by simp
  ultimately show ?thesis using d(2-4) unfolding y_def x_def by blast
qed

lemma write_clusters_contents:
  assumes "sound_source (source f)" "geometry_ok f" "csz = unat (cluster_size f)" "cap = capacity (source f)" "distinct cs"
    "\<forall>c \<in> set cs. cluster_ok cap f c" "off < csz" "off + n \<le> length cs * csz \<or> n = 0" "wo + n \<le> length buffer" "length temp = csz"
  shows "\<exists>d. write_clusters ds f csz cs off n wo temp buffer = Ok (f\<lparr>source := d\<rparr>, 0, wo + n) \<and> sound_source d \<and> capacity d = cap \<and>
    contents sector (f\<lparr>source := d\<rparr>) cs = copy_into (contents sector f cs) off (slice buffer wo (wo + n)) \<and>
    (\<forall>c. cluster_ok cap f c \<and> c \<notin> set cs \<longrightarrow> cluster_data sector (f\<lparr>source := d\<rparr>) c = cluster_data sector f c)"
  using assms
proof (induction cs arbitrary: f off n wo temp)
  case Nil
  then show ?case by (intro exI [of _ "source f"]) (auto simp: slice_def)
next
  case (Cons c cs)
  show ?case
  proof (cases "n = 0")
    case True
    then show ?thesis using Cons.prems by (intro exI [of _ "source f"]) (auto simp: slice_def)
  next
    case False
    define k where "k = min n (csz - off)"
    have ok: "cluster_ok (capacity (source f)) f c" "0 < n" using Cons.prems(4,6) False by auto
    obtain d1 temp' where d1: "write_clusters ds f csz (c # cs) off n wo temp buffer =
        write_clusters ds (f\<lparr>source := d1\<rparr>) csz cs 0 (n - k) (wo + k) temp' buffer" "length temp' = csz" "sound_source d1"
      "capacity d1 = cap" "\<And>c'. cluster_ok cap f c' \<Longrightarrow> cluster_data sector (f\<lparr>source := d1\<rparr>) c' =
        (if c' = c then copy_into (cluster_data sector f c) off (slice buffer wo (wo + k)) else cluster_data sector f c')"
      using write_clusters_step [OF Cons.prems(1-3) ok(1) Cons.prems(7) ok(2) Cons.prems(9,10) k_def, of cs] Cons.prems(4) by auto
    have same: "contents sector (f\<lparr>source := d1\<rparr>) cs = contents sector f cs"
      using d1(5) Cons.prems(5,6) by (intro contents_cong) auto
    have "0 + (n - k) \<le> length cs * csz \<or> n - k = 0" "k \<le> n"
      using Cons.prems(8) False by (cases "n \<le> csz - off"; auto simp: k_def min_def)+
    then obtain d where d: "write_clusters ds (f\<lparr>source := d1\<rparr>) csz cs 0 (n - k) (wo + k) temp' buffer = Ok (f\<lparr>source := d\<rparr>, 0, wo + n)"
      "sound_source d" "capacity d = cap" "contents sector (f\<lparr>source := d\<rparr>) cs = copy_into (contents sector f cs) 0 (slice buffer (wo + k) (wo + n))"
      "\<And>c. cluster_ok cap f c \<Longrightarrow> c \<notin> set cs \<Longrightarrow> cluster_data sector (f\<lparr>source := d\<rparr>) c = cluster_data sector (f\<lparr>source := d1\<rparr>) c"
      using Cons.IH [of "f\<lparr>source := d1\<rparr>" 0 "n - k" "wo + k" temp'] Cons.prems d1(2-4) same by auto
    have "cluster_data sector (f\<lparr>source := d\<rparr>) c = copy_into (cluster_data sector f c) off (slice buffer wo (wo + k))"
      using d(5) [of c] d1(5) [of c] Cons.prems(5,6) by simp
    moreover have "length (cluster_data sector f c) = csz"
      using cluster_data_length [OF Cons.prems(1,2) ok(1)] Cons.prems(3) by simp
    ultimately have "contents sector (f\<lparr>source := d\<rparr>) (c # cs) = copy_into (contents sector f (c # cs)) off (slice buffer wo (wo + n))"
      using copy_into_split [OF _ _ k_def Cons.prems(9)] Cons.prems(7) d(4) by simp
    moreover have "cluster_data sector (f\<lparr>source := d\<rparr>) c' = cluster_data sector f c'" if "cluster_ok cap f c'" "c' \<notin> set (c # cs)" for c'
      using d(5) [of c'] d1(5) [of c'] that by simp
    ultimately show ?thesis using d(1-3) d1(1) by auto
  qed
qed

lemma file_write_contents:
  assumes wf: "sound_source (source f)" "geometry_ok f"
    and cs: "get_clusters_for_file (file_allocation_table f) (starting_cluster file) = Ok cs" "\<forall>c \<in> set cs. cluster_ok (capacity (source f)) f c"
    and "unat (file_size file) \<le> length cs * unat (cluster_size f)" "buffer \<noteq> []" "offset + length buffer \<le> unat (file_size file)"
  shows "\<exists>d. file_write ds f file offset buffer = Ok (f\<lparr>source := d\<rparr>, file) \<and> sound_source d \<and> capacity d = capacity (source f) \<and>
    contents sector (f\<lparr>source := d\<rparr>) cs = copy_into (contents sector f cs) offset buffer \<and>
    (\<forall>c. cluster_ok (capacity (source f)) f c \<and> c \<notin> set cs \<longrightarrow> cluster_data sector (f\<lparr>source := d\<rparr>) c = cluster_data sector f c)"
proof -
  define csz where "csz = unat (cluster_size f)"
  define k where "k = offset div csz"
  have csz: "512 \<le> csz" using cluster_size_large [OF wf(2)] by (simp add: csz_def)
  have off: "offset = k * csz + offset mod csz" "offset mod csz < csz" using csz by (simp_all add: k_def)
  have room: "k * csz + (offset mod csz + length buffer) \<le> length cs * csz"
    using assms(5,7) off(1) unfolding csz_def [symmetric] by linarith
  have "length cs * csz - k * csz = (length cs - k) * csz" by (simp add: diff_mult_distrib)
  then have fits: "offset mod csz + length buffer \<le> length (drop k cs) * csz" using room unfolding length_drop by linarith
  have "0 < length buffer" using assms(6) by simp
  then have "k * csz < length cs * csz" using room by linarith
  then have k: "k < length cs" by simp
  have dist: "distinct cs" using cs(1) chain_distinct [of "file_allocation_table f" cs] by (simp add: get_clusters_Ok_iff)
  obtain d where d: "write_clusters ds f csz (drop k cs) (offset mod csz) (length buffer) 0 (replicate csz 0) buffer = Ok (f\<lparr>source := d\<rparr>, 0, 0 + length buffer)"
    "sound_source d" "capacity d = capacity (source f)"
    "contents sector (f\<lparr>source := d\<rparr>) (drop k cs) = copy_into (contents sector f (drop k cs)) (offset mod csz) (slice buffer 0 (0 + length buffer))"
    "\<forall>c. cluster_ok (capacity (source f)) f c \<and> c \<notin> set (drop k cs) \<longrightarrow> cluster_data sector (f\<lparr>source := d\<rparr>) c = cluster_data sector f c"
    using write_clusters_contents [OF wf csz_def refl, of "drop k cs" "offset mod csz" "length buffer" 0 buffer "replicate csz 0"]
      dist cs(2) off(2) fits by (auto dest: in_set_dropD)
  have "contents sector (f\<lparr>source := d\<rparr>) (take k cs) = contents sector f (take k cs)"
    using d(5) cs(2) set_take_disj_set_drop_if_distinct [OF dist order_refl, of k]
    by (intro contents_cong) (auto dest: in_set_takeD)
  moreover have parts: "contents sector g cs = contents sector g (take k cs) @ contents sector g (drop k cs)" for g
    unfolding contents_def by (metis append_take_drop_id concat_append map_append)
  moreover have "length (contents sector f (take k cs)) = k * csz"
    using contents_length [OF wf, of "take k cs"] cs(2) k by (auto simp: csz_def dest: in_set_takeD)
  ultimately have new: "contents sector (f\<lparr>source := d\<rparr>) cs = copy_into (contents sector f cs) offset buffer"
    using d(4) off(1) copy_into_shift [of "contents sector f (take k cs)" "contents sector f (drop k cs)" "offset mod csz" buffer]
    by (simp add: slice_def)
  have "clusters_to_skip offset csz = k"
    using skip_exact [OF wf(2), of offset] u32_less [of "file_size file"] assms(7) by (simp add: csz_def k_def)
  moreover have "grow_entry ds g file (offset + length buffer) = Ok (g, file)" for g
  proof -
    have "unat (of_nat (offset + length buffer) :: u32) = offset + length buffer"
      using assms(7) u32_less [of "file_size file"] by (intro unat_of_nat_len) simp
    then show ?thesis using assms(7) by (simp add: grow_entry_def word_less_nat_alt del: of_nat_add)
  qed
  ultimately have "file_write ds f file offset buffer = Ok (f\<lparr>source := d\<rparr>, file)"
    using csz cs(1) d(1) k assms(7) by (simp add: file_write_def csz_def [symmetric] Let_def)
  then show ?thesis using new d(2,3,5) by (metis in_set_dropD)
qed

end

text \<open>C6: writing inside a file and reading it back. A write whose range lies inside the file succeeds, leaves the handle and
  the allocation table as they are, and afterwards every read inside the file returns the old contents with exactly the
  written range replaced; clusters of other files keep their contents.\<close>

theorem file_write_read_back:
  assumes "sector_store ds sound capacity sector" "sound (source f)" "geometry_ok f"
    "get_clusters_for_file (file_allocation_table f) (starting_cluster file) = Ok cs"
    "\<forall>c \<in> set cs. cluster_ok (capacity (source f)) f c" "unat (file_size file) \<le> length cs * unat (cluster_size f)"
    "buffer \<noteq> []" "offset + length buffer \<le> unat (file_size file)"
  shows "\<exists>f'. file_write ds f file offset buffer = Ok (f', file) \<and> file_allocation_table f' = file_allocation_table f \<and>
    (\<forall>pos out. out \<noteq> [] \<and> pos + length out \<le> unat (file_size file) \<longrightarrow>
       file_read ds f' file pos out = Ok (take (length out) (drop pos (copy_into (contents sector f cs) offset buffer)))) \<and>
    (\<forall>c. cluster_ok (capacity (source f)) f c \<and> c \<notin> set cs \<longrightarrow> cluster_data sector f' c = cluster_data sector f c)"
proof -
  obtain d where d: "file_write ds f file offset buffer = Ok (f\<lparr>source := d\<rparr>, file)" "sound d" "capacity d = capacity (source f)"
    "contents sector (f\<lparr>source := d\<rparr>) cs = copy_into (contents sector f cs) offset buffer"
    "\<forall>c. cluster_ok (capacity (source f)) f c \<and> c \<notin> set cs \<longrightarrow> cluster_data sector (f\<lparr>source := d\<rparr>) c = cluster_data sector f c"
    using sector_store.file_write_contents [OF assms] by blast
  have "file_read ds (f\<lparr>source := d\<rparr>) file pos out = Ok (take (length out) (drop pos (copy_into (contents sector f cs) offset buffer)))"
    if "out \<noteq> []" "pos + length out \<le> unat (file_size file)" for pos out
    using sector_store.file_read_contents [OF assms(1), where f = "f\<lparr>source := d\<rparr>" and cs = cs and buffer = out and offset = pos] d(2-4) assms(3-6) that by simp
  with d(1,5) show ?thesis by (intro exI [of _ "f\<lparr>source := d\<rparr>"]) simp
qed

theorem file_write_read_back_witness:
  "\<exists>f'. file_write memory_source example_volume (example_file 600) 510 [1, 2, 3, 4] = Ok (f', example_file 600) \<and>
     file_read memory_source f' (example_file 600) 511 (replicate 2 0) = Ok [2, 3]"
proof -
  have len: "length (contents memory_sector example_volume [2, 3]) = 1024"
    using memory.contents_length [of example_volume "[2, 3]"] example_volume_facts by simp
  show ?thesis
    using file_write_read_back [OF memory.sector_store_axioms, of example_volume "example_file 600" "[2, 3]" "[1, 2, 3, 4]" 510]
      example_volume_facts len
    by (fastforce simp: copy_into_def simp del: contents_Cons)
qed

section \<open>Growth\<close>



end
