(* ===== verification/Fat_Listing.thy ===== *)
theory Fat_Listing
  imports Fat_File
begin

text \<open>
  What the directory operations of \<open>Fat_Directory\<close> do to the listing of a directory: reading back what was saved, and adding a
  file that has only its short entry. The writer accepts at most 16 entries, so these facts are about
  volumes with one sector per cluster.
\<close>

definition slot_free :: "raw_fat_file_entry \<Rightarrow> bool" where
  "slot_free e \<longleftrightarrow> raw_name e ! 0 = 0x00 \<or> raw_name e ! 0 = FAT_FREE_ENTRY"

text \<open>Both searches stop at the first free slot.\<close>

lemma scan_first_free:
  assumes "i < length es" "slot_free (es ! i)" "\<forall>j < i. \<not> slot_free (es ! j)"
  shows "scan_entries 1 es idx 0 None = Found (if raw_name (es ! i) ! 0 = 0x00 then None else Some (idx + i))"
  using assms
proof (induction es arbitrary: i idx)
  case (Cons e es)
  show ?case
  proof (cases i)
    case 0
    then show ?thesis using Cons.prems(2) by (auto simp: slot_free_def)
  next
    case (Suc k)
    then have "\<not> slot_free e" using Cons.prems(3) by auto
    moreover have "\<forall>j < k. \<not> slot_free (es ! j)" using Cons.prems(3) Suc by auto
    ultimately show ?thesis using Cons.IH [of k "idx + 1"] Cons.prems Suc by (simp add: slot_free_def)
  qed
qed simp

lemma run_first_free:
  assumes "i < length es" "slot_free (es ! i)" "\<forall>j < i. \<not> slot_free (es ! j)"
  shows "extend_run 1 c es idx no_run = (\<lparr>chain_found = True, chain_size = 1, starting_cluster_run = c, starting_index = idx + i\<rparr>, True)"
  using assms
proof (induction es arbitrary: i idx)
  case (Cons e es)
  show ?case
  proof (cases i)
    case 0
    then show ?thesis using Cons.prems(2) by (auto simp: slot_free_def no_run_def)
  next
    case (Suc k)
    then have "\<not> slot_free e" using Cons.prems(3) by auto
    moreover have "\<forall>j < k. \<not> slot_free (es ! j)" using Cons.prems(3) Suc by auto
    ultimately show ?thesis using Cons.IH [of k "idx + 1"] Cons.prems Suc by (simp add: slot_free_def no_run_def)
  qed
qed simp

lemma fill_one: "i < length es \<Longrightarrow> fill_slots r (drop i es) [] = (r # drop (Suc i) es, [], True)"
  by (simp add: Cons_nth_drop_Suc [symmetric])

context sector_store
begin

lemma listing_of_cluster:
  assumes "sound_source (source f)" "geometry_ok f" "cluster_ok (capacity (source f)) f c"
  shows "get_raw_file_listing_from_cluster ds f c = Ok es \<longleftrightarrow> read_files_raw (cluster_data sector f c) = Some es"
proof -
  obtain sectors where "read_cluster ds f c = Ok sectors" "concat sectors = cluster_data sector f c"
    using read_cluster_data [OF assms] by blast
  then show ?thesis by (cases "read_files_raw (cluster_data sector f c)") (simp_all add: get_raw_file_listing_from_cluster_def)
qed

lemma save_listing:
  assumes "sound_source (source f)" "geometry_ok f" "sectors_per_cluster (bpb f) = 1" "cluster_ok (capacity (source f)) f c"
    "length es = 16" "\<forall>e \<in> set es. raw_wf e"
  shows "\<exists>d. save_listing_to_the_disk ds f c es = Ok (f\<lparr>source := d\<rparr>) \<and> sound_source d \<and> capacity d = capacity (source f) \<and>
    get_raw_file_listing_from_cluster ds (f\<lparr>source := d\<rparr>) c = Ok es \<and>
    (\<forall>c'. cluster_ok (capacity (source f)) f c' \<and> c' \<noteq> c \<longrightarrow> cluster_data sector (f\<lparr>source := d\<rparr>) c' = cluster_data sector f c')"
proof -
  define b where "b = concat (map raw_write es)"
  have "length b = 32 * length es" using assms(6) unfolding b_def by (induction es) simp_all
  then have "length b = unat (cluster_size f)" using assms(2,3,5) by (simp add: cluster_size_eq)
  then obtain d where d: "write_cluster ds f c b = Ok (f\<lparr>source := d\<rparr>)" "sound_source d" "capacity d = capacity (source f)"
    "\<forall>c'. cluster_ok (capacity (source f)) f c' \<longrightarrow> cluster_data sector (f\<lparr>source := d\<rparr>) c' = (if c' = c then b else cluster_data sector f c')"
    using write_cluster_data [OF assms(1,2,4)] by blast
  have "es \<noteq> []" using assms(5) by auto
  then have "get_raw_file_listing_from_cluster ds (f\<lparr>source := d\<rparr>) c = Ok es"
    using listing_of_cluster [of "f\<lparr>source := d\<rparr>" c es] listing_roundtrip [OF assms(6)] d assms(2,4) by (auto simp: b_def)
  with d show ?thesis using assms(5) by (intro exI [of _ d]) (simp add: save_listing_to_the_disk_def write_files_raw_def b_def)
qed

lemma serialize_short:
  assumes "sound_source (source f)" "geometry_ok f" "sectors_per_cluster (bpb f) = 1"
    "get_clusters_for_file (file_allocation_table f) dir = Ok [dir]" "cluster_ok (capacity (source f)) f dir"
    "get_raw_file_listing_from_cluster ds f dir = Ok es" "i < length es" "slot_free (es ! i)" "\<forall>j < i. \<not> slot_free (es ! j)"
    "raw entry = [r]" "raw_wf r"
  shows "\<exists>f'. serialize_file_entry ds f None entry dir = Ok (f', dir) \<and> file_allocation_table f' = file_allocation_table f \<and>
    get_raw_file_listing_from_cluster ds f' dir = Ok (es[i := r]) \<and>
    (\<forall>c. cluster_ok (capacity (source f)) f c \<and> c \<noteq> dir \<longrightarrow> cluster_data sector f' c = cluster_data sector f c)"
proof -
  have listing: "read_files_raw (cluster_data sector f dir) = Some es"
    by (rule listing_of_cluster [OF assms(1,2,5), THEN iffD1, OF assms(6)])
  have "length (cluster_data sector f dir) = 512"
    using cluster_data_length [OF assms(1,2,5)] assms(2,3) by (simp add: cluster_size_eq)
  then have es: "length es = 16" "\<forall>e \<in> set es. raw_wf e" using read_files_raw_wf [OF listing] by simp_all
  have new: "take i es @ r # drop (Suc i) es = es[i := r]" by (simp add: upd_conv_take_nth_drop assms(7))
  have "\<forall>e \<in> set (es[i := r]). raw_wf e" using es(2) assms(11) set_update_subset_insert [of es i r] by auto
  then obtain d where d: "save_listing_to_the_disk ds f dir (es[i := r]) = Ok (f\<lparr>source := d\<rparr>)"
    "get_raw_file_listing_from_cluster ds (f\<lparr>source := d\<rparr>) dir = Ok (es[i := r])"
    "\<forall>c. cluster_ok (capacity (source f)) f c \<and> c \<noteq> dir \<longrightarrow> cluster_data sector (f\<lparr>source := d\<rparr>) c = cluster_data sector f c"
    using save_listing [OF assms(1-3,5), of "es[i := r]"] es(1) by auto
  have found: "find_contiguous_file_entries_in_directory ds f dir 1 =
      Ok (if raw_name (es ! i) ! 0 = 0x00 then None else Some (dir, i))"
    using assms(4,6) scan_first_free [OF assms(7-9), of 0] by (simp add: find_contiguous_file_entries_in_directory_def)
  have allocated: "allocate_file_entries_in_directory ds f dir 1 = Ok (f, dir, i)"
    using assms(4,6) run_first_free [OF assms(7-9), of dir 0] by (simp add: allocate_file_entries_in_directory_def)
  have "write_file_entry ds f entry dir i = Ok (f\<lparr>source := d\<rparr>)"
    using assms(4,6,10) d(1) by (simp add: write_file_entry_def fill_one [OF assms(7)] new)
  then have "serialize_file_entry ds f None entry dir = Ok (f\<lparr>source := d\<rparr>, dir)"
    using found allocated by (simp add: serialize_file_entry_def assms(10))
  with d(2,3) show ?thesis by auto
qed

end


definition empty_volume :: "u8 list fat" where
  "empty_volume = (example_fat 1 [0x0FFFFFF8, 0xFFFFFFFF, 0xFFFFFFFF, 0])\<lparr>source := replicate 2560 0\<rparr>"

definition example_entry :: "unit fat_file_entry" where
  "example_entry = \<lparr>entry_name = [], attr = 0, creation_date_time = (), last_access_date_time = (), last_write_date_time = (),
     entry_file_size = 0, raw = [raw_default\<lparr>raw_name := replicate 11 0x41\<rparr>]\<rparr>"

lemma empty_volume_facts:
  "geometry_ok empty_volume" "sectors_per_cluster (bpb empty_volume) = 1" "512 dvd length (source empty_volume)"
  "length (source empty_volume) \<le> 2 ^ 32" "get_clusters_for_file (file_allocation_table empty_volume) 2 = Ok [2]"
  "cluster_ok (length (source empty_volume) div 512) empty_volume 2"
  by (simp_all add: empty_volume_def geometry_ok_def example_fat_def example_bpb_def get_clusters_Ok_iff cluster_ok_def cluster_lba_def)

lemma empty_volume_listing:
  "get_raw_file_listing_from_cluster memory_source empty_volume 2 = Ok (replicate 16 (raw_read (replicate 32 0)))"
proof -
  have lba: "cluster_lba empty_volume 2 = 2" by (simp add: cluster_lba_def empty_volume_def example_fat_def example_bpb_def)
  have "cluster_data memory_sector empty_volume 2 = memory_sector (source empty_volume) 2"
    by (simp add: cluster_data_def lba empty_volume_facts(2))
  also have "\<dots> = replicate 512 0" by (simp add: memory_sector_def slice_def empty_volume_def)
  finally have "read_files_raw (cluster_data memory_sector empty_volume 2) = Some (replicate 16 (raw_read (replicate 32 0)))"
    using chunks_replicate [of 16 32 "0 :: u8"] by (simp add: read_files_raw_def)
  then show ?thesis using memory.listing_of_cluster [of empty_volume 2] empty_volume_facts by blast
qed


end
