(* ===== verification/Fat_Path.thy ===== *)
theory Fat_Path
  imports Fat_Listing
begin

text \<open>
  Names and paths of the file system: the parsed listing of a directory cluster with its long names
  (\<^verbatim>\<open>src/fs/src/fat32/fat.rs\<close>, \<open>get_file_listing_from_cluster\<close>), path resolution, opening files and directories, and
  the directory handle of \<^verbatim>\<open>directory.rs\<close>. The two string functions of the standard library the code applies to raw bytes,
  \<open>from_utf8_lossy\<close> and \<open>trim\<close>, are written out on UTF-8 bytes.
\<close>

section \<open>Text\<close>

definition continuation :: "u8 \<Rightarrow> bool" where
  "continuation c \<longleftrightarrow> 0x80 \<le> c \<and> c \<le> 0xBF"

text \<open>The length of the sequence a lead byte opens (0 when it opens none), and which second byte it admits.\<close>

definition sequence_length :: "u8 \<Rightarrow> nat" where
  "sequence_length b =
     (if b < 0x80 then 1 else if 0xC2 \<le> b \<and> b \<le> 0xDF then 2 else if 0xE0 \<le> b \<and> b \<le> 0xEF then 3
      else if 0xF0 \<le> b \<and> b \<le> 0xF4 then 4 else 0)"

definition second_ok :: "u8 \<Rightarrow> u8 \<Rightarrow> bool" where
  "second_ok b c \<longleftrightarrow> continuation c \<and> (b = 0xE0 \<longrightarrow> 0xA0 \<le> c) \<and> (b = 0xED \<longrightarrow> c \<le> 0x9F) \<and> (b = 0xF0 \<longrightarrow> 0x90 \<le> c) \<and> (b = 0xF4 \<longrightarrow> c \<le> 0x8F)"

definition accepted :: "u8 \<Rightarrow> u8 list \<Rightarrow> nat" where
  "accepted b rest =
     (case rest of
        [] \<Rightarrow> 0
      | c # cs \<Rightarrow> if second_ok b c then 1 + length (takeWhile continuation (take (sequence_length b - 2) cs)) else 0)"

function from_utf8_lossy :: "u8 list \<Rightarrow> u8 list" where
  "from_utf8_lossy [] = []"
| "from_utf8_lossy (b # rest) =
     (if sequence_length b = 1 then b # from_utf8_lossy rest
      else if sequence_length b = 0 then [0xEF, 0xBF, 0xBD] @ from_utf8_lossy rest
      else let n = accepted b rest
           in (if n = sequence_length b - 1 then b # take n rest else [0xEF, 0xBF, 0xBD]) @ from_utf8_lossy (drop n rest))"
  by pat_completeness auto
termination by (relation "measure length") auto

definition is_utf8 :: "u8 list \<Rightarrow> bool" where
  "is_utf8 s \<longleftrightarrow> from_utf8_lossy s = s"

text \<open>The encodings of the characters with the property White\_Space.\<close>

definition white_space :: "u8 list list" where
  "white_space = map (\<lambda>c. [c]) [0x09, 0x0A, 0x0B, 0x0C, 0x0D, 0x20] @ [[0xC2, 0x85], [0xC2, 0xA0], [0xE1, 0x9A, 0x80]] @
     map (\<lambda>c. [0xE2, 0x80, c]) [0x80, 0x81, 0x82, 0x83, 0x84, 0x85, 0x86, 0x87, 0x88, 0x89, 0x8A, 0xA8, 0xA9, 0xAF] @
     [[0xE2, 0x81, 0x9F], [0xE3, 0x80, 0x80]]"

fun trim_start :: "u8 list list \<Rightarrow> nat \<Rightarrow> u8 list \<Rightarrow> u8 list" where
  "trim_start ws 0 s = s"
| "trim_start ws (Suc n) s =
     (case find (\<lambda>w. take (length w) s = w) ws of None \<Rightarrow> s | Some w \<Rightarrow> trim_start ws n (drop (length w) s))"

definition trim :: "u8 list \<Rightarrow> u8 list" where
  "trim s = (let t = trim_start white_space (length s) s in rev (trim_start (map rev white_space) (length t) (rev t)))"

section \<open>Parsed entries\<close>

definition fat_file_entry_default :: "'dt chrono \<Rightarrow> 'dt fat_file_entry" where
  "fat_file_entry_default ch = \<lparr>entry_name = [], attr = 0, creation_date_time = dt_default ch, last_access_date_time = dt_default ch,
     last_write_date_time = dt_default ch, entry_file_size = 0, raw = []\<rparr>"

definition fat_file_entry_from :: "'dt chrono \<Rightarrow> raw_fat_file_entry \<Rightarrow> 'dt fat_file_entry io" where
  "fat_file_entry_from ch value =
     bind_io (create_date_time_from_fields ch (raw_creation_date value) (raw_creation_time value)) (\<lambda>created.
     bind_io (create_date_time_from_fields ch (raw_last_access_date value) (raw_last_write_time value)) (\<lambda>accessed.
     bind_io (create_date_time_from_fields ch (raw_last_write_date value) (raw_last_write_time value)) (\<lambda>written.
     bind_io (unwrap (attr_from_bits (raw_attr value))) (\<lambda>a.
     Ok \<lparr>entry_name = trim (from_utf8_lossy (raw_name value)), attr = a, creation_date_time = created,
         last_access_date_time = accessed, last_write_date_time = written, entry_file_size = raw_file_size value, raw = [value]\<rparr>))))"

datatype fat_entry =
  FileEntry raw_fat_file_entry
| LongFileNameEntry long_file_name_entry

definition read_files :: "u8 list \<Rightarrow> fat_entry list option" where
  "read_files bs =
     (if bs = [] \<or> length bs mod 32 \<noteq> 0 then None
      else Some (map (\<lambda>b. if is_long_name_entry (b ! 11) then LongFileNameEntry (lfn_read b) else FileEntry (raw_read b))
             (chunks (length bs div 32) 32 bs)))"

text \<open>The piece of a name in one long-name entry: decoded into a zeroed buffer of 79 bytes and cut at the first zero.\<close>

definition lfn_piece :: "ucs2 \<Rightarrow> long_file_name_entry \<Rightarrow> u8 list io" where
  "lfn_piece u l =
     bind_io (unwrap (ucs2_decode u (name1 l))) (\<lambda>a.
     bind_io (unwrap (ucs2_decode u (name2 l))) (\<lambda>b.
     bind_io (unwrap (ucs2_decode u (name3 l))) (\<lambda>c.
     let buffer = take 79 (a @ b @ c @ replicate 79 0);
         piece = takeWhile (\<lambda>x. x \<noteq> 0) buffer
     in if length (a @ b @ c) > 79 \<or> 0 \<notin> set buffer \<or> \<not> is_utf8 piece then Panic else Ok piece)))"

text \<open>The loop over a listing: entries so far, long-name entries so far, the name, and whether a long name is being read.\<close>

fun parse_listing :: "'dt chrono \<Rightarrow> ucs2 \<Rightarrow> fat_entry list \<Rightarrow> 'dt fat_file_entry list \<Rightarrow> raw_fat_file_entry list \<Rightarrow> u8 list \<Rightarrow> bool \<Rightarrow>
    'dt fat_file_entry list io" where
  "parse_listing ch u [] fat_entries lfn_entries name processing_lfn = Ok fat_entries"
| "parse_listing ch u (FileEntry e # rest) fat_entries lfn_entries name processing_lfn =
     (if raw_name e = replicate 11 0 then Ok fat_entries
      else if raw_name e ! 0 = FAT_FREE_ENTRY then parse_listing ch u rest fat_entries lfn_entries name processing_lfn
      else bind_io (fat_file_entry_from ch e) (\<lambda>entry.
        if processing_lfn
        then parse_listing ch u rest (fat_entries @ [entry\<lparr>entry_name := name, raw := raw entry @ lfn_entries\<rparr>]) [] [] False
        else parse_listing ch u rest (fat_entries @ [entry]) lfn_entries name False))"
| "parse_listing ch u (LongFileNameEntry l # rest) fat_entries lfn_entries name processing_lfn =
     bind_io (lfn_piece u l) (\<lambda>piece.
       parse_listing ch u rest fat_entries (lfn_entries @ [raw_read (lfn_bytes l)]) (piece @ name) True)"

definition get_file_listing_from_cluster ::
  "'d data_source \<Rightarrow> 'dt chrono \<Rightarrow> ucs2 \<Rightarrow> 'd fat \<Rightarrow> u32 \<Rightarrow> 'dt fat_file_entry list io" where
  "get_file_listing_from_cluster ds ch u f cluster =
     bind_io (read_cluster ds f cluster) (\<lambda>sectors.
     bind_io (unwrap (read_files (concat sectors))) (\<lambda>files. parse_listing ch u files [] [] [] False))"

section \<open>Paths\<close>

fun split_slash :: "u8 list \<Rightarrow> u8 list list" where
  "split_slash [] = [[]]"
| "split_slash (c # s) = (if c = 0x2F then [] # split_slash s else case split_slash s of p # ps \<Rightarrow> (c # p) # ps | [] \<Rightarrow> [[c]])"

definition first_cluster :: "'dt fat_file_entry \<Rightarrow> u32 io" where
  "first_cluster e =
     (case raw e of [] \<Rightarrow> Panic | r # _ \<Rightarrow> Ok (push_bit 16 (ucast (first_cluster_high r)) OR ucast (first_cluster_low r)))"

text \<open>Looking for one component in the clusters of a directory: the first entry of that name in each listing moves the current
  cluster, and ends the search when it is the last component.\<close>

fun find_in_directory :: "'d data_source \<Rightarrow> 'dt chrono \<Rightarrow> ucs2 \<Rightarrow> 'd fat \<Rightarrow> u8 list \<Rightarrow> bool \<Rightarrow> u32 list \<Rightarrow> u32 \<Rightarrow>
    (u32 + 'dt fat_file_entry \<times> u32) io" where
  "find_in_directory ds ch u f name is_last [] cluster = Ok (Inl cluster)"
| "find_in_directory ds ch u f name is_last (file_cluster # rest) cluster =
     bind_io (get_file_listing_from_cluster ds ch u f file_cluster) (\<lambda>listing.
       case find (\<lambda>e. entry_name e = name) listing of
         None \<Rightarrow> find_in_directory ds ch u f name is_last rest cluster
       | Some e \<Rightarrow> bind_io (first_cluster e) (\<lambda>cluster'.
           if is_last then Ok (Inr (e, file_cluster)) else find_in_directory ds ch u f name is_last rest cluster'))"

fun resolve :: "'d data_source \<Rightarrow> 'dt chrono \<Rightarrow> ucs2 \<Rightarrow> 'd fat \<Rightarrow> u8 list list \<Rightarrow> u32 \<Rightarrow> ('dt fat_file_entry \<times> u32) io" where
  "resolve ds ch u f [] cluster = Err NotFound"
| "resolve ds ch u f (subdirectory # rest) cluster =
     (if subdirectory = [] then resolve ds ch u f rest cluster
      else bind_io (get_clusters_for_file (file_allocation_table f) cluster) (\<lambda>clusters.
           bind_io (find_in_directory ds ch u f subdirectory (rest = []) clusters cluster) (\<lambda>found.
             case found of Inl cluster' \<Rightarrow> resolve ds ch u f rest cluster' | Inr result \<Rightarrow> Ok result)))"

definition get_by_path :: "'d data_source \<Rightarrow> 'dt chrono \<Rightarrow> ucs2 \<Rightarrow> 'd fat \<Rightarrow> u8 list \<Rightarrow> ('dt fat_file_entry \<times> u32) io" where
  "get_by_path ds ch u f path =
     (let cluster = root_directory_first_cluster (bpb f) in
      if path = []
      then bind_io (set_attr DIRECTORY ((fat_file_entry_default ch)\<lparr>raw := [raw_default\<lparr>first_cluster_low := ucast cluster\<rparr>]\<rparr>))
             (\<lambda>e. Ok (e, cluster))
      else resolve ds ch u f (split_slash path) cluster)"

record 'dt fat_directory =
  content_cluster :: u32
  dir_entry :: "'dt fat_file_entry"
  dir_entry_cluster :: u32

definition open_file :: "'d data_source \<Rightarrow> 'dt chrono \<Rightarrow> ucs2 \<Rightarrow> 'd fat \<Rightarrow> u8 list \<Rightarrow> 'dt fat_file io" where
  "open_file ds ch u f path =
     bind_io (get_by_path ds ch u f path) (\<lambda>(entry, entry_cluster).
       if is_directory (attr entry) then Err NotAFile
       else bind_io (first_cluster entry) (\<lambda>c.
         Ok \<lparr>starting_cluster = c, file_size = entry_file_size entry, file_entry = entry, file_entry_cluster = entry_cluster\<rparr>))"

definition open_directory :: "'d data_source \<Rightarrow> 'dt chrono \<Rightarrow> ucs2 \<Rightarrow> 'd fat \<Rightarrow> u8 list \<Rightarrow> 'dt fat_directory io" where
  "open_directory ds ch u f path =
     bind_io (get_by_path ds ch u f path) (\<lambda>(entry, entry_cluster).
       if \<not> is_directory (attr entry) then Err NotADirectory
       else bind_io (first_cluster entry) (\<lambda>c.
         Ok \<lparr>content_cluster = c, dir_entry = entry, dir_entry_cluster = entry_cluster\<rparr>))"

section \<open>Directory handles\<close>

definition create_entry :: "'d data_source \<Rightarrow> 'dt chrono \<Rightarrow> ucs2 \<Rightarrow> 'dt \<Rightarrow> 'd fat \<Rightarrow> 'dt fat_directory \<Rightarrow> u8 list \<Rightarrow> u8 \<Rightarrow> bool \<Rightarrow>
    ('d fat \<times> 'dt fat_file_entry \<times> u32) io" where
  "create_entry ds ch u now f dir name attributes is_dir =
     (if length name > 255 then Err NameTooLong
      else bind_io (set_name u name ((fat_file_entry_default ch)\<lparr>raw := [raw_default]\<rparr>)) (\<lambda>e1.
           bind_io (set_attr (if is_dir then fat_attributes_from attributes OR DIRECTORY else fat_attributes_from attributes) e1) (\<lambda>e2.
           bind_io (set_creation_date_time ch now e2) (\<lambda>e3.
           bind_io (set_last_access_date_time ch now e3) (\<lambda>e4.
           bind_io (set_last_write_date_time ch now e4) (\<lambda>e5.
           bind_io (get_clusters_for_file (file_allocation_table f) (content_cluster dir)) (\<lambda>clusters.
           bind_io (serialize_file_entry ds f None e5 (hd clusters)) (\<lambda>(f', _). Ok (f', e5, hd clusters)))))))))"

definition create_file :: "'d data_source \<Rightarrow> 'dt chrono \<Rightarrow> ucs2 \<Rightarrow> 'dt \<Rightarrow> 'd fat \<Rightarrow> 'dt fat_directory \<Rightarrow> u8 list \<Rightarrow> u8 \<Rightarrow> ('d fat \<times> 'dt fat_file) io" where
  "create_file ds ch u now f dir name attributes =
     bind_io (create_entry ds ch u now f dir name attributes False) (\<lambda>(f', entry, cluster).
       Ok (f', \<lparr>starting_cluster = cluster, file_size = 0, file_entry = entry, file_entry_cluster = dir_entry_cluster dir\<rparr>))"

definition create_directory :: "'d data_source \<Rightarrow> 'dt chrono \<Rightarrow> ucs2 \<Rightarrow> 'dt \<Rightarrow> 'd fat \<Rightarrow> 'dt fat_directory \<Rightarrow> u8 list \<Rightarrow> u8 \<Rightarrow>
    ('d fat \<times> 'dt fat_directory) io" where
  "create_directory ds ch u now f dir name attributes =
     bind_io (create_entry ds ch u now f dir name attributes True) (\<lambda>(f', entry, cluster).
       Ok (f', \<lparr>content_cluster = cluster, dir_entry = entry, dir_entry_cluster = dir_entry_cluster dir\<rparr>))"

datatype 'dt file_system_entry =
  EntryFile "u8 list" 'dt 'dt u8
| EntryDirectory "u8 list" 'dt 'dt u8

definition entry_view :: "'dt fat_file_entry \<Rightarrow> 'dt file_system_entry" where
  "entry_view e =
     (if is_directory (attr e)
      then EntryDirectory (entry_name e) (creation_date_time e) (last_write_date_time e) (attributes_from (attr e))
      else EntryFile (entry_name e) (creation_date_time e) (last_write_date_time e) (attributes_from (attr e)))"

definition directory_entries :: "'d data_source \<Rightarrow> 'dt chrono \<Rightarrow> ucs2 \<Rightarrow> 'd fat \<Rightarrow> 'dt fat_directory \<Rightarrow> 'dt file_system_entry list io" where
  "directory_entries ds ch u f dir =
     bind_io (get_clusters_for_file (file_allocation_table f) (content_cluster dir))
       (\<lambda>clusters. for_io (\<lambda>cluster entries. bind_io (unwrap_io (get_file_listing_from_cluster ds ch u f cluster))
                  (\<lambda>listing. Ok (entries @ map entry_view listing))) clusters [])"

definition directory_delete :: "'d data_source \<Rightarrow> 'd fat \<Rightarrow> 'dt fat_directory \<Rightarrow> 'd fat io" where
  "directory_delete ds f dir =
     bind_io (remove_file_entry ds f (dir_entry dir) (dir_entry_cluster dir)) (\<lambda>f1.
     bind_io (mark_clusters_as_free (file_allocation_table f1) (content_cluster dir)) (\<lambda>table.
     Ok (f1\<lparr>file_allocation_table := table\<rparr>)))"

definition directory_rename :: "'d data_source \<Rightarrow> ucs2 \<Rightarrow> 'd fat \<Rightarrow> 'dt fat_directory \<Rightarrow> u8 list \<Rightarrow> ('d fat \<times> 'dt fat_directory) io" where
  "directory_rename ds u f dir name =
     bind_io (rename_entry ds u f name (dir_entry dir) (dir_entry_cluster dir)) (\<lambda>(f', e). Ok (f', dir\<lparr>dir_entry := e\<rparr>))"

definition directory_move_to :: "'d data_source \<Rightarrow> 'd fat \<Rightarrow> 'dt fat_directory \<Rightarrow> 'dt fat_directory \<Rightarrow> 'd fat io" where
  "directory_move_to ds f dir target = move_file ds f (dir_entry dir) (content_cluster target) (dir_entry_cluster dir)"

definition directory_set_creation_date_time where
  "directory_set_creation_date_time ds ch f dir dt =
     bind_io (update_entry ds f (dir_entry_cluster dir) (set_creation_date_time ch dt (dir_entry dir)))
       (\<lambda>(f', e). Ok (f', dir\<lparr>dir_entry := e\<rparr>))"

definition directory_set_modification_date_time where
  "directory_set_modification_date_time ds ch f dir dt =
     bind_io (update_entry ds f (dir_entry_cluster dir) (set_last_write_date_time ch dt (dir_entry dir)))
       (\<lambda>(f', e). Ok (f', dir\<lparr>dir_entry := e\<rparr>))"

definition directory_set_attributes where
  "directory_set_attributes ds f dir attributes =
     bind_io (update_entry ds f (dir_entry_cluster dir) (set_attr (fat_attributes_from attributes) (dir_entry dir)))
       (\<lambda>(f', e). Ok (f', dir\<lparr>dir_entry := e\<rparr>))"

section \<open>New files\<close>

lemma set_name_first_cluster:
  assumes "set_name u name e = Ok e'" "raw e = [r]"
  shows "\<exists>n rs. raw e' = r\<lparr>raw_name := n\<rparr> # rs"
  using assms by (auto simp: set_name_def bind_io_eq_Ok Let_def split: if_splits)

lemma with_sfn_raw: "with_sfn g e = Ok e' \<Longrightarrow> \<exists>r rs. raw e = r # rs \<and> raw e' = g r # rs"
  by (auto simp: with_sfn_def split: list.splits)


definition example_chrono :: "unit chrono" where
  "example_chrono = \<lparr>dt_default = (), with_year = (\<lambda>_ _. Some ()), with_month = (\<lambda>_ _. Some ()), with_day = (\<lambda>_ _. Some ()),
     with_hour = (\<lambda>_ _. Some ()), with_minute = (\<lambda>_ _. Some ()), with_second = (\<lambda>_ _. Some ()), dt_year = (\<lambda>_. 2024),
     dt_month = (\<lambda>_. 6), dt_day = (\<lambda>_. 16), dt_hour = (\<lambda>_. 15), dt_minute = (\<lambda>_. 6), dt_second = (\<lambda>_. 4)\<rparr>"

definition example_ucs2 :: ucs2 where
  "example_ucs2 = \<lparr>str_num_ucs2_chars = (\<lambda>s. Some (length s)), ucs2_encode = (\<lambda>s n. Some (map ucast s @ replicate (n - length s) 0)),
     ucs2_decode = (\<lambda>ws. Some (map ucast ws))\<rparr>"

definition example_directory :: "unit fat_directory" where
  "example_directory = \<lparr>content_cluster = 2, dir_entry = example_entry, dir_entry_cluster = 2\<rparr>"


end
