(* ===== verification/Dev_Pic.thy ===== *)
theory Dev_Pic
  imports Rust_Prelude
begin

text \<open>
  The emulated pair of 8259A interrupt controllers (\<^verbatim>\<open>device/interrupt/pic.rs\<close> of the Reindeer hypervisor): the
  combined register file, the port handlers, and the operations the interrupt path calls. An interrupt line is a natural
  number; the result \<open>None\<close> of an operation that returns an option is the panic of \<open>irq_bit\<close> on a line above 15.

  The lemmas read the registers as sets of lines. The main result is that a guest that ends its interrupts in the usual way
  (slave first for the upper lines) sees a strict nesting: the in-service register is always the stack of interrupts that were
  accepted and not yet ended, together with the cascade line.
\<close>

section \<open>State\<close>

record pic_pending =
  irq_line :: nat
  pending_vector :: u8

record pic =
  pic_irr :: u16
  pic_isr :: u16
  pic_imr :: u16
  master_base :: u8
  slave_base :: u8
  init_step_master :: u8
  init_step_slave :: u8
  read_register_select_master :: u8
  read_register_select_slave :: u8

definition pic_new :: pic where
  "pic_new = \<lparr>pic_irr = 0, pic_isr = 0, pic_imr = 0xFFFF, master_base = 0, slave_base = 0, init_step_master = 0,
     init_step_slave = 0, read_register_select_master = 0, read_register_select_slave = 0\<rparr>"

section \<open>Interrupt path\<close>

definition irq_bit :: "nat \<Rightarrow> u16 option" where
  "irq_bit irq = (if irq < 16 then Some (push_bit irq 1) else None)"

definition raise_irq :: "nat \<Rightarrow> pic \<Rightarrow> pic option" where
  "raise_irq irq p = map_option (\<lambda>mask. p\<lparr>pic_irr := pic_irr p OR mask\<rparr>) (irq_bit irq)"

definition check_pending :: "pic \<Rightarrow> nat option" where
  "check_pending p =
     (let unmasked_irr = pic_irr p AND NOT (pic_imr p)
      in if unmasked_irr = 0 then None
         else let pending_irq = trailing_zeros unmasked_irr
              in if pic_isr p \<noteq> 0 \<and> trailing_zeros (pic_isr p) \<le> pending_irq then None else Some pending_irq)"

definition irq_vector :: "nat \<Rightarrow> pic \<Rightarrow> u8" where
  "irq_vector irq p = (if irq < 8 then master_base p + of_nat irq else slave_base p + of_nat (irq - 8))"

definition accept_interrupt :: "pic \<Rightarrow> (pic \<times> (nat \<times> u8) option) option" where
  "accept_interrupt p =
     (case check_pending p of
        None \<Rightarrow> Some (p, None)
      | Some irq \<Rightarrow>
          (case (irq_bit irq, irq_bit 2) of
             (Some bit_irq, Some cascade) \<Rightarrow>
               let p1 = p\<lparr>pic_irr := pic_irr p AND NOT bit_irq, pic_isr := pic_isr p OR bit_irq\<rparr>;
                   p2 = (if 8 \<le> irq then p1\<lparr>pic_isr := pic_isr p1 OR cascade\<rparr> else p1)
               in Some (p2, Some (irq, irq_vector irq p2))
           | _ \<Rightarrow> None))"

definition clear_in_service :: "nat \<Rightarrow> pic \<Rightarrow> pic option" where
  "clear_in_service irq p = map_option (\<lambda>mask. p\<lparr>pic_isr := pic_isr p AND NOT mask\<rparr>) (irq_bit irq)"

definition handle_eoi :: "bool \<Rightarrow> pic \<Rightarrow> pic option" where
  "handle_eoi is_master_port p =
     (if is_master_port then
        let master_isr = (ucast (pic_isr p AND 0xFF) :: u8)
        in if master_isr \<noteq> 0 then clear_in_service (trailing_zeros master_isr) p else Some p
      else
        let slave_isr = (ucast (drop_bit 8 (pic_isr p)) :: u8)
        in Option.bind (if slave_isr \<noteq> 0 then clear_in_service (trailing_zeros slave_isr + 8) p else Some p) (clear_in_service 2))"

definition peek_pending :: "pic \<Rightarrow> pic_pending option option" where
  "peek_pending p =
     (case check_pending p of
        None \<Rightarrow> Some None
      | Some line \<Rightarrow> if line < 16 then Some (Some \<lparr>irq_line = line, pending_vector = irq_vector line p\<rparr>) else None)"

section \<open>Ports\<close>

definition read_status_register :: "u8 \<Rightarrow> bool \<Rightarrow> pic \<Rightarrow> u64" where
  "read_status_register select is_master p =
     (let reg = (if select = 0 then pic_irr p else pic_isr p)
      in if is_master then ucast (reg AND 0xFF) else ucast (drop_bit 8 reg AND 0xFF))"

definition pic_read :: "u16 \<Rightarrow> pic \<Rightarrow> u64" where
  "pic_read io_port p =
     (if io_port = 0x21 then ucast (pic_imr p AND 0xFF)
      else if io_port = 0xA1 then ucast (drop_bit 8 (pic_imr p) AND 0xFF)
      else if io_port = 0x20 then read_status_register (read_register_select_master p) True p
      else if io_port = 0xA0 then read_status_register (read_register_select_slave p) False p
      else 0)"

definition pic_command :: "bool \<Rightarrow> u8 \<Rightarrow> pic \<Rightarrow> pic option" where
  "pic_command is_master val p =
     (if val AND 0x10 \<noteq> 0 then
        Some (if is_master then p\<lparr>init_step_master := 1\<rparr> else p\<lparr>init_step_slave := 1\<rparr>)
      else if val AND 0x08 = 0 then (if val AND 0x20 \<noteq> 0 then handle_eoi is_master p else Some p)
      else if val AND 0x02 \<noteq> 0 then
        Some (if is_master then p\<lparr>read_register_select_master := val AND 0x01\<rparr>
              else p\<lparr>read_register_select_slave := val AND 0x01\<rparr>)
      else Some p)"

definition pic_data :: "bool \<Rightarrow> u8 \<Rightarrow> pic \<Rightarrow> pic" where
  "pic_data is_master val p =
     (let step = (if is_master then init_step_master p else init_step_slave p)
      in if step = 1 then
           (if is_master then p\<lparr>master_base := val AND 0xF8, init_step_master := 2\<rparr>
            else p\<lparr>slave_base := val AND 0xF8, init_step_slave := 2\<rparr>)
         else if step = 2 \<or> step = 3 then
           (if is_master then p\<lparr>init_step_master := 0\<rparr> else p\<lparr>init_step_slave := 0\<rparr>)
         else if step = 0 then
           (if is_master then p\<lparr>pic_imr := (pic_imr p AND 0xFF00) OR ucast val\<rparr>
            else p\<lparr>pic_imr := (pic_imr p AND 0x00FF) OR push_bit 8 (ucast val)\<rparr>)
         else p)"

definition pic_write :: "u16 \<Rightarrow> u64 \<Rightarrow> pic \<Rightarrow> pic option" where
  "pic_write io_port data p =
     (let val = (ucast data :: u8)
      in if io_port = 0x20 \<or> io_port = 0xA0 then pic_command (io_port = 0x20) val p
         else if io_port = 0x21 \<or> io_port = 0xA1 then Some (pic_data (io_port = 0x21) val p)
         else Some p)"

section \<open>Registers as sets of lines\<close>

definition lines :: "u16 \<Rightarrow> nat set" where
  "lines w = {i. bit w i}"

lemma lines_bound: "i \<in> lines w \<Longrightarrow> i < 16"
  using bit_imp_le_length [of w i] by (simp add: lines_def)

lemma lines_ops [simp]:
  "lines 0 = {}" "lines (w OR v) = lines w \<union> lines v" "lines (w AND NOT v) = lines w - lines v"
  using bit_imp_le_length by (fastforce simp: lines_def bit_or_iff bit_and_iff bit_not_iff possible_bit_def)+

lemma irq_bit_lines: "irq_bit i = Some m \<Longrightarrow> i < 16 \<and> lines m = {i}"
  by (auto simp: irq_bit_def lines_def split: if_splits)

lemma irq_bit_total: "i < 16 \<Longrightarrow> \<exists>m. irq_bit i = Some m \<and> lines m = {i}"
  by (auto simp: irq_bit_def lines_def)

lemma lines_empty [simp]: "lines w = {} \<longleftrightarrow> w = 0"
  using word_bit_ex [of w] by (auto simp: lines_def)

lemma trailing_zeros_least: "w \<noteq> 0 \<Longrightarrow> trailing_zeros w \<in> lines w \<and> (\<forall>i \<in> lines w. trailing_zeros w \<le> i)"
  using trailing_zeros_bit [of w] by (auto simp: lines_def not_less [symmetric])

lemma trailing_zeros_eq: "i \<in> lines w \<Longrightarrow> (\<And>j. j \<in> lines w \<Longrightarrow> i \<le> j) \<Longrightarrow> trailing_zeros w = i"
  using trailing_zeros_least [of w] by (metis lines_ops(1) empty_iff le_antisym)

text \<open>The requests that may be delivered now: raised, not masked.\<close>

definition requests :: "pic \<Rightarrow> nat set" where
  "requests p = lines (pic_irr p) - lines (pic_imr p)"

lemma check_pending_spec:
  "check_pending p = (if requests p = {} \<or> (\<exists>i \<in> lines (pic_isr p). i \<le> Min (requests p)) then None else Some (Min (requests p)))"
proof (cases "requests p = {}")
  case True
  then have "pic_irr p AND NOT (pic_imr p) = 0" using lines_empty lines_ops(3) unfolding requests_def by metis
  with True show ?thesis by (simp add: check_pending_def)
next
  case False
  let ?u = "pic_irr p AND NOT (pic_imr p)"
  have u: "lines ?u = requests p" "?u \<noteq> 0"
    using False lines_empty by (simp_all add: requests_def lines_ops(3) [symmetric] del: lines_ops)
  have fin: "finite (requests p)"
    by (rule finite_subset [of _ "{..<16}"]) (use lines_bound in \<open>auto simp: requests_def\<close>)
  have m: "trailing_zeros ?u = Min (requests p)"
    using trailing_zeros_least [OF u(2)] u(1) fin by (intro Min_eqI [symmetric]) auto
  have "(pic_isr p \<noteq> 0 \<and> trailing_zeros (pic_isr p) \<le> Min (requests p)) \<longleftrightarrow> (\<exists>i \<in> lines (pic_isr p). i \<le> Min (requests p))"
    using trailing_zeros_least [of "pic_isr p"] by (cases "pic_isr p = 0") (auto intro: order_trans)
  then show ?thesis using False u(2) m by (simp add: check_pending_def Let_def)
qed

lemma accept_none: "check_pending p = None \<Longrightarrow> accept_interrupt p = Some (p, None)"
  by (simp add: accept_interrupt_def)

lemma accept_some:
  assumes "check_pending p = Some irq"
  shows "\<exists>p'. accept_interrupt p = Some (p', Some (irq, irq_vector irq p)) \<and> irq \<in> requests p \<and> irq < 16 \<and>
    (\<forall>i \<in> requests p. irq \<le> i) \<and> (\<forall>i \<in> lines (pic_isr p). irq < i) \<and> lines (pic_irr p') = lines (pic_irr p) - {irq} \<and>
    pic_imr p' = pic_imr p \<and> lines (pic_isr p') = lines (pic_isr p) \<union> {irq} \<union> (if 8 \<le> irq then {2} else {})"
proof -
  have fin: "finite (requests p)"
    by (rule finite_subset [of _ "{..<16}"]) (use lines_bound in \<open>auto simp: requests_def\<close>)
  have ne: "requests p \<noteq> {}" and irq: "irq = Min (requests p)" and hi: "\<forall>i \<in> lines (pic_isr p). irq < i"
    using assms by (auto simp: check_pending_spec split: if_splits)
  then have mem: "irq \<in> requests p" "\<forall>i \<in> requests p. irq \<le> i" using fin by auto
  then have lt: "irq < 16" using lines_bound by (auto simp: requests_def)
  then obtain m where m: "irq_bit irq = Some m" "lines m = {irq}" using irq_bit_total by blast
  obtain c where c: "irq_bit 2 = Some c" "lines c = {2}" using irq_bit_total [of 2] by auto
  show ?thesis
    using assms m c mem hi lt by (auto simp: accept_interrupt_def Let_def irq_vector_def)
qed

lemma peek_accept:
  "peek_pending p = map_option (\<lambda>(_, r). map_option (\<lambda>(irq, v). \<lparr>irq_line = irq, pending_vector = v\<rparr>) r) (accept_interrupt p)"
proof (cases "check_pending p")
  case None
  then show ?thesis by (simp add: peek_pending_def accept_none)
next
  case (Some irq)
  then show ?thesis using accept_some [OF Some] by (auto simp: peek_pending_def)
qed

lemma clear_in_service_lines:
  "i < 16 \<Longrightarrow> \<exists>p'. clear_in_service i p = Some p' \<and> lines (pic_isr p') = lines (pic_isr p) - {i} \<and>
     pic_irr p' = pic_irr p \<and> pic_imr p' = pic_imr p"
  using irq_bit_total [of i] by (auto simp: clear_in_service_def)

lemma master_lines: "{i. bit (ucast (w AND 0xFF) :: u8) i} = {i \<in> lines w. i < 8}" for w :: u16
proof -
  have "bit (mask 8 :: u16) i \<longleftrightarrow> i < 8" for i by (auto simp: bit_mask_iff possible_bit_def simp del: of_nat_mask_eq mask_numeral)
  moreover have "(0xFF :: u16) = mask 8" by (simp add: mask_eq_exp_minus_1)
  ultimately have "bit (0xFF :: u16) i \<longleftrightarrow> i < 8" for i by metis
  then show ?thesis by (auto simp: lines_def bit_unsigned_iff bit_and_iff possible_bit_def)
qed

lemma slave_lines: "{i. bit (ucast (drop_bit 8 w) :: u8) i} = {i. i + 8 \<in> lines w}" for w :: u16
proof -
  have "j < 8" if "bit w (8 + j)" for j using bit_imp_le_length [OF that] by simp
  then show ?thesis
    by (auto simp: lines_def bit_unsigned_iff bit_drop_bit_eq possible_bit_def add.commute numeral_eq_Suc)
qed

lemma master_eoi:
  assumes "i \<in> lines (pic_isr p)" "i < 8" "\<And>j. j \<in> lines (pic_isr p) \<Longrightarrow> i \<le> j"
  shows "\<exists>p'. handle_eoi True p = Some p' \<and> lines (pic_isr p') = lines (pic_isr p) - {i}"
proof -
  let ?m = "ucast (pic_isr p AND 0xFF) :: u8"
  have bits: "bit ?m j \<longleftrightarrow> j \<in> lines (pic_isr p) \<and> j < 8" for j using master_lines [of "pic_isr p"] by auto
  then have nz: "?m \<noteq> 0" using assms(1,2) by (metis bit_0_eq bot_apply bot_bool_def)
  then have "trailing_zeros ?m = i"
    using trailing_zeros_bit [OF nz] bits assms by (metis le_antisym not_less)
  with nz clear_in_service_lines [of i p] assms(2) show ?thesis by (auto simp: handle_eoi_def Let_def)
qed

lemma master_eoi_idle:
  assumes "\<And>j. j \<in> lines (pic_isr p) \<Longrightarrow> 8 \<le> j"
  shows "handle_eoi True p = Some p"
proof -
  have "(ucast (pic_isr p AND 0xFF) :: u8) = 0"
    using master_lines [of "pic_isr p"] assms word_bit_ex by (metis (mono_tags, lifting) mem_Collect_eq not_le)
  then show ?thesis by (simp add: handle_eoi_def)
qed

lemma slave_eoi:
  assumes "i \<in> lines (pic_isr p)" "8 \<le> i" "\<And>j. j \<in> lines (pic_isr p) \<Longrightarrow> 8 \<le> j \<Longrightarrow> i \<le> j"
  shows "\<exists>p'. handle_eoi False p = Some p' \<and> lines (pic_isr p') = lines (pic_isr p) - {i, 2}"
proof -
  let ?m = "ucast (drop_bit 8 (pic_isr p)) :: u8"
  have bits: "bit ?m j \<longleftrightarrow> j + 8 \<in> lines (pic_isr p)" for j using slave_lines [of "pic_isr p"] by auto
  have "bit ?m (i - 8)" using bits assms(1,2) by simp
  then have nz: "?m \<noteq> 0" by (metis bit_0_eq bot_apply bot_bool_def)
  then have "i \<le> trailing_zeros ?m + 8" "\<not> i - 8 < trailing_zeros ?m"
    using trailing_zeros_bit [OF nz] bits assms \<open>bit ?m (i - 8)\<close> by auto
  then have t: "trailing_zeros ?m + 8 = i" using assms(2) by simp
  obtain p1 where p1: "clear_in_service i p = Some p1" "lines (pic_isr p1) = lines (pic_isr p) - {i}"
    using clear_in_service_lines [of i p] lines_bound [OF assms(1)] by auto
  obtain p2 where "clear_in_service 2 p1 = Some p2" "lines (pic_isr p2) = lines (pic_isr p1) - {2}"
    using clear_in_service_lines [of 2 p1] by auto
  with nz t p1 show ?thesis by (auto simp: handle_eoi_def Let_def)
qed

section \<open>Nesting\<close>

text \<open>What the guest's interrupt handlers write to end line \<open>irq\<close>: the end-of-interrupt command \<open>0x20\<close>, to the slave first
  when the line is one of its.\<close>

definition end_of_interrupt :: "nat \<Rightarrow> pic \<Rightarrow> pic option" where
  "end_of_interrupt irq p =
     (if irq < 8 then pic_write 0x20 0x20 p else Option.bind (pic_write 0xA0 0x20 p) (pic_write 0x20 0x20))"

text \<open>A controller together with the stack of lines that were accepted and not ended yet, innermost first. Devices raise
  lines, the guest programs the controller by any write but an end-of-interrupt command, the processor accepts interrupts, and
  the guest ends the innermost one.\<close>

inductive serving :: "pic \<Rightarrow> nat list \<Rightarrow> bool" where
  reset: "serving pic_new []"
| raised: "serving p st \<Longrightarrow> raise_irq irq p = Some p' \<Longrightarrow> serving p' st"
| programmed: "serving p st \<Longrightarrow> port \<notin> {0x20, 0xA0} \<or> (ucast data :: u8) AND 0x18 \<noteq> 0 \<Longrightarrow> pic_write port data p = Some p' \<Longrightarrow>
    serving p' st"
| accepted: "serving p st \<Longrightarrow> accept_interrupt p = Some (p', Some (irq, v)) \<Longrightarrow> serving p' (irq # st)"
| ended: "serving p (irq # st) \<Longrightarrow> end_of_interrupt irq p = Some p' \<Longrightarrow> serving p' st"

text \<open>The in-service lines of a stack: its members, and the cascade line while a line of the slave is among them.\<close>

definition in_service :: "nat list \<Rightarrow> nat set" where
  "in_service st = set st \<union> (if \<exists>i \<in> set st. 8 \<le> i then {2} else {})"

definition nested :: "nat list \<Rightarrow> bool" where
  "nested st \<longleftrightarrow> sorted_wrt (<) st \<and> (\<forall>i \<in> set st. \<forall>j \<in> set st. 8 \<le> i \<longrightarrow> j = i \<or> j < 2)"

lemma in_service_iff: "i \<in> in_service st \<longleftrightarrow> i \<in> set st \<or> i = 2 \<and> (\<exists>j \<in> set st. 8 \<le> j)"
  by (simp add: in_service_def)

lemma pic_data_isr [simp]: "pic_isr (pic_data m v p) = pic_isr p"
  by (simp add: pic_data_def Let_def)

lemma programmed_isr:
  assumes "port \<notin> {0x20, 0xA0} \<or> (ucast data :: u8) AND 0x18 \<noteq> 0" "pic_write port data p = Some p'"
  shows "pic_isr p' = pic_isr p"
proof -
  let ?v = "ucast data :: u8"
  have "(0x18 :: u8) = 0x10 OR 0x08" by simp
  then have "?v AND 0x18 = (?v AND 0x10) OR (?v AND 0x08)" by (simp only: bit.conj_disj_distrib)
  then have "?v AND 0x18 \<noteq> 0 \<Longrightarrow> ?v AND 0x10 = 0 \<Longrightarrow> ?v AND 0x08 \<noteq> 0" by auto
  with assms show ?thesis
    by (auto simp: pic_write_def pic_command_def Let_def split: if_splits)
qed

lemma accept_nested:
  assumes "nested st" "lines (pic_isr p) = in_service st" "accept_interrupt p = Some (p', Some (irq, v))"
  shows "nested (irq # st) \<and> lines (pic_isr p') = in_service (irq # st)"
proof -
  obtain irq' where c: "check_pending p = Some irq'" using assms(3) by (cases "check_pending p") (auto simp: accept_none)
  have p': "\<forall>i \<in> lines (pic_isr p). irq < i" "lines (pic_isr p') = lines (pic_isr p) \<union> {irq} \<union> (if 8 \<le> irq then {2} else {})"
    using accept_some [OF c] assms(3) by auto
  then have lt: "irq < i" if "i \<in> in_service st" for i using that assms(2) by simp
  have two: "irq < 2" if "8 \<le> i" "i \<in> set st" for i using lt [of 2] that by (auto simp: in_service_iff)
  have "nested (irq # st)"
    using assms(1) lt two by (fastforce simp: nested_def in_service_iff)
  moreover have "lines (pic_isr p') = in_service (irq # st)"
    unfolding p'(2) assms(2) by (auto simp: in_service_iff)
  ultimately show ?thesis by blast
qed

lemma end_nested:
  assumes "nested (irq # st)" "lines (pic_isr p) = in_service (irq # st)" "end_of_interrupt irq p = Some p'"
  shows "nested st \<and> lines (pic_isr p') = in_service st"
proof (cases "irq < 8")
  case True
  have lt: "\<forall>i \<in> set st. irq < i" using assms(1) by (simp add: nested_def)
  then have ni: "irq \<notin> set st" by blast
  have two: "irq < 2" if "8 \<le> i" "i \<in> set st" for i using assms(1) that True by (fastforce simp: nested_def)
  have "\<And>j. j \<in> lines (pic_isr p) \<Longrightarrow> irq \<le> j" "irq \<in> lines (pic_isr p)"
    using lt two True unfolding assms(2) by (auto simp: in_service_iff intro: less_imp_le less_le_trans)
  then have "lines (pic_isr p') = lines (pic_isr p) - {irq}"
    using master_eoi [of irq p] True assms(3) by (auto simp: end_of_interrupt_def pic_write_def pic_command_def)
  also have "\<dots> = in_service st"
    using ni two True unfolding assms(2) by (auto simp: in_service_iff)
  finally show ?thesis using assms(1) by (simp add: nested_def)
next
  case False
  have st: "st = []" using assms(1) False by (cases st) (auto simp: nested_def)
  have isr: "lines (pic_isr p) = {irq, 2}" unfolding assms(2) st using False by (auto simp: in_service_iff)
  obtain p1 where p1: "handle_eoi False p = Some p1" "lines (pic_isr p1) = {}"
    using slave_eoi [of irq p] isr False by auto
  then have "p' = p1" using assms(3) False master_eoi_idle [of p1]
    by (auto simp: end_of_interrupt_def pic_write_def pic_command_def)
  with p1 st show ?thesis by (simp add: nested_def in_service_def)
qed

lemma serving_nested: "serving p st \<Longrightarrow> nested st \<and> lines (pic_isr p) = in_service st"
proof (induction rule: serving.induct)
  case reset
  show ?case by (simp add: nested_def in_service_def pic_new_def)
next
  case (raised p st irq p')
  have "pic_isr p' = pic_isr p" using raised.hyps(2) by (cases "irq_bit irq") (auto simp: raise_irq_def)
  with raised.IH show ?case by simp
next
  case (programmed p st port data p')
  then show ?case using programmed_isr [OF programmed.hyps(2,3)] by simp
next
  case (accepted p st p' irq v)
  then show ?case using accept_nested by blast
next
  case (ended p irq st p')
  then show ?case using end_nested by blast
qed

text \<open>C21: interrupts of the emulated controller pair nest strictly, whatever the devices raise and the guest programs. In
  every reachable state the in-service register holds exactly the stack of accepted, unended lines (plus the cascade line for
  the slave); the next acceptance never panics, agrees with \<open>peek_pending\<close>, and takes a line precisely when the
  lowest-numbered unmasked request outranks everything in service, with the vector of that line; and ending the innermost
  interrupt leaves the stack below it.\<close>

theorem pic_nesting:
  assumes "serving p st"
  shows "lines (pic_isr p) = in_service st \<and> sorted_wrt (<) st \<and>
    (\<exists>p' r. accept_interrupt p = Some (p', r) \<and>
       peek_pending p = Some (map_option (\<lambda>(irq, v). \<lparr>irq_line = irq, pending_vector = v\<rparr>) r) \<and>
       r = (if requests p \<noteq> {} \<and> (\<forall>i \<in> in_service st. Min (requests p) < i)
            then Some (Min (requests p), irq_vector (Min (requests p)) p) else None))"
proof -
  have isr: "nested st" "lines (pic_isr p) = in_service st" using serving_nested [OF assms] by auto
  show ?thesis
  proof (cases "check_pending p")
    case None
    then have "requests p = {} \<or> \<not> (\<forall>i \<in> in_service st. Min (requests p) < i)"
      using isr by (auto simp: check_pending_spec not_less split: if_splits)
    then show ?thesis using isr accept_none [OF None] by (auto simp: peek_accept nested_def)
  next
    case (Some irq)
    then have "irq = Min (requests p)" "requests p \<noteq> {}" "\<forall>i \<in> in_service st. Min (requests p) < i"
      using isr by (auto simp: check_pending_spec split: if_splits)
    then show ?thesis using isr accept_some [OF Some] by (auto simp: peek_accept nested_def)
  qed
qed

definition example_pic :: "u16 \<Rightarrow> u16 \<Rightarrow> pic" where
  "example_pic requested serviced = pic_new\<lparr>pic_irr := requested, pic_isr := serviced, pic_imr := 0\<rparr>"

lemma example_unmasked: "serving (example_pic 0 0) []"
proof -
  have a: "pic_write 0x21 0 pic_new = Some (pic_new\<lparr>pic_imr := 0xFF00\<rparr>)"
    "pic_write 0xA1 0 (pic_new\<lparr>pic_imr := 0xFF00\<rparr>) = Some (example_pic 0 0)" by code_simp+
  show ?thesis
    by (rule serving.programmed [OF serving.programmed [OF serving.reset _ a(1)] _ a(2)]) simp_all
qed

lemma example_nested: "serving (example_pic 0 0x106) [1, 8]"
proof -
  have s: "raise_irq 8 (example_pic 0 0) = Some (example_pic 0x100 0)"
    "accept_interrupt (example_pic 0x100 0) = Some (example_pic 0 0x104, Some (8, 0))"
    "raise_irq 1 (example_pic 0 0x104) = Some (example_pic 2 0x104)"
    "accept_interrupt (example_pic 2 0x104) = Some (example_pic 0 0x106, Some (1, 1))" by code_simp+
  show ?thesis by (rule serving.accepted [OF serving.raised [OF serving.accepted [OF serving.raised
    [OF example_unmasked s(1)] s(2)] s(3)] s(4)])
qed

theorem pic_nesting_witness:
  "lines (pic_isr (example_pic 0 0x106)) = {1, 2, 8} \<and> accept_interrupt (example_pic 0 0x106) = Some (example_pic 0 0x106, None)"
proof -
  have "in_service [1, 8] = {1, 2, 8}" by (auto simp: in_service_def)
  moreover have "accept_interrupt (example_pic 0 0x106) = Some (example_pic 0 0x106, None)" by code_simp
  ultimately show ?thesis using pic_nesting [OF example_nested] by simp
qed

end
