(* ===== verification/Dev_Clock.thy ===== *)
theory Dev_Clock
  imports Rust_Prelude
begin

text \<open>
  The guest clock of the Reindeer hypervisor (\<^verbatim>\<open>guest/clock.rs\<close>). The host's time stamp counter and its frequency are
  arguments: \<open>host_tsc\<close> stands for the value of one \<open>rdtsc\<close>, and an operation that samples the counter twice takes two of
  them. Products are formed in 128 bits and wrap there, as in the source. The fields are private and \<open>new\<close> is the only
  constructor, so the frequencies are never zero (\<open>guest_clock_new_ok\<close>) and no division below is by zero.
\<close>

type_synonym u128 = "128 word"

definition DEFAULT_GUEST_TSC_HZ :: u64 where "DEFAULT_GUEST_TSC_HZ = 2400000000"
definition CPUID_CRYSTAL_HZ :: u64 where "CPUID_CRYSTAL_HZ = 24000000"
definition DEFAULT_GUEST_APIC_BUS_HZ :: u64 where "DEFAULT_GUEST_APIC_BUS_HZ = CPUID_CRYSTAL_HZ"

record guest_clock =
  tsc_hz :: u64
  apic_bus_hz :: u64
  base_host_tsc :: u64
  base_guest_tsc :: u64
  host_tsc_hz :: u64
  tsc_scaling_supported :: bool

definition guest_clock_new :: "u64 \<Rightarrow> u64 \<Rightarrow> u64 \<Rightarrow> u64 \<Rightarrow> bool \<Rightarrow> guest_clock" where
  "guest_clock_new tsc_frequency host_tsc requested_tsc_hz bus_hz scaling =
     (let host_hz = max tsc_frequency 1; bus_hz' = max bus_hz 1
      in \<lparr>tsc_hz = host_hz, apic_bus_hz = bus_hz', base_host_tsc = host_tsc, base_guest_tsc = 0, host_tsc_hz = host_hz,
          tsc_scaling_supported = scaling\<rparr>)"

definition needs_tsc_scaling :: "guest_clock \<Rightarrow> bool" where
  "needs_tsc_scaling c \<longleftrightarrow> tsc_hz c \<noteq> host_tsc_hz c \<and> tsc_scaling_supported c"

definition scale_tsc :: "guest_clock \<Rightarrow> u64 \<Rightarrow> u64" where
  "scale_tsc c tsc =
     (if needs_tsc_scaling c
      then let multiplier = push_bit 48 (ucast (tsc_hz c) :: u128) div ucast (max (host_tsc_hz c) 1)
           in ucast (drop_bit 48 (ucast tsc * multiplier))
      else tsc)"

definition host_to_guest_tsc :: "guest_clock \<Rightarrow> u64 \<Rightarrow> u64" where
  "host_to_guest_tsc c host_tsc = base_guest_tsc c + (scale_tsc c host_tsc - scale_tsc c (base_host_tsc c))"

definition now_tsc :: "guest_clock \<Rightarrow> u64 \<Rightarrow> u64" where
  "now_tsc c host_tsc = host_to_guest_tsc c host_tsc"

definition apic_timer_divider :: "u64 \<Rightarrow> u32" where
  "apic_timer_divider dcr =
     (let d = dcr AND 0xB
      in if d = 0 then 2 else if d = 1 then 4 else if d = 2 then 8 else if d = 3 then 16
         else if d = 8 then 32 else if d = 9 then 64 else if d = 10 then 128 else if d = 11 then 1 else 16)"

definition lapic_ticks_elapsed :: "guest_clock \<Rightarrow> u64 \<Rightarrow> u64 \<Rightarrow> u64 \<Rightarrow> u64" where
  "lapic_ticks_elapsed c host_tsc start_tsc dcr =
     (let delta_tsc = saturating_sub (now_tsc c host_tsc) start_tsc;
          divider = (ucast (max (apic_timer_divider dcr) 1) :: u64)
      in ucast ((ucast delta_tsc * ucast (apic_bus_hz c)) div (ucast (tsc_hz c) :: u128) div ucast divider))"

definition cpuid_leaf_15 :: "guest_clock \<Rightarrow> u32 \<times> u32 \<times> u32 \<times> u32" where
  "cpuid_leaf_15 c = (1, ucast ((tsc_hz c + apic_bus_hz c div 2) div apic_bus_hz c), ucast (apic_bus_hz c), 0)"

lemma guest_clock_new_ok:
  "tsc_hz (guest_clock_new f t r b s) \<noteq> 0" "apic_bus_hz (guest_clock_new f t r b s) \<noteq> 0"
proof -
  have "max x 1 \<noteq> 0" for x :: u64 by (auto simp: max_def word_less_nat_alt not_le)
  then show "tsc_hz (guest_clock_new f t r b s) \<noteq> 0" "apic_bus_hz (guest_clock_new f t r b s) \<noteq> 0"
    by (simp_all add: guest_clock_new_def Let_def)
qed

text \<open>Whatever frequency is requested, the guest counter runs at the host's rate and starts at zero.\<close>

lemma guest_clock_unscaled: "now_tsc (guest_clock_new f t r b s) host_tsc = host_tsc - t"
  by (simp add: guest_clock_new_def now_tsc_def host_to_guest_tsc_def scale_tsc_def needs_tsc_scaling_def Let_def)

lemma apic_timer_divider_pos: "0 < unat (apic_timer_divider dcr)"
  by (simp add: apic_timer_divider_def Let_def)

lemma unat_u128_mult: "unat (ucast (a :: u64) * ucast (b :: u64) :: u128) = unat a * unat b"
proof -
  have a: "unat (ucast a :: u128) = unat a" "unat (ucast b :: u128) = unat b"
    by (simp_all add: unsigned_ucast_eq take_bit_nat_eq_self_iff less_trans [OF unsigned_less])
  have "unat a * unat b < 2 ^ 64 * 2 ^ 64"
    using unsigned_less [of a, where ?'a = nat] unsigned_less [of b, where ?'a = nat] by (intro mult_strict_mono) auto
  then have "unat (ucast a :: u128) * unat (ucast b :: u128) < 2 ^ LENGTH(128)" by (simp add: a)
  then show ?thesis using a by (simp add: unat_mult_lem [THEN iffD1])
qed

end
