(* ===== verification/Dev_Lapic.thy ===== *)
theory Dev_Lapic
  imports Dev_Pic Dev_Clock "HOL-Library.AList"
begin

text \<open>
  The emulated local APICs (\<^verbatim>\<open>device/interrupt/lapic.rs\<close> of the Reindeer hypervisor): one register file per virtual
  processor, arbitration, delivery, the timer and the memory-mapped registers. The two hash maps of the device are association
  lists, whose order stands for the unspecified iteration order of the map. The interrupt controller pair that every register
  file points to is an argument and a result. \<open>None\<close> is a panic: an unknown processor, an unknown register, an unsupported
  inter-processor interrupt.

  The lemmas read the request and in-service bitmaps as sets of vectors.
\<close>

section \<open>State\<close>

record local_apic_state =
  lapic_id :: u32
  version :: u32
  base_address :: u64
  spurious_vector :: u64
  tpr :: u64
  lvt_error :: u64
  divide_config_register :: u64
  timer_on :: bool
  initial_count :: u32
  start_guest_tsc :: u64
  irr :: "u32 list"
  isr :: "u32 list"
  is_enabled :: bool
  dfr :: u64
  ldr :: u64
  lvt_lint0 :: u32
  lvt_lint1 :: u32
  lvt_timer :: u32
  icr_low :: u32
  icr_high :: u32

datatype delivered_interrupt =
    ExtInt nat u8
  | Lapic u8
  | LapicLvtLint0 u8 nat

record local_apic_device =
  state :: "(nat \<times> local_apic_state) list"
  guest_clock :: guest_clock
  apic_map :: "(nat \<times> nat) list"

definition LVT_MASKED :: u32 where "LVT_MASKED = 0x10000"
definition LVT_TIMER_PERIODIC :: u32 where "LVT_TIMER_PERIODIC = 0x20000"
definition SVR_APIC_ENABLE :: u64 where "SVR_APIC_ENABLE = 0x100"
definition ICR_DELIVERY_STATUS_MASK :: u32 where "ICR_DELIVERY_STATUS_MASK = 0x1000"

definition local_apic_device_new :: "guest_clock \<Rightarrow> local_apic_device" where
  "local_apic_device_new clock = \<lparr>state = [], guest_clock = clock, apic_map = []\<rparr>"

definition local_apic_reset :: "nat \<Rightarrow> local_apic_state" where
  "local_apic_reset cpu_id =
     \<lparr>lapic_id = of_nat cpu_id, version = 0x00050014, base_address = 0xFEE00000, spurious_vector = 0x10, tpr = 0,
      lvt_error = 0x10000, divide_config_register = 0, timer_on = False, initial_count = 0, start_guest_tsc = 0,
      irr = replicate 8 0, isr = replicate 8 0, is_enabled = False, dfr = 0xFFFFFFFF, ldr = 0xFFFFFFFF,
      lvt_lint0 = 0x00000700, lvt_lint1 = 0x00010000, lvt_timer = 0x00010000, icr_low = 0, icr_high = 0\<rparr>"

definition initialize :: "nat \<Rightarrow> local_apic_device \<Rightarrow> local_apic_device" where
  "initialize cpu_id d =
     (let s = local_apic_reset cpu_id
      in d\<lparr>apic_map := AList.update (unat (lapic_id s)) cpu_id (apic_map d), state := AList.update cpu_id s (state d)\<rparr>)"

definition put_state :: "nat \<Rightarrow> local_apic_state \<Rightarrow> local_apic_device \<Rightarrow> local_apic_device" where
  "put_state cpu_id s d = d\<lparr>state := AList.update cpu_id s (state d)\<rparr>"

section \<open>Arbitration and delivery\<close>

text \<open>The scan from the highest word of a bitmap down to the lowest; it gives the word's index and its highest set bit.\<close>

fun highest_bit :: "u32 list \<Rightarrow> nat list \<Rightarrow> (nat \<times> nat) option" where
  "highest_bit ws [] = None"
| "highest_bit ws (i # is) = (if ws ! i \<noteq> 0 then Some (i, 31 - leading_zeros (ws ! i)) else highest_bit ws is)"

definition highest_vector :: "u32 list \<Rightarrow> u8 option" where
  "highest_vector ws = map_option (\<lambda>(i, b). of_nat (i * 32) + of_nat b) (highest_bit ws (rev [0..<8]))"

definition find_highest_pending_lapic_irq :: "local_apic_state \<Rightarrow> u8 \<Rightarrow> u8 \<Rightarrow> u8 option" where
  "find_highest_pending_lapic_irq s processor_prio isr_prio =
     (case highest_vector (irr s) of
        None \<Rightarrow> None
      | Some pending_vec \<Rightarrow>
          let pending_prio = drop_bit 4 pending_vec
          in if processor_prio < pending_prio \<and> isr_prio < pending_prio then Some pending_vec else None)"

definition lint0_interrupt :: "local_apic_state \<Rightarrow> pic \<Rightarrow> u8 \<Rightarrow> u8 \<Rightarrow> delivered_interrupt option option" where
  "lint0_interrupt s p processor_prio isr_prio =
     (if lvt_lint0 s AND LVT_MASKED = 0 then
        let delivery_mode = drop_bit 8 (lvt_lint0 s) AND 7
        in case peek_pending p of
             None \<Rightarrow> None
           | Some None \<Rightarrow> Some None
           | Some (Some pending) \<Rightarrow>
               if delivery_mode = 7 then Some (Some (ExtInt (irq_line pending) (pending_vector pending)))
               else if delivery_mode = 0 then
                 let lint0_vector = ucast (lvt_lint0 s AND 0xFF); lint0_prio = drop_bit 4 lint0_vector
                 in if 16 \<le> lint0_vector \<and> processor_prio < lint0_prio \<and> isr_prio < lint0_prio
                    then Some (Some (LapicLvtLint0 lint0_vector (irq_line pending))) else Some None
               else Some None
      else Some None)"

definition isr_priority :: "local_apic_state \<Rightarrow> u8" where
  "isr_priority s = (case highest_vector (isr s) of None \<Rightarrow> 0 | Some isr_vec \<Rightarrow> drop_bit 4 isr_vec)"

definition get_pending_interrupt :: "local_apic_device \<Rightarrow> nat \<Rightarrow> pic \<Rightarrow> u64 \<Rightarrow> delivered_interrupt option option" where
  "get_pending_interrupt d cpu_id p guest_tpr =
     (case map_of (state d) cpu_id of
        None \<Rightarrow> None
      | Some s \<Rightarrow>
          let processor_prio = ucast (drop_bit 4 (max (tpr s) guest_tpr)); isr_prio = isr_priority s
          in case lint0_interrupt s p processor_prio isr_prio of
               None \<Rightarrow> None
             | Some (Some i) \<Rightarrow> Some (Some i)
             | Some None \<Rightarrow> Some (map_option Lapic (find_highest_pending_lapic_irq s processor_prio isr_prio)))"

definition commit_vector :: "u8 \<Rightarrow> local_apic_state \<Rightarrow> local_apic_state" where
  "commit_vector vector s =
     (let reg_idx = unat (vector div 32); m = push_bit (unat (vector mod 32)) 1
      in s\<lparr>irr := (irr s)[reg_idx := irr s ! reg_idx AND NOT m], isr := (isr s)[reg_idx := isr s ! reg_idx OR m]\<rparr>)"

definition commit_interrupt :: "nat \<Rightarrow> u8 \<Rightarrow> local_apic_device \<Rightarrow> local_apic_device option" where
  "commit_interrupt cpu_id vector d =
     map_option (\<lambda>s. put_state cpu_id (commit_vector vector s) d) (map_of (state d) cpu_id)"

definition accept_line :: "nat \<Rightarrow> u8 \<Rightarrow> pic \<Rightarrow> local_apic_device \<Rightarrow> (local_apic_device \<times> pic \<times> u8 option) option" where
  "accept_line line vector p d =
     (if line < 16 then map_option (\<lambda>(p', r). (d, p', map_option (\<lambda>_. vector) r)) (accept_interrupt p) else None)"

fun commit_delivered_interrupt :: "delivered_interrupt \<Rightarrow> pic \<Rightarrow> nat \<Rightarrow> local_apic_device \<Rightarrow>
    (local_apic_device \<times> pic \<times> u8 option) option" where
  "commit_delivered_interrupt (ExtInt line vector) p cpu_id d = accept_line line vector p d"
| "commit_delivered_interrupt (LapicLvtLint0 lint0_vector line) p cpu_id d = accept_line line lint0_vector p d"
| "commit_delivered_interrupt (Lapic vector) p cpu_id d =
     map_option (\<lambda>d'. (d', p, Some vector)) (commit_interrupt cpu_id vector d)"

section \<open>Requests\<close>

definition resolve_destination :: "local_apic_device \<Rightarrow> nat \<Rightarrow> nat option" where
  "resolve_destination d apic_id =
     (case map_of (apic_map d) apic_id of
        Some cpu_id \<Rightarrow> Some cpu_id
      | None \<Rightarrow> if map_of (state d) apic_id \<noteq> None then Some apic_id
                else (case state d of [] \<Rightarrow> None | (cpu_id, _) # _ \<Rightarrow> Some cpu_id))"

definition request_vector :: "nat \<Rightarrow> local_apic_state \<Rightarrow> local_apic_state" where
  "request_vector vector s =
     (let reg_idx = vector div 32; m = push_bit (vector mod 32) 1;
          s1 = (if isr s ! reg_idx AND m \<noteq> 0 \<and> irr s ! reg_idx AND m = 0
                then s\<lparr>isr := (isr s)[reg_idx := isr s ! reg_idx AND NOT m]\<rparr> else s)
      in s1\<lparr>irr := (irr s1)[reg_idx := irr s1 ! reg_idx OR m]\<rparr>)"

text \<open>Callers pass a vector byte, so the bitmap index is in range.\<close>

definition set_irq :: "nat \<Rightarrow> nat \<Rightarrow> local_apic_device \<Rightarrow> local_apic_device" where
  "set_irq apic_id vector d =
     (case resolve_destination d apic_id of
        None \<Rightarrow> d
      | Some cpu_id \<Rightarrow>
          (case map_of (state d) cpu_id of
             None \<Rightarrow> d
           | Some s \<Rightarrow> if vector < 16 then d else put_state cpu_id (request_vector vector s) d))"

definition inject_ipi :: "nat \<Rightarrow> u8 \<Rightarrow> u8 \<Rightarrow> local_apic_device \<Rightarrow> local_apic_device option" where
  "inject_ipi apic_id delivery_mode vector d =
     (if delivery_mode = 0 then Some (if 16 \<le> vector then set_irq apic_id (unat vector) d else d) else None)"

definition dispatch_ipi :: "nat \<Rightarrow> u8 \<Rightarrow> u8 \<Rightarrow> u8 \<Rightarrow> local_apic_device \<Rightarrow> local_apic_device option" where
  "dispatch_ipi apic_id dest_shorthand delivery_mode vector d =
     (if dest_shorthand = 1 \<or> dest_shorthand = 2 then inject_ipi apic_id delivery_mode vector d else None)"

definition check_lapic_timer :: "u64 \<Rightarrow> u64 \<Rightarrow> nat \<Rightarrow> local_apic_device \<Rightarrow> local_apic_device option" where
  "check_lapic_timer host_tsc host_tsc' cpu_id d =
     (case map_of (state d) cpu_id of
        None \<Rightarrow> None
      | Some s \<Rightarrow> Some (
          if \<not> timer_on s \<or> initial_count s = 0 \<or> start_guest_tsc s = 0 then d
          else let vector = (ucast (lvt_timer s AND 0xFF) :: u8)
               in if vector < 16 \<or> lvt_timer s AND LVT_MASKED \<noteq> 0 then put_state cpu_id (s\<lparr>timer_on := False\<rparr>) d
                  else let elapsed = lapic_ticks_elapsed (guest_clock d) host_tsc (start_guest_tsc s) (divide_config_register s)
                       in if ucast (initial_count s) \<le> elapsed then
                            let s' = (if lvt_timer s AND LVT_TIMER_PERIODIC \<noteq> 0
                                      then s\<lparr>start_guest_tsc := now_tsc (guest_clock d) host_tsc'\<rparr>
                                      else s\<lparr>initial_count := 0, timer_on := False\<rparr>)
                            in set_irq cpu_id (unat vector) (put_state cpu_id s' d)
                          else d))"

section \<open>Memory-mapped registers\<close>

definition current_count :: "guest_clock \<Rightarrow> u64 \<Rightarrow> local_apic_state \<Rightarrow> u64" where
  "current_count clock host_tsc s =
     (if initial_count s = 0 \<or> start_guest_tsc s = 0 then 0
      else let elapsed = lapic_ticks_elapsed clock host_tsc (start_guest_tsc s) (divide_config_register s);
               count = ucast (initial_count s);
               remaining = (if count \<le> elapsed
                            then (if lvt_timer s AND LVT_TIMER_PERIODIC \<noteq> 0 then count - elapsed mod count else 0)
                            else count - elapsed)
           in remaining AND 0xFFFFFFFF)"

definition lapic_mmio_read :: "local_apic_device \<Rightarrow> u64 \<Rightarrow> nat \<Rightarrow> u64 \<Rightarrow> u64 option" where
  "lapic_mmio_read d host_tsc cpu_id addr =
     (case map_of (state d) cpu_id of
        None \<Rightarrow> None
      | Some s \<Rightarrow>
          let offset = addr - base_address s
          in if offset = 0x20 then Some (push_bit 24 (of_nat cpu_id))
             else if offset = 0x30 then Some (ucast (version s))
             else if offset = 0xF0 then Some (spurious_vector s)
             else if offset = 0x80 then Some (tpr s)
             else if offset = 0xE0 then Some (dfr s)
             else if offset = 0xD0 then Some (ldr s)
             else if offset = 0x350 then Some (ucast (lvt_lint0 s))
             else if offset = 0x360 then Some (ucast (lvt_lint1 s))
             else if offset = 0x320 then Some (ucast (lvt_timer s))
             else if offset = 0x280 then Some 0
             else if offset = 0x3E0 then Some (divide_config_register s)
             else if 0x100 \<le> offset \<and> offset \<le> 0x170 then
               Some (let index = unat ((offset - 0x100) div 0x10) in if index < length (isr s) then ucast (isr s ! index) else 0)
             else if 0x200 \<le> offset \<and> offset \<le> 0x270 then
               Some (let index = unat ((offset - 0x200) div 0x10) in if index < length (irr s) then ucast (irr s ! index) else 0)
             else if offset = 0x300 then Some (ucast (icr_low s AND NOT ICR_DELIVERY_STATUS_MASK))
             else if offset = 0x310 then Some (ucast (icr_high s))
             else if offset = 0x390 then Some (current_count (guest_clock d) host_tsc s)
             else None)"

text \<open>The end-of-interrupt register clears the highest in-service vector, and passes the command on to the controller pair
  while \<open>LINT0\<close> is in virtual wire mode.\<close>

definition clear_highest :: "u32 list \<Rightarrow> u32 list" where
  "clear_highest ws = (case highest_bit ws (rev [0..<8]) of None \<Rightarrow> ws | Some (i, b) \<Rightarrow> ws[i := ws ! i AND NOT (push_bit b 1)])"

definition lapic_eoi :: "local_apic_state \<Rightarrow> pic \<Rightarrow> (local_apic_state \<times> pic) option" where
  "lapic_eoi s p =
     (let s1 = s\<lparr>isr := clear_highest (isr s)\<rparr>; lint0 = lvt_lint0 s1
      in if lint0 AND LVT_MASKED = 0 \<and> drop_bit 8 lint0 AND 7 = 7 then map_option (Pair s1) (handle_eoi True p) else Some (s1, p))"

definition write_lvt_timer :: "guest_clock \<Rightarrow> u64 \<Rightarrow> u64 \<Rightarrow> local_apic_state \<Rightarrow> local_apic_state" where
  "write_lvt_timer clock host_tsc val s =
     (let s1 = s\<lparr>lvt_timer := ucast val\<rparr>; masked = (val AND ucast LVT_MASKED \<noteq> 0); vector = (ucast (val AND 0xFF) :: u8)
      in if masked \<or> vector < 16 then s1\<lparr>timer_on := False\<rparr>
         else if initial_count s1 \<noteq> 0 then s1\<lparr>timer_on := True, start_guest_tsc := now_tsc clock host_tsc\<rparr>
         else s1)"

text \<open>The writes that change only the register file.\<close>

definition write_register :: "guest_clock \<Rightarrow> u64 \<Rightarrow> u64 \<Rightarrow> u64 \<Rightarrow> local_apic_state \<Rightarrow> local_apic_state option" where
  "write_register clock host_tsc offset val s =
     (if offset = 0xF0 then Some (s\<lparr>spurious_vector := val, is_enabled := (val AND SVR_APIC_ENABLE \<noteq> 0)\<rparr>)
      else if offset = 0x310 then Some (s\<lparr>icr_high := ucast val\<rparr>)
      else if offset = 0x370 then Some (s\<lparr>lvt_error := ucast ((ucast val :: u32) AND 0x100FF)\<rparr>)
      else if offset = 0x3E0 then Some (s\<lparr>divide_config_register := ucast ((ucast val :: u32) AND 0xB)\<rparr>)
      else if offset = 0x380 then
        let s1 = s\<lparr>initial_count := ucast val, start_guest_tsc := now_tsc clock host_tsc\<rparr>
        in Some (s1\<lparr>timer_on := (initial_count s1 \<noteq> 0 \<and> lvt_timer s1 AND LVT_MASKED = 0)\<rparr>)
      else if offset = 0x320 then Some (write_lvt_timer clock host_tsc val s)
      else if offset = 0xD0 then Some (s\<lparr>ldr := val\<rparr>)
      else if offset = 0xE0 then Some (s\<lparr>dfr := val\<rparr>)
      else if offset = 0x80 then Some (s\<lparr>tpr := val\<rparr>)
      else if offset = 0x350 then Some (s\<lparr>lvt_lint0 := ucast val AND 0x117FF\<rparr>)
      else if offset = 0x360 then Some (s\<lparr>lvt_lint1 := ucast val AND 0x117FF\<rparr>)
      else if offset = 0x280 then Some s
      else None)"

definition lapic_mmio_write :: "u64 \<Rightarrow> nat \<Rightarrow> u64 \<Rightarrow> u64 \<Rightarrow> local_apic_device \<Rightarrow> pic \<Rightarrow> (local_apic_device \<times> pic) option" where
  "lapic_mmio_write host_tsc cpu_id addr val d p =
     (case map_of (state d) cpu_id of
        None \<Rightarrow> None
      | Some s \<Rightarrow>
          let offset = addr - base_address s
          in if offset = 0xB0 then map_option (\<lambda>(s', p'). (put_state cpu_id s' d, p')) (lapic_eoi s p)
             else if offset = 0x300 then
               map_option (\<lambda>d'. (d', p))
                 (dispatch_ipi (unat (lapic_id s)) (ucast (drop_bit 18 val AND 3)) (ucast (drop_bit 8 val AND 7)) (ucast (val AND 0xFF))
                    (put_state cpu_id (s\<lparr>icr_low := ucast val AND NOT ICR_DELIVERY_STATUS_MASK\<rparr>) d))
             else map_option (\<lambda>s'. (put_state cpu_id s' d, p)) (write_register (guest_clock d) host_tsc offset val s))"

section \<open>Bitmaps as sets of vectors\<close>

definition vectors :: "u32 list \<Rightarrow> nat set" where
  "vectors ws = {v. v div 32 < length ws \<and> bit (ws ! (v div 32)) (v mod 32)}"

lemma vectors_finite [simp]: "finite (vectors ws)"
  by (rule finite_subset [of _ "{..<32 * length ws}"]) (auto simp: vectors_def div_less_iff_less_mult mult.commute)

lemma vectors_replicate [simp]: "vectors (replicate n 0) = {}"
  by (auto simp: vectors_def)

lemma vectors_set:
  assumes "v div 32 < length ws"
  shows "vectors (ws[v div 32 := ws ! (v div 32) OR push_bit (v mod 32) 1]) = insert v (vectors ws)"
proof -
  have "u = v" if "u div 32 = v div 32" "u mod 32 = v mod 32" for u using that by (metis mod_div_decomp)
  then show ?thesis using assms by (auto simp: vectors_def nth_list_update bit_or_iff)
qed

lemma vectors_clear:
  assumes "v div 32 < length ws"
  shows "vectors (ws[v div 32 := ws ! (v div 32) AND NOT (push_bit (v mod 32) 1)]) = vectors ws - {v}"
proof -
  have "u = v" if "u div 32 = v div 32" "u mod 32 = v mod 32" for u using that by (metis mod_div_decomp)
  moreover have "bit w b \<Longrightarrow> b < 32" for w :: u32 and b using bit_imp_le_length by fastforce
  ultimately show ?thesis using assms
    by (auto simp: vectors_def nth_list_update bit_and_iff bit_not_iff possible_bit_def split: if_splits)
qed

lemma highest_bit_Some:
  assumes "highest_bit ws (rev [0..<n]) = Some (i, b)"
  shows "i < n \<and> b < 32 \<and> bit (ws ! i) b \<and> (\<forall>j < n. \<forall>c. bit (ws ! j) c \<longrightarrow> 32 * j + c \<le> 32 * i + b)"
  using assms
proof (induction n)
  case (Suc n)
  have lt: "bit (w :: u32) c \<Longrightarrow> c < 32" for w c using bit_imp_le_length by fastforce
  show ?case
  proof (cases "ws ! n = 0")
    case True
    with Suc show ?thesis by (auto simp: less_Suc_eq)
  next
    case False
    note top = leading_zeros_bit [OF False]
    have ib: "i = n" "b = 31 - leading_zeros (ws ! n)" using Suc.prems False by auto
    have b: "bit (ws ! n) b" "\<forall>c. bit (ws ! n) c \<longrightarrow> c \<le> b" using top ib by auto
    have "32 * j + c \<le> 32 * n + b" if "j < n" "bit (ws ! j) c" for j c
    proof -
      have "32 * j + c < 32 * Suc j" using lt [OF that(2)] by simp
      also have "\<dots> \<le> 32 * n" using that(1) by (intro mult_le_mono2) simp
      finally show ?thesis by simp
    qed
    with b lt [OF b(1)] ib(1) show ?thesis by (auto simp: less_Suc_eq)
  qed
qed simp

lemma highest_bit_None: "highest_bit ws (rev [0..<n]) = None \<longleftrightarrow> (\<forall>j < n. ws ! j = 0)"
  by (induction n) (auto simp: less_Suc_eq)

lemma highest_bit_vectors:
  assumes "length ws = 8"
  shows "highest_bit ws (rev [0..<8]) = (if vectors ws = {} then None else Some (Max (vectors ws) div 32, Max (vectors ws) mod 32))"
proof (cases "highest_bit ws (rev [0..<8])")
  case None
  then have "vectors ws = {}" using assms highest_bit_None [of ws 8] by (auto simp: vectors_def)
  with None show ?thesis by simp
next
  case (Some r)
  obtain i b where r: "r = (i, b)" by force
  note h = highest_bit_Some [OF Some [unfolded r]]
  have mem: "32 * i + b \<in> vectors ws" using h assms by (simp add: vectors_def)
  have "v \<le> 32 * i + b" if "v \<in> vectors ws" for v
  proof -
    have "v div 32 < 8" "bit (ws ! (v div 32)) (v mod 32)" using that assms by (auto simp: vectors_def)
    then have "32 * (v div 32) + v mod 32 \<le> 32 * i + b" using h by blast
    then show ?thesis by simp
  qed
  then have "Max (vectors ws) = 32 * i + b" using mem by (intro Max_eqI) auto
  with Some r h mem show ?thesis by auto
qed

lemma vectors_bound: "length ws = 8 \<Longrightarrow> v \<in> vectors ws \<Longrightarrow> v < 256"
  by (auto simp: vectors_def div_less_iff_less_mult)

lemma unat_vector: "v < 256 \<Longrightarrow> unat (of_nat v :: u8) = v"
  by (rule unat_of_nat_len) simp

lemma highest_vector_max:
  assumes "length ws = 8"
  shows "highest_vector ws = (if vectors ws = {} then None else Some (of_nat (Max (vectors ws))))"
proof -
  have "of_nat (Max (vectors ws) div 32 * 32) + of_nat (Max (vectors ws) mod 32) = (of_nat (Max (vectors ws)) :: u8)"
    unfolding of_nat_add [symmetric] by simp
  then show ?thesis by (simp add: highest_vector_def highest_bit_vectors [OF assms])
qed

text \<open>The priority class of a vector.\<close>

definition prio_class :: "nat \<Rightarrow> nat" where
  "prio_class v = v div 16"

lemma prio_class_mono: "u \<le> v \<Longrightarrow> prio_class u \<le> prio_class v"
  by (simp add: prio_class_def div_le_mono)

lemma unat_class [simp]: "v < 256 \<Longrightarrow> unat (drop_bit 4 (of_nat v :: u8)) = prio_class v"
  using unat_vector [of v] by (simp add: drop_bit_eq_div unat_div prio_class_def)

definition lapic_ok :: "local_apic_state \<Rightarrow> bool" where
  "lapic_ok s \<longleftrightarrow> length (irr s) = 8 \<and> length (isr s) = 8"

abbreviation requested :: "local_apic_state \<Rightarrow> nat set" where
  "requested s \<equiv> vectors (irr s)"

abbreviation in_progress :: "local_apic_state \<Rightarrow> nat set" where
  "in_progress s \<equiv> vectors (isr s)"

text \<open>A vector may be delivered when its class exceeds the processor's and that of everything in progress.\<close>

definition deliverable :: "nat \<Rightarrow> local_apic_state \<Rightarrow> nat \<Rightarrow> bool" where
  "deliverable prio s v \<longleftrightarrow> prio < prio_class v \<and> (\<forall>j \<in> in_progress s. prio_class j < prio_class v)"

lemma isr_priority_class:
  assumes "lapic_ok s" "0 < prio_class v"
  shows "unat (isr_priority s) < prio_class v \<longleftrightarrow> (\<forall>j \<in> in_progress s. prio_class j < prio_class v)"
proof (cases "in_progress s = {}")
  case True
  then show ?thesis using assms by (simp add: isr_priority_def highest_vector_max lapic_ok_def)
next
  case False
  then have m: "Max (in_progress s) \<in> in_progress s" "\<forall>j \<in> in_progress s. j \<le> Max (in_progress s)" by simp_all
  then have "unat (isr_priority s) = prio_class (Max (in_progress s))"
    using False assms(1) vectors_bound [of "isr s"] by (simp add: isr_priority_def highest_vector_max lapic_ok_def)
  then show ?thesis using m prio_class_mono by (metis le_less_trans)
qed

lemma find_highest_spec:
  assumes "lapic_ok s"
  shows "find_highest_pending_lapic_irq s prio (isr_priority s) =
    (if requested s \<noteq> {} \<and> deliverable (unat prio) s (Max (requested s)) then Some (of_nat (Max (requested s))) else None)"
proof (cases "requested s = {}")
  case True
  then show ?thesis using assms by (simp add: find_highest_pending_lapic_irq_def highest_vector_max lapic_ok_def)
next
  case False
  then have "Max (requested s) \<in> requested s" by simp
  then have "Max (requested s) < 256" using assms vectors_bound [of "irr s"] by (simp add: lapic_ok_def)
  then have "prio < drop_bit 4 (of_nat (Max (requested s))) \<longleftrightarrow> unat prio < prio_class (Max (requested s))"
    "isr_priority s < drop_bit 4 (of_nat (Max (requested s))) \<longleftrightarrow> unat (isr_priority s) < prio_class (Max (requested s))"
    by (simp_all add: word_less_nat_alt)
  then show ?thesis
    using False assms isr_priority_class [OF assms, of "Max (requested s)"]
    by (auto simp: find_highest_pending_lapic_irq_def highest_vector_max lapic_ok_def deliverable_def Let_def)
qed

lemma request_vector_sets:
  assumes "lapic_ok s" "v < 256"
  shows "lapic_ok (request_vector v s)" "requested (request_vector v s) = insert v (requested s)"
    "in_progress (request_vector v s) = (if v \<in> in_progress s \<and> v \<notin> requested s then in_progress s - {v} else in_progress s)"
proof -
  have v: "v div 32 < 8" using assms(2) by (simp add: div_less_iff_less_mult)
  have b: "(w AND push_bit (v mod 32) 1 = 0) = (\<not> bit w (v mod 32))" for w :: u32
    by (metis and_exp_eq_0_iff_not_bit push_bit_of_1)
  show "lapic_ok (request_vector v s)" using assms by (simp add: lapic_ok_def request_vector_def Let_def)
  show "requested (request_vector v s) = insert v (requested s)"
    using assms v vectors_set [of v "irr s"] by (simp add: lapic_ok_def request_vector_def Let_def)
  show "in_progress (request_vector v s) = (if v \<in> in_progress s \<and> v \<notin> requested s then in_progress s - {v} else in_progress s)"
    using assms v vectors_clear [of v "isr s"] unfolding request_vector_def Let_def b
    by (auto simp: lapic_ok_def vectors_def)
qed

lemma commit_vector_sets:
  assumes "lapic_ok s"
  shows "lapic_ok (commit_vector v s)" "requested (commit_vector v s) = requested s - {unat v}"
    "in_progress (commit_vector v s) = insert (unat v) (in_progress s)"
proof -
  have "unat v < 256" using unsigned_less [of v, where ?'a = nat] by simp
  then have v: "unat v div 32 < 8" by (simp add: div_less_iff_less_mult)
  have eq: "unat (v div 32) = unat v div 32" "unat (v mod 32) = unat v mod 32" by (simp_all add: unat_div unat_mod)
  show "lapic_ok (commit_vector v s)" using assms by (simp add: lapic_ok_def commit_vector_def Let_def)
  show "requested (commit_vector v s) = requested s - {unat v}"
    using assms v vectors_clear [of "unat v" "irr s"] by (simp add: lapic_ok_def commit_vector_def Let_def eq)
  show "in_progress (commit_vector v s) = insert (unat v) (in_progress s)"
    using assms v vectors_set [of "unat v" "isr s"] by (simp add: lapic_ok_def commit_vector_def Let_def eq)
qed

lemma clear_highest_sets:
  assumes "length ws = 8"
  shows "length (clear_highest ws) = 8" "vectors (clear_highest ws) = vectors ws - {Max (vectors ws)}"
proof -
  show "length (clear_highest ws) = 8" using assms by (auto simp: clear_highest_def split: option.split)
  show "vectors (clear_highest ws) = vectors ws - {Max (vectors ws)}"
  proof (cases "vectors ws = {}")
    case True
    then show ?thesis using assms by (simp add: clear_highest_def highest_bit_vectors)
  next
    case False
    then have "Max (vectors ws) \<in> vectors ws" by simp
    then show ?thesis using False assms vectors_clear [of "Max (vectors ws)" ws]
      by (auto simp: clear_highest_def highest_bit_vectors vectors_def)
  qed
qed

lemma lapic_eoi_sets:
  assumes "lapic_eoi s p = Some (s', p')" "lapic_ok s"
  shows "lapic_ok s'" "in_progress s' = in_progress s - {Max (in_progress s)}" "irr s' = irr s"
proof -
  have "s' = s\<lparr>isr := clear_highest (isr s)\<rparr>"
    using assms(1) by (auto simp: lapic_eoi_def Let_def split: if_splits)
  then show "lapic_ok s'" "in_progress s' = in_progress s - {Max (in_progress s)}" "irr s' = irr s"
    using clear_highest_sets [of "isr s"] assms(2) by (simp_all add: lapic_ok_def)
qed

lemma write_register_bitmaps:
  "write_register c t off v s = Some s' \<Longrightarrow> irr s' = irr s \<and> isr s' = isr s \<and> base_address s' = base_address s"
  by (auto simp: write_register_def write_lvt_timer_def Let_def split: if_splits)

lemma map_of_put [simp]: "map_of (state (put_state c s d)) k = (if k = c then Some s else map_of (state d) k)"
  by (simp add: put_state_def update_conv')

lemma set_irq_state:
  assumes "map_of (state d) c = Some s"
  shows "map_of (state (set_irq a v d)) c =
    Some (if resolve_destination d a = Some c \<and> 16 \<le> v then request_vector v s else s)"
  using assms by (auto simp: set_irq_def split: option.split)

section \<open>Nesting\<close>

text \<open>The device together with the stack of vectors one processor has taken from its local APIC and not ended, innermost
  first. Anyone requests vectors of any processor, except that no vector is requested again while it is in progress here; the
  processor takes what arbitration offers, programs its registers, and ends the innermost interrupt.\<close>

inductive lapic_serving :: "nat \<Rightarrow> local_apic_device \<Rightarrow> nat list \<Rightarrow> bool" for cpu :: nat where
  idle: "map_of (state d) cpu = Some s \<Longrightarrow> lapic_ok s \<Longrightarrow> in_progress s = {} \<Longrightarrow> lapic_serving cpu d []"
| request: "lapic_serving cpu d st \<Longrightarrow> v < 256 \<Longrightarrow> resolve_destination d apic_id \<noteq> Some cpu \<or> v \<notin> set st \<Longrightarrow>
    lapic_serving cpu (set_irq apic_id v d) st"
| taken: "lapic_serving cpu d st \<Longrightarrow> get_pending_interrupt d cpu p guest_tpr = Some (Some (Lapic v)) \<Longrightarrow>
    commit_delivered_interrupt (Lapic v) p cpu d = Some (d', p', r) \<Longrightarrow> lapic_serving cpu d' (unat v # st)"
| written: "lapic_serving cpu d st \<Longrightarrow> map_of (state d) cpu = Some s \<Longrightarrow> addr - base_address s \<notin> {0xB0, 0x300} \<Longrightarrow>
    lapic_mmio_write t cpu addr val d p = Some (d', p') \<Longrightarrow> lapic_serving cpu d' st"
| ended: "lapic_serving cpu d (v # st) \<Longrightarrow> map_of (state d) cpu = Some s \<Longrightarrow> addr - base_address s = 0xB0 \<Longrightarrow>
    lapic_mmio_write t cpu addr val d p = Some (d', p') \<Longrightarrow> lapic_serving cpu d' st"

definition class_sorted :: "nat list \<Rightarrow> bool" where
  "class_sorted st \<longleftrightarrow> sorted_wrt (\<lambda>u v. prio_class v < prio_class u) st"

lemma class_sorted_top: "class_sorted (v # st) \<Longrightarrow> Max (set (v # st)) = v \<and> v \<notin> set st"
proof -
  assume *: "class_sorted (v # st)"
  then have lt: "u < v" if "u \<in> set st" for u using that prio_class_mono [of v u] by (fastforce simp: class_sorted_def)
  have "Max (set (v # st)) = v" by (rule Max_eqI) (auto dest: lt)
  then show ?thesis using lt by blast
qed

lemma pending_lapic:
  assumes "get_pending_interrupt d cpu p guest_tpr = Some (Some (Lapic v))" "map_of (state d) cpu = Some s" "lapic_ok s"
  shows "unat v \<in> requested s \<and> (\<forall>j \<in> in_progress s. prio_class j < prio_class (unat v))"
proof -
  obtain prio where "find_highest_pending_lapic_irq s prio (isr_priority s) = Some v"
    using assms(1,2) by (auto simp: get_pending_interrupt_def lint0_interrupt_def Let_def split: option.splits if_splits)
  then have v: "requested s \<noteq> {}" "deliverable (unat prio) s (Max (requested s))" "v = of_nat (Max (requested s))"
    unfolding find_highest_spec [OF assms(3)] by (auto split: if_splits)
  then have m: "Max (requested s) \<in> requested s" by simp
  then have "unat v = Max (requested s)"
    using vectors_bound [of "irr s"] assms(3) unat_vector v(3) by (simp add: lapic_ok_def)
  then show ?thesis using m v(2) by (simp add: deliverable_def)
qed

lemma written_bitmaps:
  assumes "map_of (state d) c = Some s" "addr - base_address s \<notin> {0xB0, 0x300}" "lapic_mmio_write t c addr v d p = Some (d', p')"
  shows "\<exists>s'. map_of (state d') c = Some s' \<and> irr s' = irr s \<and> isr s' = isr s"
  using assms write_register_bitmaps by (auto simp: lapic_mmio_write_def Let_def)

lemma ended_bitmaps:
  assumes "map_of (state d) c = Some s" "addr - base_address s = 0xB0" "lapic_mmio_write t c addr v d p = Some (d', p')" "lapic_ok s"
  shows "\<exists>s'. map_of (state d') c = Some s' \<and> lapic_ok s' \<and> in_progress s' = in_progress s - {Max (in_progress s)} \<and> irr s' = irr s"
proof -
  obtain s' p1 where s': "lapic_eoi s p = Some (s', p1)" "d' = put_state c s' d"
    using assms(1-3) by (auto simp: lapic_mmio_write_def)
  then show ?thesis using lapic_eoi_sets [OF s'(1) assms(4)] by auto
qed

lemma lapic_serving_inv:
  "lapic_serving cpu d st \<Longrightarrow> \<exists>s. map_of (state d) cpu = Some s \<and> lapic_ok s \<and> in_progress s = set st \<and> class_sorted st"
proof (induction rule: lapic_serving.induct)
  case (idle d s)
  then show ?case by (simp add: class_sorted_def)
next
  case (request d st v apic_id)
  then obtain s where s: "map_of (state d) cpu = Some s" "lapic_ok s" "in_progress s = set st" "class_sorted st" by blast
  show ?case
    using s request.hyps(2,3) request_vector_sets [OF s(2) request.hyps(2)] by (auto simp: set_irq_state [OF s(1)])
next
  case (taken d st p tpr v d' p' r)
  then obtain s where s: "map_of (state d) cpu = Some s" "lapic_ok s" "in_progress s = set st" "class_sorted st" by blast
  note v = pending_lapic [OF taken.hyps(2) s(1,2)]
  have "d' = put_state cpu (commit_vector v s) d" using taken.hyps(3) s(1) by (auto simp: commit_interrupt_def)
  with v s commit_vector_sets [OF s(2), of v] show ?case by (auto simp: class_sorted_def)
next
  case (written d st s addr t val p d' p')
  then obtain s1 where s: "map_of (state d) cpu = Some s1" "lapic_ok s1" "in_progress s1 = set st" "class_sorted st" by blast
  with written.hyps(2) have "s1 = s" by simp
  with s written_bitmaps [OF written.hyps(2-4)] show ?case by (auto simp: lapic_ok_def)
next
  case (ended d v st s addr t val p d' p')
  then obtain s1 where s: "map_of (state d) cpu = Some s1" "lapic_ok s1" "in_progress s1 = set (v # st)" "class_sorted (v # st)"
    by blast
  with ended.hyps(2) have s1: "s1 = s" by simp
  obtain s' where s': "map_of (state d') cpu = Some s'" "lapic_ok s'" "in_progress s' = set (v # st) - {v}"
    using ended_bitmaps [OF ended.hyps(2-4)] s class_sorted_top [OF s(4)] unfolding s1 by force
  moreover have "set (v # st) - {v} = set st" using class_sorted_top [OF s(4)] by auto
  moreover have "class_sorted st" using s(4) by (simp add: class_sorted_def)
  ultimately show ?case by auto
qed

text \<open>C14: interrupts taken from a local APIC nest by priority class. As long as no vector is requested again while it is in
  progress, whatever else is requested of any processor and however the guest programs its registers, the in-service bitmap of
  a processor is exactly the stack of vectors taken and not ended, their classes strictly rise towards the innermost one, and
  an end-of-interrupt write leaves the stack below it. With \<open>LINT0\<close> masked, arbitration offers the highest requested vector,
  and it does so precisely when its class exceeds the task priority and every vector on the stack.\<close>

theorem lapic_nesting:
  assumes "lapic_serving cpu d st"
  shows "\<exists>s. map_of (state d) cpu = Some s \<and> in_progress s = set st \<and> sorted_wrt (\<lambda>u v. prio_class v < prio_class u) st \<and>
    (lvt_lint0 s AND LVT_MASKED = 0 \<or>
       get_pending_interrupt d cpu p guest_tpr =
         Some (let v = Max (requested s) in
           if requested s \<noteq> {} \<and> list_all (\<lambda>u. prio_class u < prio_class v) st \<and>
              unat (ucast (drop_bit 4 (max (tpr s) guest_tpr)) :: u8) < prio_class v
           then Some (Lapic (of_nat v)) else None))"
proof -
  obtain s where s: "map_of (state d) cpu = Some s" "lapic_ok s" "in_progress s = set st" "class_sorted st"
    using lapic_serving_inv [OF assms] by blast
  then show ?thesis
    by (auto simp: get_pending_interrupt_def lint0_interrupt_def find_highest_spec deliverable_def class_sorted_def Let_def
        list_all_iff)
qed

lemma request_offered:
  assumes "map_of (state d) cpu = Some s" "lapic_ok s" "resolve_destination d apic_id = Some cpu" "16 \<le> v" "v < 256"
    "lvt_lint0 s AND LVT_MASKED \<noteq> 0" "\<forall>u \<in> requested s. u \<le> v"
    "deliverable (unat (ucast (drop_bit 4 (max (tpr s) guest_tpr)) :: u8)) (request_vector v s) v"
  shows "get_pending_interrupt (set_irq apic_id v d) cpu p guest_tpr = Some (Some (Lapic (of_nat v)))"
proof -
  let ?s = "request_vector v s"
  have r: "map_of (state (set_irq apic_id v d)) cpu = Some ?s" using set_irq_state [OF assms(1)] assms(3,4) by simp
  have sets: "lapic_ok ?s" "requested ?s = insert v (requested s)" using request_vector_sets [OF assms(2,5)] by auto
  have fields: "lvt_lint0 ?s = lvt_lint0 s" "tpr ?s = tpr s" by (simp_all add: request_vector_def Let_def)
  have m: "Max (insert v (requested s)) = v" using assms(7) by (intro Max_eqI) auto
  show ?thesis
    using r assms(6,8) sets(2)
    by (simp add: get_pending_interrupt_def lint0_interrupt_def find_highest_spec [OF sets(1)] m fields Let_def)
qed

lemma take_and_end:
  assumes "map_of (state d) cpu = Some s" "lapic_ok s" "v < 256" "lvt_lint0 s AND LVT_MASKED \<noteq> 0"
    "\<forall>u \<in> in_progress s. prio_class u < prio_class v"
  shows "\<exists>d2 d3 s3. commit_delivered_interrupt (Lapic (of_nat v)) p cpu d = Some (d2, p, Some (of_nat v)) \<and>
    lapic_mmio_write t cpu (base_address s + 0xB0) 0 d2 p = Some (d3, p) \<and> map_of (state d3) cpu = Some s3 \<and>
    requested s3 = requested s - {v} \<and> in_progress s3 = in_progress s"
proof -
  let ?s2 = "commit_vector (of_nat v) s"
  let ?d2 = "put_state cpu ?s2 d" and ?s3 = "?s2\<lparr>isr := clear_highest (isr ?s2)\<rparr>"
  have sets: "lapic_ok ?s2" "requested ?s2 = requested s - {v}" "in_progress ?s2 = insert v (in_progress s)"
    using commit_vector_sets [OF assms(2), of "of_nat v"] unat_vector [OF assms(3)] by auto
  have f: "lvt_lint0 ?s2 = lvt_lint0 s" "base_address ?s2 = base_address s" by (simp_all add: commit_vector_def Let_def)
  have eoi: "lapic_eoi ?s2 p = Some (?s3, p)" using assms(4) f by (simp add: lapic_eoi_def Let_def)
  have lt: "u < v" if "u \<in> in_progress s" for u using that assms(5) prio_class_mono [of v u] by (fastforce simp: not_le [symmetric])
  have "Max (in_progress ?s2) = v" unfolding sets(3) by (rule Max_eqI) (auto dest: lt)
  then have s3: "in_progress ?s3 = in_progress s" "requested ?s3 = requested s - {v}"
    using lapic_eoi_sets [OF eoi sets(1)] sets(2,3) lt by auto
  have "commit_delivered_interrupt (Lapic (of_nat v)) p cpu d = Some (?d2, p, Some (of_nat v))"
    using assms(1) by (simp add: commit_interrupt_def)
  moreover have "lapic_mmio_write t cpu (base_address s + 0xB0) 0 ?d2 p = Some (put_state cpu ?s3 ?d2, p)"
    using eoi f by (simp add: lapic_mmio_write_def)
  moreover have "map_of (state (put_state cpu ?s3 ?d2)) cpu = Some ?s3" by simp
  ultimately show ?thesis using s3 by blast
qed

definition example_lapic :: "u32 list \<Rightarrow> u32 list \<Rightarrow> local_apic_device" where
  "example_lapic req srv =
     \<lparr>state = [(0, (local_apic_reset 0)\<lparr>lvt_lint0 := 0x10000, irr := req, isr := srv\<rparr>)],
      guest_clock = guest_clock_new 1 0 1 1 False, apic_map = [(0, 0)]\<rparr>"

lemma example_lapic_taken: "lapic_serving 0 (example_lapic (replicate 8 0) [0, 0x20000, 0, 0, 0, 0, 0, 0]) [49]"
proof -
  have i: "map_of (state (example_lapic (replicate 8 0) (replicate 8 0))) 0 =
      Some ((local_apic_reset 0)\<lparr>lvt_lint0 := 0x10000, irr := replicate 8 0, isr := replicate 8 0\<rparr>)"
    by (simp add: example_lapic_def)
  have s: "set_irq 0 49 (example_lapic (replicate 8 0) (replicate 8 0)) = example_lapic [0, 0x20000, 0, 0, 0, 0, 0, 0] (replicate 8 0)"
    "get_pending_interrupt (example_lapic [0, 0x20000, 0, 0, 0, 0, 0, 0] (replicate 8 0)) 0 pic_new 0 = Some (Some (Lapic 49))"
    "commit_delivered_interrupt (Lapic 49) pic_new 0 (example_lapic [0, 0x20000, 0, 0, 0, 0, 0, 0] (replicate 8 0)) =
       Some (example_lapic (replicate 8 0) [0, 0x20000, 0, 0, 0, 0, 0, 0], pic_new, Some 49)" by code_simp+
  have "lapic_serving 0 (example_lapic [0, 0x20000, 0, 0, 0, 0, 0, 0] (replicate 8 0)) []"
    unfolding s(1) [symmetric]
    by (rule lapic_serving.request [OF lapic_serving.idle [OF i]]) (simp_all add: lapic_ok_def del: replicate.simps)
  from lapic_serving.taken [OF this s(2,3)] show ?thesis by simp
qed

theorem lapic_nesting_witness:
  "\<exists>s. map_of (state (example_lapic (replicate 8 0) [0, 0x20000, 0, 0, 0, 0, 0, 0])) 0 = Some s \<and> in_progress s = {49}"
proof -
  from lapic_nesting [OF example_lapic_taken, where p = pic_new and guest_tpr = 0] obtain s
    where "map_of (state (example_lapic (replicate 8 0) [0, 0x20000, 0, 0, 0, 0, 0, 0])) 0 = Some s" "in_progress s = set [49]"
    by blast
  then show ?thesis by auto
qed

text \<open>C32: a vector that is requested again while its handler runs is delivered into that handler. \<open>set_irq\<close> takes an
  in-service vector that is not requested for one whose end of interrupt was lost and clears its in-service bit, so when
  nothing of a higher class stands in the way arbitration offers the same vector once more before the guest has ended it.\<close>

theorem lapic_reentry:
  assumes "map_of (state d) cpu = Some s" "lapic_ok s" "resolve_destination d apic_id = Some cpu"
    "v \<in> in_progress s" "16 \<le> v" "\<forall>u \<in> requested s. u < v" "\<forall>u \<in> in_progress s. u = v \<or> prio_class u < prio_class v"
    "lvt_lint0 s AND LVT_MASKED \<noteq> 0" "unat (ucast (drop_bit 4 (max (tpr s) guest_tpr)) :: u8) < prio_class v"
  shows "get_pending_interrupt (set_irq apic_id v d) cpu p guest_tpr = Some (Some (Lapic (of_nat v)))"
proof -
  have v: "v < 256" "v \<notin> requested s" using assms(2,4,6) vectors_bound [of "isr s"] by (auto simp: lapic_ok_def)
  have "in_progress (request_vector v s) = in_progress s - {v}"
    using request_vector_sets [OF assms(2) v(1)] v(2) assms(4) by auto
  then have "deliverable (unat (ucast (drop_bit 4 (max (tpr s) guest_tpr)) :: u8)) (request_vector v s) v"
    using assms(7,9) by (auto simp: deliverable_def)
  then show ?thesis using assms(6) by (intro request_offered [OF assms(1-3,5) v(1) assms(8)]) auto
qed

theorem lapic_reentry_witness:
  "get_pending_interrupt (set_irq 0 49 (example_lapic (replicate 8 0) [0, 0x20000, 0, 0, 0, 0, 0, 0])) 0 pic_new 0 =
     Some (Some (Lapic 49))"
proof -
  let ?s = "(local_apic_reset 0)\<lparr>lvt_lint0 := 0x10000, irr := replicate 8 0, isr := [0, 0x20000, 0, 0, 0, 0, 0, 0]\<rparr>"
  have s: "map_of (state (example_lapic (replicate 8 0) [0, 0x20000, 0, 0, 0, 0, 0, 0])) 0 = Some ?s"
    by (simp add: example_lapic_def)
  have "resolve_destination (example_lapic (replicate 8 0) [0, 0x20000, 0, 0, 0, 0, 0, 0]) 0 = Some 0"
    by (simp add: resolve_destination_def example_lapic_def)
  moreover have "in_progress ?s = {49}" using lapic_serving_inv [OF example_lapic_taken] s by auto
  ultimately show ?thesis
    using lapic_reentry [OF s, of 0 49 0 pic_new]
    by (simp add: lapic_ok_def LVT_MASKED_def local_apic_reset_def prio_class_def del: replicate.simps)
qed

end
