(* ===== verification/Dev_Io_Apic.thy ===== *)
theory Dev_Io_Apic
  imports Dev_Lapic
begin

text \<open>
  The emulated I/O APIC (\<^verbatim>\<open>device/interrupt/io_apic.rs\<close> of the Reindeer hypervisor): the redirection table, the two
  memory-mapped registers that select and access it, and the pin operation devices call, which hands the programmed vector to
  the local APICs. The local APIC device that the I/O APIC points to is an argument and a result. \<open>None\<close> is a panic.
\<close>

record apic_redirection_entry =
  lower :: u32
  upper :: u32

definition is_masked :: "apic_redirection_entry \<Rightarrow> bool" where
  "is_masked e \<longleftrightarrow> lower e AND push_bit 16 1 \<noteq> 0"

definition entry_vector :: "apic_redirection_entry \<Rightarrow> u8" where
  "entry_vector e = ucast (lower e AND 0xFF)"

definition delivery_mode :: "apic_redirection_entry \<Rightarrow> u8" where
  "delivery_mode e = ucast (drop_bit 8 (lower e) AND 0x7)"

definition destination_id :: "apic_redirection_entry \<Rightarrow> u8" where
  "destination_id e = ucast (drop_bit 24 (upper e))"

definition destination_mode :: "apic_redirection_entry \<Rightarrow> bool" where
  "destination_mode e \<longleftrightarrow> lower e AND push_bit 11 1 \<noteq> 0"

record io_apic =
  selected_register :: u32
  io_apic_id :: u32
  redirection_table :: "apic_redirection_entry list"
  arb_reg :: u32

definition io_apic_new :: "u32 \<Rightarrow> io_apic" where
  "io_apic_new i =
     \<lparr>selected_register = 0, io_apic_id = i, redirection_table = replicate 24 \<lparr>lower = push_bit 16 1, upper = 0\<rparr>, arb_reg = 0\<rparr>"

definition is_pin_masked :: "nat \<Rightarrow> io_apic \<Rightarrow> bool" where
  "is_pin_masked pin a \<longleftrightarrow>
     length (redirection_table a) \<le> pin \<or>
     (let entry = redirection_table a ! pin in is_masked entry \<or> entry_vector entry < 16)"

definition write_selected_register :: "u32 \<Rightarrow> io_apic \<Rightarrow> io_apic option" where
  "write_selected_register val a =
     (let reg = selected_register a
      in if reg = 0x00 then Some (a\<lparr>io_apic_id := drop_bit 24 val AND 0x0F\<rparr>)
         else if reg = 0x01 then Some a
         else if reg = 0x02 then Some (a\<lparr>arb_reg := val\<rparr>)
         else if 0x10 \<le> reg \<and> reg \<le> 0x3F then
           let index = unat ((reg - 0x10) div 2); is_high = ((reg - 0x10) mod 2 \<noteq> 0); table = redirection_table a
           in if index < length table
              then Some (a\<lparr>redirection_table :=
                table[index := if is_high then (table ! index)\<lparr>upper := val\<rparr> else (table ! index)\<lparr>lower := val\<rparr>]\<rparr>)
              else Some a
         else None)"

definition read_selected_register :: "io_apic \<Rightarrow> u32 option" where
  "read_selected_register a =
     (let reg = selected_register a
      in if reg = 0x00 then Some (push_bit 24 (io_apic_id a AND 0x0F))
         else if reg = 0x01 then Some (push_bit 16 23 OR 0x11)
         else if reg = 0x02 then Some (arb_reg a)
         else if 0x10 \<le> reg \<and> reg \<le> 0x3F then
           let index = unat ((reg - 0x10) div 2); is_high = ((reg - 0x10) mod 2 \<noteq> 0); table = redirection_table a
           in Some (if index < length table then (if is_high then upper (table ! index) else lower (table ! index)) else 0)
         else None)"

definition io_apic_set_irq :: "nat \<Rightarrow> bool \<Rightarrow> io_apic \<Rightarrow> local_apic_device \<Rightarrow> local_apic_device" where
  "io_apic_set_irq pin level a lapics =
     (if length (redirection_table a) \<le> pin then lapics
      else let entry = redirection_table a ! pin
           in if \<not> level then lapics
              else if is_masked entry then lapics
              else let vector = entry_vector entry
                   in if vector < 16 then lapics
                      else let mode = delivery_mode entry
                           in if mode \<noteq> 0 \<and> mode \<noteq> 1 then lapics
                              else set_irq (unat (destination_id entry)) (unat vector) lapics)"

definition io_apic_mmio_write :: "u64 \<Rightarrow> u64 \<Rightarrow> io_apic \<Rightarrow> io_apic option" where
  "io_apic_mmio_write addr val a =
     (let offset = addr AND 0xFF
      in if offset = 0x00 then Some (a\<lparr>selected_register := ucast val\<rparr>)
         else if offset = 0x10 then write_selected_register (ucast val) a
         else None)"

definition io_apic_mmio_read :: "u64 \<Rightarrow> io_apic \<Rightarrow> u64 option" where
  "io_apic_mmio_read addr a =
     (let offset = addr AND 0xFF
      in if offset = 0x00 then Some (ucast (selected_register a))
         else if offset = 0x10 then map_option ucast (read_selected_register a)
         else None)"

section \<open>Programming a pin\<close>

text \<open>The four accesses by which a guest driver programs a redirection entry.\<close>

definition program_pin :: "nat \<Rightarrow> u32 \<Rightarrow> u32 \<Rightarrow> io_apic \<Rightarrow> io_apic option" where
  "program_pin pin low high a =
     Option.bind (io_apic_mmio_write 0xFEC00000 (of_nat (0x11 + 2 * pin)) a) (\<lambda>a1.
     Option.bind (io_apic_mmio_write 0xFEC00010 (ucast high) a1) (\<lambda>a2.
     Option.bind (io_apic_mmio_write 0xFEC00000 (of_nat (0x10 + 2 * pin)) a2) (\<lambda>a3.
     io_apic_mmio_write 0xFEC00010 (ucast low) a3)))"

lemma register_index:
  assumes "pin < 24"
  shows "unat ((of_nat (0x10 + 2 * pin) - 0x10 :: u32) div 2) = pin" "(of_nat (0x10 + 2 * pin) - 0x10 :: u32) mod 2 = 0"
    "unat ((of_nat (0x11 + 2 * pin) - 0x10 :: u32) div 2) = pin" "(of_nat (0x11 + 2 * pin) - 0x10 :: u32) mod 2 \<noteq> 0"
    "0x10 \<le> (of_nat (0x10 + 2 * pin) :: u32)" "(of_nat (0x10 + 2 * pin) :: u32) \<le> 0x3F"
    "0x10 \<le> (of_nat (0x11 + 2 * pin) :: u32)" "(of_nat (0x11 + 2 * pin) :: u32) \<le> 0x3F"
proof -
  have e: "(of_nat (0x10 + 2 * pin) - 0x10 :: u32) = of_nat (2 * pin)" "(of_nat (0x11 + 2 * pin) - 0x10 :: u32) = of_nat (2 * pin + 1)"
    by simp_all
  have u: "unat (of_nat (2 * pin) :: u32) = 2 * pin" "unat (of_nat (2 * pin + 1) :: u32) = 2 * pin + 1"
    "unat (of_nat (0x10 + 2 * pin) :: u32) = 0x10 + 2 * pin" "unat (of_nat (0x11 + 2 * pin) :: u32) = 0x11 + 2 * pin"
    by (rule unat_of_nat_len; use assms in simp)+
  show "unat ((of_nat (0x10 + 2 * pin) - 0x10 :: u32) div 2) = pin" "unat ((of_nat (0x11 + 2 * pin) - 0x10 :: u32) div 2) = pin"
    unfolding e using u by (simp_all add: unat_div)
  show "(of_nat (0x10 + 2 * pin) - 0x10 :: u32) mod 2 = 0" "(of_nat (0x11 + 2 * pin) - 0x10 :: u32) mod 2 \<noteq> 0"
    unfolding e using u by (simp_all add: word_unat_eq_iff unat_mod)
  show "0x10 \<le> (of_nat (0x10 + 2 * pin) :: u32)" "(of_nat (0x10 + 2 * pin) :: u32) \<le> 0x3F"
    "0x10 \<le> (of_nat (0x11 + 2 * pin) :: u32)" "(of_nat (0x11 + 2 * pin) :: u32) \<le> 0x3F"
    using u assms by (simp_all add: word_le_nat_alt)
qed

lemma write_entry:
  assumes "pin < 24" "length (redirection_table a) = 24"
  shows "write_selected_register val (a\<lparr>selected_register := of_nat (0x10 + 2 * pin)\<rparr>) =
      Some (a\<lparr>selected_register := of_nat (0x10 + 2 * pin),
        redirection_table := (redirection_table a)[pin := (redirection_table a ! pin)\<lparr>lower := val\<rparr>]\<rparr>)"
    "write_selected_register val (a\<lparr>selected_register := of_nat (0x11 + 2 * pin)\<rparr>) =
      Some (a\<lparr>selected_register := of_nat (0x11 + 2 * pin),
        redirection_table := (redirection_table a)[pin := (redirection_table a ! pin)\<lparr>upper := val\<rparr>]\<rparr>)"
proof -
  have ne: "reg \<noteq> 0 \<and> reg \<noteq> 1 \<and> reg \<noteq> 2" if "0x10 \<le> reg" for reg :: u32
    using that by (auto simp: word_le_nat_alt)
  show "write_selected_register val (a\<lparr>selected_register := of_nat (0x10 + 2 * pin)\<rparr>) =
      Some (a\<lparr>selected_register := of_nat (0x10 + 2 * pin),
        redirection_table := (redirection_table a)[pin := (redirection_table a ! pin)\<lparr>lower := val\<rparr>]\<rparr>)"
    using register_index(1,2,5,6) [OF assms(1)] ne [OF register_index(5) [OF assms(1)]] assms
    by (simp add: write_selected_register_def Let_def del: of_nat_add of_nat_mult of_nat_numeral)
  show "write_selected_register val (a\<lparr>selected_register := of_nat (0x11 + 2 * pin)\<rparr>) =
      Some (a\<lparr>selected_register := of_nat (0x11 + 2 * pin),
        redirection_table := (redirection_table a)[pin := (redirection_table a ! pin)\<lparr>upper := val\<rparr>]\<rparr>)"
    using register_index(3,4,7,8) [OF assms(1)] ne [OF register_index(7) [OF assms(1)]] assms
    by (simp add: write_selected_register_def Let_def del: of_nat_add of_nat_mult of_nat_numeral)
qed

lemma ucast_register: "n < 2 ^ 32 \<Longrightarrow> (ucast (of_nat n :: u64) :: u32) = of_nat n"
  by (simp add: word_unat_eq_iff unsigned_ucast_eq unat_of_nat take_bit_nat_eq_self)

lemma ucast_u64_u32 [simp]: "(ucast (ucast (x :: u32) :: u64) :: u32) = x"
  by (rule bit_word_eqI) (auto simp: bit_unsigned_iff possible_bit_def)

lemma program_pin_entry:
  assumes "pin < 24" "length (redirection_table a) = 24"
  shows "\<exists>a'. program_pin pin low high a = Some a' \<and> length (redirection_table a') = 24 \<and>
    redirection_table a' ! pin = \<lparr>lower = low, upper = high\<rparr>"
proof -
  have sel: "io_apic_mmio_write 0xFEC00000 (of_nat n) b = Some (b\<lparr>selected_register := of_nat n\<rparr>)" if "n < 2 ^ 32" for n b
    using ucast_register [OF that] by (simp add: io_apic_mmio_write_def)
  have win: "io_apic_mmio_write 0xFEC00010 (ucast (x :: u32)) b = write_selected_register x b" for x b
    by (simp add: io_apic_mmio_write_def)
  have n: "0x11 + 2 * pin < 2 ^ 32" "0x10 + 2 * pin < 2 ^ 32" using assms(1) by simp_all
  define b where "b = a\<lparr>selected_register := of_nat (0x11 + 2 * pin),
    redirection_table := (redirection_table a)[pin := (redirection_table a ! pin)\<lparr>upper := high\<rparr>]\<rparr>"
  have b: "length (redirection_table b) = 24" "redirection_table b ! pin = (redirection_table a ! pin)\<lparr>upper := high\<rparr>"
    using assms by (simp_all add: b_def)
  have "program_pin pin low high a = Some (b\<lparr>selected_register := of_nat (0x10 + 2 * pin),
      redirection_table := (redirection_table b)[pin := (redirection_table b ! pin)\<lparr>lower := low\<rparr>]\<rparr>)"
    unfolding program_pin_def sel [OF n(1)] bind.simps win write_entry(2) [OF assms] b_def [symmetric] sel [OF n(2)]
      write_entry(1) [OF assms(1) b(1)] by (rule refl)
  with b assms(1) show ?thesis by simp
qed

text \<open>C15: a device interrupt makes the whole trip. When the guest has programmed a pin with a valid vector, fixed delivery and
  the identifier of a processor whose \<open>LINT0\<close> is masked, raising the pin makes that processor's arbitration offer the vector,
  provided it outranks what is requested, in progress and the task priority; delivering it moves it into service, and the
  end-of-interrupt write leaves requests and interrupts in progress as they were before the pin was raised.\<close>

theorem pin_interrupt_delivered:
  assumes "pin < 24" "length (redirection_table a) = 24" "low AND push_bit 16 1 = 0" "ucast (drop_bit 8 low AND 7) = (0 :: u8)"
    "v = unat (ucast (low AND 0xFF) :: u8)" "16 \<le> v"
    "resolve_destination d (unat (ucast (drop_bit 24 high) :: u8)) = Some cpu" "map_of (state d) cpu = Some s" "lapic_ok s"
    "lvt_lint0 s AND LVT_MASKED \<noteq> 0" "\<forall>u \<in> requested s. u < v" "\<forall>u \<in> in_progress s. prio_class u < prio_class v"
    "unat (ucast (drop_bit 4 (max (tpr s) guest_tpr)) :: u8) < prio_class v"
  shows "\<exists>a' d1 d2 d3 s3. program_pin pin low high a = Some a' \<and> io_apic_set_irq pin True a' d = d1 \<and>
    get_pending_interrupt d1 cpu p guest_tpr = Some (Some (Lapic (of_nat v))) \<and>
    commit_delivered_interrupt (Lapic (of_nat v)) p cpu d1 = Some (d2, p, Some (of_nat v)) \<and>
    lapic_mmio_write t cpu (base_address s + 0xB0) 0 d2 p = Some (d3, p) \<and> map_of (state d3) cpu = Some s3 \<and>
    requested s3 = requested s \<and> in_progress s3 = in_progress s"
proof -
  obtain a' where a': "program_pin pin low high a = Some a'" "length (redirection_table a') = 24"
    "redirection_table a' ! pin = \<lparr>lower = low, upper = high\<rparr>" using program_pin_entry [OF assms(1,2)] by blast
  have v: "v < 256" "v \<notin> requested s" "v \<notin> in_progress s" "(of_nat v :: u8) = ucast (low AND 0xFF)"
    using assms(5,11,12) unsigned_less [of "ucast (low AND 0xFF) :: u8", where ?'a = nat] by auto
  have vw: "\<not> (ucast (low AND 0xFF) :: u8) < 16" using assms(5,6) by (simp add: word_less_nat_alt)
  have d1: "io_apic_set_irq pin True a' d = set_irq (unat (ucast (drop_bit 24 high) :: u8)) v d"
    using a'(2,3) assms(1,3,4) vw unfolding assms(5)
    by (simp add: io_apic_set_irq_def is_masked_def entry_vector_def delivery_mode_def destination_id_def Let_def)
  let ?d1 = "set_irq (unat (ucast (drop_bit 24 high) :: u8)) v d" and ?s1 = "request_vector v s"
  have s1: "map_of (state ?d1) cpu = Some ?s1" using set_irq_state [OF assms(8)] assms(6,7) by simp
  have sets: "lapic_ok ?s1" "requested ?s1 = insert v (requested s)" "in_progress ?s1 = in_progress s"
    using request_vector_sets [OF assms(9) v(1)] v(3) by auto
  have f: "lvt_lint0 ?s1 = lvt_lint0 s" "base_address ?s1 = base_address s" by (simp_all add: request_vector_def Let_def)
  have "get_pending_interrupt ?d1 cpu p guest_tpr = Some (Some (Lapic (of_nat v)))"
    using assms(11-13) sets(3) by (intro request_offered [OF assms(8,9,7,6) v(1) assms(10)]) (auto simp: deliverable_def)
  moreover obtain d2 d3 s3 where "commit_delivered_interrupt (Lapic (of_nat v)) p cpu ?d1 = Some (d2, p, Some (of_nat v))"
    "lapic_mmio_write t cpu (base_address s + 0xB0) 0 d2 p = Some (d3, p)" "map_of (state d3) cpu = Some s3"
    "requested s3 = requested s" "in_progress s3 = in_progress s"
    using take_and_end [OF s1 sets(1) v(1), of p t] assms(10,12) v(2) unfolding sets(2,3) f by auto
  ultimately show ?thesis using a'(1) d1 by metis
qed

theorem pin_interrupt_delivered_witness:
  "\<exists>a'. program_pin 4 0x31 0 (io_apic_new 0) = Some a' \<and>
     get_pending_interrupt (io_apic_set_irq 4 True a' (example_lapic (replicate 8 0) (replicate 8 0))) 0 pic_new 0 =
       Some (Some (Lapic 49))"
proof -
  let ?d = "example_lapic (replicate 8 0) (replicate 8 0)"
  let ?s = "(local_apic_reset 0)\<lparr>lvt_lint0 := 0x10000, irr := replicate 8 0, isr := replicate 8 0\<rparr>"
  have s: "map_of (state ?d) 0 = Some ?s" by (simp add: example_lapic_def)
  have "length (redirection_table (io_apic_new 0)) = 24" by (simp add: io_apic_new_def)
  moreover have "resolve_destination ?d 0 = Some 0" by (simp add: resolve_destination_def example_lapic_def)
  ultimately show ?thesis
    using pin_interrupt_delivered [where pin = 4 and a = "io_apic_new 0" and low = "0x31" and v = 49 and d = ?d and high = 0 and
        cpu = 0 and s = ?s and guest_tpr = 0 and p = pic_new and t = 0] s
    by (auto simp: lapic_ok_def LVT_MASKED_def local_apic_reset_def prio_class_def simp del: replicate.simps)
qed

end
