(* ===== verification/Dev_Pit.thy ===== *)
theory Dev_Pit
  imports Dev_Io_Apic
begin

text \<open>
  The emulated interval timer (\<^verbatim>\<open>device/legacy/pit.rs\<close>), the speaker port that gates its third channel
  (\<^verbatim>\<open>speaker.rs\<close>) and the power-management timer (\<^verbatim>\<open>pm_timer.rs\<close>) of the Reindeer hypervisor. Counters are
  computed on demand from the guest clock, so every operation takes the host counter samples it reads. A timer interrupt goes to
  pin 2 of the I/O APIC or to line 0 of the controller pair; both are arguments, and what they become is part of the result.

  The main result is that the periodic timer does not drift.
\<close>

definition PIT_HZ :: u64 where "PIT_HZ = 1193182"

datatype access_state = Lsb | Msb

record pit_channel =
  count :: u16
  reload_value :: u16
  pit_mode :: u8
  access_state :: access_state
  read_state :: access_state
  latched_value :: "u16 option"
  last_tsc :: u64
  last_irq_tsc :: u64
  gate_enabled :: bool
  access_mode :: u8
  irq_armed :: bool

definition pit_channel_new :: pit_channel where
  "pit_channel_new = \<lparr>count = 0, reload_value = 0, pit_mode = 0, access_state = Lsb, read_state = Lsb, latched_value = None,
     last_tsc = 0, last_irq_tsc = 0, gate_enabled = True, access_mode = 3, irq_armed = False\<rparr>"

record pit =
  channels :: "pit_channel list"
  ioapic_timer_enabled :: bool

definition pit_new :: pit where
  "pit_new = \<lparr>channels = [pit_channel_new, pit_channel_new, pit_channel_new], ioapic_timer_enabled = False\<rparr>"

section \<open>Counting\<close>

definition effective_reload :: "pit_channel \<Rightarrow> u64" where
  "effective_reload ch = (if reload_value ch = 0 then 65536 else ucast (reload_value ch))"

definition pit_ticks :: "u64 \<Rightarrow> u64 \<Rightarrow> u64" where
  "pit_ticks tsc_elapsed cpu_hz = ucast ((ucast tsc_elapsed * ucast PIT_HZ) div (ucast cpu_hz :: u128))"

definition get_current_count :: "guest_clock \<Rightarrow> u64 \<Rightarrow> pit_channel \<Rightarrow> u16" where
  "get_current_count clock host_tsc ch =
     (let tsc_elapsed = now_tsc clock host_tsc - last_tsc ch; ticks_elapsed = pit_ticks tsc_elapsed (tsc_hz clock);
          reload = effective_reload ch
      in ucast (reload - ticks_elapsed mod reload))"

definition is_periodic :: "u8 \<Rightarrow> bool" where
  "is_periodic mode \<longleftrightarrow> mode = 2 \<or> mode = 3"

definition commit_reload :: "u64 \<Rightarrow> pit_channel \<Rightarrow> pit_channel" where
  "commit_reload now ch =
     (let shutdown = (\<not> is_periodic (pit_mode ch) \<and> reload_value ch = 0)
      in ch\<lparr>last_tsc := now, last_irq_tsc := now, count := reload_value ch, irq_armed := \<not> shutdown\<rparr>)"

section \<open>Timer interrupts\<close>

definition deliver_irq0 :: "io_apic \<Rightarrow> pit \<times> pic \<times> local_apic_device \<Rightarrow> (pit \<times> pic \<times> local_apic_device) option" where
  "deliver_irq0 io = (\<lambda>(t, p, d).
     if \<not> is_pin_masked 2 io then
       Some (t\<lparr>ioapic_timer_enabled := True\<rparr>, p, io_apic_set_irq 2 False io (io_apic_set_irq 2 True io d))
     else if ioapic_timer_enabled t then Some (t, p, d)
     else map_option (\<lambda>p'. (t, p', d)) (raise_irq 0 p))"

definition fire_interval :: "u64 \<Rightarrow> pit_channel \<Rightarrow> u64" where
  "fire_interval cpu_hz ch = ucast (max ((ucast cpu_hz * ucast (effective_reload ch)) div (ucast PIT_HZ :: u128)) 1)"

text \<open>The part of \<open>check_timer\<close> under the channel lock: whether the timer fires, and the channel afterwards.\<close>

definition advance_timer :: "u64 \<Rightarrow> u64 \<Rightarrow> pit_channel \<Rightarrow> pit_channel \<times> bool" where
  "advance_timer cpu_hz current_tsc ch =
     (if \<not> irq_armed ch then (ch, False)
      else let interval = fire_interval cpu_hz ch
           in if last_irq_tsc ch = 0 then (ch\<lparr>last_irq_tsc := current_tsc\<rparr>, False)
              else let elapsed = current_tsc - last_irq_tsc ch
                   in if elapsed < interval then (ch, False)
                      else if is_periodic (pit_mode ch)
                      then (ch\<lparr>last_irq_tsc := last_irq_tsc ch + elapsed div interval * interval\<rparr>, True)
                      else (ch\<lparr>irq_armed := False, last_irq_tsc := current_tsc\<rparr>, True))"

definition check_timer :: "guest_clock \<Rightarrow> u64 \<Rightarrow> io_apic \<Rightarrow> pit \<times> pic \<times> local_apic_device \<Rightarrow>
    (bool \<times> pit \<times> pic \<times> local_apic_device) option" where
  "check_timer clock host_tsc io = (\<lambda>(t, p, d).
     let (ch, fires) = advance_timer (tsc_hz clock) (now_tsc clock host_tsc) (channels t ! 0);
         t' = t\<lparr>channels := (channels t)[0 := ch]\<rparr>
     in if fires then map_option (Pair True) (deliver_irq0 io (t', p, d)) else Some (False, t', p, d))"

section \<open>Third channel and speaker port\<close>

definition set_channel2_gate :: "guest_clock \<Rightarrow> u64 \<Rightarrow> bool \<Rightarrow> pit \<Rightarrow> pit" where
  "set_channel2_gate clock host_tsc enabled t =
     (let ch = (channels t ! 2)\<lparr>gate_enabled := enabled\<rparr>;
          ch' = (if enabled then ch\<lparr>last_tsc := now_tsc clock host_tsc\<rparr> else ch)
      in t\<lparr>channels := (channels t)[2 := ch']\<rparr>)"

definition get_channel2_out :: "guest_clock \<Rightarrow> u64 \<Rightarrow> pit \<Rightarrow> bool" where
  "get_channel2_out clock host_tsc t =
     (let ch = channels t ! 2
      in if \<not> gate_enabled ch then False
         else let tsc_elapsed = saturating_sub (now_tsc clock host_tsc) (last_tsc ch); cpu_hz = tsc_hz clock
              in if cpu_hz = 0 then False
                 else let ticks_elapsed = pit_ticks tsc_elapsed cpu_hz; reload = effective_reload ch
                      in if pit_mode ch = 2 \<or> pit_mode ch = 3
                         then reload div 2 < reload - ticks_elapsed mod reload
                         else reload \<le> ticks_elapsed)"

definition REFRESH_TOGGLE_BIT :: u64 where "REFRESH_TOGGLE_BIT = push_bit 4 1"

definition speaker_read :: "guest_clock \<Rightarrow> u64 \<Rightarrow> pit \<Rightarrow> u64 \<Rightarrow> u64 \<Rightarrow> (u64 \<times> u64) option" where
  "speaker_read clock host_tsc t addr data =
     (if addr = 0x61 then
        let data' = data XOR REFRESH_TOGGLE_BIT; val = data' AND 0x1F
        in Some (data', if get_channel2_out clock host_tsc t then val OR push_bit 5 1 else val)
      else None)"

definition speaker_write :: "guest_clock \<Rightarrow> u64 \<Rightarrow> u64 \<Rightarrow> u64 \<Rightarrow> pit \<Rightarrow> (u64 \<times> pit) option" where
  "speaker_write clock host_tsc addr val t =
     (if addr = 0x61 then Some (val, set_channel2_gate clock host_tsc (val AND 1 \<noteq> 0) t) else None)"

section \<open>Ports\<close>

definition write_reload :: "u64 \<Rightarrow> u8 \<Rightarrow> pit_channel \<Rightarrow> pit_channel" where
  "write_reload now val ch =
     (if access_mode ch = 1 then commit_reload now (ch\<lparr>reload_value := ucast val\<rparr>)
      else if access_mode ch = 2 then commit_reload now (ch\<lparr>reload_value := push_bit 8 (ucast val)\<rparr>)
      else case access_state ch of
             Lsb \<Rightarrow> ch\<lparr>reload_value := (reload_value ch AND 0xFF00) OR ucast val, access_state := Msb\<rparr>
           | Msb \<Rightarrow> commit_reload now
               (ch\<lparr>reload_value := (reload_value ch AND 0x00FF) OR push_bit 8 (ucast val), access_state := Lsb\<rparr>))"

definition pit_control :: "guest_clock \<Rightarrow> u64 \<Rightarrow> u8 \<Rightarrow> pit \<Rightarrow> pit" where
  "pit_control clock host_tsc val t =
     (let channel_idx = unat (drop_bit 6 val AND 3)
      in if channel_idx < 3 then
           let ch = channels t ! channel_idx; mode = drop_bit 4 val AND 3;
               ch' = (if mode = 0 then
                        let c = get_current_count clock host_tsc ch in ch\<lparr>count := c, latched_value := Some c, read_state := Lsb\<rparr>
                      else
                        let ch1 = ch\<lparr>pit_mode := drop_bit 1 val AND 7, access_mode := mode, access_state := Lsb,
                                     read_state := Lsb, irq_armed := False\<rparr>
                        in if channel_idx = 0 then ch1\<lparr>last_irq_tsc := 0\<rparr> else ch1)
           in t\<lparr>channels := (channels t)[channel_idx := ch']\<rparr>
         else t)"

definition handle_io_write_inner :: "guest_clock \<Rightarrow> u64 \<Rightarrow> u16 \<Rightarrow> u8 \<Rightarrow> pit \<Rightarrow> pit" where
  "handle_io_write_inner clock host_tsc port val t =
     (if 0x40 \<le> port \<and> port \<le> 0x42 then
        let idx = unat (port - 0x40)
        in t\<lparr>channels := (channels t)[idx := write_reload (now_tsc clock host_tsc) val (channels t ! idx)]\<rparr>
      else if port = 0x43 then pit_control clock host_tsc val t
      else t)"

definition handle_io_read_inner :: "guest_clock \<Rightarrow> u64 \<Rightarrow> u16 \<Rightarrow> pit \<Rightarrow> pit \<times> u8" where
  "handle_io_read_inner clock host_tsc port t =
     (if 0x40 \<le> port \<and> port \<le> 0x42 then
        let idx = unat (port - 0x40); ch = channels t ! idx;
            val_to_read = (case latched_value ch of Some v \<Rightarrow> v | None \<Rightarrow> get_current_count clock host_tsc ch)
        in case read_state ch of
             Lsb \<Rightarrow> (t\<lparr>channels := (channels t)[idx := ch\<lparr>read_state := Msb\<rparr>]\<rparr>, ucast (val_to_read AND 0xFF))
           | Msb \<Rightarrow> (t\<lparr>channels := (channels t)[idx := ch\<lparr>read_state := Lsb, latched_value := None\<rparr>]\<rparr>,
                    ucast (drop_bit 8 val_to_read AND 0xFF))
      else (t, 0xFF))"

definition pit_io_read :: "guest_clock \<Rightarrow> u64 \<Rightarrow> u64 \<Rightarrow> io_apic \<Rightarrow> u64 \<Rightarrow> pit \<times> pic \<times> local_apic_device \<Rightarrow>
    (u64 \<times> pit \<times> pic \<times> local_apic_device) option" where
  "pit_io_read clock host_tsc host_tsc' io addr = (\<lambda>(t, p, d).
     let (t', val) = handle_io_read_inner clock host_tsc (ucast addr) t
     in map_option (\<lambda>(_, w). (ucast val, w)) (check_timer clock host_tsc' io (t', p, d)))"

definition pit_io_write :: "guest_clock \<Rightarrow> u64 \<Rightarrow> u64 \<Rightarrow> io_apic \<Rightarrow> u64 \<Rightarrow> u64 \<Rightarrow> u8 \<Rightarrow> pit \<times> pic \<times> local_apic_device \<Rightarrow>
    (pit \<times> pic \<times> local_apic_device) option" where
  "pit_io_write clock host_tsc host_tsc' io addr val width = (\<lambda>(t, p, d).
     let port = (ucast addr :: u16);
         t' = (if 0x40 \<le> port \<and> port \<le> 0x42 \<and> 2 \<le> width then
                 let idx = unat (port - 0x40)
                 in t\<lparr>channels := (channels t)[idx := commit_reload (now_tsc clock host_tsc)
                        ((channels t ! idx)\<lparr>reload_value := ucast val, access_state := Lsb\<rparr>)]\<rparr>
               else handle_io_write_inner clock host_tsc port (ucast val) t)
     in map_option snd (check_timer clock host_tsc' io (t', p, d)))"

section \<open>Power-management timer\<close>

definition PM_TIMER_PORT :: u16 where "PM_TIMER_PORT = 0x608"
definition PM_TIMER_HZ :: u64 where "PM_TIMER_HZ = 3579545"

definition read_ticks :: "guest_clock \<Rightarrow> u64 \<Rightarrow> u32" where
  "read_ticks clock host_tsc = ucast ((ucast (now_tsc clock host_tsc) * ucast PM_TIMER_HZ) div (ucast (tsc_hz clock) :: u128))"

definition pm_timer_read :: "guest_clock \<Rightarrow> u64 \<Rightarrow> u64 \<Rightarrow> u8 \<Rightarrow> u64" where
  "pm_timer_read clock host_tsc addr width =
     (let offset = (ucast (saturating_sub addr (ucast PM_TIMER_PORT)) :: u32); ticks = read_ticks clock host_tsc;
          shifted = (if offset * 8 < 32 then drop_bit (unat (offset * 8)) ticks else 0)
      in if width = 1 then ucast (shifted AND 0xFF) else if width = 2 then ucast (shifted AND 0xFFFF) else ucast shifted)"

section \<open>The periodic timer does not drift\<close>

text \<open>The timer checks of a run, at the given guest times: the channel at the end and the number of interrupts.\<close>

fun pit_checks :: "u64 \<Rightarrow> u64 list \<Rightarrow> pit_channel \<Rightarrow> pit_channel \<times> nat" where
  "pit_checks hz [] ch = (ch, 0)"
| "pit_checks hz (t # ts) ch =
     (let (ch1, fires) = advance_timer hz t ch; (ch2, n) = pit_checks hz ts ch1 in (ch2, (if fires then Suc n else n)))"

text \<open>The number of whole periods between the start and a later time.\<close>

definition period_of :: "nat \<Rightarrow> u64 \<Rightarrow> u64 \<Rightarrow> nat" where
  "period_of interval start t = (unat t - unat start) div interval"

lemma fire_interval_irq [simp]: "fire_interval hz (ch\<lparr>last_irq_tsc := x\<rparr>) = fire_interval hz ch"
  by (simp add: fire_interval_def effective_reload_def)

lemma advance_periodic:
  assumes "irq_armed ch" "is_periodic (pit_mode ch)" "last_irq_tsc ch \<noteq> 0" "last_irq_tsc ch \<le> t" "0 < I" "I = unat (fire_interval hz ch)"
  shows "advance_timer hz t ch = (ch\<lparr>last_irq_tsc := last_irq_tsc ch + of_nat (period_of I (last_irq_tsc ch) t * I)\<rparr>, period_of I (last_irq_tsc ch) t \<noteq> 0)"
proof -
  let ?e = "t - last_irq_tsc ch"
  have e: "unat ?e = unat t - unat (last_irq_tsc ch)" using assms(4) by (rule unat_sub)
  have "?e div fire_interval hz ch * fire_interval hz ch = of_nat (unat ?e div I * I)"
    by (simp add: assms(6) unat_div [symmetric])
  moreover have "?e < fire_interval hz ch \<longleftrightarrow> unat ?e div I = 0"
    using assms(5,6) by (simp add: word_less_nat_alt div_eq_0_iff)
  ultimately show ?thesis
    using assms(1-3) by (auto simp: advance_timer_def Let_def period_of_def e [symmetric])
qed

lemma period_shift:
  assumes "0 < I" "start \<le> t" "t \<le> u"
  defines "k \<equiv> period_of I start t" and "next \<equiv> start + of_nat (period_of I start t * I)"
  shows "unat next = unat start + k * I" "next \<le> t" "period_of I start u = period_of I next u + k"
proof -
  have le: "unat start \<le> unat t" "unat t \<le> unat u" using assms(2,3) by (simp_all add: word_le_nat_alt)
  have kI: "k * I \<le> unat t - unat start" by (simp add: k_def period_of_def)
  then have b: "unat start + k * I \<le> unat t" using le by simp
  then have "k * I < 2 ^ LENGTH(64)" using unsigned_less [of t, where ?'a = nat] by simp
  then have u: "unat (of_nat (k * I) :: u64) = k * I" by (rule unat_of_nat_len)
  then show n: "unat next = unat start + k * I"
    using b unsigned_less [of t, where ?'a = nat] unfolding next_def k_def [symmetric]
    by (subst unat_add_lem [THEN iffD1]) (simp_all add: u)
  then show "next \<le> t" using b by (simp add: word_le_nat_alt)
  have "unat u - unat start = (unat u - unat next) + k * I" using n b le by simp
  then show "period_of I start u = period_of I next u + k" using assms(1) by (simp add: period_of_def)
qed

lemma card_periods:
  assumes "finite Q"
  shows "card (insert k ((\<lambda>q. q + k) ` Q) - {0}) = (if k = 0 then 0 else 1) + card (Q - {0 :: nat})"
proof (cases "k = 0")
  case False
  have "(\<lambda>q. q + k) ` Q - {k} = (\<lambda>q. q + k) ` (Q - {0})" by auto
  then have "card ((\<lambda>q. q + k) ` Q - {k}) = card (Q - {0})" by (simp add: card_image)
  moreover have "insert k ((\<lambda>q. q + k) ` Q) - {0} = insert k ((\<lambda>q. q + k) ` Q - {k})" using False by auto
  ultimately show ?thesis using False assms by (simp del: insert_Diff_single)
qed simp

lemma timer_checks_run:
  assumes "irq_armed ch" "is_periodic (pit_mode ch)" "last_irq_tsc ch \<noteq> 0" "0 < I" "I = unat (fire_interval hz ch)"
    "sorted (last_irq_tsc ch # ts)"
  shows "pit_checks hz ts ch =
    (ch\<lparr>last_irq_tsc := last_irq_tsc ch + of_nat (period_of I (last_irq_tsc ch) (last (last_irq_tsc ch # ts)) * I)\<rparr>,
     card (period_of I (last_irq_tsc ch) ` set ts - {0}))"
  using assms
proof (induction ts arbitrary: ch)
  case Nil
  then show ?case by (simp add: period_of_def)
next
  case (Cons t ts)
  let ?L = "last_irq_tsc ch" and ?k = "period_of I (last_irq_tsc ch) t"
  let ?L' = "?L + of_nat (?k * I)"
  have le: "?L \<le> t" "\<forall>u \<in> set ts. t \<le> u" "sorted ts" using Cons.prems(6) by auto
  note sh = period_shift [OF Cons.prems(4) le(1)]
  have L': "?L' \<le> t" "?L' \<noteq> 0" using sh(1,2) [of t] Cons.prems(3) by (auto simp: word_unat_eq_iff)
  have adv: "advance_timer hz t ch = (ch\<lparr>last_irq_tsc := ?L'\<rparr>, ?k \<noteq> 0)"
    using advance_periodic [OF Cons.prems(1-3) le(1) Cons.prems(4,5)] by simp
  define ch' where "ch' = ch\<lparr>last_irq_tsc := ?L'\<rparr>"
  have c: "irq_armed ch'" "is_periodic (pit_mode ch')" "last_irq_tsc ch' = ?L'" "I = unat (fire_interval hz ch')"
    using Cons.prems(1,2,5) by (simp_all add: ch'_def)
  have "sorted (?L' # ts)" using L'(1) le(2,3) by (auto intro: order_trans)
  then have "pit_checks hz ts ch' = (ch'\<lparr>last_irq_tsc := last_irq_tsc ch' + of_nat (period_of I ?L' (last (?L' # ts)) * I)\<rparr>,
      card (period_of I ?L' ` set ts - {0}))"
    using Cons.IH [OF c(1,2) _ Cons.prems(4) c(4)] L'(2) unfolding c(3) by blast
  then have ih: "pit_checks hz ts (ch\<lparr>last_irq_tsc := ?L'\<rparr>) =
      (ch\<lparr>last_irq_tsc := ?L' + of_nat (period_of I ?L' (last (?L' # ts)) * I)\<rparr>, card (period_of I ?L' ` set ts - {0}))"
    unfolding c(3) by (simp add: ch'_def)
  have pe: "period_of I ?L u = period_of I ?L' u + ?k" if "u \<in> set (t # ts)" for u using sh(3) [of u] le(2) that by auto
  have img: "period_of I ?L ` set ts = (\<lambda>q. q + ?k) ` (period_of I ?L' ` set ts)"
    unfolding image_image by (rule image_cong [OF refl], rule pe) simp
  have lst: "period_of I ?L (last (t # ts)) = period_of I ?L' (last (t # ts)) + ?k" by (rule pe) (rule last_in_set, simp)
  have card: "card (period_of I ?L ` set (t # ts) - {0}) = (if ?k = 0 then 0 else 1) + card (period_of I ?L' ` set ts - {0})"
    unfolding list.set image_insert img by (rule card_periods) simp
  have "last (?L' # ts) = last (t # ts) \<or> ts = []" by auto
  then have last: "?L' + of_nat (period_of I ?L' (last (?L' # ts)) * I) = ?L + of_nat (period_of I ?L (last (?L # t # ts)) * I)"
  proof (elim disjE)
    assume "ts = []"
    then show ?thesis by (simp add: period_of_def)
  next
    assume "last (?L' # ts) = last (t # ts)"
    moreover have "last (?L # t # ts) = last (t # ts)" by simp
    ultimately show ?thesis using lst by (simp only: distrib_right of_nat_add add.assoc add.commute [of "of_nat (?k * I)"])
  qed
  show ?case unfolding pit_checks.simps adv Let_def split_conv ih card last by (cases "?k = 0") simp_all
qed

text \<open>C22: the periodic timer neither drifts nor repeats an interrupt. However irregularly the channel is polled (at any
  non-decreasing guest times after the last interrupt), at the end the recorded interrupt time is still a whole number of periods
  after the start, namely the last period boundary before the final poll, and the number of interrupts raised is the number of
  distinct periods the polls fell into, periods nobody polled in being skipped rather than delivered late.\<close>

theorem pit_periodic_no_drift:
  assumes "irq_armed ch" "is_periodic (pit_mode ch)" "last_irq_tsc ch \<noteq> 0" "fire_interval hz ch = I" "0 < I"
    "sorted (last_irq_tsc ch # ts)" "pit_checks hz ts ch = (ch', n)" "ts \<noteq> []"
  shows "unat (last_irq_tsc ch') = unat (last_irq_tsc ch) + (unat (last ts) - unat (last_irq_tsc ch)) div unat I * unat I \<and>
    n = card ((\<lambda>t. (unat t - unat (last_irq_tsc ch)) div unat I) ` set ts - {0})"
proof -
  let ?L = "last_irq_tsc ch"
  have I: "0 < unat I" using assms(5) by (simp add: word_less_nat_alt)
  have le: "?L \<le> last ts" using assms(6,8) last_in_set [OF assms(8)] by auto
  have run: "last_irq_tsc ch' = ?L + of_nat (period_of (unat I) ?L (last ts) * unat I)" "n = card (period_of (unat I) ?L ` set ts - {0})"
    using timer_checks_run [OF assms(1-3) I _ assms(6)] assms(4,7,8) by (auto simp del: of_nat_mult)
  show ?thesis
    using period_shift(1) [OF I le order_refl] run unfolding period_of_def by simp
qed

definition example_channel :: pit_channel where
  "example_channel = pit_channel_new\<lparr>reload_value := 1000, pit_mode := 2, last_irq_tsc := 5, irq_armed := True\<rparr>"

theorem pit_periodic_no_drift_witness:
  "\<exists>ch'. pit_checks 1193182 [10, 1010, 3020, 3100] example_channel = (ch', 2) \<and> unat (last_irq_tsc ch') = 3005"
proof -
  have i: "fire_interval 1193182 example_channel = 1000" by code_simp
  obtain ch' n where r: "pit_checks 1193182 [10, 1010, 3020, 3100] example_channel = (ch', n)" by fastforce
  have f: "irq_armed example_channel" "is_periodic (pit_mode example_channel)" "last_irq_tsc example_channel = 5"
    by (simp_all add: example_channel_def is_periodic_def)
  show ?thesis using pit_periodic_no_drift [OF f(1,2) _ i _ _ r] r f(3) by (simp add: insert_commute)
qed

end
