(* ===== verification/Dev_Hpet.thy ===== *)
theory Dev_Hpet
  imports Dev_Io_Apic
begin

text \<open>
  The emulated high precision event timer of the Reindeer hypervisor (\<^verbatim>\<open>device/legacy/hpet.rs\<close>): a main counter
  computed from the guest clock, three comparators, and the register block. Expired comparators raise pins of the I/O APIC.
  Shifts by a run-time amount stay below the width, since the amount is eight times an offset below eight.
\<close>

definition HPET_MMIO_BASE :: u64 where "HPET_MMIO_BASE = 0xFED00000"
definition HPET_HZ :: u64 where "HPET_HZ = 10000000"
definition HPET_PERIOD_FS :: u64 where "HPET_PERIOD_FS = 100000000"
definition NUM_TIMERS :: nat where "NUM_TIMERS = 3"
definition NUM_TIM_CAP :: u64 where "NUM_TIM_CAP = push_bit 8 (of_nat NUM_TIMERS - 1)"

definition GENERAL_CAPABILITIES :: u64 where
  "GENERAL_CAPABILITIES = push_bit 32 HPET_PERIOD_FS OR 0x80862000 OR NUM_TIM_CAP OR 0x10"

definition GENERAL_ENABLE :: u64 where "GENERAL_ENABLE = 1"
definition TIMER_INTERRUPT_TYPE :: u64 where "TIMER_INTERRUPT_TYPE = push_bit 1 1"
definition TIMER_INTERRUPT_ENABLE :: u64 where "TIMER_INTERRUPT_ENABLE = push_bit 2 1"
definition TIMER_PERIODIC :: u64 where "TIMER_PERIODIC = push_bit 3 1"
definition TIMER_PERIODIC_CAPABLE :: u64 where "TIMER_PERIODIC_CAPABLE = push_bit 4 1"
definition TIMER_SIZE_CAPABLE :: u64 where "TIMER_SIZE_CAPABLE = push_bit 5 1"
definition TIMER_32_BIT_MODE :: u64 where "TIMER_32_BIT_MODE = push_bit 8 1"
definition TIMER_ROUTE_SHIFT :: nat where "TIMER_ROUTE_SHIFT = 9"
definition TIMER_ROUTE_MASK :: u64 where "TIMER_ROUTE_MASK = push_bit TIMER_ROUTE_SHIFT 0x1F"
definition TIMER_ROUTE_CAPABILITIES :: u64 where "TIMER_ROUTE_CAPABILITIES = push_bit 32 0x00FFFFFF"

definition TIMER_WRITABLE_MASK :: u64 where
  "TIMER_WRITABLE_MASK =
     TIMER_INTERRUPT_TYPE OR TIMER_INTERRUPT_ENABLE OR TIMER_PERIODIC OR TIMER_32_BIT_MODE OR TIMER_ROUTE_MASK"

definition TIMER_BLOCK_BASE :: u64 where "TIMER_BLOCK_BASE = 0x100"
definition TIMER_BLOCK_STRIDE :: u64 where "TIMER_BLOCK_STRIDE = 0x20"

record timer_state =
  config :: u64
  comparator :: u64
  period :: u64
  armed :: bool

definition timer_state_new :: timer_state where
  "timer_state_new = \<lparr>config = 0, comparator = 0, period = 0, armed = False\<rparr>"

record hpet_state =
  general_config :: u64
  main_counter :: u64
  counter_started_at :: u64
  interrupt_status :: u64
  timers :: "timer_state list"

definition hpet_new :: "u64 \<Rightarrow> hpet_state" where
  "hpet_new now = \<lparr>general_config = 0, main_counter = 0, counter_started_at = now, interrupt_status = 0,
     timers = replicate NUM_TIMERS timer_state_new\<rparr>"

definition current_counter :: "guest_clock \<Rightarrow> u64 \<Rightarrow> hpet_state \<Rightarrow> u64" where
  "current_counter clock host_tsc s =
     (if general_config s AND GENERAL_ENABLE = 0 then main_counter s
      else let elapsed_tsc = now_tsc clock host_tsc - counter_started_at s;
               elapsed_ticks = (ucast elapsed_tsc * ucast HPET_HZ) div (ucast (tsc_hz clock) :: u128)
           in main_counter s + ucast elapsed_ticks)"

definition timer_config :: "timer_state \<Rightarrow> u64" where
  "timer_config t = config t OR TIMER_PERIODIC_CAPABLE OR TIMER_SIZE_CAPABLE OR TIMER_ROUTE_CAPABILITIES"

definition decode_timer_offset :: "u64 \<Rightarrow> (nat \<times> u64) option" where
  "decode_timer_offset offset =
     (if offset < TIMER_BLOCK_BASE then None
      else let rel = offset - TIMER_BLOCK_BASE; index = unat (rel div TIMER_BLOCK_STRIDE)
           in if NUM_TIMERS \<le> index then None else Some (index, rel mod TIMER_BLOCK_STRIDE))"

definition hpet_read_register :: "guest_clock \<Rightarrow> u64 \<Rightarrow> u64 \<Rightarrow> hpet_state \<Rightarrow> u64" where
  "hpet_read_register clock host_tsc offset s =
     (if offset = 0x000 then GENERAL_CAPABILITIES
      else if offset = 0x010 then general_config s
      else if offset = 0x020 then interrupt_status s
      else if offset = 0x0F0 then current_counter clock host_tsc s
      else case decode_timer_offset offset of
             Some (index, reg) \<Rightarrow> if reg = 0x00 then timer_config (timers s ! index)
                                 else if reg = 0x08 then comparator (timers s ! index) else 0
           | None \<Rightarrow> 0)"

definition access_mask :: "u8 \<Rightarrow> u64" where
  "access_mask width =
     (if width = 1 then 0xFF else if width = 2 then 0xFFFF else if width = 4 then 0xFFFFFFFF
      else if width = 8 then 0xFFFFFFFFFFFFFFFF else 0)"

definition merge :: "u64 \<Rightarrow> u64 \<Rightarrow> u64 \<Rightarrow> u64" where
  "merge old m val = (old AND NOT m) OR (val AND m)"

definition write_timer :: "u64 \<Rightarrow> u64 \<Rightarrow> u64 \<Rightarrow> timer_state \<Rightarrow> timer_state" where
  "write_timer reg m val t =
     (if reg = 0x00 then t\<lparr>config := merge (config t) (m AND TIMER_WRITABLE_MASK) val\<rparr>
      else if reg = 0x08 then
        let c = merge (comparator t) m val; c' = (if config t AND TIMER_32_BIT_MODE \<noteq> 0 then c AND 0xFFFFFFFF else c)
        in t\<lparr>comparator := c', period := (if config t AND TIMER_PERIODIC \<noteq> 0 then max c' 1 else 0), armed := True\<rparr>
      else t)"

text \<open>\<open>host_tsc\<close> is the sample taken at the start, \<open>host_tsc'\<close> the one \<open>current_counter\<close> takes.\<close>

definition hpet_write_register :: "guest_clock \<Rightarrow> u64 \<Rightarrow> u64 \<Rightarrow> u64 \<Rightarrow> u64 \<Rightarrow> u8 \<Rightarrow> hpet_state \<Rightarrow> hpet_state" where
  "hpet_write_register clock host_tsc host_tsc' offset val width s =
     (let register = offset AND NOT 7; shift = unat ((offset AND 7) * 8);
          m = push_bit shift (access_mask width); v = push_bit shift val; now = now_tsc clock host_tsc
      in if register = 0x010 then
           let current = current_counter clock host_tsc' s; was_enabled = (general_config s AND GENERAL_ENABLE \<noteq> 0);
               new_config = merge (general_config s) m v; enabled = (new_config AND GENERAL_ENABLE \<noteq> 0);
               s1 = (if was_enabled \<noteq> enabled then s\<lparr>main_counter := current, counter_started_at := now\<rparr> else s)
           in s1\<lparr>general_config := new_config AND GENERAL_ENABLE\<rparr>
         else if register = 0x020 then s\<lparr>interrupt_status := interrupt_status s AND NOT (v AND m)\<rparr>
         else if register = 0x0F0 then
           s\<lparr>main_counter := merge (current_counter clock host_tsc' s) m v, counter_started_at := now\<rparr>
         else case decode_timer_offset register of
                Some (index, reg) \<Rightarrow> s\<lparr>timers := (timers s)[index := write_timer reg m v (timers s ! index)]\<rparr>
              | None \<Rightarrow> s)"

text \<open>One turn of the comparator loop of \<open>check_timer\<close>.\<close>

definition expire_timer :: "u64 \<Rightarrow> timer_state \<Rightarrow> timer_state" where
  "expire_timer counter t =
     (if config t AND TIMER_PERIODIC \<noteq> 0 \<and> period t \<noteq> 0 then
        let elapsed = saturating_sub counter (comparator t); periods = elapsed div period t + 1
        in t\<lparr>comparator := comparator t + saturating_mul periods (period t)\<rparr>
      else t\<lparr>armed := False\<rparr>)"

definition check_comparator :: "u64 \<Rightarrow> nat \<Rightarrow> hpet_state \<times> nat list \<Rightarrow> hpet_state \<times> nat list" where
  "check_comparator counter index = (\<lambda>(s, routes).
     let t = timers s ! index
     in if config t AND TIMER_INTERRUPT_ENABLE = 0 \<or> \<not> armed t then (s, routes)
        else if counter < comparator t then (s, routes)
        else (s\<lparr>interrupt_status := interrupt_status s OR push_bit index 1,
                timers := (timers s)[index := expire_timer counter t]\<rparr>,
              routes @ [unat (drop_bit TIMER_ROUTE_SHIFT (config t AND TIMER_ROUTE_MASK))]))"

definition hpet_check_timer :: "guest_clock \<Rightarrow> u64 \<Rightarrow> io_apic \<Rightarrow> hpet_state \<Rightarrow> local_apic_device \<Rightarrow> bool \<times> hpet_state \<times> local_apic_device" where
  "hpet_check_timer clock host_tsc io s d =
     (if general_config s AND GENERAL_ENABLE = 0 then (False, s, d)
      else let counter = current_counter clock host_tsc s;
               (s', routes) = fold (check_comparator counter) [0..<NUM_TIMERS] (s, [])
           in if routes = [] then (False, s', d)
              else (True, s', fold (\<lambda>route. io_apic_set_irq route True io) routes d))"

definition hpet_mmio_read :: "guest_clock \<Rightarrow> u64 \<Rightarrow> u64 \<Rightarrow> u8 \<Rightarrow> hpet_state \<Rightarrow> u64" where
  "hpet_mmio_read clock host_tsc addr width s =
     (let offset = saturating_sub addr HPET_MMIO_BASE; shift = unat ((offset AND 7) * 8)
      in drop_bit shift (hpet_read_register clock host_tsc (offset AND NOT 7) s) AND access_mask width)"

definition hpet_mmio_write :: "guest_clock \<Rightarrow> u64 \<Rightarrow> u64 \<Rightarrow> u64 \<Rightarrow> io_apic \<Rightarrow> u64 \<Rightarrow> u64 \<Rightarrow> u8 \<Rightarrow> hpet_state \<Rightarrow> local_apic_device \<Rightarrow>
    hpet_state \<times> local_apic_device" where
  "hpet_mmio_write clock host_tsc host_tsc' host_tsc'' io addr val width s d =
     snd (hpet_check_timer clock host_tsc'' io
       (hpet_write_register clock host_tsc host_tsc' (saturating_sub addr HPET_MMIO_BASE) val width s) d)"

section \<open>Periodic comparators\<close>

text \<open>An expired periodic comparator moves by whole periods to the first grid point after the counter.\<close>

lemma expire_periodic:
  assumes "config t AND TIMER_PERIODIC \<noteq> 0" "period t \<noteq> 0" "comparator t \<le> counter" "unat counter + unat (period t) < 2 ^ 64"
  defines "t' \<equiv> expire_timer counter t"
  shows "counter < comparator t'" "comparator t' \<le> counter + period t"
    "\<exists>k. 0 < k \<and> unat (comparator t') = unat (comparator t) + k * unat (period t)"
    "armed t' = armed t" "period t' = period t"
proof -
  let ?p = "unat (period t)" and ?e = "unat counter - unat (comparator t)"
  have p: "0 < ?p" using assms(2) by (simp add: unat_gt_0)
  have le: "unat (comparator t) \<le> unat counter" using assms(3) by (simp add: word_le_nat_alt)
  have "?e div ?p * ?p \<le> ?e" by simp
  then have q: "unat (comparator t) + (?e div ?p + 1) * ?p \<le> unat counter + ?p"
    using le unfolding distrib_right by linarith
  have "?e div ?p \<le> ?e" by simp
  moreover have "?e + 1 \<le> unat counter + ?p" using p le by linarith
  ultimately have d: "?e div ?p + 1 < 2 ^ 64" using assms(4) by linarith
  have "unat (saturating_sub counter (comparator t) div period t + 1) = ?e div ?p + 1"
    using d by (subst unat_add_lem [THEN iffD1]) (simp_all add: unat_div unat_saturating_sub)
  then have m: "unat (saturating_mul (saturating_sub counter (comparator t) div period t + 1) (period t)) = (?e div ?p + 1) * ?p"
    using q assms(4) by (simp add: unat_saturating_mul)
  then have c: "unat (comparator t') = unat (comparator t) + (?e div ?p + 1) * ?p"
    using assms(1,2,4) q unfolding t'_def expire_timer_def by (simp add: Let_def) (subst unat_add_lem [THEN iffD1], simp_all)
  have "?e < (?e div ?p + 1) * ?p" using p dividend_less_times_div [of ?p ?e] by (simp add: algebra_simps)
  then show "counter < comparator t'" using c le by (simp add: word_less_nat_alt)
  show "comparator t' \<le> counter + period t"
    using c q assms(4) by (simp add: word_le_nat_alt unat_add_lem [THEN iffD1])
  show "\<exists>k. 0 < k \<and> unat (comparator t') = unat (comparator t) + k * ?p" using c by (intro exI [of _ "?e div ?p + 1"]) simp
  show "armed t' = armed t" "period t' = period t" using assms(1,2) by (simp_all add: t'_def expire_timer_def Let_def)
qed

end
