(* ===== verification/Dev_Legacy.thy ===== *)
theory Dev_Legacy
  imports Dev_Io_Apic
begin

text \<open>
  Three port devices of the Reindeer hypervisor: the 16550A serial port (\<^verbatim>\<open>device/legacy/serial.rs\<close>), the real-time
  clock (\<^verbatim>\<open>rtc.rs\<close>) and the ACPI power-management block (\<^verbatim>\<open>acpi_pm.rs\<close>). What the serial port hands to the
  remote logger is part of its result. The host's CMOS, which the clock passes through, is an argument. \<open>None\<close> is a panic.

  The lemmas show that received bytes reach the guest in order, and that the log receives the guest's lines.
\<close>

section \<open>Serial port\<close>

definition IER_RDA :: u8 where "IER_RDA = push_bit 0 1"
definition IER_THRE :: u8 where "IER_THRE = push_bit 1 1"
definition IIR_NO_INTERRUPT :: u8 where "IIR_NO_INTERRUPT = 0xC1"
definition IIR_THRE :: u8 where "IIR_THRE = 0xC2"
definition IIR_RDA :: u8 where "IIR_RDA = 0xC4"
definition TX_LINE_BUFFER_SIZE :: nat where "TX_LINE_BUFFER_SIZE = 1024"
definition NEWLINE :: u8 where "NEWLINE = 10"

datatype backing_device = Com | Remote | Debug | NoDevice

record serial_port =
  base_port :: u16
  backing_device :: backing_device
  serial_irq_line :: u8
  dlab :: bool
  loopback :: bool
  lcr :: u8
  mcr :: u8
  scratch :: u8
  last_byte :: u64
  ier :: u8
  thr_irq_pending :: bool
  rda_irq_pending :: bool
  rx_fifo :: "u8 list"
  tx_line_buffer :: "u8 list"
  tx_line_buffer_len :: nat
  attached :: bool

definition serial_new :: "u16 \<Rightarrow> backing_device \<Rightarrow> serial_port" where
  "serial_new base dev =
     \<lparr>base_port = base, backing_device = dev,
      serial_irq_line = (if base = 0x3F8 \<or> base = 0x3E8 then 4 else if base = 0x2F8 \<or> base = 0x2E8 then 3 else 4),
      dlab = False, loopback = False, lcr = 0, mcr = 0, scratch = 0, last_byte = 0, ier = 0, thr_irq_pending = False,
      rda_irq_pending = False, rx_fifo = [], tx_line_buffer = replicate TX_LINE_BUFFER_SIZE 0, tx_line_buffer_len = 0,
      attached = False\<rparr>"

text \<open>The second component is what reaches the remote logger.\<close>

definition handle_output :: "u8 \<Rightarrow> serial_port \<Rightarrow> serial_port \<times> u8 list option" where
  "handle_output val s =
     (case backing_device s of
        Remote \<Rightarrow>
          let s1 = (if tx_line_buffer_len s < length (tx_line_buffer s)
                    then s\<lparr>tx_line_buffer := (tx_line_buffer s)[tx_line_buffer_len s := val], tx_line_buffer_len := tx_line_buffer_len s + 1\<rparr>
                    else if val = NEWLINE then s\<lparr>tx_line_buffer := (tx_line_buffer s)[TX_LINE_BUFFER_SIZE - 1 := val]\<rparr>
                    else s)
          in if val = NEWLINE then (s1\<lparr>tx_line_buffer_len := 0\<rparr>, Some (take (tx_line_buffer_len s1) (tx_line_buffer s1)))
             else (s1, None)
      | _ \<Rightarrow> (s, None))"

definition current_iir :: "serial_port \<Rightarrow> u8" where
  "current_iir s =
     (if ier s AND IER_RDA \<noteq> 0 \<and> rda_irq_pending s \<and> rx_fifo s \<noteq> [] then IIR_RDA
      else if ier s AND IER_THRE \<noteq> 0 \<and> thr_irq_pending s then IIR_THRE
      else IIR_NO_INTERRUPT)"

definition raise_irq_line :: "io_apic \<Rightarrow> serial_port \<Rightarrow> local_apic_device \<Rightarrow> local_apic_device" where
  "raise_irq_line io s d = (if attached s then io_apic_set_irq (unat (serial_irq_line s)) True io d else d)"

definition update_irq :: "io_apic \<Rightarrow> serial_port \<Rightarrow> local_apic_device \<Rightarrow> local_apic_device" where
  "update_irq io s d = (if current_iir s \<noteq> IIR_NO_INTERRUPT then raise_irq_line io s d else d)"

definition inject_rx :: "io_apic \<Rightarrow> u8 list \<Rightarrow> serial_port \<times> local_apic_device \<Rightarrow> serial_port \<times> local_apic_device" where
  "inject_rx io bytes = (\<lambda>(s, d).
     if bytes = [] then (s, d)
     else let s' = s\<lparr>rx_fifo := rx_fifo s @ bytes, rda_irq_pending := True\<rparr> in (s', update_irq io s' d))"

definition serial_attach :: "io_apic \<Rightarrow> serial_port \<times> local_apic_device \<Rightarrow> serial_port \<times> local_apic_device" where
  "serial_attach io = (\<lambda>(s, d). let s' = s\<lparr>attached := True\<rparr> in (s', update_irq io s' d))"

definition read_rbr :: "io_apic \<Rightarrow> serial_port \<times> local_apic_device \<Rightarrow> u64 \<times> serial_port \<times> local_apic_device" where
  "read_rbr io = (\<lambda>(s, d).
     if dlab s then (0, s, d)
     else if loopback s then (last_byte s, s, d)
     else case rx_fifo s of
            [] \<Rightarrow> (0, s, d)
          | b # rest \<Rightarrow>
              let s' = s\<lparr>rx_fifo := rest, rda_irq_pending := (rest \<noteq> [])\<rparr> in (ucast b, s', update_irq io s' d))"

definition serial_read :: "io_apic \<Rightarrow> u64 \<Rightarrow> serial_port \<times> local_apic_device \<Rightarrow> (u64 \<times> serial_port \<times> local_apic_device) option" where
  "serial_read io addr = (\<lambda>(s, d).
     let offset = addr - ucast (base_port s)
     in if offset = 1 then Some (if dlab s then 0 else ucast (ier s), s, d)
        else if offset = 0 then Some (read_rbr io (s, d))
        else if offset = 3 then Some (ucast (lcr s), s, d)
        else if offset = 4 then Some (ucast (mcr s), s, d)
        else if offset = 5 then Some (if loopback s \<or> rx_fifo s \<noteq> [] then 0x61 else 0x60, s, d)
        else if offset = 2 then
          let iir = current_iir s in Some (ucast iir, if iir = IIR_THRE then s\<lparr>thr_irq_pending := False\<rparr> else s, d)
        else if offset = 6 then Some (0xB0, s, d)
        else if offset = 7 then Some (ucast (scratch s), s, d)
        else None)"

definition write_thr :: "io_apic \<Rightarrow> u64 \<Rightarrow> serial_port \<times> local_apic_device \<Rightarrow> serial_port \<times> local_apic_device \<times> u8 list option" where
  "write_thr io val = (\<lambda>(s, d).
     if dlab s then (s, d, None)
     else let should_raise_thre = (\<not> thr_irq_pending s);
              (s1, line) = (if loopback s
                            then (s\<lparr>last_byte := val, rx_fifo := rx_fifo s @ [ucast val], rda_irq_pending := True\<rparr>, None)
                            else handle_output (ucast val) s);
              s2 = s1\<lparr>thr_irq_pending := True\<rparr>
          in (s2, if should_raise_thre then update_irq io s2 d else d, line))"

definition write_ier :: "io_apic \<Rightarrow> u64 \<Rightarrow> serial_port \<times> local_apic_device \<Rightarrow> serial_port \<times> local_apic_device" where
  "write_ier io val = (\<lambda>(s, d).
     if dlab s then (s, d)
     else let s1 = s\<lparr>ier := ucast val AND 0x0F\<rparr>; s2 = s1\<lparr>thr_irq_pending := (ier s1 AND IER_THRE \<noteq> 0)\<rparr>;
              s3 = (if ier s2 AND IER_RDA \<noteq> 0 \<and> rx_fifo s2 \<noteq> [] then s2\<lparr>rda_irq_pending := True\<rparr> else s2)
          in (s3, update_irq io s3 d))"

definition serial_write :: "io_apic \<Rightarrow> u64 \<Rightarrow> u64 \<Rightarrow> serial_port \<times> local_apic_device \<Rightarrow> serial_port \<times> local_apic_device \<times> u8 list option" where
  "serial_write io addr val = (\<lambda>(s, d).
     let offset = addr - ucast (base_port s)
     in if offset = 0 then write_thr io val (s, d)
        else if offset = 1 then (let (s', d') = write_ier io val (s, d) in (s', d', None))
        else if offset = 3 then (s\<lparr>lcr := ucast val, dlab := (val AND 0x80 \<noteq> 0)\<rparr>, d, None)
        else if offset = 4 then (s\<lparr>mcr := ucast val, loopback := (val AND 0x10 \<noteq> 0)\<rparr>, d, None)
        else if offset = 7 then (s\<lparr>scratch := ucast val\<rparr>, d, None)
        else (s, d, None))"

section \<open>Real-time clock\<close>

text \<open>The only state is the selected register; \<open>cmos\<close> gives the byte the host's CMOS answers for a register.\<close>

definition rtc_passthrough :: "u8 list" where
  "rtc_passthrough = [0x00, 0x02, 0x04, 0x07, 0x06, 0x08, 0x09, 0x32, 0xB]"

definition rtc_read :: "(u8 \<Rightarrow> u8) \<Rightarrow> u64 \<Rightarrow> u16 \<Rightarrow> u64 option" where
  "rtc_read cmos addr port =
     (if addr = 0x70 then Some (ucast port)
      else if addr = 0x71 then
        let reg = ucast port
        in Some (if reg \<in> set rtc_passthrough then ucast (cmos reg)
                 else if reg = 0xA then 0x26 else if reg = 0xD then 0x80 else 0)
      else None)"

definition rtc_write :: "u64 \<Rightarrow> u64 \<Rightarrow> u16 \<Rightarrow> u16 option" where
  "rtc_write addr val port =
     (if addr = 0x70 then Some (ucast (val AND 0x7F)) else if addr = 0x71 then Some port else None)"

section \<open>ACPI power management\<close>

record acpi_pm =
  pm1_sts :: u16
  pm1_en :: u16
  pm1_cnt :: u16

definition acpi_pm_new :: acpi_pm where
  "acpi_pm_new = \<lparr>pm1_sts = 0, pm1_en = 0, pm1_cnt = 0x0001\<rparr>"

definition acpi_pm_read :: "u64 \<Rightarrow> u8 \<Rightarrow> acpi_pm \<Rightarrow> u64 option" where
  "acpi_pm_read addr width s =
     (let port = (ucast addr :: u16)
      in if (port, width) = (0x600, 4) then Some (ucast (pm1_sts s) OR push_bit 16 (ucast (pm1_en s)))
         else if (port, width) = (0x600, 2) then Some (ucast (pm1_sts s))
         else if (port, width) = (0x602, 2) then Some (ucast (pm1_en s))
         else if (port, width) = (0x604, 2) then Some (ucast (pm1_cnt s))
         else if (port, width) = (0x600, 1) then Some (ucast (pm1_sts s AND 0xFF))
         else if (port, width) = (0x601, 1) then Some (ucast (drop_bit 8 (pm1_sts s)))
         else if (port, width) = (0x602, 1) then Some (ucast (pm1_en s AND 0xFF))
         else if (port, width) = (0x603, 1) then Some (ucast (drop_bit 8 (pm1_en s)))
         else if (port, width) = (0x604, 1) then Some (ucast (pm1_cnt s AND 0xFF))
         else if (port, width) = (0x605, 1) then Some (ucast (drop_bit 8 (pm1_cnt s)))
         else None)"

definition write_control :: "u16 \<Rightarrow> acpi_pm \<Rightarrow> acpi_pm option" where
  "write_control cnt s = (if cnt AND push_bit 13 1 \<noteq> 0 then None else Some (s\<lparr>pm1_cnt := cnt\<rparr>))"

definition acpi_pm_write :: "u64 \<Rightarrow> u64 \<Rightarrow> u8 \<Rightarrow> acpi_pm \<Rightarrow> acpi_pm option" where
  "acpi_pm_write addr val width s =
     (let port = (ucast addr :: u16); v = (ucast val :: u16)
      in if (port, width) = (0x600, 2) \<or> (port, width) = (0x600, 4) then
           let s1 = s\<lparr>pm1_sts := pm1_sts s AND NOT v\<rparr>
           in Some (if width = 4 then s1\<lparr>pm1_en := ucast (drop_bit 16 val)\<rparr> else s1)
         else if (port, width) = (0x602, 2) then Some (s\<lparr>pm1_en := v\<rparr>)
         else if (port, width) = (0x604, 2) then write_control v s
         else if (port, width) = (0x600, 1) then Some (s\<lparr>pm1_sts := pm1_sts s AND NOT v\<rparr>)
         else if (port, width) = (0x601, 1) then Some (s\<lparr>pm1_sts := pm1_sts s AND NOT (push_bit 8 v)\<rparr>)
         else if (port, width) = (0x602, 1) then Some (s\<lparr>pm1_en := (pm1_en s AND 0xFF00) OR (v AND 0xFF)\<rparr>)
         else if (port, width) = (0x603, 1) then Some (s\<lparr>pm1_en := (pm1_en s AND 0x00FF) OR push_bit 8 (v AND 0xFF)\<rparr>)
         else if (port, width) = (0x604, 1) then write_control ((pm1_cnt s AND 0xFF00) OR (v AND 0xFF)) s
         else if (port, width) = (0x605, 1) then write_control ((pm1_cnt s AND 0x00FF) OR push_bit 8 (v AND 0xFF)) s
         else None)"

section \<open>Received bytes and transmitted lines\<close>

text \<open>In normal operation the receive register is a queue: reading it as often as there are bytes returns them in order.\<close>

fun read_bytes :: "io_apic \<Rightarrow> nat \<Rightarrow> serial_port \<times> local_apic_device \<Rightarrow> u64 list \<times> serial_port \<times> local_apic_device" where
  "read_bytes io 0 w = ([], w)"
| "read_bytes io (Suc n) w = (let (b, w1) = read_rbr io w; (bs, w2) = read_bytes io n w1 in (b # bs, w2))"

lemma read_bytes_fifo:
  assumes "\<not> dlab s" "\<not> loopback s" "n \<le> length (rx_fifo s)"
  shows "\<exists>s' d'. read_bytes io n (s, d) = (map ucast (take n (rx_fifo s)), s', d') \<and> rx_fifo s' = drop n (rx_fifo s)"
  using assms
proof (induction n arbitrary: s d)
  case (Suc n)
  then obtain b rest where f: "rx_fifo s = b # rest" by (cases "rx_fifo s") auto
  let ?s = "s\<lparr>rx_fifo := rest, rda_irq_pending := (rest \<noteq> [])\<rparr>"
  have "read_rbr io (s, d) = (ucast b, ?s, update_irq io ?s d)" using Suc.prems f by (simp add: read_rbr_def Let_def)
  moreover obtain s' d' where "read_bytes io n (?s, update_irq io ?s d) = (map ucast (take n rest), s', d')" "rx_fifo s' = drop n rest"
    using Suc.IH [of ?s "update_irq io ?s d"] Suc.prems f by auto
  ultimately show ?case using f by simp
qed simp

text \<open>The bytes a guest transmits, and what the logger receives.\<close>

fun transmit :: "u8 list \<Rightarrow> serial_port \<Rightarrow> serial_port \<times> u8 list list" where
  "transmit [] s = (s, [])"
| "transmit (b # bs) s =
     (let (s1, line) = handle_output b s; (s2, ls) = transmit bs s1 in (s2, case line of None \<Rightarrow> ls | Some l \<Rightarrow> l # ls))"

lemma transmit_append:
  "transmit (xs @ ys) s = (let (s1, l1) = transmit xs s; (s2, l2) = transmit ys s1 in (s2, l1 @ l2))"
  by (induction xs arbitrary: s) (auto simp: Let_def split: prod.splits option.splits)

definition line_ok :: "serial_port \<Rightarrow> u8 list \<Rightarrow> bool" where
  "line_ok s w \<longleftrightarrow> backing_device s = Remote \<and> length (tx_line_buffer s) = TX_LINE_BUFFER_SIZE \<and>
     tx_line_buffer_len s = min (length w) TX_LINE_BUFFER_SIZE \<and>
     take (tx_line_buffer_len s) (tx_line_buffer s) = take TX_LINE_BUFFER_SIZE w"

lemma handle_output_byte:
  assumes "line_ok s w" "b \<noteq> NEWLINE"
  shows "\<exists>s'. handle_output b s = (s', None) \<and> line_ok s' (w @ [b])"
proof (cases "length w < TX_LINE_BUFFER_SIZE")
  case True
  then show ?thesis using assms by (auto simp: handle_output_def line_ok_def take_Suc_conv_app_nth)
next
  case False
  then show ?thesis using assms by (auto simp: handle_output_def line_ok_def)
qed

lemma handle_output_newline:
  assumes "line_ok s w"
  shows "\<exists>s'. handle_output NEWLINE s = (s', Some (take (TX_LINE_BUFFER_SIZE - 1) w @ [NEWLINE])) \<and> line_ok s' []"
proof (cases "length w < TX_LINE_BUFFER_SIZE")
  case True
  then show ?thesis using assms by (auto simp: handle_output_def line_ok_def take_Suc_conv_app_nth)
next
  case False
  then have w: "take TX_LINE_BUFFER_SIZE w = tx_line_buffer s" "length (tx_line_buffer s) = TX_LINE_BUFFER_SIZE"
    using assms by (auto simp: line_ok_def)
  have "take (TX_LINE_BUFFER_SIZE - 1) w = take (TX_LINE_BUFFER_SIZE - 1) (tx_line_buffer s)"
    unfolding w(1) [symmetric] by (simp add: min_def)
  moreover have "(tx_line_buffer s)[TX_LINE_BUFFER_SIZE - 1 := NEWLINE] = take (TX_LINE_BUFFER_SIZE - 1) (tx_line_buffer s) @ [NEWLINE]"
    using w(2) by (simp add: upd_conv_take_nth_drop TX_LINE_BUFFER_SIZE_def)
  moreover have "1 < TX_LINE_BUFFER_SIZE" by (simp add: TX_LINE_BUFFER_SIZE_def)
  ultimately show ?thesis using assms False w(2) by (auto simp: handle_output_def line_ok_def min_def)
qed

lemma transmit_line:
  assumes "line_ok s v" "NEWLINE \<notin> set w"
  shows "\<exists>s'. transmit (w @ [NEWLINE]) s = (s', [take (TX_LINE_BUFFER_SIZE - 1) (v @ w) @ [NEWLINE]]) \<and> line_ok s' []"
  using assms
proof (induction w arbitrary: s v)
  case Nil
  then show ?case using handle_output_newline [OF Nil.prems(1)] by auto
next
  case (Cons b w)
  then obtain s1 where "handle_output b s = (s1, None)" "line_ok s1 (v @ [b])" using handle_output_byte [of s v b] by auto
  with Cons.IH [of s1 "v @ [b]"] Cons.prems(2) show ?case by auto
qed

text \<open>The logger receives exactly the guest's lines, in order, each cut to the buffer size with its newline kept.\<close>

lemma lines_logged:
  assumes "line_ok s []" "\<forall>w \<in> set ws. NEWLINE \<notin> set w"
  shows "\<exists>s'. transmit (concat (map (\<lambda>w. w @ [NEWLINE]) ws)) s = (s', map (\<lambda>w. take (TX_LINE_BUFFER_SIZE - 1) w @ [NEWLINE]) ws) \<and> line_ok s' []"
  using assms
proof (induction ws arbitrary: s)
  case (Cons w ws)
  obtain s1 where s1: "transmit (w @ [NEWLINE]) s = (s1, [take (TX_LINE_BUFFER_SIZE - 1) w @ [NEWLINE]])" "line_ok s1 []"
    using transmit_line [of s "[]" w] Cons.prems by auto
  obtain s2 where s2: "transmit (concat (map (\<lambda>w. w @ [NEWLINE]) ws)) s1 = (s2, map (\<lambda>w. take (TX_LINE_BUFFER_SIZE - 1) w @ [NEWLINE]) ws)"
    "line_ok s2 []" using Cons.IH [OF s1(2)] Cons.prems(2) by auto
  show ?case
    unfolding list.map concat.simps transmit_append [of "w @ [NEWLINE]"] s1(1) Let_def split_conv s2(1) using s2(2) by simp
qed simp

text \<open>A byte sent in loopback mode stays in the receive queue, since reading in that mode does not take it out; after the mode
  is left the guest reads it as received data.\<close>

lemma loopback_byte_stays:
  assumes "loopback s" "\<not> dlab s" "rx_fifo s = []" "base_port s = 0x3F8"
  shows "\<exists>s1 d1 s2 d2 s3 d3. serial_write io 0x3F8 (ucast (b :: u8)) (s, d) = (s1, d1, None) \<and>
    serial_read io 0x3F8 (s1, d1) = Some (ucast b, s1, d1) \<and> serial_write io 0x3FC 0 (s1, d1) = (s2, d2, None) \<and>
    serial_read io 0x3F8 (s2, d2) = Some (ucast b, s3, d3)"
proof -
  have u: "(ucast (ucast b :: u64) :: u8) = b" by (rule bit_word_eqI) (auto simp: bit_unsigned_iff possible_bit_def)
  show ?thesis using assms
    by (simp add: serial_write_def serial_read_def write_thr_def read_rbr_def Let_def u)
qed

end
