(* ===== verification/Dev_Bus.thy ===== *)
theory Dev_Bus
  imports Rust_Prelude
begin

text \<open>
  The system bus of the Reindeer hypervisor (\<^verbatim>\<open>device/mod.rs\<close>), the list of devices the guest machine registers on it
  (\<^verbatim>\<open>guest_machine.rs\<close>), and the PCI host bridge (\<^verbatim>\<open>device/pci/mod.rs\<close>). A device on the bus is a name of an
  arbitrary type; its handlers are arguments of the dispatch functions. \<open>None\<close> from a registration is a failed assertion.

  The lemmas show which device an access reaches: for ports the one registered last, for memory the first range in address
  order, so the ports of the platform devices cannot be taken over by the devices of the virtual machine's options.
\<close>

section \<open>Bus\<close>

datatype device_resource =
    IoPort u16
  | IoPortRange u16 u16
  | Mmio u64 u64

record 'dev mmio_entry =
  range_start :: u64
  range_last :: u64
  mmio_device :: 'dev

record 'dev system_bus =
  io_map :: "u16 \<rightharpoonup> 'dev"
  mmio_map :: "'dev mmio_entry list"
  devices :: "'dev list"

definition system_bus_new :: "'dev system_bus" where
  "system_bus_new = \<lparr>io_map = Map.empty, mmio_map = [], devices = []\<rparr>"

definition port_range :: "u16 \<Rightarrow> u16 \<Rightarrow> u16 list" where
  "port_range base end = map of_nat [unat base..<unat end]"

definition checked_add_u16 :: "u16 \<Rightarrow> u16 \<Rightarrow> u16 option" where
  "checked_add_u16 a b = (if unat a + unat b < 2 ^ 16 then Some (a + b) else None)"

definition map_mmio :: "u64 \<Rightarrow> u64 \<Rightarrow> 'dev \<Rightarrow> 'dev system_bus \<Rightarrow> 'dev system_bus option" where
  "map_mmio base sz dev bus =
     (if 0 < sz
      then Some (bus\<lparr>mmio_map := sort_key range_start
             (mmio_map bus @ [\<lparr>range_start = base, range_last = base + sz - 1, mmio_device = dev\<rparr>])\<rparr>)
      else None)"

definition unmap_mmio :: "u64 \<Rightarrow> u64 \<Rightarrow> 'dev system_bus \<Rightarrow> 'dev system_bus" where
  "unmap_mmio base sz bus =
     (if sz = 0 then bus
      else bus\<lparr>mmio_map := filter (\<lambda>e. \<not> (range_start e = base \<and> range_last e = base + sz - 1)) (mmio_map bus)\<rparr>)"

definition map_io_range :: "u16 \<Rightarrow> u16 \<Rightarrow> 'dev \<Rightarrow> 'dev system_bus \<Rightarrow> 'dev system_bus option" where
  "map_io_range base sz dev bus =
     (if 0 < sz then map_option (\<lambda>end. bus\<lparr>io_map := fold (\<lambda>port m. m(port \<mapsto> dev)) (port_range base end) (io_map bus)\<rparr>)
                      (checked_add_u16 base sz)
      else None)"

definition unmap_io_range :: "u16 \<Rightarrow> u16 \<Rightarrow> 'dev system_bus \<Rightarrow> 'dev system_bus" where
  "unmap_io_range base sz bus =
     (if sz = 0 then bus
      else case checked_add_u16 base sz of
             None \<Rightarrow> bus
           | Some end \<Rightarrow> bus\<lparr>io_map := fold (\<lambda>port m. m(port := None)) (port_range base end) (io_map bus)\<rparr>)"

fun map_resource :: "'dev \<Rightarrow> device_resource \<Rightarrow> 'dev system_bus \<Rightarrow> 'dev system_bus option" where
  "map_resource dev (IoPort port) bus = Some (bus\<lparr>io_map := (io_map bus)(port \<mapsto> dev)\<rparr>)"
| "map_resource dev (IoPortRange base sz) bus = map_io_range base sz dev bus"
| "map_resource dev (Mmio base sz) bus = map_mmio base sz dev bus"

fun map_resources :: "'dev \<Rightarrow> device_resource list \<Rightarrow> 'dev system_bus \<Rightarrow> 'dev system_bus option" where
  "map_resources dev [] bus = Some bus"
| "map_resources dev (r # rs) bus = Option.bind (map_resource dev r bus) (map_resources dev rs)"

definition register_device :: "('dev \<Rightarrow> device_resource list) \<Rightarrow> 'dev \<Rightarrow> 'dev system_bus \<Rightarrow> 'dev system_bus option" where
  "register_device resources dev bus =
     map_option (\<lambda>bus'. bus'\<lparr>devices := devices bus' @ [dev]\<rparr>) (map_resources dev (resources dev) bus)"

definition uart_base :: "device_resource \<Rightarrow> u16 option" where
  "uart_base r = (case r of IoPort port \<Rightarrow> Some port | IoPortRange base sz \<Rightarrow> (if 8 \<le> sz then Some base else None) | Mmio _ _ \<Rightarrow> None)"

definition uart_io_bases :: "('dev \<Rightarrow> device_resource list) \<Rightarrow> 'dev system_bus \<Rightarrow> u16 list" where
  "uart_io_bases resources bus =
     take 4 (remdups_adj (sort (filter (\<lambda>port. port \<in> {0x3F8, 0x2F8, 0x3E8, 0x2E8})
       (List.map_filter uart_base (concat (map resources (devices bus)))))))"

definition legacy_ranges :: "(u16 \<times> u16) list" where
  "legacy_ranges =
     [(0x00, 0x0f), (0x80, 0x8f), (0xc0, 0xdf), (0x3f8, 0x3ff), (0x2f8, 0x2ff), (0x3e8, 0x3ef), (0x2e8, 0x2ef),
      (0x1f0, 0x1f7), (0x3f6, 0x3f6), (0x170, 0x177), (0x376, 0x376), (0x3bc, 0x3be), (0x378, 0x37a), (0x278, 0x27a),
      (0x7bc, 0x7be), (0x778, 0x77a), (0x678, 0x67a), (0x3f0, 0x3f5), (0x3f7, 0x3f7), (0x377, 0x377), (0x200, 0x20f),
      (0x100, 0x11f), (0x6a, 0x6b), (0x6d, 0x6d), (0x91, 0x91), (0x162e, 0x162f), (0x164e, 0x164f), (0x2100, 0x210f),
      (0x60, 0x60), (0x64, 0x64), (0x2e, 0x2f), (0x4e, 0x4f), (0x258, 0x259), (0x300, 0x370), (0x220, 0x2ff),
      (0x3e0, 0x3e4), (0x211, 0x211), (0x218, 0x21a)]"

definition is_legacy_device_port :: "u16 \<Rightarrow> bool" where
  "is_legacy_device_port port = list_ex (\<lambda>(a, b). a \<le> port \<and> port \<le> b) legacy_ranges"

definition reads_zero :: "u16 \<Rightarrow> bool" where
  "reads_zero port \<longleftrightarrow> 0x1f0 \<le> port \<and> port \<le> 0x1f7 \<or> port = 0x3f6 \<or> 0x170 \<le> port \<and> port \<le> 0x177 \<or> port = 0x376 \<or>
     port = 0x60 \<or> port = 0x64"

text \<open>The handlers are state transformers of the machine that may panic.\<close>

definition dispatch_io_read :: "('dev \<Rightarrow> u64 \<Rightarrow> u8 \<Rightarrow> 'm \<Rightarrow> (u64 \<times> 'm) option) \<Rightarrow> 'dev system_bus \<Rightarrow> u16 \<Rightarrow> u8 \<Rightarrow> 'm \<Rightarrow> (u64 \<times> 'm) option" where
  "dispatch_io_read handle_io_read bus port width m =
     (case io_map bus port of
        Some dev \<Rightarrow> handle_io_read dev (ucast port) width m
      | None \<Rightarrow>
          if is_legacy_device_port port then
            if reads_zero port then Some (0, m)
            else if width = 1 then Some (0xFF, m) else if width = 2 then Some (0xFFFF, m)
            else if width = 4 then Some (0xFFFFFFFF, m) else None
          else None)"

definition dispatch_io_write :: "('dev \<Rightarrow> u64 \<Rightarrow> u64 \<Rightarrow> u8 \<Rightarrow> 'm \<Rightarrow> 'm option) \<Rightarrow> 'dev system_bus \<Rightarrow> u16 \<Rightarrow> u8 \<Rightarrow> u64 \<Rightarrow> 'm \<Rightarrow> 'm option" where
  "dispatch_io_write handle_io_write bus port width val m =
     (case io_map bus port of
        Some dev \<Rightarrow> handle_io_write dev (ucast port) val width m
      | None \<Rightarrow> if is_legacy_device_port port then Some m else None)"

definition find_mmio :: "'dev system_bus \<Rightarrow> u64 \<Rightarrow> 'dev option" where
  "find_mmio bus addr = map_option mmio_device (find (\<lambda>e. range_start e \<le> addr \<and> addr \<le> range_last e) (mmio_map bus))"

definition dispatch_mmio_read :: "('dev \<Rightarrow> u64 \<Rightarrow> u8 \<Rightarrow> 'm \<Rightarrow> (u64 \<times> 'm) option) \<Rightarrow> 'dev system_bus \<Rightarrow> u64 \<Rightarrow> u8 \<Rightarrow> 'm \<Rightarrow> (u64 option \<times> 'm) option" where
  "dispatch_mmio_read handle_mmio_read bus addr width m =
     (case find_mmio bus addr of
        None \<Rightarrow> Some (None, m)
      | Some dev \<Rightarrow> map_option (\<lambda>(v, m'). (Some v, m')) (handle_mmio_read dev addr width m))"

definition dispatch_mmio_write :: "('dev \<Rightarrow> u64 \<Rightarrow> u64 \<Rightarrow> u8 \<Rightarrow> 'm \<Rightarrow> 'm option) \<Rightarrow> 'dev system_bus \<Rightarrow> u64 \<Rightarrow> u8 \<Rightarrow> u64 \<Rightarrow> 'm \<Rightarrow> (bool \<times> 'm) option" where
  "dispatch_mmio_write handle_mmio_write bus addr width val m =
     (case find_mmio bus addr of
        None \<Rightarrow> Some (False, m)
      | Some dev \<Rightarrow> map_option (Pair True) (handle_mmio_write dev addr val width m))"

section \<open>The guest machine's devices\<close>

datatype 'opt machine_device = Option 'opt | Pic | Pit | PmTimer | AcpiPm | Hpet | LocalApic | IoApic | Speaker

fun machine_resources :: "('opt \<Rightarrow> device_resource list) \<Rightarrow> 'opt machine_device \<Rightarrow> device_resource list" where
  "machine_resources opts (Option i) = opts i"
| "machine_resources opts Pic = [IoPortRange 0x20 2, IoPortRange 0xA0 2]"
| "machine_resources opts Pit = [IoPort 0x40, IoPort 0x41, IoPort 0x42, IoPort 0x43]"
| "machine_resources opts PmTimer = [IoPortRange 0x608 4]"
| "machine_resources opts AcpiPm = [IoPortRange 0x600 6]"
| "machine_resources opts Hpet = [Mmio 0xFED00000 0x400]"
| "machine_resources opts LocalApic = [Mmio 0xFEE00000 0x1000]"
| "machine_resources opts IoApic = [Mmio 0xFEC00000 0x1000]"
| "machine_resources opts Speaker = [IoPort 0x61]"

fun register_all :: "('dev \<Rightarrow> device_resource list) \<Rightarrow> 'dev list \<Rightarrow> 'dev system_bus \<Rightarrow> 'dev system_bus option" where
  "register_all resources [] bus = Some bus"
| "register_all resources (dev # devs) bus = Option.bind (register_device resources dev bus) (register_all resources devs)"

definition platform :: "'opt machine_device list" where
  "platform = [Pic, Pit, PmTimer, AcpiPm, Hpet, LocalApic, IoApic, Speaker]"

definition attach_devices :: "('opt \<Rightarrow> device_resource list) \<Rightarrow> 'opt list \<Rightarrow> 'opt machine_device system_bus option" where
  "attach_devices opts option_devices =
     register_all (machine_resources opts) (map Option option_devices @ platform) system_bus_new"

section \<open>PCI host bridge\<close>

definition CONFIG_ADDR_BASE :: u64 where "CONFIG_ADDR_BASE = 0xCF8"
definition CONFIG_DATA_BASE :: u64 where "CONFIG_DATA_BASE = 0xCFC"
definition CONFIG_REG_SIZE :: u64 where "CONFIG_REG_SIZE = 4"

record pci_address =
  pci_bus :: u8
  pci_device :: u8
  pci_function :: u8

definition get_address :: "u32 \<Rightarrow> pci_address" where
  "get_address addr = \<lparr>pci_bus = ucast (drop_bit 16 addr AND 0xFF), pci_device = ucast (drop_bit 11 addr AND 0x1F),
     pci_function = ucast (drop_bit 8 addr AND 0x07)\<rparr>"

definition pci_get_offset :: "u32 \<Rightarrow> u16" where
  "pci_get_offset addr = ucast (addr AND 0xFC)"

definition check_access :: "u64 \<Rightarrow> u64 \<Rightarrow> u8 \<Rightarrow> bool" where
  "check_access base addr width \<longleftrightarrow>
     (width = 1 \<or> width = 2 \<or> width = 4) \<and> \<not> (addr < base \<or> base + CONFIG_REG_SIZE < addr + ucast width)"

definition merge_config_address :: "u64 \<Rightarrow> u64 \<Rightarrow> u8 \<Rightarrow> u32 \<Rightarrow> u32 option" where
  "merge_config_address addr val width config_address =
     (if check_access CONFIG_ADDR_BASE addr width then
        if width = 4 then Some (ucast val)
        else let shift = unat ((addr - CONFIG_ADDR_BASE) * 8); m = (if width = 1 then 0xFF else 0xFFFF);
                 shifted_mask = push_bit shift m; shifted_value = push_bit shift (ucast val AND m)
             in Some ((config_address AND NOT shifted_mask) OR shifted_value)
      else None)"

definition read_config_address :: "u64 \<Rightarrow> u8 \<Rightarrow> u32 \<Rightarrow> u64 option" where
  "read_config_address addr width config_address =
     (if check_access CONFIG_ADDR_BASE addr width then
        let shift = unat ((addr - CONFIG_ADDR_BASE) * 8); m = (if width = 1 then 0xFF else if width = 2 then 0xFFFF else 0xFFFFFFFF)
        in Some (ucast (drop_bit shift config_address AND m))
      else None)"

definition config_data_offset :: "u64 \<Rightarrow> u32 \<Rightarrow> u16" where
  "config_data_offset addr config_address = pci_get_offset config_address + ucast (addr - CONFIG_DATA_BASE)"

text \<open>\<open>config_read\<close> and \<open>config_write\<close> are the functions of the device found at an address.\<close>

definition pci_io_read :: "(pci_address \<rightharpoonup> (u16 \<Rightarrow> u8 \<Rightarrow> u64)) \<Rightarrow> u64 \<Rightarrow> u8 \<Rightarrow> u32 \<Rightarrow> u64 option" where
  "pci_io_read config_read addr width config_address =
     (if 0xCF8 \<le> addr \<and> addr \<le> 0xCFB then read_config_address addr width config_address
      else if 0xCFC \<le> addr \<and> addr \<le> 0xCFF then
        if check_access CONFIG_DATA_BASE addr width then
          Some (case config_read (get_address config_address) of
                  Some f \<Rightarrow> f (config_data_offset addr config_address) width
                | None \<Rightarrow> 0xFFFFFFFFFFFFFFFF)
        else None
      else if 0xC000 \<le> addr \<and> addr \<le> 0xCFFF then Some 0xFFFFFFFF
      else None)"

definition pci_io_write :: "(pci_address \<rightharpoonup> (u16 \<Rightarrow> u64 \<Rightarrow> u8 \<Rightarrow> 'd \<Rightarrow> 'd)) \<Rightarrow> u64 \<Rightarrow> u64 \<Rightarrow> u8 \<Rightarrow> u32 \<times> 'd \<Rightarrow> (u32 \<times> 'd) option" where
  "pci_io_write config_write addr val width = (\<lambda>(config_address, d).
     if 0xCF8 \<le> addr \<and> addr \<le> 0xCFB then map_option (\<lambda>a. (a, d)) (merge_config_address addr val width config_address)
     else if 0xCFC \<le> addr \<and> addr \<le> 0xCFF then
       if check_access CONFIG_DATA_BASE addr width then
         Some (config_address, case config_write (get_address config_address) of
                 Some f \<Rightarrow> f (config_data_offset addr config_address) val width d
               | None \<Rightarrow> d)
       else None
     else None)"

section \<open>Which device a port access reaches\<close>

fun ports_of :: "device_resource \<Rightarrow> u16 set" where
  "ports_of (IoPort port) = {port}"
| "ports_of (IoPortRange base sz) = {p. unat base \<le> unat p \<and> unat p < unat base + unat sz}"
| "ports_of (Mmio base sz) = {}"

definition claims_port :: "('dev \<Rightarrow> device_resource list) \<Rightarrow> u16 \<Rightarrow> 'dev \<Rightarrow> bool" where
  "claims_port resources p dev \<longleftrightarrow> list_ex (\<lambda>r. p \<in> ports_of r) (resources dev)"

lemma fold_map_upd: "fold (\<lambda>k m. m(k \<mapsto> v)) ks m = (\<lambda>k. if k \<in> set ks then Some v else m k)"
  by (induction ks arbitrary: m) (auto simp: fun_eq_iff)

lemma set_port_range: "set (port_range base end) = {p. unat base \<le> unat p \<and> unat p < unat end}"
proof -
  have "n < 2 ^ 16" if "n < unat (end :: u16)" for n using that unsigned_less [of "end", where ?'a = nat] by simp
  then have "unat (of_nat n :: u16) = n" if "n < unat end" for n using that unat_of_nat_len [where ?'a = 16] by auto
  moreover have "p = of_nat (unat p)" for p :: u16 by simp
  ultimately show ?thesis unfolding port_range_def set_map set_upt by (auto intro!: image_eqI)
qed

lemma map_resource_io:
  "map_resource dev r bus = Some bus' \<Longrightarrow> io_map bus' p = (if p \<in> ports_of r then Some dev else io_map bus p)"
proof (cases r)
  case (IoPortRange base sz)
  assume m: "map_resource dev r bus = Some bus'"
  then have "unat (base + sz) = unat base + unat sz"
    using IoPortRange by (auto simp: map_io_range_def checked_add_u16_def unat_add_lem [THEN iffD1] split: if_splits)
  with m IoPortRange show ?thesis
    by (auto simp: map_io_range_def checked_add_u16_def fold_map_upd set_port_range split: if_splits)
qed (auto simp: map_mmio_def split: if_splits)

lemma map_resources_io:
  "map_resources dev rs bus = Some bus' \<Longrightarrow> io_map bus' p = (if list_ex (\<lambda>r. p \<in> ports_of r) rs then Some dev else io_map bus p)"
proof (induction rs arbitrary: bus)
  case (Cons r rs)
  then obtain bus1 where b: "map_resource dev r bus = Some bus1" "map_resources dev rs bus1 = Some bus'"
    by (auto simp: bind_eq_Some_conv)
  then show ?case using Cons.IH [OF b(2)] map_resource_io [OF b(1), of p] by simp
qed simp

lemma find_append: "find P (xs @ ys) = (case find P xs of Some y \<Rightarrow> Some y | None \<Rightarrow> find P ys)"
  by (induction xs) auto

lemma register_all_io:
  "register_all resources devs bus = Some bus' \<Longrightarrow>
     io_map bus' p = (case find (claims_port resources p) (rev devs) of Some dev \<Rightarrow> Some dev | None \<Rightarrow> io_map bus p)"
proof (induction devs arbitrary: bus)
  case (Cons dev devs)
  then obtain bus1 where b: "register_device resources dev bus = Some bus1" "register_all resources devs bus1 = Some bus'"
    by (auto simp: bind_eq_Some_conv)
  have "io_map bus1 p = (if claims_port resources p dev then Some dev else io_map bus p)"
    using b(1) map_resources_io [of dev "resources dev" bus _ p] by (auto simp: register_device_def claims_port_def)
  then show ?case using Cons.IH [OF b(2)] by (auto simp: find_append split: option.split)
qed simp

section \<open>Which device a memory access reaches\<close>

fun entry_of :: "'dev \<Rightarrow> device_resource \<Rightarrow> 'dev mmio_entry list" where
  "entry_of dev (Mmio base sz) = [\<lparr>range_start = base, range_last = base + sz - 1, mmio_device = dev\<rparr>]"
| "entry_of dev _ = []"

definition entries_of :: "('dev \<Rightarrow> device_resource list) \<Rightarrow> 'dev \<Rightarrow> 'dev mmio_entry list" where
  "entries_of resources dev = concat (map (entry_of dev) (resources dev))"

lemma map_resources_mmio:
  "map_resources dev rs bus = Some bus' \<Longrightarrow> set (mmio_map bus') = set (mmio_map bus) \<union> set (concat (map (entry_of dev) rs))"
proof (induction rs arbitrary: bus)
  case (Cons r rs)
  then obtain bus1 where b: "map_resource dev r bus = Some bus1" "map_resources dev rs bus1 = Some bus'"
    by (auto simp: bind_eq_Some_conv)
  have "set (mmio_map bus1) = set (mmio_map bus) \<union> set (entry_of dev r)"
    using b(1) by (cases r) (auto simp: map_io_range_def map_mmio_def split: if_splits)
  then show ?case using Cons.IH [OF b(2)] by auto
qed simp

lemma register_all_mmio:
  "register_all resources devs bus = Some bus' \<Longrightarrow>
     set (mmio_map bus') = set (mmio_map bus) \<union> set (concat (map (entries_of resources) devs))"
proof (induction devs arbitrary: bus)
  case (Cons dev devs)
  then obtain bus1 where b: "register_device resources dev bus = Some bus1" "register_all resources devs bus1 = Some bus'"
    by (auto simp: bind_eq_Some_conv)
  have "set (mmio_map bus1) = set (mmio_map bus) \<union> set (entries_of resources dev)"
    using b(1) map_resources_mmio [of dev "resources dev" bus] by (auto simp: register_device_def entries_of_def)
  then show ?case using Cons.IH [OF b(2)] by auto
qed simp

lemma find_mmio_unique:
  assumes "\<And>e. e \<in> set (mmio_map bus) \<Longrightarrow> range_start e \<le> addr \<and> addr \<le> range_last e \<longleftrightarrow> e = x" "x \<in> set (mmio_map bus)"
  shows "find_mmio bus addr = Some (mmio_device x)"
proof -
  have "find (\<lambda>e. range_start e \<le> addr \<and> addr \<le> range_last e) es = Some x" if "set es \<subseteq> set (mmio_map bus)" "x \<in> set es" for es
    using that by (induction es) (auto simp: assms(1))
  with assms(2) show ?thesis by (simp add: find_mmio_def)
qed

section \<open>Routing in the guest machine\<close>

text \<open>The port of a platform device, and the memory ranges of the platform.\<close>

definition platform_port :: "u16 \<Rightarrow> 'opt machine_device option" where
  "platform_port p =
     (if p = 0x61 then Some Speaker
      else if p \<in> {0x600, 0x601, 0x602, 0x603, 0x604, 0x605} then Some AcpiPm
      else if p \<in> {0x608, 0x609, 0x60A, 0x60B} then Some PmTimer
      else if p \<in> {0x40, 0x41, 0x42, 0x43} then Some Pit
      else if p \<in> {0x20, 0x21, 0xA0, 0xA1} then Some Pic
      else None)"

definition platform_memory :: "u64 \<Rightarrow> 'opt machine_device option" where
  "platform_memory a =
     (if 0xFEC00000 \<le> a \<and> a < 0xFEC01000 then Some IoApic
      else if 0xFED00000 \<le> a \<and> a < 0xFED00400 then Some Hpet
      else if 0xFEE00000 \<le> a \<and> a < 0xFEE01000 then Some LocalApic
      else None)"

lemma claims_platform:
  "claims_port (machine_resources opts) p Pic \<longleftrightarrow> p \<in> {0x20, 0x21, 0xA0, 0xA1}"
  "claims_port (machine_resources opts) p Pit \<longleftrightarrow> p \<in> {0x40, 0x41, 0x42, 0x43}"
  "claims_port (machine_resources opts) p PmTimer \<longleftrightarrow> p \<in> {0x608, 0x609, 0x60A, 0x60B}"
  "claims_port (machine_resources opts) p AcpiPm \<longleftrightarrow> p \<in> {0x600, 0x601, 0x602, 0x603, 0x604, 0x605}"
  "\<not> claims_port (machine_resources opts) p Hpet" "\<not> claims_port (machine_resources opts) p LocalApic"
  "\<not> claims_port (machine_resources opts) p IoApic" "claims_port (machine_resources opts) p Speaker \<longleftrightarrow> p = 0x61"
  by (auto simp: claims_port_def word_unat_eq_iff)

lemma platform_claims:
  "find (claims_port (machine_resources opts) p) (rev platform) = platform_port p"
  by (simp add: platform_def platform_port_def claims_platform)

definition platform_entries :: "'opt machine_device mmio_entry list" where
  "platform_entries =
     [\<lparr>range_start = 0xFED00000, range_last = 0xFED003FF, mmio_device = Hpet\<rparr>,
      \<lparr>range_start = 0xFEE00000, range_last = 0xFEE00FFF, mmio_device = LocalApic\<rparr>,
      \<lparr>range_start = 0xFEC00000, range_last = 0xFEC00FFF, mmio_device = IoApic\<rparr>]"

lemma platform_entries_of: "concat (map (entries_of (machine_resources opts)) platform) = platform_entries"
  by (simp add: platform_def entries_of_def platform_entries_def)

lemma find_platform:
  assumes "set (mmio_map bus) = set platform_entries"
  shows "find_mmio bus addr = platform_memory addr"
proof -
  let ?io = "\<lparr>range_start = 0xFEC00000, range_last = 0xFEC00FFF, mmio_device = IoApic\<rparr> :: 'a machine_device mmio_entry"
  let ?hpet = "\<lparr>range_start = 0xFED00000, range_last = 0xFED003FF, mmio_device = Hpet\<rparr> :: 'a machine_device mmio_entry"
  let ?lapic = "\<lparr>range_start = 0xFEE00000, range_last = 0xFEE00FFF, mmio_device = LocalApic\<rparr> :: 'a machine_device mmio_entry"
  have mem: "e \<in> set (mmio_map bus) \<longleftrightarrow> e = ?hpet \<or> e = ?lapic \<or> e = ?io" for e
    using assms by (simp add: platform_entries_def)
  have hit: "find_mmio bus addr = Some (mmio_device x)"
    if "x = ?hpet \<or> x = ?lapic \<or> x = ?io" "range_start x \<le> addr \<and> addr \<le> range_last x" for x
  proof (rule find_mmio_unique)
    fix e assume "e \<in> set (mmio_map bus)"
    then show "range_start e \<le> addr \<and> addr \<le> range_last e \<longleftrightarrow> e = x"
      using that unfolding mem by (elim disjE; hypsubst; simp add: word_le_nat_alt)
  qed (use that(1) mem in blast)
  have le: "addr < 0xFEC01000 \<longleftrightarrow> addr \<le> 0xFEC00FFF" "addr < 0xFED00400 \<longleftrightarrow> addr \<le> 0xFED003FF"
    "addr < 0xFEE01000 \<longleftrightarrow> addr \<le> 0xFEE00FFF" by (auto simp: word_le_nat_alt word_less_nat_alt)
  show ?thesis
  proof (cases "\<exists>x. (x = ?hpet \<or> x = ?lapic \<or> x = ?io) \<and> range_start x \<le> addr \<and> addr \<le> range_last x")
    case True
    then obtain x where x: "x = ?hpet \<or> x = ?lapic \<or> x = ?io" "range_start x \<le> addr \<and> addr \<le> range_last x" by blast
    show ?thesis
      unfolding hit [OF x] platform_memory_def le using x by (elim disjE; hypsubst; simp add: word_le_nat_alt)
  next
    case False
    then have "find (\<lambda>e. range_start e \<le> addr \<and> addr \<le> range_last e) (mmio_map bus) = None"
      unfolding find_None_iff mem by blast
    moreover have "\<not> (range_start ?io \<le> addr \<and> addr \<le> range_last ?io)" "\<not> (range_start ?hpet \<le> addr \<and> addr \<le> range_last ?hpet)"
      "\<not> (range_start ?lapic \<le> addr \<and> addr \<le> range_last ?lapic)" using False by blast+
    ultimately show ?thesis by (simp add: find_mmio_def platform_memory_def le)
  qed
qed

text \<open>C17: accesses of the guest reach the right device. In the bus that \<open>attach_devices\<close> builds, a port of a platform device
  leads to that device whatever ports the option devices claim, and any other port leads to the last option device that claims
  it, if there is one. When the option devices claim no memory, an address leads to the I/O APIC, the event timer or the
  local APICs exactly within their ranges and to nothing elsewhere.\<close>

theorem machine_routing:
  assumes "attach_devices opts option_devices = Some bus"
  shows "io_map bus p = (case platform_port p of
      Some dev \<Rightarrow> Some dev
    | None \<Rightarrow> find (claims_port (machine_resources opts) p) (rev (map Option option_devices))) \<and>
    (list_ex (\<lambda>i. entries_of opts i \<noteq> []) option_devices \<or> find_mmio bus addr = platform_memory addr)"
proof
  have reg: "register_all (machine_resources opts) (map Option option_devices @ platform) system_bus_new = Some bus"
    using assms by (simp add: attach_devices_def)
  show "io_map bus p = (case platform_port p of
      Some dev \<Rightarrow> Some dev
    | None \<Rightarrow> find (claims_port (machine_resources opts) p) (rev (map Option option_devices)))"
    using register_all_io [OF reg, of p]
    by (simp add: find_append platform_claims system_bus_new_def split: option.split)
  have set: "set (mmio_map bus) = set (concat (map (entries_of (machine_resources opts)) (map Option option_devices))) \<union> set platform_entries"
    using register_all_mmio [OF reg] by (simp add: system_bus_new_def platform_entries_of del: set_concat)
  have none: "entries_of (machine_resources opts) (Option i) = []" if "entries_of opts i = []" for i
  proof -
    have "entry_of (Option i) r = []" if "entry_of i r = []" for r using that by (cases r) auto
    with that show ?thesis by (simp add: entries_of_def)
  qed
  show "list_ex (\<lambda>i. entries_of opts i \<noteq> []) option_devices \<or> find_mmio bus addr = platform_memory addr"
  proof (cases "list_ex (\<lambda>i. entries_of opts i \<noteq> []) option_devices")
    case False
    then have "concat (map (entries_of (machine_resources opts)) (map Option option_devices)) = []"
      using none by (auto simp: list_ex_iff)
    then show ?thesis using set by (simp add: find_platform)
  qed simp
qed

text \<open>Registration succeeds when every range is non-empty and no port range runs over the end of the port space.\<close>

fun resource_ok :: "device_resource \<Rightarrow> bool" where
  "resource_ok (IoPort port) = True"
| "resource_ok (IoPortRange base sz) = (0 < sz \<and> unat base + unat sz < 2 ^ 16)"
| "resource_ok (Mmio base sz) = (0 < sz)"

lemma map_resources_ok: "list_all resource_ok rs \<Longrightarrow> \<exists>bus'. map_resources dev rs bus = Some bus'"
proof (induction rs arbitrary: bus)
  case (Cons r rs)
  then have "\<exists>bus1. map_resource dev r bus = Some bus1"
    by (cases r) (auto simp: map_io_range_def map_mmio_def checked_add_u16_def)
  with Cons show ?case by auto
qed simp

lemma register_all_ok:
  "list_all (\<lambda>dev. list_all resource_ok (resources dev)) devs \<Longrightarrow> \<exists>bus'. register_all resources devs bus = Some bus'"
proof (induction devs arbitrary: bus)
  case (Cons dev devs)
  then obtain bus1 where "register_device resources dev bus = Some bus1"
    using map_resources_ok [of "resources dev" dev bus] by (auto simp: register_device_def)
  with Cons show ?case by auto
qed simp

lemma attach_devices_ok:
  assumes "list_all (\<lambda>i. list_all resource_ok (opts i)) option_devices"
  shows "\<exists>bus. attach_devices opts option_devices = Some bus"
  unfolding attach_devices_def
  by (rule register_all_ok) (use assms in \<open>simp add: platform_def list_all_iff\<close>)

theorem machine_routing_witness:
  "\<exists>bus :: unit machine_device system_bus. attach_devices (\<lambda>_. [IoPortRange 0x20 8]) [()] = Some bus \<and>
     io_map bus 0x21 = Some Pic \<and> io_map bus 0x22 = Some (Option ()) \<and> find_mmio bus 0xFEE00020 = Some LocalApic"
proof -
  obtain bus where b: "attach_devices (\<lambda>_ :: unit. [IoPortRange 0x20 8]) [()] = Some bus"
    using attach_devices_ok [of "\<lambda>_. [IoPortRange 0x20 8]" "[()]"] by auto
  show ?thesis
    using b machine_routing [OF b, of "0x21" "0xFEE00020"] machine_routing [OF b, of "0x22" "0xFEE00020"]
    by (simp add: platform_port_def platform_memory_def claims_port_def entries_of_def)
qed

section \<open>The configuration address register\<close>

lemma merged_bits:
  assumes "sh + w \<le> 32"
  shows "drop_bit sh ((c AND NOT (push_bit sh (mask w))) OR push_bit sh (v AND mask w)) AND mask w = (v AND mask w :: u32)"
proof (rule bit_word_eqI)
  fix n assume "n < LENGTH(32)"
  show "bit (drop_bit sh ((c AND NOT (push_bit sh (mask w))) OR push_bit sh (v AND mask w)) AND mask w) n = bit (v AND mask w) n"
    using assms by (auto simp: bit_and_iff bit_or_iff bit_not_iff bit_push_bit_iff bit_drop_bit_eq bit_mask_iff possible_bit_def)
qed

text \<open>What a guest writes to the configuration address register, a whole, a half or a byte of it, is what it reads there.\<close>

lemma ucast_masked: "w \<le> 32 \<Longrightarrow> (ucast ((ucast val :: u32) AND mask w) :: u64) = val AND mask w" for val :: u64
  by (rule bit_word_eqI) (auto simp: bit_and_iff bit_mask_iff bit_unsigned_iff possible_bit_def)

lemma config_address_read_back:
  assumes "check_access CONFIG_ADDR_BASE addr width" "addr \<le> 0xCFB"
  shows "\<exists>c'. merge_config_address addr val width c = Some c' \<and>
    read_config_address addr width c' = Some (val AND mask (8 * unat width))"
proof -
  define k where "k = unat (addr - 0xCF8)"
  have wd: "width = 1 \<or> width = 2 \<or> width = 4" and ge: "0xCF8 \<le> addr" and hi: "addr + ucast width \<le> 0xCFC"
    using assms by (auto simp: check_access_def CONFIG_ADDR_BASE_def CONFIG_REG_SIZE_def not_less)
  have k: "unat addr = 0xCF8 + k" "k \<le> 3" using ge assms(2) by (auto simp: k_def unat_sub word_le_nat_alt)
  have fit: "k + unat width \<le> 4"
  proof -
    have w: "unat (ucast width :: u64) = unat width" using wd by auto
    have "unat (addr + ucast width) = unat addr + unat width"
      using k wd by (subst unat_add_lem [THEN iffD1]) (auto simp: w)
    then show ?thesis using hi k by (simp add: word_le_nat_alt)
  qed
  have sh: "unat ((addr - CONFIG_ADDR_BASE) * 8) = 8 * k" using k(2) unfolding k_def CONFIG_ADDR_BASE_def
    by (subst unat_mult_lem [THEN iffD1]) simp_all
  show ?thesis
  proof (cases "width = 4")
    case True
    then have "k = 0" using fit by simp
    then have m: "(0xFFFFFFFF :: u32) = mask 32" "unat ((addr - CONFIG_ADDR_BASE) * 8) = 0" using sh by (simp_all add: mask_eq_exp_minus_1)
    show ?thesis
      unfolding merge_config_address_def read_config_address_def Let_def m
      using assms(1) True ucast_masked [of 32 val] by (simp del: mask_numeral)
  next
    case False
    then obtain w where w: "w = 8 * unat width" "8 * k + w \<le> 32" "w \<le> 32" "width = 1 \<and> w = 8 \<or> width = 2 \<and> w = 16"
      using wd fit by auto
    have m: "(if width = 1 then 0xFF else 0xFFFF) = (mask w :: u32)"
      "(if width = 1 then 0xFF else if width = 2 then 0xFFFF else 0xFFFFFFFF) = (mask w :: u32)"
      using w(4) by (auto simp: mask_eq_exp_minus_1)
    show ?thesis
      unfolding merge_config_address_def read_config_address_def Let_def m sh
      using assms(1) False merged_bits [OF w(2), of c "ucast val"] ucast_masked [OF w(3), of val] w(1) by simp
  qed
qed

end
