(* ===== verification/Guest_Paging.thy ===== *)
theory Guest_Paging
  imports Rust_Prelude
begin

text \<open>
  Guest page-table walks of the Reindeer hypervisor (\<^verbatim>\<open>guest/paging.rs\<close>). The second-level translation is an argument
  \<open>slat\<close>, and host memory is read through \<open>mem64\<close> and \<open>mem32\<close>, which give the value stored at a host address.

  The unrolled long-mode walk is proved equal to a recursive reference walk over the levels of the architecture, for tables whose
  entries have their upper twelve bits clear; with those bits set (the execute-disable bit is one of them) a large-page
  translation keeps them in the address.
\<close>

definition read_gpa :: "(u64 \<Rightarrow> u64 option) \<Rightarrow> (u64 \<Rightarrow> u64) \<Rightarrow> u64 \<Rightarrow> u64 option" where
  "read_gpa slat mem64 gpa = map_option mem64 (slat gpa)"

definition translate_long_mode :: "(u64 \<Rightarrow> u64 option) \<Rightarrow> (u64 \<Rightarrow> u64) \<Rightarrow> u64 \<Rightarrow> u64 \<Rightarrow> u64 option" where
  "translate_long_mode slat mem64 guest_va guest_cr3 =
     (let pml4_idx = drop_bit 39 guest_va AND 0x1FF; pdpt_idx = drop_bit 30 guest_va AND 0x1FF;
          pd_idx = drop_bit 21 guest_va AND 0x1FF; pt_idx = drop_bit 12 guest_va AND 0x1FF; offset = guest_va AND 0xFFF
      in case read_gpa slat mem64 ((guest_cr3 AND NOT 0xFFF) + pml4_idx * 8) of
           None \<Rightarrow> None
         | Some pml4_entry \<Rightarrow>
             if pml4_entry AND 1 = 0 then None
             else case read_gpa slat mem64 ((pml4_entry AND 0x000FFFFFFFFFF000) + pdpt_idx * 8) of
               None \<Rightarrow> None
             | Some pdpt_entry \<Rightarrow>
                 if pdpt_entry AND 1 = 0 then None
                 else if pdpt_entry AND 0x80 \<noteq> 0 then Some ((pdpt_entry AND NOT 0x3FFFFFFF) + (guest_va AND 0x3FFFFFFF))
                 else case read_gpa slat mem64 ((pdpt_entry AND 0x000FFFFFFFFFF000) + pd_idx * 8) of
                   None \<Rightarrow> None
                 | Some pd_entry \<Rightarrow>
                     if pd_entry AND 1 = 0 then None
                     else if pd_entry AND 0x80 \<noteq> 0 then Some ((pd_entry AND NOT 0x1FFFFF) + (guest_va AND 0x1FFFFF))
                     else case read_gpa slat mem64 ((pd_entry AND 0x000FFFFFFFFFF000) + pt_idx * 8) of
                       None \<Rightarrow> None
                     | Some pt_entry \<Rightarrow>
                         if pt_entry AND 1 = 0 then None else Some ((pt_entry AND 0x000FFFFFFFFFF000) + offset))"

definition translate_protected_mode :: "(u64 \<Rightarrow> u64 option) \<Rightarrow> (u64 \<Rightarrow> u32) \<Rightarrow> u32 \<Rightarrow> u32 \<Rightarrow> u64 option" where
  "translate_protected_mode slat mem32 gva cr3 =
     (case slat (ucast (cr3 AND NOT 0xFFF)) of
        None \<Rightarrow> None
      | Some pd_hva \<Rightarrow>
          if pd_hva = 0 then None
          else let directory_idx = ucast (drop_bit 22 gva) :: u64; pde = mem32 (pd_hva + directory_idx * 4)
               in if pde AND 1 = 0 then None
                  else if pde AND push_bit 7 1 \<noteq> 0 then Some ((ucast pde AND 0xFFC00000) OR (ucast gva AND 0x003FFFFF))
                  else case slat (ucast pde AND NOT 0xFFF) of
                         None \<Rightarrow> None
                       | Some pt_hva \<Rightarrow>
                           if pt_hva = 0 then None
                           else let table_idx = ucast (drop_bit 12 gva AND 0x3FF) :: u64; pte = mem32 (pt_hva + table_idx * 4)
                                in if pte AND 1 = 0 then None else Some ((ucast pte AND NOT 0xFFF) OR (ucast gva AND 0xFFF)))"

definition translate_instruction_gpa ::
    "(u64 \<Rightarrow> u64 option) \<Rightarrow> (u64 \<Rightarrow> u64) \<Rightarrow> (u64 \<Rightarrow> u32) \<Rightarrow> u64 \<Rightarrow> u64 \<Rightarrow> u64 \<Rightarrow> u32 \<Rightarrow> u64 option" where
  "translate_instruction_gpa slat mem64 mem32 address cr0 cr3 bitness =
     (if bitness = 64 then translate_long_mode slat mem64 address cr3
      else if cr0 AND push_bit 31 1 \<noteq> 0 then translate_protected_mode slat mem32 (ucast address) (ucast cr3)
      else Some address)"

section \<open>Reference walk\<close>

text \<open>The architecture's rule, level by level. At level \<open>n\<close> a table is indexed by the nine bits above \<open>12 + 9 * n\<close>; a present
  entry is a leaf at level 0, and at levels 1 and 2 when its page-size bit is set; a leaf maps \<open>2 ^ (12 + 9 * n)\<close> bytes at
  the address in its bits up to 51.\<close>

definition table_index :: "nat \<Rightarrow> u64 \<Rightarrow> u64" where
  "table_index level va = take_bit 9 (drop_bit (12 + 9 * level) va)"

definition entry_address :: "u64 \<Rightarrow> u64" where
  "entry_address e = push_bit 12 (take_bit 40 (drop_bit 12 e))"

definition leaf_address :: "nat \<Rightarrow> u64 \<Rightarrow> u64 \<Rightarrow> u64" where
  "leaf_address level e va =
     push_bit (12 + 9 * level) (drop_bit (12 + 9 * level) (entry_address e)) OR take_bit (12 + 9 * level) va"

fun page_walk :: "(u64 \<Rightarrow> u64 option) \<Rightarrow> nat \<Rightarrow> u64 \<Rightarrow> u64 \<Rightarrow> u64 option" where
  "page_walk entry level table va =
     (case entry (table + table_index level va * 8) of
        None \<Rightarrow> None
      | Some e \<Rightarrow>
          if \<not> bit e 0 then None
          else if level = 0 \<or> level \<le> 2 \<and> bit e 7 then Some (leaf_address level e va)
          else (case level of 0 \<Rightarrow> None | Suc below \<Rightarrow> page_walk entry below (entry_address e) va))"

declare page_walk.simps [simp del]

lemma test_bit_and: "(e AND push_bit n 1 = 0) = (\<not> bit e n)" for e :: u64
  by (metis and_exp_eq_0_iff_not_bit push_bit_of_1)

lemma present_bit: "(e AND 1 = 0) = (\<not> bit e 0)" "(e AND 0x80 \<noteq> 0) = bit e 7" for e :: u64
  using test_bit_and [of e 0] test_bit_and [of e 7] by simp_all

lemma mask_nums:
  "(0x1FF :: u64) = mask 9" "(0xFFF :: u64) = mask 12" "(0x1FFFFF :: u64) = mask 21" "(0x3FFFFFFF :: u64) = mask 30"
  by (simp_all add: mask_eq_exp_minus_1)

lemma index_eq: "drop_bit (12 + 9 * l) va AND 0x1FF = table_index l va"
  by (simp add: table_index_def mask_nums(1) take_bit_eq_mask del: mask_numeral)

lemma frame_mask: "(0x000FFFFFFFFFF000 :: u64) = push_bit 12 (mask 40)"
  by (simp add: mask_eq_exp_minus_1)

lemma entry_address_eq: "e AND 0x000FFFFFFFFFF000 = entry_address e"
  unfolding frame_mask entry_address_def
  by (rule bit_word_eqI) (auto simp: bit_and_iff bit_push_bit_iff bit_mask_iff bit_take_bit_iff bit_drop_bit_eq possible_bit_def)

lemma add_page_offset: "push_bit n (drop_bit n a) + take_bit n b = push_bit n (drop_bit n a) OR take_bit n b" for a b :: u64
proof -
  have "push_bit n (drop_bit n a) AND take_bit n b = 0"
    by (rule bit_word_eqI) (auto simp: bit_and_iff bit_push_bit_iff bit_take_bit_iff)
  then show ?thesis
    by (rule disjunctive_add_eq_or)
qed

lemma and_not_mask: "e AND NOT (mask n) = push_bit n (drop_bit n e)" for e :: u64
  by (rule bit_word_eqI) (auto simp: bit_and_iff bit_not_iff bit_mask_iff bit_push_bit_iff bit_drop_bit_eq possible_bit_def)

lemma leaf_eq: "(e AND NOT (mask (12 + 9 * l))) + (va AND mask (12 + 9 * l)) = leaf_address l e va" if "drop_bit 52 e = 0"
proof -
  have "entry_address e = push_bit 12 (drop_bit 12 e)"
  proof (rule bit_word_eqI)
    fix n assume "n < LENGTH(64)"
    have "\<not> bit e n" if "52 \<le> n"
    proof -
      have "bit e n = bit (drop_bit 52 e) (n - 52)"
        using that by (simp add: bit_drop_bit_eq)
      then show ?thesis
        by (simp add: \<open>drop_bit 52 e = 0\<close>)
    qed
    then show "bit (entry_address e) n = bit (push_bit 12 (drop_bit 12 e)) n"
      using \<open>n < LENGTH(64)\<close>
      by (cases "n < 52") (auto simp: entry_address_def bit_push_bit_iff bit_take_bit_iff bit_drop_bit_eq)
  qed
  then have "push_bit (12 + 9 * l) (drop_bit (12 + 9 * l) (entry_address e)) = push_bit (12 + 9 * l) (drop_bit (12 + 9 * l) e)"
    by (auto intro!: bit_word_eqI simp: bit_push_bit_iff bit_drop_bit_eq)
  then show ?thesis
    by (simp only: leaf_address_def and_not_mask take_bit_eq_mask [symmetric] add_page_offset)
qed

lemma low_mask: "e AND NOT 0xFFF = push_bit 12 (drop_bit 12 e)" "va AND 0xFFF = take_bit 12 va" for e va :: u64
  unfolding mask_nums(2) by (simp_all only: and_not_mask take_bit_eq_mask)

lemma large_leaf:
  assumes "drop_bit 52 e = 0"
  shows "(e AND NOT 0x3FFFFFFF) + (va AND 0x3FFFFFFF) = leaf_address 2 e va"
    and "(e AND NOT 0x1FFFFF) + (va AND 0x1FFFFF) = leaf_address 1 e va"
  using leaf_eq [OF assms, of 2 va] leaf_eq [OF assms, of 1 va] by (simp_all add: mask_eq_exp_minus_1)

lemma small_leaf: "entry_address e + (va AND 0xFFF) = leaf_address 0 e va"
proof -
  have "entry_address e = push_bit 12 (drop_bit 12 (entry_address e))"
    by (rule bit_word_eqI) (auto simp: entry_address_def bit_push_bit_iff bit_drop_bit_eq)
  then show ?thesis
    unfolding low_mask(2) leaf_address_def
    using add_page_offset [of 12 "entry_address e" va] by simp
qed

lemma page_walk_levels:
  "page_walk entry 3 table va = (case entry (table + table_index 3 va * 8) of None \<Rightarrow> None
     | Some e \<Rightarrow> if \<not> bit e 0 then None else page_walk entry 2 (entry_address e) va)"
  "page_walk entry 2 table va = (case entry (table + table_index 2 va * 8) of None \<Rightarrow> None
     | Some e \<Rightarrow> if \<not> bit e 0 then None else if bit e 7 then Some (leaf_address 2 e va) else page_walk entry 1 (entry_address e) va)"
  "page_walk entry 1 table va = (case entry (table + table_index 1 va * 8) of None \<Rightarrow> None
     | Some e \<Rightarrow> if \<not> bit e 0 then None else if bit e 7 then Some (leaf_address 1 e va) else page_walk entry 0 (entry_address e) va)"
  "page_walk entry 0 table va = (case entry (table + table_index 0 va * 8) of None \<Rightarrow> None
     | Some e \<Rightarrow> if \<not> bit e 0 then None else Some (leaf_address 0 e va))"
  by (subst page_walk.simps, simp split: option.split add: numeral_3_eq_3 numeral_2_eq_2)+

text \<open>C16: The unrolled four-level walk of \<open>translate_long_mode\<close> is the architecture's page walk: for every address, root and
  memory, when the entries that can be read have their bits 52 to 63 clear, it gives the translation of the recursive walk from
  level 3, and fails exactly when that walk does, whether for an absent entry or for a table the second level does not map.\<close>

theorem long_mode_is_page_walk:
  assumes "\<And>gpa e. read_gpa slat mem64 gpa = Some e \<Longrightarrow> drop_bit 52 e = 0"
  shows "translate_long_mode slat mem64 va cr3 = page_walk (read_gpa slat mem64) 3 (push_bit 12 (drop_bit 12 cr3)) va"
proof -
  have idx: "drop_bit 39 va AND 0x1FF = table_index 3 va" "drop_bit 30 va AND 0x1FF = table_index 2 va"
    "drop_bit 21 va AND 0x1FF = table_index 1 va" "drop_bit 12 va AND 0x1FF = table_index 0 va"
    using index_eq [of 3 va] index_eq [of 2 va] index_eq [of 1 va] index_eq [of 0 va] by simp_all
  show ?thesis
    unfolding translate_long_mode_def Let_def idx low_mask(1) entry_address_eq small_leaf present_bit
    by (auto simp: page_walk_levels [unfolded One_nat_def] large_leaf [OF assms, simplified] split: option.split)
qed

definition example_tables :: "u64 \<Rightarrow> u64 \<Rightarrow> u64" where
  "example_tables directory_entry a =
     (if a = 0x1000 then 0x2003 else if a = 0x2000 then 0x3003 else if a = 0x3008 then directory_entry else 0)"

theorem long_mode_is_page_walk_witness:
  "page_walk (read_gpa Some (example_tables 0x400083)) 3 (push_bit 12 (drop_bit 12 0x1000)) 0x200ABC = Some 0x400ABC"
proof -
  have clear: "drop_bit 52 e = 0" if "read_gpa Some (example_tables 0x400083) gpa = Some e" for gpa e
    using that by (auto simp: read_gpa_def example_tables_def split: if_splits)
  have "translate_long_mode Some (example_tables 0x400083) 0x200ABC 0x1000 = Some 0x400ABC"
    by (simp add: translate_long_mode_def read_gpa_def example_tables_def)
  then show ?thesis
    using long_mode_is_page_walk [of Some "example_tables 0x400083" "0x200ABC" "0x1000", OF clear] by simp
qed

lemma leaf_address_bound: "drop_bit 52 (leaf_address l e va) = 0" if "12 + 9 * l \<le> 52"
proof (rule bit_word_eqI)
  fix n assume "n < LENGTH(64)"
  show "bit (drop_bit 52 (leaf_address l e va)) n = bit (0 :: u64) n"
    using that by (auto simp: leaf_address_def entry_address_def bit_drop_bit_eq bit_or_iff bit_push_bit_iff bit_take_bit_iff)
qed

lemma leaf_upper_bits: "bit ((e AND NOT 0x1FFFFF) + (va AND 0x1FFFFF)) n = bit e n" if "21 \<le> n" "n < 64" for e va :: u64
  unfolding mask_nums(3) and_not_mask take_bit_eq_mask [symmetric] add_page_offset
  using that by (auto simp: bit_or_iff bit_push_bit_iff bit_take_bit_iff bit_drop_bit_eq)

text \<open>C31: A 2 MiB mapping with the execute-disable bit (bit 63) set is mistranslated. The mask of the small-page case is missing
  from the large-page leaf, so the guest-physical address handed on has bit 63 set, while the architecture's walk gives an
  address below \<open>2 ^ 52\<close>.\<close>

theorem large_page_keeps_nx:
  assumes pml4: "read_gpa slat mem64 (push_bit 12 (drop_bit 12 cr3) + table_index 3 va * 8) = Some e4" "bit e4 0"
    and pdpt: "read_gpa slat mem64 (entry_address e4 + table_index 2 va * 8) = Some e3" "bit e3 0" "\<not> bit e3 7"
    and pd: "read_gpa slat mem64 (entry_address e3 + table_index 1 va * 8) = Some e2" "bit e2 0" "bit e2 7" "bit e2 63"
  shows "\<exists>bad good. translate_long_mode slat mem64 va cr3 = Some bad \<and> bit bad 63
           \<and> page_walk (read_gpa slat mem64) 3 (push_bit 12 (drop_bit 12 cr3)) va = Some good \<and> drop_bit 52 good = 0"
proof -
  have idx: "drop_bit 39 va AND 0x1FF = table_index 3 va" "drop_bit 30 va AND 0x1FF = table_index 2 va"
    "drop_bit 21 va AND 0x1FF = table_index 1 va"
    using index_eq [of 3 va] index_eq [of 2 va] index_eq [of 1 va] by simp_all
  have "translate_long_mode slat mem64 va cr3 = Some ((e2 AND NOT 0x1FFFFF) + (va AND 0x1FFFFF))"
    unfolding translate_long_mode_def Let_def idx low_mask(1) entry_address_eq present_bit
    using assms by simp
  moreover have "page_walk (read_gpa slat mem64) 3 (push_bit 12 (drop_bit 12 cr3)) va = Some (leaf_address 1 e2 va)"
    unfolding page_walk_levels using assms by simp
  moreover have "bit ((e2 AND NOT 0x1FFFFF) + (va AND 0x1FFFFF)) 63"
    by (rule leaf_upper_bits [THEN iffD2]) (use pd in simp_all)
  moreover have "drop_bit 52 (leaf_address 1 e2 va) = 0"
    by (rule leaf_address_bound) simp
  ultimately show ?thesis
    by blast
qed

theorem large_page_keeps_nx_witness:
  "\<exists>bad good. translate_long_mode Some (example_tables 0x8000000000400083) 0x200ABC 0x1000 = Some bad \<and> bit bad 63
     \<and> page_walk (read_gpa Some (example_tables 0x8000000000400083)) 3 (push_bit 12 (drop_bit 12 0x1000)) 0x200ABC = Some good
     \<and> drop_bit 52 good = 0"
  by (rule large_page_keeps_nx [where ?e4.0 = "0x2003" and ?e3.0 = "0x3003" and ?e2.0 = "0x8000000000400083"])
    (simp_all add: read_gpa_def example_tables_def table_index_def entry_address_def)

end
