(* ===== verification/Page_Tree.thy ===== *)
theory Page_Tree
  imports Guest_Paging
begin

text \<open>
  Radix trees of 512-entry tables in a word-addressed memory, the common shape of the kernel's page tables and of the extended
  page tables of a guest. Memory gives the 64-bit word at an 8-byte-aligned physical address; an entry of the table at \<open>t\<close> is
  the word at \<open>t + 8 * i\<close>.

  The locale fixes how a format tells that an entry leads to a lower table and where that table is. It carries the separation
  argument once: tables of a tree never share a frame, so that a change confined to one subtree and to fresh frames changes the
  walks through that subtree and no others.
\<close>

type_synonym memory = "u64 \<Rightarrow> u64"

definition slot :: "u64 \<Rightarrow> u64 \<Rightarrow> u64" where
  "slot t i = t + i * 8"

definition frame_of :: "u64 \<Rightarrow> u64" where
  "frame_of a = push_bit 12 (drop_bit 12 a)"

definition aligned :: "u64 \<Rightarrow> bool" where
  "aligned a \<longleftrightarrow> frame_of a = a"

definition zero_frame :: "u64 \<Rightarrow> memory \<Rightarrow> memory" where
  "zero_frame f mem a = (if frame_of a = f then 0 else mem a)"

lemma frame_of_idem [simp]: "frame_of (frame_of a) = frame_of a"
  unfolding frame_of_def by (rule bit_word_eqI) (auto simp: bit_push_bit_iff bit_drop_bit_eq)

lemma aligned_frame_of [simp]: "aligned (frame_of a)"
  by (simp add: aligned_def)

lemma table_index_less [simp]: "table_index l va < 512"
proof -
  have "unat (table_index l va) = unat (drop_bit (12 + 9 * l) va) mod 2 ^ 9"
    unfolding table_index_def unsigned_take_bit_eq by (simp only: take_bit_eq_mod)
  then show ?thesis
    by (simp add: word_less_nat_alt)
qed

lemma slot_bits:
  assumes "aligned t" "i < 512"
  shows "frame_of (slot t i) = t" and "take_bit 12 (slot t i) = i * 8"
proof -
  have "unat i < 512"
    using assms(2) by (simp add: word_less_nat_alt)
  then have m: "unat (i * 8) = unat i * 8"
    by (simp add: unat_word_ariths)
  have low: "take_bit 12 (i * 8) = i * 8"
    unfolding word_unat_eq_iff unsigned_take_bit_eq m using \<open>unat i < 512\<close> by (simp add: take_bit_eq_mod)
  have or: "slot t i = push_bit 12 (drop_bit 12 t) OR take_bit 12 (i * 8)"
    unfolding slot_def using add_page_offset [of 12 t "i * 8"] assms(1) by (simp add: aligned_def frame_of_def low)
  have "frame_of (slot t i) = push_bit 12 (drop_bit 12 t)"
    unfolding or frame_of_def
    by (rule bit_word_eqI) (auto simp: bit_push_bit_iff bit_drop_bit_eq bit_or_iff bit_take_bit_iff)
  then show "frame_of (slot t i) = t"
    using assms(1) by (simp add: aligned_def frame_of_def)
  have "take_bit 12 (slot t i) = take_bit 12 (i * 8)"
    unfolding or by (rule bit_word_eqI) (auto simp: bit_push_bit_iff bit_drop_bit_eq bit_or_iff bit_take_bit_iff)
  then show "take_bit 12 (slot t i) = i * 8"
    by (simp add: low)
qed

lemma slot_inject:
  assumes "aligned t" "aligned t'" "i < 512" "j < 512"
  shows "slot t i = slot t' j \<longleftrightarrow> t = t' \<and> i = j"
proof
  assume eq: "slot t i = slot t' j"
  then have "t = t'" and "i * 8 = j * 8"
    using slot_bits [OF assms(1,3)] slot_bits [OF assms(2,4)] by metis+
  moreover have "unat (i * 8) = unat i * 8" "unat (j * 8) = unat j * 8"
    using assms(3,4) by (simp_all add: unat_word_ariths word_less_nat_alt)
  ultimately show "t = t' \<and> i = j"
    by (metis mult_right_cancel zero_neq_numeral word_unat_eq_iff)
qed simp

section \<open>Trees\<close>

locale table_format =
  fixes points :: "nat \<Rightarrow> u64 \<Rightarrow> bool" and target :: "u64 \<Rightarrow> u64"
  assumes zero_points [simp]: "\<not> points n 0"
begin

fun frames :: "memory \<Rightarrow> nat \<Rightarrow> u64 \<Rightarrow> u64 set" where
  "frames mem 0 t = {t}"
| "frames mem (Suc n) t = insert t (\<Union>i \<in> {i. i < 512 \<and> points (Suc n) (mem (slot t i))}. frames mem n (target (mem (slot t i))))"

fun tree :: "memory \<Rightarrow> nat \<Rightarrow> u64 \<Rightarrow> bool" where
  "tree mem 0 t = aligned t"
| "tree mem (Suc n) t \<longleftrightarrow> aligned t
     \<and> (\<forall>i < 512. points (Suc n) (mem (slot t i)) \<longrightarrow> tree mem n (target (mem (slot t i))) \<and> t \<notin> frames mem n (target (mem (slot t i))))
     \<and> (\<forall>i < 512. \<forall>j < 512. i \<noteq> j \<longrightarrow> points (Suc n) (mem (slot t i)) \<longrightarrow> points (Suc n) (mem (slot t j)) \<longrightarrow>
          frames mem n (target (mem (slot t i))) \<inter> frames mem n (target (mem (slot t j))) = {})"

fun walk :: "memory \<Rightarrow> nat \<Rightarrow> u64 \<Rightarrow> u64 \<Rightarrow> nat \<times> u64" where
  "walk mem 0 t va = (0, mem (slot t (table_index 0 va)))"
| "walk mem (Suc n) t va =
     (let e = mem (slot t (table_index (Suc n) va)) in if points (Suc n) e then walk mem n (target e) va else (Suc n, e))"

fun table_at :: "memory \<Rightarrow> nat \<Rightarrow> u64 \<Rightarrow> u64 \<Rightarrow> nat \<Rightarrow> u64 option" where
  "table_at mem 0 t va k = (if k = 0 then Some t else None)"
| "table_at mem (Suc n) t va k =
     (if k = Suc n then Some t
      else let e = mem (slot t (table_index (Suc n) va)) in if points (Suc n) e then table_at mem n (target e) va k else None)"

definition agree :: "nat \<Rightarrow> nat \<Rightarrow> u64 \<Rightarrow> u64 \<Rightarrow> bool" where
  "agree n k va va' \<longleftrightarrow> (\<forall>l. k < l \<longrightarrow> l \<le> n \<longrightarrow> table_index l va = table_index l va')"

lemma root_in_frames [simp]: "t \<in> frames mem n t"
  by (cases n) auto

lemma tree_aligned: "tree mem n t \<Longrightarrow> aligned t"
  by (cases n) auto

lemma frames_aligned: "tree mem n t \<Longrightarrow> f \<in> frames mem n t \<Longrightarrow> aligned f"
  by (induction n arbitrary: t) auto

text \<open>A tree depends on the words in its frames only.\<close>

lemma confined:
  assumes "tree mem n t" "\<And>a. frame_of a \<in> frames mem n t \<Longrightarrow> mem' a = mem a"
  shows "frames mem' n t = frames mem n t" and "tree mem' n t" and "walk mem' n t va = walk mem n t va"
    and "table_at mem' n t va k = table_at mem n t va k"
proof -
  have "frames mem' n t = frames mem n t \<and> tree mem' n t \<and> walk mem' n t va = walk mem n t va
    \<and> table_at mem' n t va k = table_at mem n t va k"
    using assms
  proof (induction n arbitrary: t)
    case 0
    then show ?case by (auto simp: slot_bits(1))
  next
    case (Suc n)
    have here: "mem' (slot t i) = mem (slot t i)" if "i < 512" for i
      using Suc.prems that by (auto simp: slot_bits(1))
    have below: "frames mem' n (target (mem (slot t i))) = frames mem n (target (mem (slot t i)))
        \<and> tree mem' n (target (mem (slot t i))) \<and> walk mem' n (target (mem (slot t i))) va = walk mem n (target (mem (slot t i))) va
        \<and> table_at mem' n (target (mem (slot t i))) va k = table_at mem n (target (mem (slot t i))) va k"
      if "i < 512" "points (Suc n) (mem (slot t i))" for i
      using Suc.prems that by (intro Suc.IH) auto
    show ?case
      using Suc.prems(1) by (auto simp: here below Let_def)
  qed
  then show "frames mem' n t = frames mem n t" "tree mem' n t" "walk mem' n t va = walk mem n t va"
    "table_at mem' n t va k = table_at mem n t va k"
    by auto
qed

lemma table_at_le: "table_at mem n t va k = Some s \<Longrightarrow> k \<le> n"
  by (induction n arbitrary: t) (auto simp: Let_def intro: le_SucI split: if_splits)

lemma table_at_above: "n < j \<Longrightarrow> table_at mem n t va j = None"
  using table_at_le by (metis not_le option.exhaust)

lemma table_at_root [simp]: "table_at mem n t va n = Some t"
  by (cases n) auto

lemma table_at_frames: "table_at mem n t va k = Some s \<Longrightarrow> frames mem k s \<subseteq> frames mem n t"
proof (induction n arbitrary: t)
  case (Suc n)
  then show ?case
    by (cases "k = Suc n") (force simp: Let_def split: if_splits)+
qed (auto split: if_splits)

lemma table_at_tree: "table_at mem n t va k = Some s \<Longrightarrow> tree mem n t \<Longrightarrow> tree mem k s"
proof (induction n arbitrary: t)
  case (Suc n)
  then show ?case
    by (cases "k = Suc n") (auto simp: Let_def split: if_splits)
qed (auto split: if_splits)

lemma disjoint_growth:
  "a' \<subseteq> a \<union> x \<Longrightarrow> b' \<subseteq> b \<union> y \<Longrightarrow> a \<inter> b = {} \<Longrightarrow> x \<inter> b = {} \<Longrightarrow> a \<inter> y = {} \<Longrightarrow> x \<inter> y = {} \<Longrightarrow> a' \<inter> b' = {}"
  by blast

text \<open>Replacing a subtree: the change stays in the frames of the table at level \<open>k\<close> on the path of \<open>va\<close> and in the fresh
  frames \<open>new\<close>. The result is a tree again, and the walks that do not reach that table are as before.\<close>

lemma replace_subtree:
  assumes "tree mem n t" "table_at mem n t va k = Some s"
    and "\<And>a. frame_of a \<notin> frames mem k s \<union> new \<Longrightarrow> mem' a = mem a"
    and "new \<inter> frames mem n t = {}" "tree mem' k s" "frames mem' k s \<subseteq> frames mem k s \<union> new"
  shows "tree mem' n t \<and> frames mem' n t \<subseteq> frames mem n t \<union> new
    \<and> (\<forall>va'. walk mem' n t va' = (if agree n k va va' then walk mem' k s va' else walk mem n t va'))
    \<and> (\<forall>j. table_at mem' n t va j = (if j \<le> k then table_at mem' k s va j else table_at mem n t va j))"
  using assms
proof (induction n arbitrary: t)
  case 0
  then show ?case
    by (auto simp: agree_def split: if_splits)
next
  case (Suc n)
  show ?case
  proof (cases "k = Suc n")
    case True
    then show ?thesis
      using Suc.prems by (simp add: agree_def table_at_above del: table_at.simps frames.simps tree.simps walk.simps)
  next
    case False
    let ?i = "table_index (Suc n) va"
    let ?c = "\<lambda>j. target (mem (slot t j))"
    let ?p = "\<lambda>j. points (Suc n) (mem (slot t j))"
    have i: "?p ?i" "table_at mem n (?c ?i) va k = Some s"
      using Suc.prems(2) False by (auto simp: Let_def split: if_splits)
    have sub: "frames mem k s \<subseteq> frames mem n (?c ?i)"
      by (rule table_at_frames [OF i(2)])
    have t: "aligned t" "\<And>j. j < 512 \<Longrightarrow> ?p j \<Longrightarrow> tree mem n (?c j) \<and> t \<notin> frames mem n (?c j) \<and> new \<inter> frames mem n (?c j) = {}"
      using Suc.prems(1,4) by auto
    have other: "frames mem n (?c ?i) \<inter> frames mem n (?c j) = {}" if "j < 512" "?p j" "j \<noteq> ?i" for j
      using Suc.prems(1) i(1) that by auto
    have here: "mem' (slot t j) = mem (slot t j)" if "j < 512" for j
      by (rule Suc.prems(3)) (use t(2) [of ?i] i(1) sub Suc.prems(4) that in \<open>auto simp: slot_bits(1) t(1)\<close>)
    have IH: "tree mem' n (?c ?i) \<and> frames mem' n (?c ?i) \<subseteq> frames mem n (?c ?i) \<union> new
        \<and> (\<forall>va'. walk mem' n (?c ?i) va' = (if agree n k va va' then walk mem' k s va' else walk mem n (?c ?i) va'))
        \<and> (\<forall>j. table_at mem' n (?c ?i) va j = (if j \<le> k then table_at mem' k s va j else table_at mem n (?c ?i) va j))"
      by (rule Suc.IH) (use t(2) [of ?i] i Suc.prems(3,5,6) in auto)
    have same: "mem' a = mem a" if "j < 512" "?p j" "j \<noteq> ?i" "frame_of a \<in> frames mem n (?c j)" for j a
      by (rule Suc.prems(3)) (use sub other [OF that(1-3)] t(2) [OF that(1,2)] that(4) in auto)
    have below: "tree mem' n (?c j) \<and> frames mem' n (?c j) = frames mem n (?c j) \<and> walk mem' n (?c j) va' = walk mem n (?c j) va'"
      if "j < 512" "?p j" "j \<noteq> ?i" for j va'
      using confined [OF t(2) [OF that(1,2), THEN conjunct1] same [OF that]] by blast
    have fr: "frames mem' n (?c j) \<subseteq> frames mem n (?c j) \<union> (if j = ?i then new else {})" if "j < 512" "?p j" for j
      using IH below [OF that] by (cases "j = ?i") auto
    have "tree mem' (Suc n) t"
    proof -
      have "t \<notin> new"
        using Suc.prems(4) by auto
      then have "tree mem' n (?c j) \<and> t \<notin> frames mem' n (?c j)" if "j < 512" "?p j" for j
        using IH below [OF that] t(2) [OF that] fr [OF that] by (cases "j = ?i") auto
      moreover have "frames mem' n (?c j) \<inter> frames mem' n (?c l) = {}"
        if "j < 512" "l < 512" "j \<noteq> l" "?p j" "?p l" for j l
      proof -
        have "frames mem n (?c j) \<inter> frames mem n (?c l) = {}"
          using Suc.prems(1) that by auto
        then show ?thesis
          using t(2) [OF that(1,4)] t(2) [OF that(2,5)] that(3)
          by (intro disjoint_growth [OF fr [OF that(1,4)] fr [OF that(2,5)]]) (auto split: if_splits)
      qed
      ultimately show ?thesis
        using t(1) by (simp add: here)
    qed
    moreover have "frames mem' (Suc n) t \<subseteq> frames mem (Suc n) t \<union> new"
      using fr by (fastforce simp: here split: if_splits)
    moreover have "walk mem' (Suc n) t va' = (if agree (Suc n) k va va' then walk mem' k s va' else walk mem (Suc n) t va')" for va'
    proof (cases "table_index (Suc n) va' = ?i")
      case True
      then have "agree (Suc n) k va va' = agree n k va va'"
        by (auto simp: agree_def le_Suc_eq)
      then show ?thesis
        using IH i(1) True by (simp add: here)
    next
      case False
      then have "\<not> agree (Suc n) k va va'"
        using table_at_le [OF i(2)] False by (auto simp: agree_def intro!: exI [of _ "Suc n"])
      then show ?thesis
        using below [of "table_index (Suc n) va'" va'] False by (simp add: here Let_def)
    qed
    moreover have "table_at mem' (Suc n) t va j = (if j \<le> k then table_at mem' k s va j else table_at mem (Suc n) t va j)" for j
      using IH i(1) table_at_le [OF i(2)] by (simp add: here)
    ultimately show ?thesis
      by blast
  qed
qed

subsection \<open>Single writes\<close>

definition same_slot :: "nat \<Rightarrow> nat \<Rightarrow> u64 \<Rightarrow> u64 \<Rightarrow> bool" where
  "same_slot n k va va' \<longleftrightarrow> agree n k va va' \<and> table_index k va = table_index k va'"

lemma write_outside:
  assumes "tree mem n t" "table_at mem n t va k = Some s"
  shows "frame_of (slot s (table_index k va)) = s" and "s \<in> frames mem n t"
    and "frame_of a \<notin> frames mem n t \<Longrightarrow> a \<noteq> slot s (table_index k va)"
proof -
  show 1: "frame_of (slot s (table_index k va)) = s"
    by (rule slot_bits) (use table_at_tree [OF assms(2,1)] tree_aligned in auto)
  show 2: "s \<in> frames mem n t"
    using table_at_frames [OF assms(2)] root_in_frames [of s mem k] by blast
  show "a \<noteq> slot s (table_index k va)" if "frame_of a \<notin> frames mem n t"
    using that 1 2 by auto
qed

lemma children_kept:
  assumes "tree mem (Suc j) s" "\<And>a. frame_of a \<noteq> s \<Longrightarrow> mem' a = mem a" "l < 512" "points (Suc j) (mem (slot s l))"
  shows "frames mem' j (target (mem (slot s l))) = frames mem j (target (mem (slot s l)))"
    and "tree mem' j (target (mem (slot s l)))"
    and "walk mem' j (target (mem (slot s l))) va = walk mem j (target (mem (slot s l))) va"
    and "table_at mem' j (target (mem (slot s l))) va k = table_at mem j (target (mem (slot s l))) va k"
proof -
  have *: "tree mem j (target (mem (slot s l)))" "s \<notin> frames mem j (target (mem (slot s l)))"
    using assms(1,3,4) by auto
  have "mem' a = mem a" if "frame_of a \<in> frames mem j (target (mem (slot s l)))" for a
    by (rule assms(2)) (use * that in auto)
  note c = confined [OF *(1) this]
  show "frames mem' j (target (mem (slot s l))) = frames mem j (target (mem (slot s l)))"
    "tree mem' j (target (mem (slot s l)))" "walk mem' j (target (mem (slot s l))) va = walk mem j (target (mem (slot s l))) va"
    "table_at mem' j (target (mem (slot s l))) va k = table_at mem j (target (mem (slot s l))) va k"
    using c by blast+
qed

text \<open>The table at level \<open>k\<close> itself after a write to one of its slots, for the three ways the clients write.\<close>

lemma write_terminal:
  assumes "tree mem k s" "i < 512" "k = 0 \<or> \<not> points k (mem (slot s i)) \<and> \<not> points k e"
  defines "mem' \<equiv> mem(slot s i := e)"
  shows "tree mem' k s \<and> frames mem' k s \<subseteq> frames mem k s
    \<and> walk mem' k s va' = (if table_index k va' = i then (k, e) else walk mem k s va')
    \<and> (k = 0 \<or> table_at mem' k s va' l = table_at mem k s va' l)"
proof (cases k)
  case 0
  then show ?thesis
    using assms by (auto simp: slot_inject)
next
  case (Suc j)
  have s: "aligned s"
    using assms(1) by (rule tree_aligned)
  have at: "mem' (slot s l) = (if l = i then e else mem (slot s l))" if "l < 512" for l
    using that assms(2) s by (simp add: mem'_def slot_inject)
  have "mem' a = mem a" if "frame_of a \<noteq> s" for a
    using that slot_bits(1) [OF s assms(2)] by (auto simp: mem'_def)
  note keep = children_kept [OF assms(1) [unfolded Suc] this]
  show ?thesis
    using assms(1-3) by (auto simp: Suc at keep Let_def split: if_splits)
qed

lemma write_flags:
  assumes "tree mem (Suc j) s" "i < 512" "points (Suc j) (mem (slot s i))" "points (Suc j) e" "target e = target (mem (slot s i))"
  defines "mem' \<equiv> mem(slot s i := e)"
  shows "tree mem' (Suc j) s" and "frames mem' (Suc j) s \<subseteq> frames mem (Suc j) s"
    and "walk mem' (Suc j) s va' = walk mem (Suc j) s va'" and "table_at mem' (Suc j) s va' l = table_at mem (Suc j) s va' l"
proof -
  have s: "aligned s"
    using assms(1) by (rule tree_aligned)
  have at: "mem' (slot s l) = (if l = i then e else mem (slot s l))" if "l < 512" for l
    using that assms(2) s by (simp add: mem'_def slot_inject)
  have "mem' a = mem a" if "frame_of a \<noteq> s" for a
    using that slot_bits(1) [OF s assms(2)] by (auto simp: mem'_def)
  note keep = children_kept [OF assms(1) this]
  have pt: "points (Suc j) (mem' (slot s l)) = points (Suc j) (mem (slot s l))"
      "target (mem' (slot s l)) = target (mem (slot s l)) \<or> \<not> points (Suc j) (mem (slot s l))" if "l < 512" for l
    using assms(3-5) that by (auto simp: at)
  have tg: "target (mem' (slot s l)) = target (mem (slot s l))" if "l < 512" "points (Suc j) (mem (slot s l))" for l
    using pt(2) that by blast
  show "tree mem' (Suc j) s"
    using assms(1) by (simp add: pt(1) tg keep)
  show "frames mem' (Suc j) s \<subseteq> frames mem (Suc j) s"
    by (auto simp: pt(1) tg keep)
  show "walk mem' (Suc j) s va' = walk mem (Suc j) s va'"
  proof (cases "points (Suc j) (mem (slot s (table_index (Suc j) va')))")
    case True
    then show ?thesis
      by (simp add: Let_def pt(1) tg keep)
  next
    case False
    then show ?thesis
      using assms(3) by (auto simp: Let_def pt(1) at)
  qed
  show "table_at mem' (Suc j) s va' l = table_at mem (Suc j) s va' l"
    by (simp add: Let_def pt(1) tg keep)
qed

lemma empty_table:
  assumes "aligned f" "\<And>a. frame_of a = f \<Longrightarrow> mem a = 0"
  shows "tree mem j f" and "frames mem j f = {f}" and "walk mem j f va = (j, 0)"
proof -
  have "mem (slot f i) = 0" if "i < 512" for i
    using assms that slot_bits(1) by blast
  then show "tree mem j f" "frames mem j f = {f}" "walk mem j f va = (j, 0)"
    using assms(1) by (cases j; auto simp: Let_def)+
qed

lemma write_link:
  assumes "tree mem (Suc j) s" "i < 512" "\<not> points (Suc j) (mem (slot s i))" "points (Suc j) e"
    and "aligned (target e)" "target e \<notin> frames mem (Suc j) s" "\<And>a. frame_of a = target e \<Longrightarrow> mem a = 0"
  defines "mem' \<equiv> mem(slot s i := e)"
  shows "tree mem' (Suc j) s" and "frames mem' (Suc j) s \<subseteq> insert (target e) (frames mem (Suc j) s)"
    and "walk mem' (Suc j) s va' = (if table_index (Suc j) va' = i then (j, 0) else walk mem (Suc j) s va')"
proof -
  have s: "aligned s"
    using assms(1) by (rule tree_aligned)
  have at: "mem' (slot s l) = (if l = i then e else mem (slot s l))" if "l < 512" for l
    using that assms(2) s by (simp add: mem'_def slot_inject)
  have out: "mem' a = mem a" if "frame_of a \<noteq> s" for a
    using that slot_bits(1) [OF s assms(2)] by (auto simp: mem'_def)
  note keep = children_kept [OF assms(1) out]
  have "mem' a = 0" if "frame_of a = target e" for a
    using that assms(6,7) out by auto
  note new = empty_table [OF assms(5) this]
  have sep: "target e \<notin> frames mem j (target (mem (slot s l)))" if "l < 512" "points (Suc j) (mem (slot s l))" for l
    using assms(6) that by auto
  show "tree mem' (Suc j) s"
    using assms(1-4,6) sep by (auto simp: at keep new split: if_splits)
  show "frames mem' (Suc j) s \<subseteq> insert (target e) (frames mem (Suc j) s)"
    by (auto simp: at keep new split: if_splits)
  show "walk mem' (Suc j) s va' = (if table_index (Suc j) va' = i then (j, 0) else walk mem (Suc j) s va')"
    using assms(4) by (auto simp: Let_def at keep new)
qed

subsection \<open>Writes in a tree\<close>

lemma walk_via: "table_at mem n t va k = Some s \<Longrightarrow> agree n k va va' \<Longrightarrow> walk mem n t va' = walk mem k s va'"
proof (induction n arbitrary: t)
  case (Suc n)
  show ?case
  proof (cases "k = Suc n")
    case False
    then have "k \<le> n"
      using table_at_le [OF Suc.prems(1)] by simp
    then have "table_index (Suc n) va = table_index (Suc n) va'" "agree n k va va'"
      using Suc.prems(2) by (auto simp: agree_def)
    then show ?thesis
      using Suc.IH Suc.prems(1) False by (auto simp: Let_def split: if_splits)
  qed (use Suc.prems in auto)
qed (auto split: if_splits)

lemma table_at_via: "table_at mem n t va k = Some s \<Longrightarrow> j \<le> k \<Longrightarrow> table_at mem n t va j = table_at mem k s va j"
  by (induction n arbitrary: t) (auto simp: Let_def dest: table_at_le split: if_splits)

lemma table_at_agree: "agree n k va va' \<Longrightarrow> k \<le> n \<Longrightarrow> table_at mem n t va k = table_at mem n t va' k"
proof (induction n arbitrary: t)
  case (Suc n)
  show ?case
  proof (cases "k = Suc n")
    case False
    then have "k \<le> n"
      using Suc.prems(2) by simp
    then have "table_index (Suc n) va = table_index (Suc n) va'" "agree n k va va'"
      using Suc.prems(1) by (auto simp: agree_def)
    then show ?thesis
      using Suc.IH [OF _ \<open>k \<le> n\<close>] False by (simp add: Let_def)
  qed simp
qed simp

lemma walk_stops:
  assumes "table_at mem n t va k = Some s" "same_slot n k va va'" "k = 0 \<or> \<not> points k (mem (slot s (table_index k va)))"
  shows "walk mem n t va' = (k, mem (slot s (table_index k va)))"
  using walk_via [OF assms(1)] assms(2,3) by (cases k) (auto simp: same_slot_def Let_def)

lemma same_slot_refl [simp]: "same_slot n k va va"
  by (simp add: same_slot_def agree_def)

lemma set_terminal:
  assumes "tree mem n t" "table_at mem n t va k = Some s"
    and "k = 0 \<or> \<not> points k (mem (slot s (table_index k va))) \<and> \<not> points k e"
  defines "mem' \<equiv> mem(slot s (table_index k va) := e)"
  shows "tree mem' n t" and "frames mem' n t \<subseteq> frames mem n t"
    and "walk mem' n t va' = (if same_slot n k va va' then (k, e) else walk mem n t va')"
    and "table_at mem' n t va j = table_at mem n t va j"
proof -
  note w = write_terminal [OF table_at_tree [OF assms(2,1)] table_index_less assms(3), folded mem'_def]
  have "mem' a = mem a" if "frame_of a \<notin> frames mem k s \<union> {}" for a
    using that write_outside(1) [OF assms(1,2)] root_in_frames [of s mem k] by (auto simp: mem'_def)
  from replace_subtree [where new = "{}", OF assms(1,2) this] w
  have r: "tree mem' n t" "frames mem' n t \<subseteq> frames mem n t"
    "walk mem' n t va' = (if agree n k va va' then walk mem' k s va' else walk mem n t va')"
    "table_at mem' n t va j = (if j \<le> k then table_at mem' k s va j else table_at mem n t va j)"
    by auto
  show "tree mem' n t" "frames mem' n t \<subseteq> frames mem n t"
    using r by auto
  show "table_at mem' n t va j = table_at mem n t va j"
    using r(4) w [of va] table_at_via [OF assms(2)] by (cases "k = 0") (auto split: if_splits)
  show "walk mem' n t va' = (if same_slot n k va va' then (k, e) else walk mem n t va')"
    using r(3) w [of va'] walk_via [OF assms(2), of va'] by (auto simp: same_slot_def)
qed

lemma set_flags_kept:
  assumes "tree mem n t" "table_at mem n t va (Suc j) = Some s" "points (Suc j) (mem (slot s (table_index (Suc j) va)))"
    and "points (Suc j) e" "target e = target (mem (slot s (table_index (Suc j) va)))"
  defines "mem' \<equiv> mem(slot s (table_index (Suc j) va) := e)"
  shows "tree mem' n t" and "frames mem' n t \<subseteq> frames mem n t" and "walk mem' n t va' = walk mem n t va'"
    and "table_at mem' n t va l = table_at mem n t va l"
proof -
  note w = write_flags [OF table_at_tree [OF assms(2,1)] table_index_less assms(3-5), folded mem'_def]
  have "mem' a = mem a" if "frame_of a \<notin> frames mem (Suc j) s \<union> {}" for a
    using that write_outside(1) [OF assms(1,2)] root_in_frames [of s mem "Suc j"] by (auto simp: mem'_def)
  from replace_subtree [where new = "{}", OF assms(1,2) this] w
  have r: "tree mem' n t" "frames mem' n t \<subseteq> frames mem n t"
    "walk mem' n t va' = (if agree n (Suc j) va va' then walk mem' (Suc j) s va' else walk mem n t va')"
    "table_at mem' n t va l = (if l \<le> Suc j then table_at mem' (Suc j) s va l else table_at mem n t va l)"
    by auto
  show "tree mem' n t" "frames mem' n t \<subseteq> frames mem n t"
    using r by auto
  show "walk mem' n t va' = walk mem n t va'"
    using r(3) w(3) [of va'] walk_via [OF assms(2), of va'] by auto
  show "table_at mem' n t va l = table_at mem n t va l"
    using r(4) w(4) [of va l] table_at_via [OF assms(2), of l] by auto
qed

lemma set_link:
  assumes "tree mem n t" "table_at mem n t va (Suc j) = Some s" "\<not> points (Suc j) (mem (slot s (table_index (Suc j) va)))"
    and "points (Suc j) e" "aligned (target e)" "target e \<notin> frames mem n t" "\<And>a. frame_of a = target e \<Longrightarrow> mem a = 0"
  defines "mem' \<equiv> mem(slot s (table_index (Suc j) va) := e)"
  shows "tree mem' n t" and "frames mem' n t \<subseteq> insert (target e) (frames mem n t)"
    and "walk mem' n t va' = (if same_slot n (Suc j) va va' then (j, 0) else walk mem n t va')"
    and "table_at mem' n t va j = Some (target e)" and "Suc j \<le> l \<Longrightarrow> table_at mem' n t va l = table_at mem n t va l"
proof -
  have new: "target e \<notin> frames mem (Suc j) s"
    using assms(6) table_at_frames [OF assms(2)] by blast
  note w = write_link [OF table_at_tree [OF assms(2,1)] table_index_less assms(3-5) new assms(7), folded mem'_def]
  have "mem' a = mem a" if "frame_of a \<notin> frames mem (Suc j) s \<union> {target e}" for a
    using that write_outside(1) [OF assms(1,2)] root_in_frames [of s mem "Suc j"] by (auto simp: mem'_def)
  from replace_subtree [where new = "{target e}", OF assms(1,2) this] w assms(6)
  have r: "tree mem' n t" "frames mem' n t \<subseteq> frames mem n t \<union> {target e}"
    "walk mem' n t va' = (if agree n (Suc j) va va' then walk mem' (Suc j) s va' else walk mem n t va')"
    "table_at mem' n t va j = table_at mem' (Suc j) s va j" "table_at mem' n t va l = (if l \<le> Suc j then table_at mem' (Suc j) s va l else table_at mem n t va l)"
    by auto
  show "tree mem' n t" "frames mem' n t \<subseteq> insert (target e) (frames mem n t)"
    using r by auto
  show "walk mem' n t va' = (if same_slot n (Suc j) va va' then (j, 0) else walk mem n t va')"
    using r(3) w(3) [of va'] walk_via [OF assms(2), of va'] by (auto simp: same_slot_def)
  show "table_at mem' n t va j = Some (target e)"
    using r(4) assms(4) by (simp add: mem'_def)
  show "table_at mem' n t va l = table_at mem n t va l" if "Suc j \<le> l"
    using r(5) that assms(2) by (auto simp: le_antisym)
qed

text \<open>Clearing a frame outside the tree leaves the tree alone.\<close>

lemma zero_frame_kept:
  assumes "tree mem n t" "f \<notin> frames mem n t"
  shows "tree (zero_frame f mem) n t" and "frames (zero_frame f mem) n t = frames mem n t"
    and "walk (zero_frame f mem) n t va = walk mem n t va" and "table_at (zero_frame f mem) n t va k = table_at mem n t va k"
proof -
  have "zero_frame f mem a = mem a" if "frame_of a \<in> frames mem n t" for a
    using that assms(2) by (auto simp: zero_frame_def)
  note c = confined [OF assms(1) this]
  show "tree (zero_frame f mem) n t" "frames (zero_frame f mem) n t = frames mem n t"
    "walk (zero_frame f mem) n t va = walk mem n t va" "table_at (zero_frame f mem) n t va k = table_at mem n t va k"
    using c by blast+
qed

end

end
