(* ===== verification/Mem_Paging.thy ===== *)
theory Mem_Paging
  imports Page_Tree
begin

text \<open>
  The kernel's memory manager (\<^verbatim>\<open>subsystem/memory.rs\<close>): frame allocation from the boot memory map, and four-level page tables with
  \<open>map\<close>, \<open>unmap\<close>, translation and the search for a free page.

  Physical memory is the field \<open>ram\<close> of the manager. The code reaches a table through the direct map of the boot loader, at its
  physical address plus \<open>physical_memory_offset\<close>; the model uses the physical address itself. A page-table pointer is the
  physical address of the table, and the root of the current address space is an argument. \<open>None\<close> is a panic (a failed
  assertion, \<open>expect\<close> or \<open>unwrap\<close>), and flushing the translation buffer has no effect on this state.
\<close>

type_synonym virtual_address = u64
type_synonym physical_address = u64

definition PAGE_SIZE :: u64 where "PAGE_SIZE = 4096"
definition FRAME_SIZE :: u64 where "FRAME_SIZE = 4096"

datatype memory_error = AlreadyMapped | NonExistentMapping | HugePage

definition is_aligned_to :: "u64 \<Rightarrow> u64 \<Rightarrow> bool" where
  "is_aligned_to a alignment \<longleftrightarrow> a mod alignment = 0"

definition sign_extend :: "u64 \<Rightarrow> u64" where
  "sign_extend a = signed_drop_bit 16 (push_bit 16 a)"

section \<open>Frames\<close>

record memory_map_entry =
  base :: u64
  entry_length :: u64
  usable :: bool

record frame_allocator =
  memory_map_entries :: "memory_map_entry list"
  next_frame :: nat

definition frame_allocator_new :: "memory_map_entry list \<Rightarrow> frame_allocator" where
  "frame_allocator_new entries = \<lparr>memory_map_entries = entries, next_frame = 0\<rparr>"

text \<open>The addresses a region yields: the range from its base, in steps of the frame size.\<close>

definition region_frames :: "memory_map_entry \<Rightarrow> physical_address list" where
  "region_frames e =
     (let last = base e + entry_length e
      in map (\<lambda>i. base e + of_nat i * FRAME_SIZE) [0..<(unat last - unat (base e) + 4095) div 4096])"

definition usable_frames :: "memory_map_entry list \<Rightarrow> physical_address list" where
  "usable_frames entries = concat (map region_frames (filter usable entries))"

text \<open>Every address up to the chosen one goes through the alignment assertion of \<open>Frame::new\<close>.\<close>

definition allocate :: "frame_allocator \<Rightarrow> (physical_address option \<times> frame_allocator) option" where
  "allocate a =
     (let fs = usable_frames (memory_map_entries a); n = next_frame a
      in if list_all (\<lambda>f. is_aligned_to f FRAME_SIZE) (take (Suc n) fs)
         then Some (if n < length fs then Some (fs ! n) else None, a\<lparr>next_frame := Suc n\<rparr>)
         else None)"

record memory_manager =
  frame_allocator :: frame_allocator
  ram :: memory

definition allocate_frame :: "memory_manager \<Rightarrow> (physical_address option \<times> memory_manager) option" where
  "allocate_frame mm = map_option (\<lambda>(f, a). (f, mm\<lparr>frame_allocator := a\<rparr>)) (allocate (frame_allocator mm))"

fun allocate_more :: "nat \<Rightarrow> memory_manager \<Rightarrow> (bool \<times> memory_manager) option" where
  "allocate_more 0 mm = Some (True, mm)"
| "allocate_more (Suc n) mm =
     (case allocate_frame mm of
        None \<Rightarrow> None
      | Some (None, mm') \<Rightarrow> Some (False, mm')
      | Some (Some _, mm') \<Rightarrow> allocate_more n mm')"

definition allocate_frames_contiguous :: "nat \<Rightarrow> memory_manager \<Rightarrow> (physical_address option \<times> memory_manager) option" where
  "allocate_frames_contiguous n mm =
     (case allocate_frame mm of
        None \<Rightarrow> None
      | Some (first_frame, mm1) \<Rightarrow>
          map_option (\<lambda>(ok, mm2). (if ok then first_frame else None, mm2)) (allocate_more (n - 1) mm1))"

section \<open>Page-table entries\<close>

definition PRESENT :: u64 where "PRESENT = 1"
definition WRITABLE :: u64 where "WRITABLE = 0x2"
definition USER_ACCESSIBLE :: u64 where "USER_ACCESSIBLE = 0x4"
definition WRITE_THROUGH :: u64 where "WRITE_THROUGH = 0x8"
definition NO_CACHE :: u64 where "NO_CACHE = 0x10"
definition HUGE_PAGE :: u64 where "HUGE_PAGE = 0x80"
definition NO_EXECUTE :: u64 where "NO_EXECUTE = 0x8000000000000000"

text \<open>\<open>PageFlags\<close>, the flags of a caller.\<close>

record page_flags =
  writable :: bool
  executable :: bool
  user_mode_accessible :: bool
  write_through :: bool
  disable_caching :: bool
  global_page :: bool

definition pte_address :: "u64 \<Rightarrow> physical_address" where
  "pte_address e = e AND 0x0FFFFFFFFFFFF000"

text \<open>The flags the type names: bits 0 to 8 and bit 63.\<close>

definition pte_flags :: "u64 \<Rightarrow> u64" where
  "pte_flags e = e AND 0x80000000000001FF"

definition pte_set_address :: "physical_address \<Rightarrow> u64 \<Rightarrow> u64 option" where
  "pte_set_address a e = (if a AND 0xFFF = 0 \<and> a < push_bit 52 1 then Some (a OR pte_flags e) else None)"

definition pte_set_flags :: "u64 \<Rightarrow> u64 \<Rightarrow> u64" where
  "pte_set_flags flags e = pte_address e OR flags"

definition contains :: "u64 \<Rightarrow> u64 \<Rightarrow> bool" where
  "contains e flag \<longleftrightarrow> pte_flags e AND flag = flag"

definition assign_propagable :: "page_flags \<Rightarrow> u64 \<Rightarrow> u64" where
  "assign_propagable flags e =
     (let e1 = (if writable flags then pte_set_flags (pte_flags e OR WRITABLE) e else e)
      in if user_mode_accessible flags then pte_set_flags (pte_flags e1 OR USER_ACCESSIBLE) e1 else e1)"

definition write_ram :: "u64 \<Rightarrow> u64 \<Rightarrow> memory_manager \<Rightarrow> memory_manager" where
  "write_ram a e mm = mm\<lparr>ram := (ram mm)(a := e)\<rparr>"

definition assign_flags_at :: "page_flags \<Rightarrow> u64 \<Rightarrow> memory_manager \<Rightarrow> memory_manager" where
  "assign_flags_at flags a mm = write_ram a (assign_propagable flags (ram mm a)) mm"

text \<open>Running out of frames is an error every caller turns into a panic with \<open>expect\<close>.\<close>

definition allocate_lower_level_page_table :: "u64 \<Rightarrow> memory_manager \<Rightarrow> memory_manager option" where
  "allocate_lower_level_page_table a mm =
     (case allocate_frame mm of
        None \<Rightarrow> None
      | Some (None, mm1) \<Rightarrow> None
      | Some (Some frame, mm1) \<Rightarrow>
          let mm2 = mm1\<lparr>ram := zero_frame frame (ram mm1)\<rparr>
          in map_option (\<lambda>e. write_ram a (pte_set_flags PRESENT e) mm2) (pte_set_address frame (ram mm2 a)))"

section \<open>Mapping one page\<close>

definition enter_level_4 :: "page_flags \<Rightarrow> u64 \<Rightarrow> memory_manager \<Rightarrow> memory_manager option" where
  "enter_level_4 flags a mm =
     map_option (assign_flags_at flags a)
       (if contains (ram mm a) PRESENT then Some mm else allocate_lower_level_page_table a mm)"

definition enter_level :: "page_flags \<Rightarrow> u64 \<Rightarrow> memory_manager \<Rightarrow> (memory_error + memory_manager) option" where
  "enter_level flags a mm =
     (if contains (ram mm a) PRESENT
      then (if contains (ram mm a) HUGE_PAGE then Some (Inl HugePage) else Some (Inr (assign_flags_at flags a mm)))
      else map_option (\<lambda>mm'. Inr (assign_flags_at flags a mm')) (allocate_lower_level_page_table a mm))"

definition leaf_entry :: "page_flags \<Rightarrow> u64 \<Rightarrow> u64" where
  "leaf_entry flags e =
     (let e1 = assign_propagable flags e;
          e2 = (if \<not> executable flags then pte_set_flags (pte_flags e1 OR NO_EXECUTE) e1 else e1);
          e3 = (if write_through flags then pte_set_flags (pte_flags e2 OR WRITE_THROUGH) e2 else e2)
      in if disable_caching flags then pte_set_flags (pte_flags e3 OR NO_CACHE) e3 else e3)"

definition write_leaf :: "u64 \<Rightarrow> physical_address \<Rightarrow> page_flags \<Rightarrow> memory_manager \<Rightarrow> memory_manager option" where
  "write_leaf a frame flags mm =
     map_option (\<lambda>e. write_ram a (leaf_entry flags (pte_set_flags PRESENT e)) mm) (pte_set_address frame (ram mm a))"

definition map_inner :: "u64 \<Rightarrow> virtual_address \<Rightarrow> physical_address \<Rightarrow> page_flags \<Rightarrow> memory_manager \<Rightarrow>
    ((memory_error + unit) \<times> memory_manager) option" where
  "map_inner root address frame flags mm =
     (if address \<noteq> sign_extend address \<or> address AND 0xFFF \<noteq> 0 then None
      else let l4 = slot root (drop_bit 39 address AND 0x1FF)
           in case enter_level_4 flags l4 mm of
                None \<Rightarrow> None
              | Some mm4 \<Rightarrow>
                  let l3 = slot (pte_address (ram mm4 l4)) (drop_bit 30 address AND 0x1FF)
                  in case enter_level flags l3 mm4 of
                       None \<Rightarrow> None
                     | Some (Inl err) \<Rightarrow> Some (Inl err, mm4)
                     | Some (Inr mm3) \<Rightarrow>
                         let l2 = slot (pte_address (ram mm3 l3)) (drop_bit 21 address AND 0x1FF)
                         in case enter_level flags l2 mm3 of
                              None \<Rightarrow> None
                            | Some (Inl err) \<Rightarrow> Some (Inl err, mm3)
                            | Some (Inr mm2) \<Rightarrow>
                                let l1 = slot (pte_address (ram mm2 l2)) (drop_bit 12 address AND 0x1FF)
                                in if contains (ram mm2 l1) PRESENT then Some (Inl AlreadyMapped, mm2)
                                   else map_option (Pair (Inr ())) (write_leaf l1 frame flags mm2))"

datatype map_target = CurrentAddressSpace | CustomAddressSpace u64

definition root_of :: "u64 \<Rightarrow> map_target \<Rightarrow> u64" where
  "root_of cr3 target = (case target of CurrentAddressSpace \<Rightarrow> cr3 | CustomAddressSpace page_table \<Rightarrow> page_table)"

section \<open>Translation and unmapping\<close>

definition is_canonical :: "virtual_address \<Rightarrow> bool" where
  "is_canonical address =
     (let unused = drop_bit 48 address; sign = drop_bit 47 address AND 1
      in \<not> ((sign = 0 \<and> unused \<noteq> 0) \<or> (sign = 1 \<and> unused \<noteq> 0xFFFF)))"

definition translate_virtual_address :: "u64 \<Rightarrow> memory_manager \<Rightarrow> virtual_address \<Rightarrow> physical_address option" where
  "translate_virtual_address cr3 mm address =
     (if \<not> is_canonical address then None
      else let e4 = ram mm (slot cr3 (drop_bit 39 address AND 0x1FF))
           in if \<not> contains e4 PRESENT then None
              else let e3 = ram mm (slot (pte_address e4) (drop_bit 30 address AND 0x1FF))
                   in if \<not> contains e3 PRESENT then None
                      else if contains e3 HUGE_PAGE then Some (pte_address e3 + (address AND 0x3FFFFFFF))
                      else let e2 = ram mm (slot (pte_address e3) (drop_bit 21 address AND 0x1FF))
                           in if \<not> contains e2 PRESENT then None
                              else if contains e2 HUGE_PAGE then Some (pte_address e2 + (address AND 0x1FFFFF))
                              else let e1 = ram mm (slot (pte_address e2) (drop_bit 12 address AND 0x1FF))
                                   in if \<not> contains e1 PRESENT then None else Some (pte_address e1 + (address AND 0xFFF)))"

text \<open>Clearing an entry stores address 0 and then no flags.\<close>

definition clear_entry :: "u64 \<Rightarrow> memory_manager \<Rightarrow> memory_manager option" where
  "clear_entry a mm = map_option (\<lambda>e. write_ram a (pte_set_flags 0 e) mm) (pte_set_address 0 (ram mm a))"

definition unmap_inner :: "u64 \<Rightarrow> virtual_address \<Rightarrow> memory_manager \<Rightarrow> ((memory_error + unit) \<times> memory_manager) option" where
  "unmap_inner root address mm =
     (let unused = drop_bit 48 address; sign = drop_bit 47 address AND 1; missing = Some (Inl NonExistentMapping, mm)
      in if \<not> ((sign = 0 \<and> unused = 0) \<or> (sign = 1 \<and> unused = 0xFFFF)) then None
         else let e4 = ram mm (slot root (drop_bit 39 address AND 0x1FF))
              in if \<not> contains e4 PRESENT then missing
                 else let l3 = slot (pte_address e4) (drop_bit 30 address AND 0x1FF); e3 = ram mm l3
                      in if \<not> contains e3 PRESENT then missing
                         else if contains e3 HUGE_PAGE
                         then (if address AND 0x3FFFFFFF = 0 then map_option (Pair (Inr ())) (clear_entry l3 mm) else None)
                         else let l2 = slot (pte_address e3) (drop_bit 21 address AND 0x1FF); e2 = ram mm l2
                              in if \<not> contains e2 PRESENT then missing
                                 else if contains e2 HUGE_PAGE
                                 then (if address AND 0x1FFFFF = 0 then map_option (Pair (Inr ())) (clear_entry l2 mm) else None)
                                 else if address AND 0xFFF \<noteq> 0 then None
                                 else let l1 = slot (pte_address e2) (drop_bit 12 address AND 0x1FF); e1 = ram mm l1
                                      in if \<not> contains e1 PRESENT then missing
                                         else map_option (Pair (Inr ())) (clear_entry l1 mm))"

section \<open>Searching for a free page\<close>

text \<open>The address of a page from its four table indices.\<close>

definition page_address :: "nat \<Rightarrow> nat \<Rightarrow> nat \<Rightarrow> nat \<Rightarrow> virtual_address" where
  "page_address i4 i3 i2 i1 =
     sign_extend (push_bit 39 (of_nat i4) OR push_bit 30 (of_nat i3) OR push_bit 21 (of_nat i2) OR push_bit 12 (of_nat i1))"

text \<open>The table below an entry, allocated when the entry is not present; \<open>Some None\<close> when the entry maps a large page, which only
  the levels below the first check.\<close>

definition table_below :: "bool \<Rightarrow> u64 \<Rightarrow> memory_manager \<Rightarrow> memory_manager option option" where
  "table_below check_huge a mm =
     (if contains (ram mm a) PRESENT then (if check_huge \<and> contains (ram mm a) HUGE_PAGE then Some None else Some (Some mm))
      else map_option Some (allocate_lower_level_page_table a mm))"

definition place_page :: "u64 \<Rightarrow> u64 \<Rightarrow> u64 \<Rightarrow> u64 \<Rightarrow> physical_address \<Rightarrow> page_flags \<Rightarrow> memory_manager \<Rightarrow> memory_manager option" where
  "place_page a4 a3 a2 a1 frame flags mm =
     map_option (\<lambda>e.
         let mm1 = write_ram a1 (pte_set_flags PRESENT e) mm;
             mm2 = assign_flags_at flags a2 (assign_flags_at flags a3 (assign_flags_at flags a4 mm1))
         in write_ram a1 (leaf_entry flags (ram mm2 a1)) mm2)
       (pte_set_address frame (ram mm a1))"

text \<open>The innermost loop, and one of the three around it. A loop returns the page it placed, if any; the first page of the address
  space is left out.\<close>

fun any_level_1 :: "physical_address \<Rightarrow> page_flags \<Rightarrow> nat \<times> nat \<times> nat \<Rightarrow> u64 \<times> u64 \<times> u64 \<Rightarrow> u64 \<Rightarrow> nat list \<Rightarrow> memory_manager \<Rightarrow>
    (virtual_address option \<times> memory_manager) option" where
  "any_level_1 frame flags (i4, i3, i2) (a4, a3, a2) table [] mm = Some (None, mm)"
| "any_level_1 frame flags (i4, i3, i2) (a4, a3, a2) table (i1 # is) mm =
     (if i4 = 0 \<and> i3 = 0 \<and> i2 = 0 \<and> i1 = 0 then any_level_1 frame flags (i4, i3, i2) (a4, a3, a2) table is mm
      else let a1 = slot table (of_nat i1)
           in if contains (ram mm a1) PRESENT then any_level_1 frame flags (i4, i3, i2) (a4, a3, a2) table is mm
              else map_option (Pair (Some (page_address i4 i3 i2 i1))) (place_page a4 a3 a2 a1 frame flags mm))"

fun any_level :: "bool \<Rightarrow> (nat \<Rightarrow> u64 \<Rightarrow> memory_manager \<Rightarrow> (virtual_address option \<times> memory_manager) option) \<Rightarrow> u64 \<Rightarrow> nat list \<Rightarrow>
    memory_manager \<Rightarrow> (virtual_address option \<times> memory_manager) option" where
  "any_level check_huge body table [] mm = Some (None, mm)"
| "any_level check_huge body table (i # is) mm =
     (let a = slot table (of_nat i)
      in case table_below check_huge a mm of
           None \<Rightarrow> None
         | Some None \<Rightarrow> any_level check_huge body table is mm
         | Some (Some mm1) \<Rightarrow>
             (case body i a mm1 of
                None \<Rightarrow> None
              | Some (None, mm2) \<Rightarrow> any_level check_huge body table is mm2
              | Some (Some page, mm2) \<Rightarrow> Some (Some page, mm2)))"

definition any_level_2 :: "physical_address \<Rightarrow> page_flags \<Rightarrow> nat \<times> nat \<Rightarrow> u64 \<times> u64 \<Rightarrow> u64 \<Rightarrow> memory_manager \<Rightarrow>
    (virtual_address option \<times> memory_manager) option" where
  "any_level_2 frame flags = (\<lambda>(i4, i3) (a4, a3) table mm.
     any_level True (\<lambda>i2 a2 mm. any_level_1 frame flags (i4, i3, i2) (a4, a3, a2) (pte_address (ram mm a2)) [0..<512] mm)
       table [0..<512] mm)"

definition any_level_3 :: "physical_address \<Rightarrow> page_flags \<Rightarrow> nat \<Rightarrow> u64 \<Rightarrow> u64 \<Rightarrow> memory_manager \<Rightarrow>
    (virtual_address option \<times> memory_manager) option" where
  "any_level_3 frame flags i4 a4 table mm =
     any_level True (\<lambda>i3 a3 mm. any_level_2 frame flags (i4, i3) (a4, a3) (pte_address (ram mm a3)) mm) table [0..<512] mm"

text \<open>The range of the outer loop is the caller's; an index above 511 is out of the table's bounds. Not finding a page panics.\<close>

definition map_any_inner :: "u64 \<Rightarrow> nat \<Rightarrow> nat \<Rightarrow> physical_address \<Rightarrow> page_flags \<Rightarrow> memory_manager \<Rightarrow>
    (virtual_address \<times> memory_manager) option" where
  "map_any_inner root first_index end_index frame flags mm =
     (case any_level False
         (\<lambda>i4 a4 mm. if 512 \<le> i4 then None else any_level_3 frame flags i4 a4 (pte_address (ram mm a4)) mm) root [first_index..<end_index] mm of
        Some (Some page, mm') \<Rightarrow> Some (page, mm')
      | _ \<Rightarrow> None)"

datatype map_request = Exact virtual_address physical_address | Identity virtual_address | Any physical_address nat nat

record map_result =
  mapped_page :: virtual_address
  mapped_frame :: physical_address

fun map_impl :: "u64 \<Rightarrow> map_target \<Rightarrow> map_request \<Rightarrow> page_flags \<Rightarrow> memory_manager \<Rightarrow>
    ((memory_error + map_result) \<times> memory_manager) option" where
  "map_impl cr3 target (Exact page frame) flags mm =
     map_option (\<lambda>(r, mm'). (map_sum id (\<lambda>_. \<lparr>mapped_page = page, mapped_frame = frame\<rparr>) r, mm'))
       (map_inner (root_of cr3 target) page frame flags mm)"
| "map_impl cr3 target (Identity page) flags mm =
     map_option (\<lambda>(r, mm'). (map_sum id (\<lambda>_. \<lparr>mapped_page = page, mapped_frame = page\<rparr>) r, mm'))
       (map_inner (root_of cr3 target) page page flags mm)"
| "map_impl cr3 target (Any frame first_index end_index) flags mm =
     map_option (\<lambda>(page, mm'). (Inr \<lparr>mapped_page = page, mapped_frame = frame\<rparr>, mm'))
       (map_any_inner (root_of cr3 target) first_index end_index frame flags mm)"

definition unmap :: "u64 \<Rightarrow> map_target \<Rightarrow> virtual_address \<Rightarrow> memory_manager \<Rightarrow> ((memory_error + unit) \<times> memory_manager) option" where
  "unmap cr3 target page mm = unmap_inner (root_of cr3 target) page mm"

text \<open>\<open>map_temporary\<close> runs \<open>f\<close>, which may use the mapping and change memory, between the two.\<close>

definition map_temporary :: "u64 \<Rightarrow> map_target \<Rightarrow> map_request \<Rightarrow> page_flags \<Rightarrow> (map_result \<Rightarrow> memory_manager \<Rightarrow> memory_manager option) \<Rightarrow>
    memory_manager \<Rightarrow> ((memory_error + unit) \<times> memory_manager) option" where
  "map_temporary cr3 target request flags f mm =
     (case map_impl cr3 target request flags mm of
        None \<Rightarrow> None
      | Some (Inl err, mm1) \<Rightarrow> Some (Inl err, mm1)
      | Some (Inr r, mm1) \<Rightarrow> Option.bind (f r mm1) (unmap cr3 target (mapped_page r)))"

section \<open>Mapping a run of frames\<close>

record frame_range =
  range_start :: physical_address
  range_end :: physical_address

record page_range =
  page_start :: virtual_address
  page_end :: virtual_address

definition frame_range_new :: "physical_address \<Rightarrow> physical_address \<Rightarrow> frame_range option" where
  "frame_range_new first bound =
     (if is_aligned_to first FRAME_SIZE \<and> is_aligned_to bound FRAME_SIZE \<and> first < bound
      then Some \<lparr>range_start = first, range_end = bound\<rparr> else None)"

definition frame_range_n :: "frame_range \<Rightarrow> nat" where
  "frame_range_n r = unat ((range_end r - range_start r) div FRAME_SIZE)"

definition range_frames :: "frame_range \<Rightarrow> physical_address list" where
  "range_frames r = map (\<lambda>k. range_start r + of_nat k * FRAME_SIZE) [0..<frame_range_n r]"

definition page_range_new :: "virtual_address \<Rightarrow> virtual_address \<Rightarrow> page_range option" where
  "page_range_new first bound =
     (if is_aligned_to first PAGE_SIZE \<and> is_aligned_to bound PAGE_SIZE \<and> first < bound
      then Some \<lparr>page_start = first, page_end = bound\<rparr> else None)"

definition page_range_contains :: "virtual_address \<Rightarrow> page_range \<Rightarrow> bool" where
  "page_range_contains page r \<longleftrightarrow> page_start r \<le> page \<and> page < page_end r"

definition page_range_n :: "page_range \<Rightarrow> nat" where
  "page_range_n r = unat ((page_end r - page_start r) div PAGE_SIZE)"

text \<open>The search keeps the start and the length of the run of free pages it is in; the flag tells that the outer loop was left.\<close>

type_synonym indices = "nat \<times> nat \<times> nat \<times> nat"
type_synonym run = "indices option \<times> nat"

definition reset_run :: "run \<Rightarrow> run" where
  "reset_run = (\<lambda>(start, len). if 0 < len then (None, 0) else (start, len))"

fun run_level_1 :: "nat \<Rightarrow> nat \<times> nat \<times> nat \<Rightarrow> u64 \<Rightarrow> memory \<Rightarrow> nat list \<Rightarrow> run \<Rightarrow> bool \<times> run" where
  "run_level_1 n (i4, i3, i2) table mem [] (start, len) = (False, start, len)"
| "run_level_1 n (i4, i3, i2) table mem (i1 # is) (start, len) =
     (if i4 = 0 \<and> i3 = 0 \<and> i2 = 0 \<and> i1 = 0 then run_level_1 n (i4, i3, i2) table mem is (start, len)
      else if n \<le> len then (True, start, len)
      else if contains (mem (slot table (of_nat i1))) PRESENT then run_level_1 n (i4, i3, i2) table mem is (reset_run (start, len))
      else run_level_1 n (i4, i3, i2) table mem is (if len = 0 then Some (i4, i3, i2, i1) else start, len + 1))"

fun run_level :: "bool \<Rightarrow> (nat \<Rightarrow> u64 \<Rightarrow> run \<Rightarrow> memory_manager \<Rightarrow> (bool \<times> run \<times> memory_manager) option) \<Rightarrow> u64 \<Rightarrow> nat list \<Rightarrow> run \<Rightarrow>
    memory_manager \<Rightarrow> (bool \<times> run \<times> memory_manager) option" where
  "run_level check_huge body table [] r mm = Some (False, r, mm)"
| "run_level check_huge body table (i # is) r mm =
     (let a = slot table (of_nat i)
      in case table_below check_huge a mm of
           None \<Rightarrow> None
         | Some None \<Rightarrow> run_level check_huge body table is (reset_run r) mm
         | Some (Some mm1) \<Rightarrow>
             (case body i a r mm1 of
                None \<Rightarrow> None
              | Some (True, r', mm2) \<Rightarrow> Some (True, r', mm2)
              | Some (False, r', mm2) \<Rightarrow> run_level check_huge body table is r' mm2))"

definition find_run :: "u64 \<Rightarrow> nat \<Rightarrow> nat \<Rightarrow> nat \<Rightarrow> memory_manager \<Rightarrow> (run \<times> memory_manager) option" where
  "find_run root first_index end_index n mm =
     map_option snd (run_level False (\<lambda>i4 a4 r4 mm4.
         if 512 \<le> i4 then None
         else run_level True (\<lambda>i3 a3 r3 mm3.
                run_level True (\<lambda>i2 a2 r2 mm2.
                    Some (let (found, r1) = run_level_1 n (i4, i3, i2) (pte_address (ram mm2 a2)) (ram mm2) [0..<512] r2
                          in (found, r1, mm2)))
                  (pte_address (ram mm3 a3)) [0..<512] r3 mm3)
              (pte_address (ram mm4 a4)) [0..<512] r4 mm4)
       root [first_index..<end_index] (None, 0) mm)"

definition advance :: "indices \<Rightarrow> indices option" where
  "advance = (\<lambda>(i4, i3, i2, i1).
     if i1 + 1 < 512 then Some (i4, i3, i2, i1 + 1)
     else if i2 + 1 < 512 then Some (i4, i3, i2 + 1, 0)
     else if i3 + 1 < 512 then Some (i4, i3 + 1, 0, 0)
     else if i4 + 1 < 512 then Some (i4 + 1, 0, 0, 0)
     else None)"

text \<open>The mapping loop over the frames that are left; it returns the address of the last page.\<close>

fun place_run :: "u64 \<Rightarrow> page_flags \<Rightarrow> physical_address list \<Rightarrow> indices \<Rightarrow> virtual_address \<Rightarrow> memory_manager \<Rightarrow>
    (virtual_address \<times> memory_manager) option" where
  "place_run root flags [] ix last_page mm = Some (last_page, mm)"
| "place_run root flags (frame # frames) (i4, i3, i2, i1) last_page mm =
     (let a4 = slot root (of_nat i4); a3 = slot (pte_address (ram mm a4)) (of_nat i3);
          a2 = slot (pte_address (ram mm a3)) (of_nat i2); a1 = slot (pte_address (ram mm a2)) (of_nat i1)
      in case place_page a4 a3 a2 a1 frame flags mm of
           None \<Rightarrow> None
         | Some mm' \<Rightarrow>
             (case advance (i4, i3, i2, i1) of
                None \<Rightarrow> None
              | Some ix \<Rightarrow> place_run root flags frames ix (page_address i4 i3 i2 i1) mm'))"

definition map_any_contiguous :: "u64 \<Rightarrow> nat \<Rightarrow> nat \<Rightarrow> frame_range \<Rightarrow> page_flags \<Rightarrow> memory_manager \<Rightarrow>
    (page_range \<times> memory_manager) option" where
  "map_any_contiguous root first_index end_index frames flags mm =
     (case find_run root first_index end_index (frame_range_n frames) mm of
        Some ((Some (i4, i3, i2, i1), len), mm1) \<Rightarrow>
          (case place_run root flags (range_frames frames) (i4, i3, i2, i1) 0 mm1 of
             None \<Rightarrow> None
           | Some (end_address, mm2) \<Rightarrow>
               let start_address = (if range_frames frames = [] then 0 else page_address i4 i3 i2 i1)
               in map_option (\<lambda>r. (r, mm2)) (page_range_new start_address end_address))
      | _ \<Rightarrow> None)"

section \<open>Entries, bit by bit\<close>

lemma bit_pte_address [simp]: "bit (pte_address e) n \<longleftrightarrow> 12 \<le> n \<and> n < 60 \<and> bit e n"
proof -
  have m: "(0x0FFFFFFFFFFFF000 :: u64) = push_bit 12 (mask 48)"
    by (simp add: mask_eq_exp_minus_1)
  show ?thesis
    unfolding pte_address_def m by (auto simp: bit_and_iff bit_push_bit_iff bit_mask_iff possible_bit_def dest: bit_imp_le_length)
qed

lemma bit_pte_flags [simp]: "bit (pte_flags e) n \<longleftrightarrow> (n < 9 \<or> n = 63) \<and> bit e n"
proof -
  have m: "(0x80000000000001FF :: u64) = push_bit 63 1 OR mask 9"
    by (simp add: mask_eq_exp_minus_1)
  show ?thesis
    unfolding pte_flags_def m
    by (auto simp: bit_and_iff bit_or_iff bit_mask_iff bit_push_bit_iff bit_1_iff possible_bit_def simp del: push_bit_of_1)
qed

lemma contains_flag [simp]: "contains e PRESENT \<longleftrightarrow> bit e 0" "contains e HUGE_PAGE \<longleftrightarrow> bit e 7"
proof -
  have *: "(w AND push_bit n 1 = push_bit n 1) \<longleftrightarrow> bit w n" if "n < 64" for w :: u64 and n
  proof
    assume "w AND push_bit n 1 = push_bit n 1"
    moreover have "bit (push_bit n 1 :: u64) n"
      using that by (simp add: bit_push_bit_iff bit_1_iff)
    ultimately show "bit w n"
      by (metis bit_and_iff)
  qed (auto intro!: bit_word_eqI simp: bit_and_iff bit_push_bit_iff bit_1_iff)
  show "contains e PRESENT \<longleftrightarrow> bit e 0" "contains e HUGE_PAGE \<longleftrightarrow> bit e 7"
    using * [of 0 "pte_flags e"] * [of 7 "pte_flags e"] by (simp_all add: contains_def PRESENT_def HUGE_PAGE_def)
qed

text \<open>Storing flags that have no address bits keeps the address; adding a flag other than the two the walk reads keeps these.\<close>

lemma pte_address_set_flags: "(\<And>n. 12 \<le> n \<Longrightarrow> n < 60 \<Longrightarrow> \<not> bit f n) \<Longrightarrow> pte_address (pte_set_flags f e) = pte_address e"
  by (rule bit_word_eqI) (auto simp: pte_set_flags_def bit_or_iff)

lemma flag_bits:
  "WRITABLE = push_bit 1 1" "USER_ACCESSIBLE = push_bit 2 1" "WRITE_THROUGH = push_bit 3 1" "NO_CACHE = push_bit 4 1"
  "NO_EXECUTE = push_bit 63 1"
  by (simp_all add: WRITABLE_def USER_ACCESSIBLE_def WRITE_THROUGH_def NO_CACHE_def NO_EXECUTE_def)

lemma add_flag:
  fixes e :: u64
  assumes "f \<in> {WRITABLE, USER_ACCESSIBLE, WRITE_THROUGH, NO_CACHE, NO_EXECUTE}"
  defines "e' \<equiv> pte_set_flags (pte_flags e OR f) e"
  shows "pte_address e' = pte_address e" and "bit e' 0 = bit e 0" and "bit e' 7 = bit e 7"
proof -
  obtain k where k: "f = push_bit k 1" "k \<in> {1, 2, 3, 4, 63}"
    using assms(1) unfolding flag_bits by blast
  show "pte_address e' = pte_address e"
    unfolding e'_def k(1) by (rule pte_address_set_flags) (use k(2) in \<open>auto simp: bit_or_iff bit_push_bit_iff bit_1_iff\<close>)
  show "bit e' 0 = bit e 0" "bit e' 7 = bit e 7"
    using k(2) by (auto simp: e'_def k(1) pte_set_flags_def bit_or_iff bit_push_bit_iff bit_1_iff)
qed

lemma assign_propagable_keeps [simp]:
  "pte_address (assign_propagable flags e) = pte_address e" "bit (assign_propagable flags e) 0 = bit e 0"
  "bit (assign_propagable flags e) 7 = bit e 7"
  by (simp_all add: assign_propagable_def Let_def add_flag)

lemma leaf_entry_keeps [simp]:
  "pte_address (leaf_entry flags e) = pte_address e" "bit (leaf_entry flags e) 0 = bit e 0"
  by (simp_all add: leaf_entry_def Let_def add_flag)

definition frame_ok :: "physical_address \<Rightarrow> bool" where
  "frame_ok f \<longleftrightarrow> aligned f \<and> f < push_bit 52 1"

lemma aligned_bits: "aligned f \<longleftrightarrow> (\<forall>n < 12. \<not> bit f n)"
proof
  assume "aligned f"
  then have "bit f n = bit (frame_of f) n" for n
    by (simp add: aligned_def)
  then show "\<forall>n < 12. \<not> bit f n"
    by (auto simp: frame_of_def bit_push_bit_iff)
next
  assume low: "\<forall>n < 12. \<not> bit f n"
  have "bit (frame_of f) n = bit f n" for n
    using low by (cases "n < 12") (auto simp: frame_of_def bit_push_bit_iff bit_drop_bit_eq dest: bit_imp_le_length)
  then show "aligned f"
    unfolding aligned_def by (simp add: bit_eq_iff)
qed

lemma aligned_and: "f AND 0xFFF = 0 \<longleftrightarrow> aligned f"
proof
  assume zero: "f AND 0xFFF = 0"
  have "\<not> bit f n" if "n < 12" for n
  proof -
    have "bit (f AND mask 12) n = bit f n"
      using that by (auto simp: bit_and_iff bit_mask_iff)
    then show ?thesis
      using zero unfolding mask_nums(2) by simp
  qed
  then show "aligned f"
    by (simp add: aligned_bits)
next
  assume "aligned f"
  then show "f AND 0xFFF = 0"
    unfolding mask_nums(2) aligned_bits by (intro bit_word_eqI) (auto simp: bit_and_iff bit_mask_iff)
qed

lemma frame_high_bits: "frame_ok f \<Longrightarrow> 52 \<le> n \<Longrightarrow> \<not> bit f n"
proof -
  assume "frame_ok f" "52 \<le> n"
  then have "unat f < 2 ^ 52"
    by (simp add: frame_ok_def word_less_nat_alt)
  then have "take_bit 52 (unat f) = unat f"
    by (rule take_bit_nat_eq_self)
  then have "\<not> bit (unat f) n"
    using \<open>52 \<le> n\<close> by (metis bit_take_bit_iff not_le)
  then show "\<not> bit f n"
    by (simp add: bit_unsigned_iff)
qed

lemma set_address_ok: "frame_ok f \<Longrightarrow> pte_set_address f e = Some (f OR pte_flags e)"
  by (simp add: pte_set_address_def frame_ok_def aligned_and)

lemma new_entry:
  fixes e :: u64
  assumes "frame_ok f"
  defines "e' \<equiv> pte_set_flags PRESENT (f OR pte_flags e)"
  shows "pte_address e' = f" and "bit e' 0" and "\<not> bit e' 7"
proof -
  have low: "\<forall>n < 12. \<not> bit f n"
    using assms(1) by (simp add: frame_ok_def aligned_bits)
  have "bit (pte_address e') n = bit f n" for n
    using low frame_high_bits [OF assms(1), of n]
    by (cases "n < 12"; cases "n < 52")
      (auto simp: e'_def pte_set_flags_def bit_or_iff PRESENT_def bit_1_iff)
  then show "pte_address e' = f"
    by (simp add: bit_eq_iff)
  show "bit e' 0" "\<not> bit e' 7"
    by (auto simp: e'_def pte_set_flags_def bit_or_iff PRESENT_def bit_1_iff)
qed

section \<open>Canonical addresses\<close>

definition canonical :: "virtual_address \<Rightarrow> bool" where
  "canonical a \<longleftrightarrow> (\<forall>n. 47 \<le> n \<longrightarrow> n < 64 \<longrightarrow> bit a n = bit a 47)"

lemma u64_eq_bits: "a = b \<longleftrightarrow> (\<forall>n < 64. bit a n = bit b n)" for a b :: u64
  by (auto intro: bit_word_eqI)

lemma sign_extend_bit: "n < 64 \<Longrightarrow> bit (sign_extend a) n = bit a (if n < 47 then n else 47)"
  by (cases "n = 47") (auto simp: sign_extend_def bit_signed_drop_bit_iff bit_push_bit_iff)

lemma sign_extend_fixed: "a = sign_extend a \<longleftrightarrow> canonical a"
proof -
  have "a = sign_extend a \<longleftrightarrow> (\<forall>n < 64. bit a n = bit a (if n < 47 then n else 47))"
    using u64_eq_bits [of a "sign_extend a"] sign_extend_bit [of _ a] by metis
  also have "\<dots> \<longleftrightarrow> canonical a"
  proof -
    have "bit a n = bit a (if n < 47 then n else 47) \<longleftrightarrow> (47 \<le> n \<longrightarrow> bit a n = bit a 47)" for n
      by auto
    then show ?thesis
      unfolding canonical_def by blast
  qed
  finally show ?thesis .
qed

lemma sign_part: "(drop_bit 47 a AND 1 = 0) = (\<not> bit a 47)" "(drop_bit 47 a AND 1 = 1) = bit a 47" for a :: u64
  by (simp_all add: and_one_eq mod_2_eq_odd bit_iff_odd_drop_bit)

lemma unused_part:
  fixes a :: u64
  shows "drop_bit 48 a = 0 \<longleftrightarrow> (\<forall>n. 48 \<le> n \<longrightarrow> n < 64 \<longrightarrow> \<not> bit a n)"
    and "drop_bit 48 a = 0xFFFF \<longleftrightarrow> (\<forall>n. 48 \<le> n \<longrightarrow> n < 64 \<longrightarrow> bit a n)"
proof -
  have shift: "(\<forall>n. 48 \<le> n \<longrightarrow> n < 64 \<longrightarrow> P n) \<longleftrightarrow> (\<forall>m < 16. P (48 + m))" for P :: "nat \<Rightarrow> bool"
  proof (intro iffI allI impI)
    fix n :: nat assume "\<forall>m < 16. P (48 + m)" "48 \<le> n" "n < 64"
    moreover obtain m where "n = 48 + m"
      using \<open>48 \<le> n\<close> le_Suc_ex by blast
    ultimately show "P n"
      by simp
  qed auto
  have top: "m < 16" if "bit a (48 + m)" for m
    using bit_imp_le_length [OF that] by simp
  show "drop_bit 48 a = 0 \<longleftrightarrow> (\<forall>n. 48 \<le> n \<longrightarrow> n < 64 \<longrightarrow> \<not> bit a n)"
    unfolding shift by (auto simp: u64_eq_bits [of _ 0] bit_drop_bit_eq dest: top)
  have m: "(0xFFFF :: u64) = mask 16"
    by (simp add: mask_eq_exp_minus_1)
  show "drop_bit 48 a = 0xFFFF \<longleftrightarrow> (\<forall>n. 48 \<le> n \<longrightarrow> n < 64 \<longrightarrow> bit a n)"
    unfolding shift m by (auto simp: u64_eq_bits [of _ "mask 16"] bit_drop_bit_eq bit_mask_iff dest: top)
qed

lemma canonical_range: "canonical a \<longleftrightarrow> (\<forall>n. 48 \<le> n \<longrightarrow> n < 64 \<longrightarrow> bit a n = bit a 47)"
proof -
  have "47 \<le> n \<longleftrightarrow> n = 47 \<or> 48 \<le> n" for n :: nat
    by auto
  then show ?thesis
    by (auto simp: canonical_def)
qed

lemma is_canonical_iff: "is_canonical a \<longleftrightarrow> canonical a"
  unfolding is_canonical_def Let_def sign_part unused_part canonical_range by auto

lemma canonical_parts:
  "(drop_bit 47 a AND 1 = 0 \<and> drop_bit 48 a = 0 \<or> drop_bit 47 a AND 1 = 1 \<and> drop_bit 48 a = 0xFFFF) \<longleftrightarrow> canonical a"
  unfolding sign_part unused_part canonical_range by auto

end
