(* ===== verification/Mem_Mapping.thy ===== *)
theory Mem_Mapping
  imports Mem_Paging
begin

text \<open>
  Correctness of the kernel's page tables. The format of an entry instantiates the trees of \<open>Page_Tree\<close>; the translation the
  code computes is the walk through such a tree. The invariant \<open>mm_ok\<close> says that the tables form a tree and that the allocator
  will never hand out one of their frames. Mapping a page adds one translation and changes no other, unmapping removes one, and
  both keep the invariant.
\<close>

definition table_entry :: "nat \<Rightarrow> u64 \<Rightarrow> bool" where
  "table_entry l e \<longleftrightarrow> bit e 0 \<and> (l = 3 \<or> \<not> bit e 7)"

interpretation pt: table_format table_entry pte_address
  by unfold_locales (simp add: table_entry_def)

definition decode :: "virtual_address \<Rightarrow> nat \<times> u64 \<Rightarrow> physical_address option" where
  "decode va = (\<lambda>(l, e). if bit e 0 then Some (pte_address e + take_bit (12 + 9 * l) va) else None)"

definition translation :: "u64 \<Rightarrow> memory_manager \<Rightarrow> virtual_address \<Rightarrow> physical_address option" where
  "translation root mm va = decode va (pt.walk (ram mm) 3 root va)"

definition free_frames :: "memory_manager \<Rightarrow> physical_address list" where
  "free_frames mm = drop (next_frame (frame_allocator mm)) (usable_frames (memory_map_entries (frame_allocator mm)))"

definition tables :: "u64 \<Rightarrow> memory_manager \<Rightarrow> u64 set" where
  "tables root mm = pt.frames (ram mm) 3 root"

definition mm_ok :: "u64 \<Rightarrow> memory_manager \<Rightarrow> bool" where
  "mm_ok root mm \<longleftrightarrow> pt.tree (ram mm) 3 root \<and> list_all frame_ok (usable_frames (memory_map_entries (frame_allocator mm)))
     \<and> distinct (free_frames mm) \<and> set (free_frames mm) \<inter> tables root mm = {}"

lemma walk_levels:
  "pt.walk mem 3 t va = (let e = mem (slot t (table_index 3 va)) in if bit e 0 then pt.walk mem 2 (pte_address e) va else (3, e))"
  "pt.walk mem 2 t va =
     (let e = mem (slot t (table_index 2 va)) in if bit e 0 \<and> \<not> bit e 7 then pt.walk mem 1 (pte_address e) va else (2, e))"
  "pt.walk mem 1 t va =
     (let e = mem (slot t (table_index 1 va)) in if bit e 0 \<and> \<not> bit e 7 then pt.walk mem 0 (pte_address e) va else (1, e))"
  using pt.walk.simps(2) [of mem 2 t va] pt.walk.simps(2) [of mem 1 t va] pt.walk.simps(2) [of mem 0 t va]
  by (simp_all add: table_entry_def numeral_3_eq_3 numeral_2_eq_2 Let_def)

lemma table_indices:
  "drop_bit 39 va AND 0x1FF = table_index 3 va" "drop_bit 30 va AND 0x1FF = table_index 2 va"
  "drop_bit 21 va AND 0x1FF = table_index 1 va" "drop_bit 12 va AND 0x1FF = table_index 0 va"
  using index_eq [of 3 va] index_eq [of 2 va] index_eq [of 1 va] index_eq [of 0 va] by simp_all

lemma offsets:
  "va AND 0x3FFFFFFF = take_bit (12 + 9 * 2) va" "va AND 0x1FFFFF = take_bit (12 + 9 * 1) va" "va AND 0xFFF = take_bit (12 + 9 * 0) va"
  for va :: u64
  unfolding mask_nums take_bit_eq_mask by simp_all

lemma translate_is_walk: "translate_virtual_address root mm va = (if canonical va then translation root mm va else None)"
  unfolding translate_virtual_address_def translation_def table_indices offsets is_canonical_iff Let_def decode_def walk_levels
    contains_flag pt.walk.simps(1)
  by simp

section \<open>Growing the tree\<close>

lemma is_aligned_iff: "is_aligned_to f FRAME_SIZE \<longleftrightarrow> aligned f"
proof -
  have "f mod 4096 = f AND mask 12"
    using take_bit_eq_mod [of 12 f] by (simp add: take_bit_eq_mask)
  then show ?thesis
    unfolding is_aligned_to_def FRAME_SIZE_def aligned_and [symmetric] mask_nums(2) by simp
qed

abbreviation regions :: "memory_manager \<Rightarrow> memory_map_entry list" where
  "regions mm \<equiv> memory_map_entries (frame_allocator mm)"

lemma take_frame:
  assumes "list_all frame_ok (usable_frames (regions mm))" "free_frames mm = f # fs"
  obtains mm1 where "allocate_frame mm = Some (Some f, mm1)" "free_frames mm1 = fs" "ram mm1 = ram mm" "regions mm1 = regions mm"
proof -
  let ?n = "next_frame (frame_allocator mm)" and ?xs = "usable_frames (regions mm)"
  have n: "?n < length ?xs" "?xs ! ?n = f" "drop (Suc ?n) ?xs = fs"
    using assms(2) unfolding free_frames_def by (metis drop_eq_Nil list.distinct(1) not_le, metis nth_via_drop, metis drop_Suc list.sel(3) tl_drop)
  have "list_all (\<lambda>f. is_aligned_to f FRAME_SIZE) (take (Suc ?n) ?xs)"
    using assms(1) by (auto simp: list_all_iff is_aligned_iff frame_ok_def dest: in_set_takeD)
  then have "allocate_frame mm = Some (Some f, mm\<lparr>frame_allocator := (frame_allocator mm)\<lparr>next_frame := Suc ?n\<rparr>\<rparr>)"
    using n by (simp add: allocate_frame_def allocate_def Let_def)
  then show ?thesis
    by (rule that) (use n(3) in \<open>simp_all add: free_frames_def\<close>)
qed

text \<open>From one manager to another: frames were taken from the front of the free list, the tree grew by some of them, and no word
  outside both changed. The tree \<open>grows\<close> when moreover every translation is as before.\<close>

definition extends :: "u64 \<Rightarrow> memory_manager \<Rightarrow> memory_manager \<Rightarrow> bool" where
  "extends root mm mm' \<longleftrightarrow> regions mm' = regions mm \<and> pt.tree (ram mm') 3 root
     \<and> (\<exists>used. free_frames mm = used @ free_frames mm' \<and> tables root mm' \<subseteq> tables root mm \<union> set used
          \<and> (\<forall>a. frame_of a \<notin> tables root mm \<union> set used \<longrightarrow> ram mm' a = ram mm a))"

definition grows :: "u64 \<Rightarrow> memory_manager \<Rightarrow> memory_manager \<Rightarrow> bool" where
  "grows root mm mm' \<longleftrightarrow> extends root mm mm' \<and> (\<forall>va. translation root mm' va = translation root mm va)"

lemma extends_trans:
  assumes "extends root mm mm1" "extends root mm1 mm2"
  shows "extends root mm mm2"
proof -
  obtain u where u: "free_frames mm = u @ free_frames mm1" "tables root mm1 \<subseteq> tables root mm \<union> set u"
    "\<forall>a. frame_of a \<notin> tables root mm \<union> set u \<longrightarrow> ram mm1 a = ram mm a"
    using assms(1) by (auto simp: extends_def)
  obtain v where v: "free_frames mm1 = v @ free_frames mm2" "tables root mm2 \<subseteq> tables root mm1 \<union> set v"
    "\<forall>a. frame_of a \<notin> tables root mm1 \<union> set v \<longrightarrow> ram mm2 a = ram mm1 a"
    using assms(2) by (auto simp: extends_def)
  have "free_frames mm = (u @ v) @ free_frames mm2" "tables root mm2 \<subseteq> tables root mm \<union> set (u @ v)"
    "\<forall>a. frame_of a \<notin> tables root mm \<union> set (u @ v) \<longrightarrow> ram mm2 a = ram mm a"
    using u v by auto
  then show ?thesis
    using assms unfolding extends_def by metis
qed

lemma grows_trans: "grows root mm mm1 \<Longrightarrow> grows root mm1 mm2 \<Longrightarrow> grows root mm mm2"
  using extends_trans by (auto simp: grows_def)

lemma extends_ok: "mm_ok root mm \<Longrightarrow> extends root mm mm' \<Longrightarrow> mm_ok root mm'"
  unfolding mm_ok_def extends_def by (elim conjE exE) (simp, blast)

lemma grows_ok: "mm_ok root mm \<Longrightarrow> grows root mm mm' \<Longrightarrow> mm_ok root mm'"
  using extends_ok by (auto simp: grows_def)

lemma write_ram_simps [simp]:
  "ram (write_ram a e mm) = (ram mm)(a := e)" "frame_allocator (write_ram a e mm) = frame_allocator mm"
  "free_frames (write_ram a e mm) = free_frames mm"
  by (simp_all add: write_ram_def free_frames_def)

text \<open>A new table below an entry that is not present.\<close>

lemma allocate_lower:
  assumes ok: "mm_ok root mm" and s: "pt.table_at (ram mm) 3 root va (Suc j) = Some s"
    and absent: "\<not> bit (ram mm (slot s (table_index (Suc j) va))) 0" and free: "free_frames mm = f # fs"
  defines "a \<equiv> slot s (table_index (Suc j) va)"
  obtains mm' where "allocate_lower_level_page_table a mm = Some mm'" "grows root mm mm'" "free_frames mm' = fs"
    "\<And>l. Suc j \<le> l \<Longrightarrow> pt.table_at (ram mm') 3 root va l = pt.table_at (ram mm) 3 root va l" "table_entry (Suc j) (ram mm' a)"
proof -
  have tree: "pt.tree (ram mm) 3 root" and all: "list_all frame_ok (usable_frames (regions mm))"
    using ok by (auto simp: mm_ok_def)
  have f: "f \<notin> tables root mm"
    using ok free by (auto simp: mm_ok_def)
  have "f \<in> set (usable_frames (regions mm))"
    using free unfolding free_frames_def by (metis in_set_dropD list.set_intros(1))
  then have fok: "frame_ok f"
    using all by (auto simp: list_all_iff)
  obtain mm1 where mm1: "allocate_frame mm = Some (Some f, mm1)" "free_frames mm1 = fs" "ram mm1 = ram mm" "regions mm1 = regions mm"
    using take_frame [OF all free] .
  let ?mem = "zero_frame f (ram mm)"
  note z = pt.zero_frame_kept [OF tree f [unfolded tables_def]]
  note out = pt.write_outside [OF tree s]
  have keep: "?mem a = ram mm a"
    using out(1,2) f by (auto simp: a_def zero_frame_def tables_def)
  define e where "e = pte_set_flags PRESENT (f OR pte_flags (ram mm a))"
  note e = new_entry [OF fok, of "ram mm a", folded e_def]
  define mm' where "mm' = write_ram a e (mm1\<lparr>ram := ?mem\<rparr>)"
  have alloc: "allocate_lower_level_page_table a mm = Some mm'"
    using mm1 keep by (simp add: allocate_lower_level_page_table_def set_address_ok [OF fok] mm'_def e_def Let_def)
  have te: "table_entry (Suc j) e"
    using e by (simp add: table_entry_def)
  have ram': "ram mm' = ?mem(slot s (table_index (Suc j) va) := e)"
    by (simp add: mm'_def a_def)
  have abs: "\<not> table_entry (Suc j) (?mem (slot s (table_index (Suc j) va)))"
    using keep absent by (simp add: a_def table_entry_def)
  have zero: "?mem a' = 0" if "frame_of a' = pte_address e" for a'
    using that e(1) by (simp add: zero_frame_def)
  have al: "aligned (pte_address e)" "pte_address e \<notin> pt.frames ?mem 3 root"
    using fok e(1) f by (simp_all add: frame_ok_def z tables_def)
  note link = pt.set_link [OF z(1) z(4) [THEN trans, OF s] abs te al zero, folded ram']
  have "translation root mm' va' = translation root mm va'" for va'
  proof (cases "pt.same_slot 3 (Suc j) va va'")
    case True
    have "pt.walk (ram mm) 3 root va' = (Suc j, ram mm a)"
      using pt.walk_stops [OF s True] absent by (simp add: table_entry_def a_def)
    then show ?thesis
      using link(3) [of va'] True absent by (simp add: translation_def decode_def a_def)
  next
    case False
    then show ?thesis
      using link(3) [of va'] by (simp add: translation_def z)
  qed
  moreover have "ram mm' a' = ram mm a'" if "frame_of a' \<notin> tables root mm \<union> set [f]" for a'
    using that out(3) [of a'] by (simp add: ram' zero_frame_def tables_def)
  moreover have "tables root mm' \<subseteq> tables root mm \<union> set [f]"
    using link(2) z(2) e(1) by (auto simp: tables_def)
  ultimately have "grows root mm mm'"
    using link(1) mm1 free by (auto simp: grows_def extends_def mm'_def free_frames_def intro!: exI [of _ "[f]"])
  moreover have "table_entry (Suc j) (ram mm' a)"
    using te by (simp add: ram' a_def)
  moreover have "free_frames mm' = fs"
    using mm1(2) by (simp add: mm'_def free_frames_def)
  moreover have "pt.table_at (ram mm') 3 root va l = pt.table_at (ram mm) 3 root va l" if "Suc j \<le> l" for l
    using link(5) [of l] that z(4) by simp
  ultimately show ?thesis
    using that alloc by blast
qed

lemma assign_flags_kept:
  fixes flags :: page_flags
  assumes "mm_ok root mm" "pt.table_at (ram mm) 3 root va (Suc j) = Some s" "table_entry (Suc j) (ram mm (slot s (table_index (Suc j) va)))"
  defines "a \<equiv> slot s (table_index (Suc j) va)"
  defines "mm' \<equiv> assign_flags_at flags a mm"
  shows "grows root mm mm'" and "free_frames mm' = free_frames mm" and "pt.table_at (ram mm') 3 root va j = Some (pte_address (ram mm' a))"
    and "pt.table_at (ram mm') 3 root va l = pt.table_at (ram mm) 3 root va l"
proof -
  let ?e = "assign_propagable flags (ram mm a)"
  have tree: "pt.tree (ram mm) 3 root"
    using assms(1) by (simp add: mm_ok_def)
  have te: "table_entry (Suc j) ?e"
    using assms(3) by (simp add: table_entry_def a_def)
  note k = pt.set_flags_kept [OF tree assms(2,3) te, folded a_def]
  have ram': "ram mm' = (ram mm)(a := ?e)"
    by (simp add: mm'_def assign_flags_at_def)
  have "ram mm' a' = ram mm a'" if "frame_of a' \<notin> tables root mm" for a'
    using pt.write_outside(3) [OF tree assms(2)] that by (auto simp: ram' a_def tables_def)
  moreover have "free_frames mm' = free_frames mm" "regions mm' = regions mm"
    by (simp_all add: mm'_def assign_flags_at_def)
  ultimately show "grows root mm mm'" "free_frames mm' = free_frames mm"
    using k by (auto simp: grows_def extends_def translation_def ram' tables_def intro!: exI [of _ "[]"])
  show same: "pt.table_at (ram mm') 3 root va l = pt.table_at (ram mm) 3 root va l" for l
    using k by (simp add: ram')
  have "pt.table_at (ram mm) 3 root va j = Some (pte_address (ram mm a))"
    using pt.table_at_via [OF assms(2), of j] assms(3) by (simp add: a_def)
  then show "pt.table_at (ram mm') 3 root va j = Some (pte_address (ram mm' a))"
    using same by (simp add: ram')
qed

lemma enter_table:
  assumes "mm_ok root mm" "pt.table_at (ram mm) 3 root va (Suc j) = Some s" "free_frames mm \<noteq> []"
    and "bit (ram mm (slot s (table_index (Suc j) va))) 0 \<Longrightarrow> table_entry (Suc j) (ram mm (slot s (table_index (Suc j) va)))"
  defines "a \<equiv> slot s (table_index (Suc j) va)"
  obtains mm' where "enter_level_4 flags a mm = Some mm'" "grows root mm mm'" "mm_ok root mm'"
    "length (free_frames mm) \<le> Suc (length (free_frames mm'))" "pt.table_at (ram mm') 3 root va j = Some (pte_address (ram mm' a))"
proof (cases "bit (ram mm a) 0")
  case True
  then have "table_entry (Suc j) (ram mm (slot s (table_index (Suc j) va)))"
    using assms(4) by (simp add: a_def)
  note k = assign_flags_kept [OF assms(1,2) this, of flags, folded a_def]
  show ?thesis
    by (rule that [of "assign_flags_at flags a mm"])
      (use k grows_ok [OF assms(1) k(1)] True in \<open>simp_all add: enter_level_4_def\<close>)
next
  case False
  obtain f fs where free: "free_frames mm = f # fs"
    using assms(3) by (cases "free_frames mm") auto
  obtain mm1 where mm1: "allocate_lower_level_page_table a mm = Some mm1" "grows root mm mm1" "free_frames mm1 = fs"
    "pt.table_at (ram mm1) 3 root va (Suc j) = Some s" "table_entry (Suc j) (ram mm1 a)"
    using allocate_lower [OF assms(1,2) _ free] False assms(2) unfolding a_def by (metis order_refl)
  have ok1: "mm_ok root mm1"
    by (rule grows_ok [OF assms(1) mm1(2)])
  note k = assign_flags_kept [OF ok1 mm1(4,5) [unfolded a_def], of flags, folded a_def]
  show ?thesis
    by (rule that [of "assign_flags_at flags a mm1"])
      (use k grows_ok [OF ok1 k(1)] grows_trans [OF mm1(2) k(1)] mm1 free False in \<open>simp_all add: enter_level_4_def\<close>)
qed

lemma enter_level_eq:
  "enter_level flags a mm = (if bit (ram mm a) 0 \<and> bit (ram mm a) 7 then Some (Inl HugePage) else map_option Inr (enter_level_4 flags a mm))"
  by (simp add: enter_level_def enter_level_4_def option.map_comp comp_def)

lemma grows_translation: "grows root mm mm' \<Longrightarrow> translation root mm' va = translation root mm va"
  by (simp add: grows_def)

lemma stopped_translation:
  assumes "pt.table_at (ram mm) 3 root va k = Some s" "bit (ram mm (slot s (table_index k va))) 0"
    and "k = 0 \<or> \<not> table_entry k (ram mm (slot s (table_index k va)))"
  shows "translation root mm va \<noteq> None"
  using pt.walk_stops [OF assms(1) pt.same_slot_refl assms(3)] assms(2) by (simp add: translation_def decode_def)

text \<open>The last step of a mapping.\<close>

lemma set_leaf:
  assumes ok: "mm_ok root mm" and s: "pt.table_at (ram mm) 3 root va 0 = Some s" and e: "pte_address e = frame" "bit e 0"
  defines "mm' \<equiv> write_ram (slot s (table_index 0 va)) e mm"
  shows "extends root mm mm'" and "pt.table_at (ram mm') 3 root va j = pt.table_at (ram mm) 3 root va j"
    and "translation root mm' va' = (if pt.same_slot 3 0 va va' then Some (frame + take_bit 12 va') else translation root mm va')"
proof -
  have tree: "pt.tree (ram mm) 3 root"
    using ok by (simp add: mm_ok_def)
  note k = pt.set_terminal [OF tree s disjI1 [OF refl], of e]
  show "extends root mm mm'"
    using k(1,2) pt.write_outside(3) [OF tree s] by (auto simp: extends_def mm'_def tables_def intro!: exI [of _ "[]"])
  show "pt.table_at (ram mm') 3 root va j = pt.table_at (ram mm) 3 root va j"
    using k(4) by (simp add: mm'_def)
  show "translation root mm' va' = (if pt.same_slot 3 0 va va' then Some (frame + take_bit 12 va') else translation root mm va')"
    using k(3) [of va'] e by (simp add: translation_def decode_def mm'_def)
qed

lemma write_leaf_ok:
  assumes ok: "mm_ok root mm" and s: "pt.table_at (ram mm) 3 root va 0 = Some s" and f: "frame_ok frame"
  defines "a \<equiv> slot s (table_index 0 va)"
  obtains mm' where "write_leaf a frame flags mm = Some mm'" "extends root mm mm'" "free_frames mm' = free_frames mm"
    "\<And>va'. translation root mm' va' = (if pt.same_slot 3 0 va va' then Some (frame + take_bit 12 va') else translation root mm va')"
proof -
  let ?e = "leaf_entry flags (pte_set_flags PRESENT (frame OR pte_flags (ram mm a)))"
  have e: "pte_address ?e = frame" "bit ?e 0"
    using new_entry [OF f] by simp_all
  show ?thesis
    by (rule that [of "write_ram a ?e mm"])
      (use set_leaf [OF ok s e] in \<open>simp_all add: write_leaf_def set_address_ok [OF f] a_def\<close>)
qed

section \<open>Mapping a page\<close>

text \<open>One of the two middle levels: the entry maps a large page, or there is a table below it afterwards.\<close>

lemma enter_checked:
  assumes "mm_ok root mm" "pt.table_at (ram mm) 3 root va k = Some s" "free_frames mm \<noteq> []" "k = Suc j" "k < 3"
  defines "a \<equiv> slot s (table_index k va)"
  obtains (huge) "enter_level flags a mm = Some (Inl HugePage)" "translation root mm va \<noteq> None"
  | (table) mm' where "enter_level flags a mm = Some (Inr mm')" "grows root mm mm'" "mm_ok root mm'"
      "length (free_frames mm) \<le> Suc (length (free_frames mm'))" "pt.table_at (ram mm') 3 root va j = Some (pte_address (ram mm' a))"
proof (cases "bit (ram mm a) 0 \<and> bit (ram mm a) 7")
  case True
  then have "translation root mm va \<noteq> None"
    using assms(5) by (intro stopped_translation [OF assms(2)]) (auto simp: a_def table_entry_def)
  then show ?thesis
    using huge True by (simp add: enter_level_eq)
next
  case False
  then have "bit (ram mm a) 0 \<Longrightarrow> table_entry (Suc j) (ram mm a)"
    by (simp add: table_entry_def)
  note te = enter_table [OF assms(1) assms(2) [unfolded assms(4)] assms(3) this [unfolded a_def assms(4)], of flags,
      folded assms(4), folded a_def]
  show ?thesis
    by (rule te) (assumption, rule table, use False in \<open>auto simp: enter_level_eq\<close>)
qed

lemma map_inner_spec:
  assumes ok: "mm_ok root mm" and va: "canonical va" "aligned va" and f: "frame_ok frame" and free: "3 \<le> length (free_frames mm)"
  obtains (mapped) mm' where "map_inner root va frame flags mm = Some (Inr (), mm')" "translation root mm va = None" "extends root mm mm'"
      "length (free_frames mm) \<le> length (free_frames mm') + 3"
      "\<And>va'. translation root mm' va' = (if pt.same_slot 3 0 va va' then Some (frame + take_bit 12 va') else translation root mm va')"
  | (refused) err mm' where "map_inner root va frame flags mm = Some (Inl err, mm')" "translation root mm va \<noteq> None" "grows root mm mm'"
proof -
  have guard: "\<not> (va \<noteq> sign_extend va \<or> va AND 0xFFF \<noteq> 0)"
    using va by (simp add: sign_extend_fixed aligned_and)
  note def = map_inner_def [of root va frame flags mm, unfolded table_indices Let_def if_not_P [OF guard] contains_flag]
  have t4: "pt.table_at (ram mm) 3 root va (Suc 2) = Some root"
    using pt.table_at_root [of "ram mm" 3 root va] by simp
  define a4 where "a4 = slot root (table_index 3 va)"
  obtain mm4 where m4: "enter_level_4 flags a4 mm = Some mm4" "grows root mm mm4" "mm_ok root mm4"
      "length (free_frames mm) \<le> Suc (length (free_frames mm4))" "pt.table_at (ram mm4) 3 root va 2 = Some (pte_address (ram mm4 a4))"
    by (rule enter_table [OF ok t4, of flags]) (use free in \<open>auto simp: table_entry_def a4_def\<close>)
  define a3 where "a3 = slot (pte_address (ram mm4 a4)) (table_index 2 va)"
  have t3: "free_frames mm4 \<noteq> []"
    using m4(4) free by auto
  show ?thesis
  proof (cases rule: enter_checked [OF m4(3,5) t3, of 1 flags, folded a3_def, case_names level below huge table])
    case huge
    then show ?thesis
      using refused [of HugePage mm4] m4(1,2) by (simp add: def a4_def a3_def grows_translation)
  next
    case m3: (table mm3)
    note g3 = grows_trans [OF m4(2) m3(2)]
    define a2 where "a2 = slot (pte_address (ram mm3 a3)) (table_index 1 va)"
    have t2: "free_frames mm3 \<noteq> []"
      using m3(4) m4(4) free by auto
    show ?thesis
    proof (cases rule: enter_checked [OF m3(3,5) t2, of 0 flags, folded a2_def, case_names level below huge table])
      case huge
      then show ?thesis
        using refused [of HugePage mm3] m4(1) m3(1) g3 by (simp add: def a4_def a3_def a2_def grows_translation)
    next
      case m2: (table mm2)
      note g2 = grows_trans [OF g3 m2(2)]
      define a1 where "a1 = slot (pte_address (ram mm2 a2)) (table_index 0 va)"
      have run: "map_inner root va frame flags mm = (if bit (ram mm2 a1) 0 then Some (Inl AlreadyMapped, mm2)
          else map_option (Pair (Inr ())) (write_leaf a1 frame flags mm2))"
        unfolding def using m4(1) m3(1) m2(1) by (simp add: a4_def a3_def a2_def a1_def)
      have stop: "translation root mm va \<noteq> None \<longleftrightarrow> bit (ram mm2 a1) 0"
        unfolding grows_translation [OF g2, of va, symmetric]
        using pt.walk_stops [OF m2(5) pt.same_slot_refl] by (simp add: translation_def decode_def a1_def)
      obtain mm' where m1: "write_leaf a1 frame flags mm2 = Some mm'" "extends root mm2 mm'" "free_frames mm' = free_frames mm2"
          "\<And>va'. translation root mm' va' = (if pt.same_slot 3 0 va va' then Some (frame + take_bit 12 va') else translation root mm2 va')"
        using write_leaf_ok [OF m2(3,5) f, of flags] unfolding a1_def by blast
      then show ?thesis
        using mapped [of mm'] refused [of AlreadyMapped mm2] run stop g2 m4(4) m3(4) m2(4) extends_trans [of root mm mm2 mm']
        by (cases "bit (ram mm2 a1) 0") (auto simp: grows_translation [OF g2] grows_def)
    qed simp_all
  qed simp_all
qed

lemma table_index_eq_iff: "table_index l a = table_index l b \<longleftrightarrow> (\<forall>n < 9. bit a (12 + 9 * l + n) = bit b (12 + 9 * l + n))"
proof
  assume "table_index l a = table_index l b"
  then have "bit (table_index l a) n = bit (table_index l b) n" for n
    by simp
  then show "\<forall>n < 9. bit a (12 + 9 * l + n) = bit b (12 + 9 * l + n)"
    by (simp add: table_index_def bit_take_bit_iff bit_drop_bit_eq) blast
qed (auto simp: table_index_def bit_take_bit_iff bit_drop_bit_eq intro!: bit_word_eqI)

lemma drop_bit_eq_iff: "drop_bit n a = drop_bit n b \<longleftrightarrow> (\<forall>m. n \<le> m \<longrightarrow> m < 64 \<longrightarrow> bit a m = bit b m)" for a b :: u64
proof
  assume "drop_bit n a = drop_bit n b"
  then have "bit (drop_bit n a) (m - n) = bit (drop_bit n b) (m - n)" for m
    by simp
  then show "\<forall>m. n \<le> m \<longrightarrow> m < 64 \<longrightarrow> bit a m = bit b m"
    by (metis bit_drop_bit_eq comp_apply le_add_diff_inverse)
next
  assume eq: "\<forall>m. n \<le> m \<longrightarrow> m < 64 \<longrightarrow> bit a m = bit b m"
  have "bit a (n + m) = bit b (n + m)" for m
    using eq [rule_format, of "n + m"] bit_imp_le_length [of a "n + m"] bit_imp_le_length [of b "n + m"] by fastforce
  then show "drop_bit n a = drop_bit n b"
    by (auto intro!: bit_word_eqI simp: bit_drop_bit_eq)
qed

lemma same_slot_iff:
  assumes "canonical a" "canonical b" "k \<le> 3"
  shows "pt.same_slot 3 k a b \<longleftrightarrow> drop_bit (12 + 9 * k) a = drop_bit (12 + 9 * k) b"
proof -
  have "pt.same_slot 3 k a b \<longleftrightarrow> (\<forall>l. k \<le> l \<longrightarrow> l \<le> 3 \<longrightarrow> table_index l a = table_index l b)"
    unfolding pt.same_slot_def pt.agree_def using assms(3) by (auto simp: le_less)
  also have "\<dots> \<longleftrightarrow> (\<forall>m. 12 + 9 * k \<le> m \<longrightarrow> m < 48 \<longrightarrow> bit a m = bit b m)"
  proof (rule iffI; intro allI impI)
    fix m assume eq: "\<forall>l. k \<le> l \<longrightarrow> l \<le> 3 \<longrightarrow> table_index l a = table_index l b" and m: "12 + 9 * k \<le> m" "m < 48"
    define l where "l = (m - 12) div 9"
    have "k \<le> l" "l \<le> 3"
      using m by (simp_all add: l_def less_eq_div_iff_mult_less_eq)
    moreover have "12 + 9 * l + (m - 12) mod 9 = m"
      using mult_div_mod_eq [of 9 "m - 12"] m(1) unfolding l_def by linarith
    moreover have "(m - 12) mod 9 < 9"
      by simp
    ultimately show "bit a m = bit b m"
      using eq [rule_format, of l, unfolded table_index_eq_iff] by metis
  qed (auto simp: table_index_eq_iff)
  also have "\<dots> \<longleftrightarrow> (\<forall>m. 12 + 9 * k \<le> m \<longrightarrow> m < 64 \<longrightarrow> bit a m = bit b m)"
  proof (rule iffI; intro allI impI)
    fix m assume low: "\<forall>m. 12 + 9 * k \<le> m \<longrightarrow> m < 48 \<longrightarrow> bit a m = bit b m" and m: "12 + 9 * k \<le> m" "m < 64"
    have "bit a 47 = bit b 47"
      using low assms(3) by (auto elim!: allE [of _ 47])
    moreover have "bit a m = bit a 47 \<and> bit b m = bit b 47" if "\<not> m < 48"
      using assms(1,2) [unfolded canonical_def, rule_format, of m] m(2) that by linarith
    ultimately show "bit a m = bit b m"
      using low m(1) by (cases "m < 48") auto
  qed auto
  also have "\<dots> \<longleftrightarrow> drop_bit (12 + 9 * k) a = drop_bit (12 + 9 * k) b"
    by (rule drop_bit_eq_iff [symmetric])
  finally show ?thesis .
qed

lemma frame_of_eq_iff: "frame_of a = frame_of b \<longleftrightarrow> drop_bit 12 a = drop_bit 12 b"
proof
  assume "frame_of a = frame_of b"
  then have "drop_bit 12 (frame_of a) = drop_bit 12 (frame_of b)"
    by simp
  moreover have "drop_bit 12 (frame_of c) = drop_bit 12 c" for c
    by (rule bit_word_eqI) (auto simp: frame_of_def bit_drop_bit_eq bit_push_bit_iff dest: bit_imp_le_length)
  ultimately show "drop_bit 12 a = drop_bit 12 b"
    by simp
qed (simp add: frame_of_def)

lemma page_of_canonical:
  assumes "canonical page" "aligned page"
  shows "frame_of va = page \<longleftrightarrow> canonical va \<and> pt.same_slot 3 0 page va"
proof -
  have p: "frame_of va = page \<longleftrightarrow> drop_bit 12 va = drop_bit 12 page"
    using assms(2) frame_of_eq_iff [of va page] by (simp add: aligned_def)
  have "canonical va" if "drop_bit 12 va = drop_bit 12 page"
  proof -
    have "bit va n = bit page n" if "12 \<le> n" "n < 64" for n
      using that \<open>drop_bit 12 va = drop_bit 12 page\<close> by (simp add: drop_bit_eq_iff)
    then show ?thesis
      using assms(1) unfolding canonical_range by simp
  qed
  then show ?thesis
    using p same_slot_iff [OF assms(1), of va 0] by auto
qed

text \<open>C3: Mapping a page. For a canonical page and a frame below \<open>2 ^ 52\<close>, with three frames left for tables, \<open>map\<close> never
  panics. When the page had no translation it succeeds, and afterwards the addresses of the page translate into the frame at the
  same offset, while every other address translates as before. When the page had one it returns an error and changes no
  translation. Either way the tables stay a tree that shares no frame with the allocator.\<close>

theorem page_mapped:
  assumes "mm_ok root mm" "canonical page" "aligned page" "frame_ok frame" "3 \<le> length (free_frames mm)"
  shows "\<exists>r mm'. map_inner root page frame flags mm = Some (r, mm') \<and> mm_ok root mm' \<and>
    (case r of
       Inr _ \<Rightarrow> translate_virtual_address root mm page = None \<and>
         (\<forall>va. translate_virtual_address root mm' va =
            (if frame_of va = page then Some (frame + take_bit 12 va) else translate_virtual_address root mm va))
     | Inl _ \<Rightarrow> translate_virtual_address root mm page \<noteq> None \<and>
         (\<forall>va. translate_virtual_address root mm' va = translate_virtual_address root mm va))"
proof (cases rule: map_inner_spec [OF assms, of flags])
  case (1 mm')
  then show ?thesis
    using assms(2) page_of_canonical [OF assms(2,3)] extends_ok [OF assms(1)]
    by (intro exI [of _ "Inr ()"] exI [of _ mm']) (auto simp: translate_is_walk)
next
  case (2 err mm')
  then show ?thesis
    using assms(2) grows_ok [OF assms(1) 2(3)]
    by (intro exI [of _ "Inl err"] exI [of _ mm']) (auto simp: translate_is_walk grows_translation)
qed

definition example_mm :: memory_manager where
  "example_mm = \<lparr>frame_allocator = frame_allocator_new [\<lparr>base = 0x2000, entry_length = 0x4000, usable = True\<rparr>], ram = (\<lambda>_. 0)\<rparr>"

lemma example_mm_ok: "mm_ok 0x1000 example_mm" and example_mm_free: "free_frames example_mm = [0x2000, 0x3000, 0x4000, 0x5000]"
proof -
  show free: "free_frames example_mm = [0x2000, 0x3000, 0x4000, 0x5000]"
    by (simp add: example_mm_def free_frames_def frame_allocator_new_def usable_frames_def region_frames_def FRAME_SIZE_def upt_rec)
  have "aligned a" if "a \<in> {0x1000, 0x2000, 0x3000, 0x4000, 0x5000}" for a
    using that by (auto simp: aligned_def frame_of_def)
  note al = this
  have empty: "pt.tree (ram example_mm) 3 0x1000" "pt.frames (ram example_mm) 3 0x1000 = {0x1000}"
    using pt.empty_table [OF al [of "0x1000"], of "ram example_mm"] by (simp_all add: example_mm_def)
  then show "mm_ok 0x1000 example_mm"
    using free al by (simp add: mm_ok_def tables_def frame_ok_def) (simp add: free_frames_def example_mm_def frame_allocator_new_def frame_ok_def)
qed

theorem page_mapped_witness:
  "\<exists>mm'. map_inner 0x1000 0x7000 0x9000 \<lparr>writable = True, executable = False, user_mode_accessible = False, write_through = False,
       disable_caching = False, global_page = False\<rparr> example_mm = Some (Inr (), mm')
     \<and> translate_virtual_address 0x1000 mm' 0x7ABC = Some 0x9ABC"
proof -
  have "canonical 0x7000" "aligned 0x7000" "frame_ok 0x9000"
    by (simp_all add: is_canonical_iff [symmetric] is_canonical_def aligned_def frame_of_def frame_ok_def)
  moreover have "translate_virtual_address 0x1000 example_mm 0x7000 = None"
    by (simp add: translate_virtual_address_def is_canonical_def example_mm_def contains_def pte_flags_def PRESENT_def)
  ultimately obtain r mm' where r: "map_inner 0x1000 0x7000 0x9000 \<lparr>writable = True, executable = False, user_mode_accessible = False,
      write_through = False, disable_caching = False, global_page = False\<rparr> example_mm = Some (r, mm')"
    "case r of Inr _ \<Rightarrow> \<forall>va. translate_virtual_address 0x1000 mm' va =
        (if frame_of va = 0x7000 then Some (0x9000 + take_bit 12 va) else translate_virtual_address 0x1000 example_mm va) | Inl _ \<Rightarrow> False"
    using page_mapped [OF example_mm_ok, of "0x7000" "0x9000" "\<lparr>writable = True, executable = False, user_mode_accessible = False,
        write_through = False, disable_caching = False, global_page = False\<rparr>"]
    by (fastforce simp: example_mm_free split: sum.splits)
  then show ?thesis
    by (cases r) (auto simp: frame_of_def)
qed

section \<open>Unmapping a page\<close>

lemma table_at_levels:
  "pt.table_at mem 3 t va 2 = (let e = mem (slot t (table_index 3 va)) in if bit e 0 then Some (pte_address e) else None)"
  "pt.table_at mem 3 t va 1 = (case pt.table_at mem 3 t va 2 of None \<Rightarrow> None
     | Some s \<Rightarrow> let e = mem (slot s (table_index 2 va)) in if bit e 0 \<and> \<not> bit e 7 then Some (pte_address e) else None)"
  "pt.table_at mem 3 t va 0 = (case pt.table_at mem 3 t va 1 of None \<Rightarrow> None
     | Some s \<Rightarrow> let e = mem (slot s (table_index 1 va)) in if bit e 0 \<and> \<not> bit e 7 then Some (pte_address e) else None)"
  by (simp_all add: table_entry_def numeral_3_eq_3 numeral_2_eq_2 Let_def)

lemma clear_entry_eq: "clear_entry a mm = Some (write_ram a 0 mm)"
proof -
  have "pte_set_flags 0 (0 OR pte_flags (ram mm a)) = 0"
    by (rule bit_word_eqI) (auto simp: pte_set_flags_def bit_or_iff)
  moreover have "pte_set_address 0 (ram mm a) = Some (0 OR pte_flags (ram mm a))"
    by (rule set_address_ok) (simp add: frame_ok_def aligned_def frame_of_def)
  ultimately show ?thesis
    by (simp add: clear_entry_def)
qed

lemma clear_entry_ok:
  assumes ok: "mm_ok root mm" and s: "pt.table_at (ram mm) 3 root va k = Some s"
    and stop: "k = 0 \<or> \<not> table_entry k (ram mm (slot s (table_index k va)))"
  defines "mm' \<equiv> write_ram (slot s (table_index k va)) 0 mm"
  shows "mm_ok root mm'" and "translation root mm' va' = (if pt.same_slot 3 k va va' then None else translation root mm va')"
proof -
  have tree: "pt.tree (ram mm) 3 root"
    using ok by (simp add: mm_ok_def)
  have "k = 0 \<or> \<not> table_entry k (ram mm (slot s (table_index k va))) \<and> \<not> table_entry k 0"
    using stop by (simp add: table_entry_def)
  note w = pt.set_terminal [OF tree s this]
  show "mm_ok root mm'"
    using ok w(1,2) by (auto simp: mm_ok_def mm'_def tables_def)
  show "translation root mm' va' = (if pt.same_slot 3 k va va' then None else translation root mm va')"
    using w(3) [of va'] by (simp add: translation_def decode_def mm'_def)
qed

definition mapping_level :: "u64 \<Rightarrow> memory_manager \<Rightarrow> virtual_address \<Rightarrow> nat" where
  "mapping_level root mm va = fst (pt.walk (ram mm) 3 root va)"

text \<open>What the unrolled code does, in terms of the level at which the walk ends.\<close>

lemma unmap_inner_eq:
  assumes "canonical page" "translation root mm page \<noteq> None" "take_bit (12 + 9 * mapping_level root mm page) page = 0"
  obtains k s where "k = mapping_level root mm page" "k < 3" "pt.table_at (ram mm) 3 root page k = Some s"
    "k = 0 \<or> \<not> table_entry k (ram mm (slot s (table_index k page)))"
    "unmap_inner root page mm = Some (Inr (), write_ram (slot s (table_index k page)) 0 mm)"
proof -
  define e4 where "e4 = ram mm (slot root (table_index 3 page))"
  define e3 where "e3 = ram mm (slot (pte_address e4) (table_index 2 page))"
  define e2 where "e2 = ram mm (slot (pte_address e3) (table_index 1 page))"
  define e1 where "e1 = ram mm (slot (pte_address e2) (table_index 0 page))"
  note defs = e4_def [symmetric] e3_def [symmetric] e2_def [symmetric] e1_def [symmetric]
  note un = unmap_inner_def [of root page mm, unfolded Let_def canonical_parts table_indices offsets contains_flag clear_entry_eq defs]
  note walk = walk_levels [of "ram mm", unfolded Let_def]
  have w: "pt.walk (ram mm) 3 root page = (if bit e4 0 then if bit e3 0 \<and> \<not> bit e3 7
      then if bit e2 0 \<and> \<not> bit e2 7 then (0, e1) else (1, e2) else (2, e3) else (3, e4))"
    unfolding walk pt.walk.simps(1) defs ..
  note lv = mapping_level_def w table_at_levels [of "ram mm" root page, unfolded Let_def defs]
  have "translation root mm page \<noteq> None \<longleftrightarrow> bit e4 0 \<and> bit e3 0 \<and> (bit e3 7 \<or> bit e2 0 \<and> (bit e2 7 \<or> bit e1 0))"
    by (simp add: translation_def decode_def w)
  with assms(2) have p: "bit e4 0" "bit e3 0" "bit e3 7 \<or> bit e2 0 \<and> (bit e2 7 \<or> bit e1 0)"
    by auto
  consider "bit e3 7" | "\<not> bit e3 7" "bit e2 0" "bit e2 7" | "\<not> bit e3 7" "bit e2 0" "\<not> bit e2 7" "bit e1 0"
    using p(3) by blast
  then show ?thesis
  proof cases
    case 1
    then show ?thesis
      using assms(1,3) p(1,2) by (intro that [of 2 "pte_address e4"]) (simp_all add: un lv defs(2) table_entry_def)
  next
    case 2
    then have "\<not> table_entry 1 (ram mm (slot (pte_address e3) (table_index 1 page)))"
      unfolding defs(3) by (simp add: table_entry_def)
    then show ?thesis
      using assms(1,3) p(1,2) 2 by (intro that [of 1 "pte_address e3"]) (simp_all add: un lv lv [unfolded One_nat_def] defs(2))
  next
    case 3
    then show ?thesis
      using assms(1,3) p(1,2) by (intro that [of 0 "pte_address e2"]) (simp_all add: un lv lv [unfolded One_nat_def] defs(2) e2_def)
  qed
qed

text \<open>C7: Unmapping. A page that is mapped, at whatever level, and lies at the start of its mapping is removed: the addresses of
  that 4 KiB, 2 MiB or 1 GiB mapping have no translation afterwards, every other address keeps its own, and the tables stay a tree
  that shares no frame with the allocator.\<close>

theorem page_unmapped:
  assumes "mm_ok root mm" "canonical page" "translate_virtual_address root mm page \<noteq> None"
    and "take_bit (12 + 9 * mapping_level root mm page) page = 0"
  shows "\<exists>mm'. unmap_inner root page mm = Some (Inr (), mm') \<and> mm_ok root mm' \<and>
    (\<forall>va. translate_virtual_address root mm' va =
       (if drop_bit (12 + 9 * mapping_level root mm page) va = drop_bit (12 + 9 * mapping_level root mm page) page then None
        else translate_virtual_address root mm va))"
proof -
  have "translation root mm page \<noteq> None"
    using assms(2,3) by (simp add: translate_is_walk)
  from unmap_inner_eq [OF assms(2) this assms(4)] obtain k s where k: "mapping_level root mm page = k" "k < 3"
    "pt.table_at (ram mm) 3 root page k = Some s" "k = 0 \<or> \<not> table_entry k (ram mm (slot s (table_index k page)))"
    "unmap_inner root page mm = Some (Inr (), write_ram (slot s (table_index k page)) 0 mm)"
    by metis
  note c = clear_entry_ok [OF assms(1) k(3,4)]
  have "translate_virtual_address root (write_ram (slot s (table_index k page)) 0 mm) va =
       (if drop_bit (12 + 9 * k) va = drop_bit (12 + 9 * k) page then None else translate_virtual_address root mm va)" for va
    using c(2) [of va] same_slot_iff [OF assms(2), of va k] k(2) by (auto simp: translate_is_walk)
  then show ?thesis
    using c(1) k(1,5) by auto
qed

text \<open>A 2 MiB page at \<open>0x200000\<close>, with its two tables taken from the allocator.\<close>

definition example_mapped :: memory_manager where
  "example_mapped = \<lparr>frame_allocator = (frame_allocator example_mm)\<lparr>next_frame := 2\<rparr>,
     ram = (\<lambda>_. 0)(0x1000 := 0x2003, 0x2000 := 0x3003, 0x3008 := 0x400083)\<rparr>"

lemma example_entries:
  "pte_address 0x2003 = 0x2000" "pte_address 0x3003 = 0x3000" "table_entry 3 0x2003" "table_entry 2 0x3003"
  "\<not> table_entry (Suc 0) 0x400083" "\<not> table_entry l 0"
  "table_index 3 0x200000 = 0" "table_index 2 0x200000 = 0" "table_index (Suc 0) 0x200000 = 1"
  by (simp_all add: pte_address_def table_entry_def table_index_def)

lemma example_tree: "pt.tree (ram example_mapped) 3 0x1000 \<and> pt.frames (ram example_mapped) 3 0x1000 \<subseteq> {0x1000, 0x2000, 0x3000}"
proof -
  let ?va = "0x200000 :: u64" and ?m0 = "(\<lambda>_. 0) :: memory"
  let ?m1 = "?m0(0x1000 := 0x2003)"
  let ?m2 = "?m1(0x2000 := 0x3003)"
  have al: "aligned 0x1000" "aligned 0x2000" "aligned 0x3000"
    by (simp_all add: aligned_def frame_of_def)
  note s0 = pt.empty_table [OF al(1), of ?m0 3]
  have z1: "?m1 a = 0" if "frame_of a = 0x2000" for a
    using that by (auto simp: frame_of_def)
  note s1 = pt.set_link [of ?m0 3 "0x1000" ?va 2 "0x1000" "0x2003"]
  have t1: "pt.tree ?m1 3 0x1000" "pt.frames ?m1 3 0x1000 \<subseteq> {0x2000, 0x1000}" "pt.table_at ?m1 3 0x1000 ?va 2 = Some 0x2000"
    using s1 s0 al by (simp_all add: example_entries slot_def)
  have e2: "\<not> table_entry 2 (?m1 0x2000)"
    by (simp add: table_entry_def)
  have n2: "0x3000 \<notin> pt.frames ?m1 3 0x1000"
    using t1(2) by auto
  have z2: "?m1 a = 0" if "frame_of a = 0x3000" for a
    using that by (auto simp: frame_of_def)
  note s2 = pt.set_link [of ?m1 3 "0x1000" ?va 1 "0x2000" "0x3003"]
  have t2: "pt.tree ?m2 3 0x1000" "pt.frames ?m2 3 0x1000 \<subseteq> insert 0x3000 (pt.frames ?m1 3 0x1000)"
      "pt.table_at ?m2 3 0x1000 ?va 1 = Some 0x3000"
    using s2 t1(1,3) e2 n2 z2 al(3) by (simp_all add: example_entries slot_def numeral_2_eq_2 [symmetric] del: fun_upd_apply)
  note s3 = pt.set_terminal [of ?m2 3 "0x1000" ?va 1 "0x3000" "0x400083"]
  show ?thesis
    using s3(1,2) t1(2) t2 by (auto simp: example_entries slot_def example_mapped_def)
qed

theorem page_unmapped_witness:
  "translate_virtual_address 0x1000 example_mapped 0x2ABCDE = Some 0x4ABCDE \<and>
   (\<exists>mm'. unmap_inner 0x1000 0x200000 example_mapped = Some (Inr (), mm') \<and> translate_virtual_address 0x1000 mm' 0x2ABCDE = None)"
proof -
  have "free_frames example_mapped = [0x4000, 0x5000]"
    using example_mm_free by (simp add: free_frames_def example_mapped_def example_mm_def frame_allocator_new_def numeral_2_eq_2)
  then have ok: "mm_ok 0x1000 example_mapped"
    using example_mm_ok example_tree by (auto simp: mm_ok_def tables_def example_mapped_def)
  have "canonical 0x200000"
    by (simp add: is_canonical_iff [symmetric] is_canonical_def)
  moreover have "mapping_level 0x1000 example_mapped 0x200000 = 1"
    by (simp add: mapping_level_def walk_levels Let_def example_entries slot_def example_mapped_def)
  moreover have tr: "translate_virtual_address 0x1000 example_mapped 0x2ABCDE = Some 0x4ABCDE"
      "translate_virtual_address 0x1000 example_mapped 0x200000 = Some 0x400000"
    by (simp_all add: translate_virtual_address_def is_canonical_def example_mapped_def slot_def pte_address_def)
  ultimately show ?thesis
    using page_unmapped [OF ok, of "0x200000"] by auto
qed

end
