(* ===== verification/Mem_Search.thy ===== *)
theory Mem_Search
  imports Mem_Mapping
begin

text \<open>
  The kernel's search for free pages and runs of pages (\<open>map_any_inner\<close>, \<open>map_any_contiguous\<close>) and of frames
  (\<open>allocate_frames_contiguous\<close>) of \<^verbatim>\<open>subsystem/memory.rs\<close>. The nested loops of the search are handled by one lemma about
  a level: either a page was placed, or nothing changed and every page seen is in use.
\<close>

section \<open>Addresses of pages\<close>

lemma small_index_bit: "bit (of_nat i :: u64) n \<Longrightarrow> i < 512 \<Longrightarrow> n < 9"
proof (rule ccontr)
  assume "bit (of_nat i :: u64) n" "i < 512" "\<not> n < 9"
  then have "bit i n" "take_bit 9 i = i"
    by (simp_all add: bit_of_nat_iff take_bit_nat_eq_self)
  then show False
    using \<open>\<not> n < 9\<close> by (metis bit_take_bit_iff)
qed

lemma page_address_bit:
  assumes "i4 < 512" "i3 < 512" "i2 < 512" "i1 < 512" "n < 48"
  shows "bit (page_address i4 i3 i2 i1) n =
    (if 39 \<le> n then bit (of_nat i4 :: u64) (n - 39) else if 30 \<le> n then bit (of_nat i3 :: u64) (n - 30)
     else if 21 \<le> n then bit (of_nat i2 :: u64) (n - 21) else 12 \<le> n \<and> bit (of_nat i1 :: u64) (n - 12))"
proof -
  note small = small_index_bit [OF _ assms(1)] small_index_bit [OF _ assms(2)] small_index_bit [OF _ assms(3)] small_index_bit [OF _ assms(4)]
  have "bit (page_address i4 i3 i2 i1) n = bit (push_bit 39 (of_nat i4) OR push_bit 30 (of_nat i3) OR push_bit 21 (of_nat i2)
      OR push_bit 12 (of_nat i1) :: u64) n"
    unfolding page_address_def using assms(5) sign_extend_bit [of n] by (cases "n = 47") auto
  also have "\<dots> = (if 39 \<le> n then bit (of_nat i4 :: u64) (n - 39) else if 30 \<le> n then bit (of_nat i3 :: u64) (n - 30)
     else if 21 \<le> n then bit (of_nat i2 :: u64) (n - 21) else 12 \<le> n \<and> bit (of_nat i1 :: u64) (n - 12))"
    using assms(5) by (auto simp: bit_or_iff bit_push_bit_iff dest: small)
  finally show ?thesis .
qed

lemma page_address_canonical: "canonical (page_address i4 i3 i2 i1)"
proof -
  have "sign_extend (sign_extend a) = sign_extend a" for a
  proof (rule bit_word_eqI)
    fix n assume "n < LENGTH(64)"
    then show "bit (sign_extend (sign_extend a)) n = bit (sign_extend a) n"
      by (auto simp: sign_extend_bit)
  qed
  then show ?thesis
    by (simp add: sign_extend_fixed [symmetric] page_address_def)
qed

lemma page_address_index:
  assumes "i4 < 512" "i3 < 512" "i2 < 512" "i1 < 512"
  shows "table_index 3 (page_address i4 i3 i2 i1) = of_nat i4" "table_index 2 (page_address i4 i3 i2 i1) = of_nat i3"
    "table_index 1 (page_address i4 i3 i2 i1) = of_nat i2" "table_index 0 (page_address i4 i3 i2 i1) = of_nat i1"
proof -
  let ?p = "page_address i4 i3 i2 i1"
  have eq: "table_index l ?p = of_nat i" if "i < 512" "\<And>n. n < 9 \<Longrightarrow> bit ?p (12 + 9 * l + n) = bit (of_nat i :: u64) n" for l i
    by (rule bit_word_eqI) (use that small_index_bit in \<open>auto simp: table_index_def bit_take_bit_iff bit_drop_bit_eq\<close>)
  note addr = page_address_bit [OF assms]
  show "table_index 3 ?p = of_nat i4" "table_index 2 ?p = of_nat i3" "table_index 1 ?p = of_nat i2" "table_index 0 ?p = of_nat i1"
    by (rule eq [OF assms(1)] eq [OF assms(2)] eq [OF assms(3)] eq [OF assms(4)], simp add: addr)+
qed

lemma page_address_aligned: "i4 < 512 \<Longrightarrow> i3 < 512 \<Longrightarrow> i2 < 512 \<Longrightarrow> i1 < 512 \<Longrightarrow> aligned (page_address i4 i3 i2 i1)"
  by (simp add: aligned_bits page_address_bit)

lemma page_address_of:
  assumes "canonical a" "aligned a"
  shows "a = page_address (unat (table_index 3 a)) (unat (table_index 2 a)) (unat (table_index 1 a)) (unat (table_index 0 a))"
proof -
  have lt: "unat (table_index l a) < 512" for l
    using table_index_less [of l a] by (simp add: word_less_nat_alt)
  define p where "p = page_address (unat (table_index 3 a)) (unat (table_index 2 a)) (unat (table_index 1 a)) (unat (table_index 0 a))"
  note ix = page_address_index [OF lt [of 3] lt [of 2] lt [of 1] lt [of 0], folded p_def]
  have "table_index l p = table_index l a" if "l \<le> 3" for l
  proof -
    have "l = 3 \<or> l = 2 \<or> l = 1 \<or> l = 0"
      using that by linarith
    then show ?thesis
      using ix by (elim disjE) simp_all
  qed
  then have "pt.same_slot 3 0 a p"
    by (simp add: pt.same_slot_def pt.agree_def)
  then have "frame_of p = a"
    using page_of_canonical [OF assms, of p] page_address_canonical by (simp add: p_def)
  moreover have "aligned p"
    unfolding p_def by (rule page_address_aligned [OF lt lt lt lt])
  ultimately show ?thesis
    by (simp add: aligned_def p_def)
qed

section \<open>Placing a page\<close>

lemma table_entry_at:
  assumes "pt.table_at mem 3 root va (Suc j) = Some s" "pt.table_at mem 3 root va j = Some s'"
  shows "table_entry (Suc j) (mem (slot s (table_index (Suc j) va)))"
  using assms pt.table_at_via [OF assms(1), of j] by (auto simp: Let_def split: if_splits)

lemma flags_at_level:
  fixes flags :: page_flags
  assumes "mm_ok root mm" "pt.table_at (ram mm) 3 root va k = Some s" "pt.table_at (ram mm) 3 root va j = Some s'" "k = Suc j"
  defines "mm' \<equiv> assign_flags_at flags (slot s (table_index k va)) mm"
  shows "mm_ok root mm'" and "translation root mm' va' = translation root mm va'"
    and "pt.table_at (ram mm') 3 root va l = pt.table_at (ram mm) 3 root va l"
proof -
  note s = assms(2) [unfolded assms(4)]
  note k = assign_flags_kept [OF assms(1) s table_entry_at [OF s assms(3)], of flags, folded assms(4), folded mm'_def]
  show "mm_ok root mm'" "translation root mm' va' = translation root mm va'"
    using grows_ok [OF assms(1) k(1)] grows_translation [OF k(1)] by auto
  show "pt.table_at (ram mm') 3 root va l = pt.table_at (ram mm) 3 root va l"
    by (rule k(4))
qed

lemma numeral_levels: "(3 :: nat) = Suc 2" "(2 :: nat) = Suc 1" "(1 :: nat) = Suc 0"
  by simp_all

lemma place_page_ok:
  assumes ok: "mm_ok root mm" and f: "frame_ok frame"
    and t: "pt.table_at (ram mm) 3 root va 2 = Some s2" "pt.table_at (ram mm) 3 root va 1 = Some s1" "pt.table_at (ram mm) 3 root va 0 = Some s0"
  obtains mm' where "place_page (slot root (table_index 3 va)) (slot s2 (table_index 2 va)) (slot s1 (table_index 1 va)) (slot s0 (table_index 0 va))
      frame flags mm = Some mm'" "mm_ok root mm'"
    "\<And>va'. translation root mm' va' = (if pt.same_slot 3 0 va va' then Some (frame + take_bit 12 va') else translation root mm va')"
proof -
  let ?a1 = "slot s0 (table_index 0 va)" and ?t = "\<lambda>mm l. pt.table_at (ram mm) 3 root va l"
  define mm1 where "mm1 = write_ram ?a1 (pte_set_flags PRESENT (frame OR pte_flags (ram mm ?a1))) mm"
  note w1 = set_leaf [OF ok t(3) new_entry(1,2) [OF f, of "ram mm ?a1"], folded mm1_def]
  note ok1 = extends_ok [OF ok w1(1)]
  have t1: "?t mm1 3 = Some root" "?t mm1 2 = Some s2" "?t mm1 1 = Some s1" "?t mm1 0 = Some s0"
    using t w1(2) by simp_all
  define mm2 where "mm2 = assign_flags_at flags (slot root (table_index 3 va)) mm1"
  note w2 = flags_at_level [OF ok1 t1(1,2) numeral_levels(1), of flags, folded mm2_def]
  have t2: "?t mm2 2 = Some s2" "?t mm2 1 = Some s1" "?t mm2 0 = Some s0"
    using t1 w2(3) by simp_all
  define mm3 where "mm3 = assign_flags_at flags (slot s2 (table_index 2 va)) mm2"
  note w3 = flags_at_level [OF w2(1) t2(1,2) numeral_levels(2), of flags, folded mm3_def]
  have t3: "?t mm3 1 = Some s1" "?t mm3 0 = Some s0"
    using t2 w3(3) by simp_all
  define mm4 where "mm4 = assign_flags_at flags (slot s1 (table_index 1 va)) mm3"
  note w4 = flags_at_level [OF w3(1) t3(1,2) numeral_levels(3), of flags, folded mm4_def]
  have t4: "?t mm4 0 = Some s0"
    using t3 w4(3) by simp
  have tr: "translation root mm4 va' = (if pt.same_slot 3 0 va va' then Some (frame + take_bit 12 va') else translation root mm va')" for va'
    using w4(2) w3(2) w2(2) w1(3) by simp
  then have "translation root mm4 va = Some (frame + take_bit 12 va)"
    by simp
  then have e: "pte_address (ram mm4 ?a1) = frame" "bit (ram mm4 ?a1) 0"
    using pt.walk_stops [OF t4 pt.same_slot_refl] by (auto simp: translation_def decode_def split: if_splits)
  define mm5 where "mm5 = write_ram ?a1 (leaf_entry flags (ram mm4 ?a1)) mm4"
  note w5 = set_leaf [OF w4(1) t4, of "leaf_entry flags (ram mm4 ?a1)" frame, folded mm5_def]
  show ?thesis
  proof (rule that [of mm5])
    show "place_page (slot root (table_index 3 va)) (slot s2 (table_index 2 va)) (slot s1 (table_index 1 va)) ?a1 frame flags mm = Some mm5"
      by (simp add: place_page_def set_address_ok [OF f] Let_def mm1_def mm2_def mm3_def mm4_def mm5_def)
  qed (use w5 extends_ok [OF w4(1)] e tr in simp_all)
qed

section \<open>The loops\<close>

definition placed :: "u64 \<Rightarrow> physical_address \<Rightarrow> memory_manager \<Rightarrow> memory_manager \<Rightarrow> virtual_address \<Rightarrow> bool" where
  "placed root frame mm mm' page \<longleftrightarrow> page \<noteq> 0 \<and> translation root mm page = None \<and> mm_ok root mm'
     \<and> (\<forall>va. translation root mm' va = (if pt.same_slot 3 0 page va then Some (frame + take_bit 12 va) else translation root mm va))"

definition outcome :: "u64 \<Rightarrow> physical_address \<Rightarrow> memory_manager \<Rightarrow> virtual_address set \<Rightarrow>
    (virtual_address option \<times> memory_manager) option \<Rightarrow> bool" where
  "outcome root frame mm pages r \<longleftrightarrow>
     r = Some (None, mm) \<and> (\<forall>p \<in> pages. p \<noteq> 0 \<longrightarrow> translation root mm p \<noteq> None)
     \<or> (\<exists>p \<in> pages. \<exists>mm'. r = Some (Some p, mm') \<and> placed root frame mm mm' p)"

lemma outcome_union: "outcome root frame mm p2 r \<Longrightarrow> \<forall>p \<in> p1. p \<noteq> 0 \<longrightarrow> translation root mm p \<noteq> None \<Longrightarrow> outcome root frame mm (p1 \<union> p2) r"
  unfolding outcome_def by blast

lemma outcome_found: "outcome root frame mm p1 (Some (Some p, mm')) \<Longrightarrow> outcome root frame mm (p1 \<union> p2) (Some (Some p, mm'))"
  unfolding outcome_def by blast

lemma any_level_outcome:
  assumes ok: "mm_ok root mm" and k: "k = Suc j" "k \<le> 3" and free: "k \<le> length (free_frames mm)"
    and at: "\<And>i. i \<in> set is \<Longrightarrow> pt.table_at (ram mm) 3 root (q i) k = Some table \<and> table_index k (q i) = of_nat i"
    and pages: "\<And>i p. i \<in> set is \<Longrightarrow> p \<in> pages i \<Longrightarrow> pt.same_slot 3 k (q i) p" "\<And>i. i \<in> set is \<Longrightarrow> \<exists>p \<in> pages i. p \<noteq> 0"
    and check: "check_huge \<longleftrightarrow> k < 3"
    and body: "\<And>i mm1. i \<in> set is \<Longrightarrow> mm_ok root mm1 \<Longrightarrow> j \<le> length (free_frames mm1) \<Longrightarrow>
      pt.table_at (ram mm1) 3 root (q i) j = Some (pte_address (ram mm1 (slot table (of_nat i)))) \<Longrightarrow>
      (\<And>l. k \<le> l \<Longrightarrow> pt.table_at (ram mm1) 3 root (q i) l = pt.table_at (ram mm) 3 root (q i) l) \<Longrightarrow>
      outcome root frame mm1 (pages i) (body i (slot table (of_nat i)) mm1)"
  shows "outcome root frame mm (\<Union>i \<in> set is. pages i) (any_level check_huge body table is mm)"
  using at pages body
proof (induction "is")
  case Nil
  then show ?case
    by (simp add: outcome_def)
next
  case (Cons i js)
  let ?a = "slot table (of_nat i)"
  have IH: "outcome root frame mm (\<Union>i \<in> set js. pages i) (any_level check_huge body table js mm)"
    by (rule Cons.IH) (use Cons.prems in auto)
  have t: "pt.table_at (ram mm) 3 root (q i) (Suc j) = Some table" "table_index (Suc j) (q i) = of_nat i"
    using Cons.prems(1) [of i] k by auto
  have slots: "pt.same_slot 3 (Suc j) (q i) p" if "p \<in> pages i" for p
    using Cons.prems(2) [of i p] that k by simp
  note bd = Cons.prems(4) [of i, OF list.set_intros(1)]
  consider (table) "table_entry (Suc j) (ram mm ?a)" | (huge) "bit (ram mm ?a) 0" "\<not> table_entry (Suc j) (ram mm ?a)" | (absent) "\<not> bit (ram mm ?a) 0"
    by (auto simp: table_entry_def)
  then show ?case
  proof cases
    case table
    then have "table_below check_huge ?a mm = Some (Some mm)"
      using check k by (auto simp: table_below_def table_entry_def)
    moreover have "pt.table_at (ram mm) 3 root (q i) j = Some (pte_address (ram mm ?a))"
      using pt.table_at_via [OF t(1), of j] t(2) table by simp
    ultimately show ?thesis
      using bd [OF ok _ _ refl] free k IH outcome_union [OF IH, of "pages i"] outcome_found
      by (fastforce simp: outcome_def Let_def)
  next
    case huge
    then have "table_below check_huge ?a mm = Some None"
      using check k by (auto simp: table_below_def table_entry_def)
    moreover have "translation root mm p \<noteq> None" if "p \<in> pages i" for p
      using pt.walk_stops [OF t(1) slots [OF that]] t(2) huge by (simp add: translation_def decode_def)
    ultimately show ?thesis
      using outcome_union [OF IH, of "pages i"] by simp
  next
    case absent
    then obtain f fs where free_eq: "free_frames mm = f # fs"
      using free k by (cases "free_frames mm") auto
    from allocate_lower [OF ok t(1) _ free_eq] absent t(2)
    obtain mm1 where m: "allocate_lower_level_page_table ?a mm = Some mm1" "grows root mm mm1" "free_frames mm1 = fs"
      "\<And>l. Suc j \<le> l \<Longrightarrow> pt.table_at (ram mm1) 3 root (q i) l = pt.table_at (ram mm) 3 root (q i) l" "table_entry (Suc j) (ram mm1 ?a)"
      by metis
    have below: "table_below check_huge ?a mm = Some (Some mm1)"
      using absent m(1) by (simp add: table_below_def)
    have "pt.table_at (ram mm1) 3 root (q i) j = Some (pte_address (ram mm1 ?a))"
      using pt.table_at_via [of "ram mm1" 3 root "q i" "Suc j" table j] m(4) [of "Suc j"] t m(5) by simp
    moreover have "j \<le> length (free_frames mm1)"
      using free k free_eq m(3) by simp
    ultimately have o: "outcome root frame mm1 (pages i) (body i ?a mm1)"
      using bd [OF grows_ok [OF ok m(2)]] m(4) k(1) by simp
    have "translation root mm p = None" if "p \<in> pages i" for p
      using pt.walk_stops [OF t(1) slots [OF that]] t(2) absent by (simp add: translation_def decode_def table_entry_def)
    then obtain p mm' where "p \<in> pages i" "body i ?a mm1 = Some (Some p, mm')" "placed root frame mm1 mm' p"
      using o Cons.prems(3) [of i] by (auto simp: outcome_def grows_translation [OF m(2)])
    then show ?thesis
      using below by (auto simp: outcome_def placed_def grows_translation [OF m(2)])
  qed
qed

lemma of_nat_index_inject: "(of_nat i :: u64) = of_nat i' \<longleftrightarrow> i = i'" if "i < 512" "i' < 512"
  using that by (simp add: word_of_nat_eq_iff take_bit_nat_eq_self)

lemma page_address_zero: "page_address i4 i3 i2 i1 = 0 \<longleftrightarrow> i4 = 0 \<and> i3 = 0 \<and> i2 = 0 \<and> i1 = 0"
  if "i4 < 512" "i3 < 512" "i2 < 512" "i1 < 512"
proof
  assume "page_address i4 i3 i2 i1 = 0"
  then have "table_index l (page_address i4 i3 i2 i1) = 0" for l
    by (simp add: table_index_def)
  then have "(of_nat i4 :: u64) = 0" "(of_nat i3 :: u64) = 0" "(of_nat i2 :: u64) = 0" "(of_nat i1 :: u64) = 0"
    using page_address_index [OF that] by metis+
  then show "i4 = 0 \<and> i3 = 0 \<and> i2 = 0 \<and> i1 = 0"
    using that of_nat_index_inject [of _ 0] by simp
qed (simp add: page_address_def sign_extend_def)

text \<open>Pages with the same upper indices reach the same tables.\<close>

lemma page_address_agree:
  assumes "i4 < 512" "i3 < 512" "i2 < 512" "i1 < 512" "j3 < 512" "j2 < 512" "j1 < 512"
  shows "pt.agree 3 0 (page_address i4 i3 i2 i1) (page_address i4 i3 i2 j1)"
    and "pt.agree 3 1 (page_address i4 i3 i2 i1) (page_address i4 i3 j2 j1)"
    and "pt.agree 3 2 (page_address i4 i3 i2 i1) (page_address i4 j3 j2 j1)"
proof -
  have l: "(\<forall>l. 0 < l \<longrightarrow> l \<le> 3 \<longrightarrow> P l) \<longleftrightarrow> P 3 \<and> P 2 \<and> P (1 :: nat)" "(\<forall>l. 1 < l \<longrightarrow> l \<le> 3 \<longrightarrow> P l) \<longleftrightarrow> P 3 \<and> P (2 :: nat)"
    "(\<forall>l. 2 < l \<longrightarrow> l \<le> 3 \<longrightarrow> P l) \<longleftrightarrow> P (3 :: nat)" for P
    by (auto simp: le_Suc_eq numeral_3_eq_3 numeral_2_eq_2)
  show "pt.agree 3 0 (page_address i4 i3 i2 i1) (page_address i4 i3 i2 j1)"
    unfolding pt.agree_def l by (simp add: page_address_index page_address_index [unfolded One_nat_def] assms)
  show "pt.agree 3 1 (page_address i4 i3 i2 i1) (page_address i4 i3 j2 j1)"
    unfolding pt.agree_def l by (simp add: page_address_index page_address_index [unfolded One_nat_def] assms)
  show "pt.agree 3 2 (page_address i4 i3 i2 i1) (page_address i4 j3 j2 j1)"
    unfolding pt.agree_def l by (simp add: page_address_index page_address_index [unfolded One_nat_def] assms)
qed

lemma agree_up: "pt.agree n k va va' \<Longrightarrow> k \<le> l \<Longrightarrow> pt.agree n l va va'"
  by (auto simp: pt.agree_def)

lemma any_level_1_outcome:
  assumes ok: "mm_ok root mm" and f: "frame_ok frame" and i: "i4 < 512" "i3 < 512" "i2 < 512" "set is \<subseteq> {..<512}"
    and t: "pt.table_at (ram mm) 3 root (page_address i4 i3 i2 0) 2 = Some s2" "pt.table_at (ram mm) 3 root (page_address i4 i3 i2 0) 1 = Some s1"
      "pt.table_at (ram mm) 3 root (page_address i4 i3 i2 0) 0 = Some s0"
  shows "outcome root frame mm (page_address i4 i3 i2 ` set is)
    (any_level_1 frame flags (i4, i3, i2) (slot root (of_nat i4), slot s2 (of_nat i3), slot s1 (of_nat i2)) s0 is mm)"
  using i(4)
proof (induction "is")
  case Nil
  then show ?case
    by (simp add: outcome_def)
next
  case (Cons i1 js)
  let ?p = "page_address i4 i3 i2 i1" and ?r = "any_level_1 frame flags (i4, i3, i2) (slot root (of_nat i4), slot s2 (of_nat i3), slot s1 (of_nat i2)) s0"
  have i1: "i1 < 512"
    using Cons.prems by simp
  note ix = page_address_index [OF i(1-3) i1] and zero = page_address_zero [OF i(1-3) i1]
  have ag: "pt.agree 3 0 ?p (page_address i4 i3 i2 0)"
    by (rule page_address_agree) (use i i1 in auto)
  have tp: "pt.table_at (ram mm) 3 root ?p 2 = Some s2" "pt.table_at (ram mm) 3 root ?p 1 = Some s1" "pt.table_at (ram mm) 3 root ?p 0 = Some s0"
    using t pt.table_at_agree [OF agree_up [OF ag]] by simp_all
  have IH: "outcome root frame mm (page_address i4 i3 i2 ` set js) (?r js mm)"
    by (rule Cons.IH) (use Cons.prems in auto)
  have w: "pt.walk (ram mm) 3 root ?p = (0, ram mm (slot s0 (of_nat i1)))"
    using pt.walk_stops [OF tp(3) pt.same_slot_refl] ix(4) by simp
  show ?case
  proof (cases "?p = 0 \<or> bit (ram mm (slot s0 (of_nat i1))) 0")
    case True
    then have "?r (i1 # js) mm = ?r js mm"
      using zero by auto
    then show ?thesis
      using outcome_union [OF IH, of "{?p}"] True w by (auto simp: translation_def decode_def)
  next
    case False
    obtain mm' where "place_page (slot root (of_nat i4)) (slot s2 (of_nat i3)) (slot s1 (of_nat i2)) (slot s0 (of_nat i1)) frame flags mm = Some mm'"
        "mm_ok root mm'" "\<And>va. translation root mm' va = (if pt.same_slot 3 0 ?p va then Some (frame + take_bit 12 va) else translation root mm va)"
      using place_page_ok [OF ok f tp, of flags] unfolding ix by metis
    moreover have "translation root mm ?p = None"
      using w False by (simp add: translation_def decode_def)
    ultimately show ?thesis
      using False zero by (auto simp: outcome_def placed_def Let_def)
  qed
qed

lemma same_slot_1: "pt.same_slot 3 1 (page_address i4 i3 i2 i1) (page_address i4 i3 i2 j1)"
  and same_slot_2: "pt.same_slot 3 2 (page_address i4 i3 i2 i1) (page_address i4 i3 j2 j1)"
  and same_slot_3: "pt.same_slot 3 3 (page_address i4 i3 i2 i1) (page_address i4 j3 j2 j1)"
  if "i4 < 512" "i3 < 512" "i2 < 512" "i1 < 512" "j3 < 512" "j2 < 512" "j1 < 512"
  using page_address_agree [OF that] that
  by (auto simp: pt.same_slot_def page_address_index page_address_index [unfolded One_nat_def] intro: agree_up)

lemma any_level_2_outcome:
  assumes ok: "mm_ok root mm" and f: "frame_ok frame" and i: "i4 < 512" "i3 < 512" and free: "1 \<le> length (free_frames mm)"
    and t: "pt.table_at (ram mm) 3 root (page_address i4 i3 0 0) 2 = Some s2" "pt.table_at (ram mm) 3 root (page_address i4 i3 0 0) 1 = Some s1"
  shows "outcome root frame mm (\<Union>i2 \<in> {..<512}. page_address i4 i3 i2 ` {..<512})
    (any_level_2 frame flags (i4, i3) (slot root (of_nat i4), slot s2 (of_nat i3)) s1 mm)"
proof -
  let ?q = "\<lambda>i. page_address i4 i3 i 0"
  have tq: "pt.table_at (ram mm) 3 root (?q i2) 2 = Some s2" "pt.table_at (ram mm) 3 root (?q i2) 1 = Some s1" if "i2 < 512" for i2
  proof -
    have "pt.agree 3 1 (?q i2) (page_address i4 i3 0 0)"
      by (rule page_address_agree) (use i that in auto)
    then show "pt.table_at (ram mm) 3 root (?q i2) 2 = Some s2" "pt.table_at (ram mm) 3 root (?q i2) 1 = Some s1"
      using t pt.table_at_agree [OF agree_up] by simp_all
  qed
  have "outcome root frame mm (\<Union>i2 \<in> set [0..<512]. page_address i4 i3 i2 ` {..<512})
    (any_level True (\<lambda>i2 a2 mm. any_level_1 frame flags (i4, i3, i2) (slot root (of_nat i4), slot s2 (of_nat i3), a2)
       (pte_address (ram mm a2)) [0..<512] mm) s1 [0..<512] mm)"
  proof (rule any_level_outcome [OF ok numeral_levels(3), where q = ?q])
    fix i2 mm1
    assume i2: "i2 \<in> set [0..<512]" and m: "mm_ok root mm1"
      "pt.table_at (ram mm1) 3 root (?q i2) 0 = Some (pte_address (ram mm1 (slot s1 (of_nat i2))))"
      "\<And>l. 1 \<le> l \<Longrightarrow> pt.table_at (ram mm1) 3 root (?q i2) l = pt.table_at (ram mm) 3 root (?q i2) l"
    have "outcome root frame mm1 (page_address i4 i3 i2 ` set [0..<512])
        (any_level_1 frame flags (i4, i3, i2) (slot root (of_nat i4), slot s2 (of_nat i3), slot s1 (of_nat i2))
          (pte_address (ram mm1 (slot s1 (of_nat i2)))) [0..<512] mm1)"
      by (rule any_level_1_outcome [OF m(1) f i]) (use i2 m tq [of i2] in auto)
    then show "outcome root frame mm1 (page_address i4 i3 i2 ` {..<512})
        (any_level_1 frame flags (i4, i3, i2) (slot root (of_nat i4), slot s2 (of_nat i3), slot s1 (of_nat i2))
          (pte_address (ram mm1 (slot s1 (of_nat i2)))) [0..<512] mm1)"
      by (simp add: atLeast0LessThan)
  next
    fix i2 :: nat
    assume "i2 \<in> set [0..<512]"
    then have "page_address i4 i3 i2 1 \<noteq> 0"
      using i by (simp add: page_address_zero)
    then show "\<exists>p \<in> page_address i4 i3 i2 ` {..<512}. p \<noteq> 0"
      by (auto intro!: bexI [of _ 1])
  qed (use i free tq in \<open>auto simp: page_address_index page_address_index [unfolded One_nat_def] same_slot_1 same_slot_1 [unfolded One_nat_def]\<close>)
  then show ?thesis
    by (simp add: any_level_2_def atLeast0LessThan)
qed

lemma any_level_3_outcome:
  assumes ok: "mm_ok root mm" and f: "frame_ok frame" and i: "i4 < 512" and free: "2 \<le> length (free_frames mm)"
    and t: "pt.table_at (ram mm) 3 root (page_address i4 0 0 0) 2 = Some s2"
  shows "outcome root frame mm (\<Union>i3 \<in> {..<512}. \<Union>i2 \<in> {..<512}. page_address i4 i3 i2 ` {..<512})
    (any_level_3 frame flags i4 (slot root (of_nat i4)) s2 mm)"
proof -
  let ?q = "\<lambda>i. page_address i4 i 0 0" and ?pages = "\<lambda>i3. \<Union>i2 \<in> {..<512}. page_address i4 i3 i2 ` {..<512}"
  have tq: "pt.table_at (ram mm) 3 root (?q i3) 2 = Some s2" if "i3 < 512" for i3
  proof -
    have "pt.agree 3 2 (?q i3) (page_address i4 0 0 0)"
      by (rule page_address_agree) (use i that in auto)
    then show ?thesis
      using t pt.table_at_agree by simp
  qed
  have "outcome root frame mm (\<Union>i3 \<in> set [0..<512]. ?pages i3)
    (any_level True (\<lambda>i3 a3 mm. any_level_2 frame flags (i4, i3) (slot root (of_nat i4), a3) (pte_address (ram mm a3)) mm) s2 [0..<512] mm)"
  proof (rule any_level_outcome [OF ok numeral_levels(2), where q = ?q])
    fix i3 mm1
    assume i3: "i3 \<in> set [0..<512]" and m: "mm_ok root mm1" "1 \<le> length (free_frames mm1)"
      "pt.table_at (ram mm1) 3 root (?q i3) 1 = Some (pte_address (ram mm1 (slot s2 (of_nat i3))))"
      "\<And>l. 2 \<le> l \<Longrightarrow> pt.table_at (ram mm1) 3 root (?q i3) l = pt.table_at (ram mm) 3 root (?q i3) l"
    show "outcome root frame mm1 (?pages i3)
        (any_level_2 frame flags (i4, i3) (slot root (of_nat i4), slot s2 (of_nat i3)) (pte_address (ram mm1 (slot s2 (of_nat i3)))) mm1)"
      by (rule any_level_2_outcome [OF m(1) f i _ m(2) _ m(3)]) (use i3 m(4) tq [of i3] in auto)
  next
    fix i3 :: nat
    assume "i3 \<in> set [0..<512]"
    then have "page_address i4 i3 0 1 \<noteq> 0"
      using i by (simp add: page_address_zero)
    then show "\<exists>p \<in> ?pages i3. p \<noteq> 0"
      by (intro bexI [of _ "page_address i4 i3 0 1"] UN_I [of 0] imageI) auto
  qed (use i free tq in \<open>auto simp: page_address_index same_slot_2\<close>)
  then show ?thesis
    by (simp add: any_level_3_def atLeast0LessThan)
qed

lemma map_any_outcome:
  assumes ok: "mm_ok root mm" and f: "frame_ok frame" and range: "end_index \<le> 512" and free: "3 \<le> length (free_frames mm)"
  shows "outcome root frame mm (\<Union>i4 \<in> {first_index..<end_index}. \<Union>i3 \<in> {..<512}. \<Union>i2 \<in> {..<512}. page_address i4 i3 i2 ` {..<512})
    (any_level False (\<lambda>i4 a4 mm. if 512 \<le> i4 then None else any_level_3 frame flags i4 a4 (pte_address (ram mm a4)) mm)
       root [first_index..<end_index] mm)"
proof -
  let ?q = "\<lambda>i. page_address i 0 0 0" and ?pages = "\<lambda>i4. \<Union>i3 \<in> {..<512}. \<Union>i2 \<in> {..<512}. page_address i4 i3 i2 ` {..<512}"
  have "outcome root frame mm (\<Union>i4 \<in> set [first_index..<end_index]. ?pages i4)
    (any_level False (\<lambda>i4 a4 mm. if 512 \<le> i4 then None else any_level_3 frame flags i4 a4 (pte_address (ram mm a4)) mm)
       root [first_index..<end_index] mm)"
  proof (rule any_level_outcome [OF ok numeral_levels(1), where q = ?q])
    fix i4 mm1
    assume i4: "i4 \<in> set [first_index..<end_index]" and m: "mm_ok root mm1" "2 \<le> length (free_frames mm1)"
      "pt.table_at (ram mm1) 3 root (?q i4) 2 = Some (pte_address (ram mm1 (slot root (of_nat i4))))"
    then have "i4 < 512"
      using range by simp
    then show "outcome root frame mm1 (?pages i4) (if 512 \<le> i4 then None
        else any_level_3 frame flags i4 (slot root (of_nat i4)) (pte_address (ram mm1 (slot root (of_nat i4)))) mm1)"
      using any_level_3_outcome [OF m(1) f _ m(2,3), of flags] by simp
  next
    fix i4 :: nat
    assume "i4 \<in> set [first_index..<end_index]"
    then have "page_address i4 0 0 1 \<noteq> 0"
      using range by (simp add: page_address_zero)
    then show "\<exists>p \<in> ?pages i4. p \<noteq> 0"
      by (intro bexI [of _ "page_address i4 0 0 1"] UN_I [of 0] imageI) auto
  qed (use range free in \<open>auto simp: page_address_index same_slot_3\<close>)
  then show ?thesis
    by simp
qed

text \<open>C8: The search for a free page. With three frames left for tables and at least one unused page other than the first in the
  given part of the address space, \<open>map_any_inner\<close> returns: it gives the address of a page of that part which had no
  translation, is not page 0, and now translates to the frame; every other address translates as before, and the tables stay a
  tree that shares no frame with the allocator.\<close>

theorem free_page_found:
  assumes "mm_ok root mm" "frame_ok frame" "end_index \<le> 512" "3 \<le> length (free_frames mm)"
    and "canonical unused" "aligned unused" "unused \<noteq> 0" "translate_virtual_address root mm unused = None"
    and "first_index \<le> unat (table_index 3 unused)" "unat (table_index 3 unused) < end_index"
  shows "\<exists>page mm'. map_any_inner root first_index end_index frame flags mm = Some (page, mm') \<and> mm_ok root mm' \<and> page \<noteq> 0
    \<and> aligned page \<and> first_index \<le> unat (table_index 3 page) \<and> unat (table_index 3 page) < end_index
    \<and> translate_virtual_address root mm page = None
    \<and> (\<forall>va. translate_virtual_address root mm' va =
         (if frame_of va = page then Some (frame + take_bit 12 va) else translate_virtual_address root mm va))"
proof -
  let ?r = "any_level False (\<lambda>i4 a4 mm. if 512 \<le> i4 then None else any_level_3 frame flags i4 a4 (pte_address (ram mm a4)) mm)
       root [first_index..<end_index] mm"
  let ?pages = "\<Union>i4 \<in> {first_index..<end_index}. \<Union>i3 \<in> {..<512}. \<Union>i2 \<in> {..<512}. page_address i4 i3 i2 ` {..<512}"
  have lt: "unat (table_index l a) < 512" for l a
    using table_index_less [of l a] by (simp add: word_less_nat_alt)
  have "unused \<in> ?pages"
    using page_address_of [OF assms(5,6)] assms(9,10) lt by (auto intro!: bexI)
  moreover have "translation root mm unused = None"
    using assms(5,8) by (simp add: translate_is_walk)
  ultimately obtain p mm' where p: "p \<in> ?pages" "?r = Some (Some p, mm')" "placed root frame mm mm' p"
    using map_any_outcome [OF assms(1-4), of first_index flags] assms(7) unfolding outcome_def by blast
  then obtain i4 i3 i2 i1 where ix: "p = page_address i4 i3 i2 i1" "first_index \<le> i4" "i4 < end_index" "i3 < 512" "i2 < 512" "i1 < 512"
    by auto
  have i4: "i4 < 512"
    using ix(3) assms(3) by simp
  have c: "canonical p" "aligned p" "unat (table_index 3 p) = i4"
    using page_address_canonical page_address_aligned [OF i4 ix(4-6)] page_address_index(1) [OF i4 ix(4-6)] i4
    by (simp_all add: ix(1) unat_of_nat_len)
  have "translate_virtual_address root mm' va =
      (if frame_of va = p then Some (frame + take_bit 12 va) else translate_virtual_address root mm va)" for va
    using p(3) page_of_canonical [OF c(1,2), of va] by (auto simp: placed_def translate_is_walk)
  then show ?thesis
    using p c ix(2,3) by (intro exI [of _ p] exI [of _ mm']) (auto simp: map_any_inner_def placed_def translate_is_walk)
qed

definition example_flags :: page_flags where
  "example_flags = \<lparr>writable = True, executable = False, user_mode_accessible = False, write_through = False,
     disable_caching = False, global_page = False\<rparr>"

theorem free_page_found_witness:
  "\<exists>page mm'. map_any_inner 0x1000 0 512 0x9000 example_flags example_mm = Some (page, mm') \<and> page \<noteq> 0
     \<and> translate_virtual_address 0x1000 mm' page = Some 0x9000"
proof -
  have u: "frame_ok 0x9000" "canonical 0x7000" "aligned 0x7000" "table_index 3 0x7000 = 0"
    by (simp_all add: is_canonical_iff [symmetric] is_canonical_def aligned_def frame_of_def frame_ok_def table_index_def)
  have n: "translate_virtual_address 0x1000 example_mm 0x7000 = None"
    by (simp add: translate_virtual_address_def is_canonical_def example_mm_def contains_def pte_flags_def PRESENT_def)
  have "\<exists>page mm'. map_any_inner 0x1000 0 512 0x9000 example_flags example_mm = Some (page, mm') \<and> mm_ok 0x1000 mm' \<and> page \<noteq> 0
    \<and> aligned page \<and> 0 \<le> unat (table_index 3 page) \<and> unat (table_index 3 page) < 512
    \<and> translate_virtual_address 0x1000 example_mm page = None
    \<and> (\<forall>va. translate_virtual_address 0x1000 mm' va =
         (if frame_of va = page then Some (0x9000 + take_bit 12 va) else translate_virtual_address 0x1000 example_mm va))"
    by (rule free_page_found [OF example_mm_ok u(1) _ _ u(2,3) _ n]) (simp_all add: example_mm_free u(4))
  then obtain page mm' where p: "map_any_inner 0x1000 0 512 0x9000 example_flags example_mm = Some (page, mm')" "page \<noteq> 0" "aligned page"
    "translate_virtual_address 0x1000 mm' page = (if frame_of page = page then Some (0x9000 + take_bit 12 page)
       else translate_virtual_address 0x1000 example_mm page)"
    by blast
  moreover have "take_bit 12 page = 0"
    using \<open>aligned page\<close> by (auto simp: aligned_bits bit_take_bit_iff intro!: bit_word_eqI)
  ultimately show ?thesis
    by (simp add: aligned_def)
qed

section \<open>Runs of pages and frames\<close>

text \<open>C33: Mapping a run that consists of a single frame always panics: the end of the returned range is the address of the last
  page and not the one after it, so the range of one page is empty and fails the assertion of \<open>PageRange::new\<close>.\<close>

theorem single_frame_run_panics:
  assumes "frame_range_n r = 1"
  shows "map_any_contiguous root first_index end_index r flags mm = None"
proof -
  have frames: "range_frames r = [range_start r]"
    using assms by (simp add: range_frames_def)
  show ?thesis
    unfolding map_any_contiguous_def by (auto simp: frames page_range_new_def Let_def split: option.splits prod.splits)
qed

theorem single_frame_run_panics_witness: "map_any_contiguous 0x1000 0 512 \<lparr>range_start = 0x9000, range_end = 0xA000\<rparr> example_flags example_mm = None"
  by (rule single_frame_run_panics) (simp add: frame_range_n_def FRAME_SIZE_def)

lemma allocate_two:
  assumes "list_all frame_ok (usable_frames (regions mm))" "free_frames mm = f # g # fs"
  obtains mm' where "allocate_frames_contiguous 2 mm = Some (Some f, mm')" "free_frames mm' = fs"
proof -
  obtain mm1 where m1: "allocate_frame mm = Some (Some f, mm1)" "free_frames mm1 = g # fs" "regions mm1 = regions mm"
    using take_frame [OF assms] by metis
  obtain mm2 where m2: "allocate_frame mm1 = Some (Some g, mm2)" "free_frames mm2 = fs"
    using take_frame [of mm1 g fs] m1(2,3) assms(1) by metis
  show ?thesis
    by (rule that [of mm2]) (simp_all add: allocate_frames_contiguous_def m1 m2)
qed

text \<open>C34: The frames \<open>allocate_frames_contiguous\<close> hands out are contiguous only within one region of the memory map. When the
  first free frame is the last of its region, two contiguous frames are reported at its address, although the frame after it
  belongs to no usable region and the second frame taken lies in another one.\<close>

theorem contiguous_frames_cross_regions:
  assumes "list_all frame_ok (usable_frames (regions mm))" "free_frames mm = f # g # fs" "f + FRAME_SIZE \<notin> set (usable_frames (regions mm))"
  shows "\<exists>mm'. allocate_frames_contiguous 2 mm = Some (Some f, mm') \<and> free_frames mm' = fs \<and> g \<noteq> f + FRAME_SIZE"
proof -
  have "g \<in> set (usable_frames (regions mm))"
    using assms(2) unfolding free_frames_def by (metis in_set_dropD list.set_intros(1) list.set_intros(2))
  then show ?thesis
    using allocate_two [OF assms(1,2)] assms(3) by metis
qed

definition example_gap :: memory_manager where
  "example_gap = \<lparr>frame_allocator = frame_allocator_new [\<lparr>base = 0x2000, entry_length = 0x1000, usable = True\<rparr>,
     \<lparr>base = 0x8000, entry_length = 0x1000, usable = True\<rparr>], ram = (\<lambda>_. 0)\<rparr>"

theorem contiguous_frames_cross_regions_witness:
  "\<exists>mm'. allocate_frames_contiguous 2 example_gap = Some (Some 0x2000, mm') \<and> free_frames mm' = [] \<and> (0x8000 :: u64) \<noteq> 0x2000 + FRAME_SIZE"
  by (rule contiguous_frames_cross_regions)
    (simp_all add: example_gap_def frame_allocator_new_def free_frames_def usable_frames_def region_frames_def FRAME_SIZE_def
      frame_ok_def aligned_def frame_of_def)

end
