(* ===== verification/Spec2Isabelle.thy ===== *)
theory Spec2Isabelle
  imports Tcp_Receive_Buffer Tcp_Checksum Tcp_Reassembly Tcp_Congestion Tcp_Recovery Net_Packet_Buffer
    Tcp_Output Tcp_Close Tcp_Input Tcp_Timer Tcp_Delivery Tcp_Socket Tcp_Wire Tcp_Connections Fat_Path Dev_Pit Dev_Hpet Dev_Legacy Dev_Bus Mem_Search
begin

text \<open>
  A verification library for Moose, an x86-64 kernel in Rust. It covers five parts of the sources: the TCP stack
  (\<^verbatim>\<open>kernel/src/driver/net/proto\<close>), the FAT32 file system (\<^verbatim>\<open>fs/src\<close>), the emulated devices and the guest page walks of the
  Reindeer hypervisor (\<^verbatim>\<open>kernel/src/driver/hv/reindeer\<close>), and the kernel's memory manager
  (\<^verbatim>\<open>kernel/src/subsystem/memory.rs\<close>). Paths below are relative to \<^verbatim>\<open>src/\<close>, or to the directory a paragraph names.

  How the parts interact: the network card's thread hands frames to \<open>process_data\<close>, which finds the control block of the
  connection and runs the receive path; that path fills the ring, updates congestion control and recovery, and ends with
  the send loop. The timer thread walks the same control blocks. Sockets are handles to control blocks. The file system
  stands on a sector device and on nothing else of the kernel. In the hypervisor a guest's port or memory access is
  routed by the bus to one device; devices raise pins of the I/O APIC or lines of the 8259 pair, which hand vectors to the
  local APICs. The memory manager serves all of them.

  Conventions. An integer of fixed width is a word and wraps; \<open>usize\<close> is a natural number where it counts elements. A panic
  (a failed assertion, an index out of range, \<open>unwrap\<close> of nothing) is the value \<open>None\<close>, or \<open>Panic\<close> in the file system, which
  has four outcomes (\<open>Fs_Result\<close>). Code outside the repository and hardware are arguments: clock samples, random
  numbers, floating-point rounding and \<open>cbrt\<close>, the calendar and UCS-2 crates, the sector device, host counters, the host's CMOS and
  PCI registers. A lock is the sequence of the operations it protects; an \<open>Arc\<close> is an index into a store. A \<open>HashMap\<close> that is
  iterated is an association list whose order is arbitrary. A loop is a recursion over what is left to visit, with its
  mutable locals as arguments. No fuel is used: every loop is structural or has a termination proof, except
  \<open>follow_clusters\<close>, the walk along a cluster chain, which can run forever and is a \<open>partial_function\<close> whose \<open>None\<close> means so.

  \<open>Rust_Prelude\<close> has the integer types and methods, slices and the shared lemmas, \<open>Clock_Time\<close> the instants and durations of
  \<^verbatim>\<open>kernel/src/subsystem/clock/time.rs\<close>.

  \<^bold>\<open>TCP\<close> (directory \<^verbatim>\<open>kernel/src/driver/net/proto/tcp\<close>).
\<^item> \<open>Tcp_Types\<close>, \<open>Tcp_Control_Block\<close>: the types and methods of \<^verbatim>\<open>types.rs\<close>. The wrap-around tests on sequence numbers are
    distances modulo two to the 32.
\<^item> \<open>Tcp_Receive_Buffer\<close>: the ring of \<^verbatim>\<open>receive_buffer.rs\<close>. The locale \<open>byte_queue\<close> is the contract of an in-order byte queue,
    interpreted on \<open>rb_write\<close> and \<open>rb_read\<close>: what is read is what was written. Out-of-order writes are read back in place as well.
\<^item> \<open>Tcp_Options\<close>, \<open>Tcp_Checksum\<close>, \<open>Tcp_Wire\<close>: \<^verbatim>\<open>options.rs\<close>, \<^verbatim>\<open>checksum.rs\<close> and both ends of the wire: the parser reads what
    the writer wrote, the checksum is the one's complement sum, and a segment that was sent is parsed as the same segment.
\<^item> \<open>Tcp_Sack\<close>, \<open>Tcp_Reassembly\<close>: \<^verbatim>\<open>sack.rs\<close>; the scoreboard and the ring together hold the peer's stream.
\<^item> \<open>Tcp_Congestion\<close>, \<open>Tcp_Recovery\<close>: \<^verbatim>\<open>cc/\<close>, \<^verbatim>\<open>abc.rs\<close>, \<^verbatim>\<open>cwv.rs\<close>, \<^verbatim>\<open>pacing.rs\<close>, \<^verbatim>\<open>timestamp.rs\<close>, \<^verbatim>\<open>eifel.rs\<close> and \<^verbatim>\<open>frto.rs\<close>,
    with bounds of the window and the monotonicity of the remembered timestamp.
\<^item> \<open>Tcp_Send\<close>, \<open>Tcp_Output\<close>, \<open>Tcp_Close\<close>, \<open>Tcp_Retransmit\<close>: \<^verbatim>\<open>driver/send.rs\<close>, \<^verbatim>\<open>ecn.rs\<close>, \<^verbatim>\<open>driver/retransmit.rs\<close>. The send loop
    returns, sends the front of the buffer without a gap, and stays inside both windows.
\<^item> \<open>Tcp_Recv\<close>, \<open>Tcp_Views\<close>, \<open>Tcp_Input\<close>: \<^verbatim>\<open>driver/recv.rs\<close>. No segment makes the handlers of a well-formed connection panic, and
    the connection state moves only along the transitions the segment justifies.
\<^item> \<open>Tcp_Timer\<close>: \<^verbatim>\<open>driver/timer.rs\<close>; the number of retransmissions is bounded.
\<^item> \<open>Tcp_Driver\<close>, \<open>Tcp_Connections\<close>: \<^verbatim>\<open>driver/mod.rs\<close>, \<^verbatim>\<open>driver/connect.rs\<close> and the dispatch of \<^verbatim>\<open>driver/recv.rs\<close>; a
    segment touches the connection it is addressed to and no other.
\<^item> \<open>Tcp_Stream\<close>, \<open>Tcp_Delivery\<close>: every history of a connection delivers a prefix of the peer's stream to the application, and data that
    arrives in order can be read.
\<^item> \<open>Tcp_Socket_Table\<close>, \<open>Tcp_Socket\<close>: \<^verbatim>\<open>tcp_socket.rs\<close> one directory up; no two sockets own one port. \<open>Net_Packet_Buffer\<close>:
    packets and their slots, \<^verbatim>\<open>mod.rs\<close> one directory up.

  \<^bold>\<open>FAT32\<close> (directory \<^verbatim>\<open>fs/src/fat32\<close>).
\<^item> \<open>Fat_Table\<close>, \<open>Fat_Disk\<close>: \<^verbatim>\<open>fat.rs\<close> and the boot sector of \<^verbatim>\<open>mod.rs\<close>. The locale \<open>sector_store\<close> is what the code relies on in a
    \<open>FatDataSource\<close>, interpreted on the repository's own in-memory source. Allocation gives a chain, and the chain walk ends exactly on
    the chains without a cycle.
\<^item> \<open>Fat_Entry\<close>, \<open>Fat_Directory\<close>, \<open>Fat_Listing\<close>, \<open>Fat_Path\<close>: directory entries and names of \<^verbatim>\<open>mod.rs\<close> and \<^verbatim>\<open>lfn.rs\<close>, directories and
    paths of \<^verbatim>\<open>fat.rs\<close> and \<^verbatim>\<open>directory.rs\<close>. A file that was added is in the listing.
\<^item> \<open>Fat_File\<close>: \<^verbatim>\<open>file.rs\<close>. Reading is slicing the clusters of the chain, and what was written inside a file is read back.

  \<^bold>\<open>Reindeer\<close> (directory \<^verbatim>\<open>kernel/src/driver/hv/reindeer\<close>).
\<^item> \<open>Dev_Pic\<close>, \<open>Dev_Lapic\<close>, \<open>Dev_Io_Apic\<close>: \<^verbatim>\<open>device/interrupt\<close>. Interrupts nest: the one in service is the highest of those that
    have not ended, and the end of interrupt ends it. A pin that is programmed reaches the processor it names.
\<^item> \<open>Dev_Clock\<close>, \<open>Dev_Pit\<close>, \<open>Dev_Hpet\<close>, \<open>Dev_Legacy\<close>: \<^verbatim>\<open>guest/clock.rs\<close> and \<^verbatim>\<open>device/legacy\<close>. The periodic timer does not drift.
\<^item> \<open>Dev_Bus\<close>: \<^verbatim>\<open>device/mod.rs\<close>, \<^verbatim>\<open>guest_machine.rs\<close>, \<^verbatim>\<open>device/pci/mod.rs\<close>. Each port and address of the platform reaches the
    device that claims it.
\<^item> \<open>Guest_Paging\<close>: \<^verbatim>\<open>guest/paging.rs\<close>. The unrolled long-mode walk is the recursive walk of the architecture.

  \<^bold>\<open>Memory manager\<close> (\<^verbatim>\<open>kernel/src/subsystem/memory.rs\<close>).
\<^item> \<open>Page_Tree\<close>: trees of 512-entry tables in physical memory, for any format of entries. The locale \<open>table_format\<close> carries the separation
    argument: tables never share a frame, so a change confined to one subtree and to fresh frames changes no other walk.
\<^item> \<open>Mem_Paging\<close>: frames, entries, \<open>map\<close>, \<open>unmap\<close>, translation, the search for a free page and for a run of pages.
\<^item> \<open>Mem_Mapping\<close>: the locale is interpreted on the kernel's entries. Under the invariant \<open>mm_ok\<close> (the tables form a tree and the allocator
    owns none of their frames) mapping adds exactly one translation or reports why not, and unmapping removes exactly one.
\<^item> \<open>Mem_Search\<close>: the search places the frame at a page that was free, and at no other page; what goes wrong with runs of one frame and with
    frames from two regions.

  Some theorems show defects: they are the properties of kind \<^emph>\<open>error\<close>, and each states the input and the wrong outcome.

  Not modelled: the virtual CPU, its exits and the guest's boot (\<^verbatim>\<open>intel/vcpu.rs\<close>, \<^verbatim>\<open>intel/vm.rs\<close>, \<^verbatim>\<open>run_loop.rs\<close>, \<^verbatim>\<open>guest/initial_state.rs\<close>, \<^verbatim>\<open>acpi\<close>),
  whose steps are the effects of VMX instructions; the other network protocols and the network card; the Hyper-V drivers;
  scheduler, processes and kernel heap; boot, interrupt tables and hardware drivers, which are port and memory-mapped I/O; font and
  terminal; the containers of \<^verbatim>\<open>common\<close>. In the modelled parts the locks themselves, log output, sleeping and the contributions
  of devices to the guest's firmware tables are left out. Concurrent access to one control block is excluded by its lock in the code and by
  the sequence of operations here.
\<close>

end
